(* ===== verification/Muplar_Base.thy ===== *)
theory Muplar_Base
  imports Main "HOL-Library.Word"
begin

text \<open>
  Prelude of the development: machine integer types, the result type of fallible C code,
  the sequencing combinators over it, little-endian byte codecs and the generic list and
  word lemmas the component theories share.

  C code that can stop (a memory fault, a call to the linker's \<^verbatim>\<open>FATAL\<close>, a
  buffer overrun, undefined arithmetic) returns a value of type \<open>fault + 'a\<close>, with
  \<open>Inl\<close> for the way it stops.
\<close>

unbundle bit_operations_syntax

type_synonym u8 = "8 word"
type_synonym u16 = "16 word"
type_synonym u32 = "32 word"
type_synonym u64 = "64 word"

text \<open>A NUL-terminated C string, without its terminator.\<close>
type_synonym cstring = "8 word list"

named_theorems res_simps \<open>rewriting of sequenced fallible computations\<close>
named_theorems mem_simps \<open>reads and writes of guest memory\<close>

section \<open>Fallible computations\<close>

datatype fault =
    Segv u64            \<comment> \<open>access to an address without the permission it needs\<close>
  | Bus u64             \<comment> \<open>access to a file mapping beyond the end of the file\<close>
  | Fatal string        \<comment> \<open>\<^verbatim>\<open>FATAL(msg)\<close>: the message, then exit status 127\<close>
  | Overrun             \<comment> \<open>a write past the end of a fixed-size array\<close>
  | Undefined           \<comment> \<open>arithmetic that C leaves undefined\<close>
  | Fuel                \<comment> \<open>a bounded recursion of the model was cut off\<close>

definition rbind :: "'e + 'a \<Rightarrow> ('a \<Rightarrow> 'e + 'b) \<Rightarrow> 'e + 'b" where
  "rbind r f = (case r of Inl e \<Rightarrow> Inl e | Inr x \<Rightarrow> f x)"

lemma rbind_Inl [simp, res_simps]: "rbind (Inl e) f = Inl e"
  by (simp add: rbind_def)

lemma rbind_Inr [simp, res_simps]: "rbind (Inr x) f = f x"
  by (simp add: rbind_def)

lemma rbind_eq_Inr_iff [res_simps]: "rbind r f = Inr y \<longleftrightarrow> (\<exists>x. r = Inr x \<and> f x = Inr y)"
  by (cases r) simp_all

lemma rbind_assoc: "rbind (rbind r f) g = rbind r (\<lambda>x. rbind (f x) g)"
  by (cases r) simp_all

lemma rbind_Inr_right [simp]: "rbind r Inr = r"
  by (cases r) simp_all

lemma rbind_cong [fundef_cong]:
  "r = r' \<Longrightarrow> (\<And>x. r' = Inr x \<Longrightarrow> f x = f' x) \<Longrightarrow> rbind r f = rbind r' f'"
  by (cases r') simp_all

text \<open>A C loop over the elements of an array that updates a state and may stop.\<close>

fun foldM :: "('a \<Rightarrow> 's \<Rightarrow> 'e + 's) \<Rightarrow> 'a list \<Rightarrow> 's \<Rightarrow> 'e + 's" where
  "foldM f [] s = Inr s"
| "foldM f (x # xs) s = rbind (f x s) (foldM f xs)"

lemma foldM_append: "foldM f (xs @ ys) s = rbind (foldM f xs s) (foldM f ys)"
proof (induction xs arbitrary: s)
  case (Cons a xs)
  then show ?case by (cases "f a s") simp_all
qed simp

lemma foldM_cong [fundef_cong]:
  "xs = ys \<Longrightarrow> s = t \<Longrightarrow> (\<And>x s. x \<in> set ys \<Longrightarrow> f x s = g x s) \<Longrightarrow> foldM f xs s = foldM g ys t"
proof (induction xs arbitrary: ys s t)
  case Nil
  then show ?case by simp
next
  case (Cons a xs)
  then have "f a t = g a t" and ys: "ys = a # xs" "s = t" by auto
  moreover have "\<And>u. foldM f xs u = foldM g xs u"
    using Cons by (intro Cons.IH) auto
  ultimately show ?case by (cases "g a t") auto
qed

lemma foldM_cong_inv:
  assumes "I s" and "\<And>x s. x \<in> set xs \<Longrightarrow> I s \<Longrightarrow> f x s = g x s"
    and "\<And>x s s'. x \<in> set xs \<Longrightarrow> I s \<Longrightarrow> f x s = Inr s' \<Longrightarrow> I s'"
  shows "foldM f xs s = foldM g xs s"
  using assms
proof (induction xs arbitrary: s)
  case (Cons a xs)
  show ?case
  proof (cases "f a s")
    case (Inr s')
    have "I s'" using Cons.prems(3) [OF _ Cons.prems(1) Inr] by simp
    have "g a s = Inr s'" using Cons.prems(2) [OF _ Cons.prems(1), of a] Inr by simp
    moreover have "foldM f xs s' = foldM g xs s'"
      by (rule Cons.IH [OF \<open>I s'\<close>]) (meson Cons.prems(2) list.set_intros(2), meson Cons.prems(3) list.set_intros(2))
    ultimately show ?thesis using Inr by simp
  next
    case (Inl e)
    moreover have "f a s = g a s" using Cons.prems(1,2) by simp
    ultimately show ?thesis by (metis foldM.simps(2) rbind_Inl)
  qed
qed simp

text \<open>Invariant rule: what one iteration keeps, the loop keeps.\<close>

lemma foldM_inv:
  assumes "foldM f xs s = Inr t" and "I s"
    and "\<And>x s s'. x \<in> set xs \<Longrightarrow> I s \<Longrightarrow> f x s = Inr s' \<Longrightarrow> I s'"
  shows "I t"
  using assms
proof (induction xs arbitrary: s)
  case Nil
  then show ?case by simp
next
  case (Cons a xs)
  from Cons.prems(1) obtain u where u: "f a s = Inr u" "foldM f xs u = Inr t"
    by (auto simp: rbind_eq_Inr_iff)
  have "I u" using Cons.prems(2,3) u(1) by auto
  then show ?case using Cons.IH [OF u(2)] Cons.prems(3) by auto
qed

text \<open>A loop whose body never stops is an ordinary fold.\<close>

lemma foldM_total:
  assumes "\<And>x s. x \<in> set xs \<Longrightarrow> f x s = Inr (g x s)"
  shows "foldM f xs s = Inr (fold g xs s)"
  using assms by (induction xs arbitrary: s) auto

text \<open>A loop all of whose iterations succeed under an invariant succeeds.\<close>

lemma foldM_succeeds:
  assumes "I s" and "\<And>x s. x \<in> set xs \<Longrightarrow> I s \<Longrightarrow> \<exists>s'. f x s = Inr s' \<and> I s'"
  shows "\<exists>t. foldM f xs s = Inr t \<and> I t"
  using assms
proof (induction xs arbitrary: s)
  case Nil
  then show ?case by simp
next
  case (Cons a xs)
  then obtain u where u: "f a s = Inr u" "I u" by force
  obtain t where "foldM f xs u = Inr t" "I t"
    using Cons.IH [OF u(2)] Cons.prems(2) by auto
  then show ?case using u(1) by simp
qed

section \<open>Searching an array\<close>

text \<open>The index of the first entry with a property: a C loop over an array that returns at the
  first hit.\<close>

fun first_index :: "('a \<Rightarrow> bool) \<Rightarrow> 'a list \<Rightarrow> nat option" where
  "first_index P [] = None"
| "first_index P (x # xs) = (if P x then Some 0 else map_option Suc (first_index P xs))"

lemma first_index_None: "first_index P xs = None \<longleftrightarrow> (\<forall>x \<in> set xs. \<not> P x)"
  by (induction xs) auto

lemma first_index_append:
  "first_index P (xs @ ys) =
     (case first_index P xs of Some i \<Rightarrow> Some i | None \<Rightarrow> map_option (\<lambda>i. i + length xs) (first_index P ys))"
  by (induction xs) (auto simp: option.map_comp comp_def option.map_ident split: option.splits)

lemma first_index_Some:
  "first_index P xs = Some i \<longleftrightarrow> i < length xs \<and> P (xs ! i) \<and> (\<forall>j < i. \<not> P (xs ! j))"
proof (induction xs arbitrary: i)
  case (Cons x xs)
  show ?case
  proof (cases i)
    case (Suc k)
    then show ?thesis using Cons.IH by (auto simp: less_Suc_eq_0_disj split: if_splits)
  qed (auto split: if_splits)
qed simp

section \<open>Words and pages\<close>

lemma unat64_less: "unat (x :: u64) < 2 ^ 64"
  by (rule order_less_le_trans [OF unsigned_less]) simp

lemma unat32_less: "unat (x :: u32) < 2 ^ 32"
  by (rule order_less_le_trans [OF unsigned_less]) simp

lemma unat64_of_nat: "n < 2 ^ 64 \<Longrightarrow> unat (of_nat n :: u64) = n"
  by (simp add: unat_of_nat)

lemma of_nat64_eq_iff: "i < 2 ^ 64 \<Longrightarrow> j < 2 ^ 64 \<Longrightarrow> (of_nat i :: u64) = of_nat j \<longleftrightarrow> i = j"
  by (metis unat64_of_nat)

lemma round_up_ge: "n \<le> (n + 4095) div 4096 * (4096 :: nat)"
  using div_mult_mod_eq [of "n + 4095" 4096] mod_less_divisor [of 4096 "n + 4095"] by linarith

lemma round_up_less: "(n + 4095) div 4096 * 4096 < n + (4096 :: nat)"
  using div_mult_mod_eq [of "n + 4095" 4096] by linarith

lemma round_up_multiple: "(4096 :: nat) dvd n \<Longrightarrow> (n + 4095) div 4096 * 4096 = n"
  by (auto elim!: dvdE)

lemma round_down_multiple: "(4096 :: nat) dvd n - n mod 4096"
  by (simp add: minus_mod_eq_mult_div)

lemma multiple_below: "4096 dvd n \<Longrightarrow> n < 2 ^ 64 \<Longrightarrow> n + 4095 < (2 :: nat) ^ 64"
  by (elim dvdE) simp

section \<open>Byte strings\<close>

definition lit :: "string \<Rightarrow> cstring" where
  "lit s = map of_char s"

lemma length_lit [simp]: "length (lit s) = length s"
  by (simp add: lit_def)

lemma lit_Nil [simp]: "lit [] = []"
  by (simp add: lit_def)

section \<open>Little-endian codecs\<close>

fun le_decode :: "u8 list \<Rightarrow> 'a::len word" where
  "le_decode [] = 0"
| "le_decode (b # bs) = ucast b OR push_bit 8 (le_decode bs)"

fun le_encode :: "nat \<Rightarrow> 'a::len word \<Rightarrow> u8 list" where
  "le_encode 0 w = []"
| "le_encode (Suc n) w = ucast w # le_encode n (drop_bit 8 w)"

lemma length_le_encode [simp]: "length (le_encode n w) = n"
  by (induction n arbitrary: w) auto

lemma le_encode_numeral:
  "le_encode (numeral k) w = ucast w # le_encode (pred_numeral k) (drop_bit 8 w)"
  by (simp add: numeral_eq_Suc)

lemma le_decode_zeros [simp]: "le_decode (replicate n 0) = 0"
  by (induction n) auto

lemma le_decode_encode: "le_decode (le_encode n w) = take_bit (8 * n) (w :: 'a::len word)"
proof (induction n arbitrary: w)
  case 0
  then show ?case by simp
next
  case (Suc n)
  show ?case
  proof (rule bit_word_eqI)
    fix i
    assume "i < LENGTH('a)"
    then show "bit (le_decode (le_encode (Suc n) w) :: 'a word) i = bit (take_bit (8 * Suc n) w) i"
      by (auto simp: Suc.IH bit_or_iff bit_push_bit_iff bit_take_bit_iff bit_drop_bit_eq
          bit_unsigned_iff not_less)
  qed
qed

lemma le_decode_encode_id [simp]: "LENGTH('a) \<le> 8 * n \<Longrightarrow> le_decode (le_encode n w) = (w :: 'a::len word)"
  by (simp add: le_decode_encode take_bit_word_eq_self)

lemma le_decode_bit:
  "bit (le_decode bs :: 'a::len word) i \<longleftrightarrow>
     i < LENGTH('a) \<and> i div 8 < length bs \<and> bit (bs ! (i div 8)) (i mod 8)"
proof (induction bs arbitrary: i)
  case Nil
  then show ?case by simp
next
  case (Cons b bs)
  show ?case
  proof (cases "i < 8")
    case True
    then show ?thesis
      by (auto simp: bit_or_iff bit_push_bit_iff bit_unsigned_iff div_less)
  next
    case False
    then obtain j where j: "i = 8 + j" using le_Suc_ex by (metis not_less)
    have "\<not> bit b (8 + j)" by (simp add: bit_word_def)
    moreover have "(8 + j) div 8 = Suc (j div 8)" by simp
    ultimately show ?thesis using j
      by (auto simp: bit_or_iff bit_push_bit_iff bit_unsigned_iff Cons.IH)
  qed
qed

lemma le_encode_decode: "8 * length bs \<le> LENGTH('a::len) \<Longrightarrow> le_encode (length bs) (le_decode bs :: 'a word) = bs"
proof (induction bs)
  case Nil
  then show ?case by simp
next
  case (Cons b bs)
  let ?v = "le_decode bs :: 'a word"
  have small: "take_bit (LENGTH('a) - 8) ?v = ?v"
  proof (rule bit_word_eqI)
    fix i
    assume "i < LENGTH('a)"
    have "bit ?v i \<Longrightarrow> i < LENGTH('a) - 8"
      using Cons.prems unfolding le_decode_bit by auto
    then show "bit (take_bit (LENGTH('a) - 8) ?v) i = bit ?v i"
      by (auto simp: bit_take_bit_iff)
  qed
  have hd: "(ucast (ucast b OR push_bit 8 ?v :: 'a word) :: u8) = b"
    using Cons.prems
    by (intro bit_word_eqI) (auto simp: bit_unsigned_iff bit_or_iff bit_push_bit_iff)
  have "drop_bit 8 (ucast b OR push_bit 8 ?v :: 'a word) = take_bit (LENGTH('a) - 8) ?v"
  proof (rule bit_word_eqI)
    fix i
    assume "i < LENGTH('a)"
    have "\<not> bit b (8 + i)" by (simp add: bit_word_def)
    then show "bit (drop_bit 8 (ucast b OR push_bit 8 ?v :: 'a word)) i = bit (take_bit (LENGTH('a) - 8) ?v) i"
      by (auto simp: bit_drop_bit_eq bit_or_iff bit_push_bit_iff bit_take_bit_iff bit_unsigned_iff
          dest: bit_imp_le_length)
  qed
  then show ?case using Cons hd small by simp
qed

end
