(* ===== verification/Lnk_Strings.thy ===== *)
theory Lnk_Strings
  imports Muplar_Base
begin

text \<open>
  The freestanding string utilities of \<^verbatim>\<open>linker64/src/linker.c\<close>.

  A C string passed by pointer is the list of its bytes up to the terminator; an array of
  characters (the \<open>soname\<close> and \<open>path\<close> members of an object, local buffers) is
  the list of all its bytes, and the functions that write one stop with \<open>Overrun\<close>
  where the C code would write past its end.
\<close>

definition nul_free :: "u8 list \<Rightarrow> bool" where
  "nul_free s \<longleftrightarrow> 0 \<notin> set s"

text \<open>The string an array of characters holds.\<close>

definition str_of :: "u8 list \<Rightarrow> cstring" where
  "str_of arr = takeWhile (\<lambda>c. c \<noteq> 0) arr"

section \<open>Operations\<close>

fun lnk_strlen :: "u8 list \<Rightarrow> fault + nat" where
  "lnk_strlen [] = Inl Overrun"
| "lnk_strlen (c # cs) = (if c = 0 then Inr 0 else rbind (lnk_strlen cs) (\<lambda>n. Inr (Suc n)))"

fun lnk_strcmp :: "cstring \<Rightarrow> cstring \<Rightarrow> int" where
  "lnk_strcmp [] [] = 0"
| "lnk_strcmp [] (b # bs) = - uint b"
| "lnk_strcmp (a # as) [] = uint a"
| "lnk_strcmp (a # as) (b # bs) = (if a = b then lnk_strcmp as bs else uint a - uint b)"

text \<open>\<open>lnk_strcpy d s\<close>: the array \<open>d\<close> after copying \<open>s\<close> and its terminator to its start.\<close>

fun lnk_strcpy :: "u8 list \<Rightarrow> cstring \<Rightarrow> fault + u8 list" where
  "lnk_strcpy [] s = Inl Overrun"
| "lnk_strcpy (x # d) [] = Inr (0 # d)"
| "lnk_strcpy (x # d) (c # cs) = rbind (lnk_strcpy d cs) (\<lambda>r. Inr (c # r))"

fun lnk_strcat :: "u8 list \<Rightarrow> cstring \<Rightarrow> fault + u8 list" where
  "lnk_strcat [] s = Inl Overrun"
| "lnk_strcat (x # d) s =
     (if x = 0 then lnk_strcpy (x # d) s else rbind (lnk_strcat d s) (\<lambda>r. Inr (x # r)))"

text \<open>\<open>lnk_print_hex\<close> fills a 19-byte buffer; the string it prints has 18 characters.\<close>

definition hex_digit :: "u64 \<Rightarrow> u8" where
  "hex_digit nibble = (if nibble < 10 then 48 + ucast nibble else 97 + (ucast nibble - 10))"

definition lnk_print_hex :: "u64 \<Rightarrow> u8 list" where
  "lnk_print_hex val =
     48 # 120 # map (\<lambda>i. hex_digit (drop_bit ((15 - i) * 4) val AND 15)) [0..<16] @ [0]"

text \<open>The pointer \<open>slash\<close> (or \<open>base\<close>) is moved behind every slash the scan meets.\<close>

fun lnk_basename_loop :: "cstring \<Rightarrow> cstring \<Rightarrow> cstring" where
  "lnk_basename_loop slash [] = slash"
| "lnk_basename_loop slash (c # p) =
     (if c = 47 then lnk_basename_loop p p else lnk_basename_loop slash p)"

definition lnk_basename :: "cstring \<Rightarrow> cstring" where
  "lnk_basename path = lnk_basename_loop path path"

fun get_basename_loop :: "cstring \<Rightarrow> cstring \<Rightarrow> cstring" where
  "get_basename_loop base [] = base"
| "get_basename_loop base (c # path) =
     get_basename_loop (if c = 47 then path else base) path"

definition get_basename :: "cstring \<Rightarrow> cstring" where
  "get_basename path = get_basename_loop path path"

section \<open>Comparison\<close>

lemma lnk_strcmp_eq_0_iff: "nul_free a \<Longrightarrow> nul_free b \<Longrightarrow> lnk_strcmp a b = 0 \<longleftrightarrow> a = b"
proof (induction a b rule: lnk_strcmp.induct)
  case (2 b bs)
  then show ?case by (auto simp: nul_free_def uint_0_iff)
next
  case (3 a as)
  then show ?case by (auto simp: nul_free_def uint_0_iff)
next
  case (4 a as b bs)
  then show ?case by (auto simp: nul_free_def word_uint_eq_iff)
qed simp

lemma lnk_strcmp_self [simp]: "lnk_strcmp s s = 0"
  by (induction s) auto

lemma lnk_strcmp_antisym: "lnk_strcmp b a = - lnk_strcmp a b"
  by (induction a b rule: lnk_strcmp.induct) auto

section \<open>Arrays of characters\<close>

lemma nul_free_simps [simp]:
  "nul_free []" "nul_free (c # s) \<longleftrightarrow> c \<noteq> 0 \<and> nul_free s" "nul_free (s @ t) \<longleftrightarrow> nul_free s \<and> nul_free t"
  by (auto simp: nul_free_def)

lemma nul_free_str_of [simp]: "nul_free (str_of arr)"
  by (auto simp: nul_free_def str_of_def dest: set_takeWhileD)

lemma str_of_append [simp]: "nul_free s \<Longrightarrow> str_of (s @ 0 # r) = s"
  by (induction s) (auto simp: str_of_def)

lemma str_of_replicate [simp]: "str_of (replicate n 0) = []"
  by (cases n) (simp_all add: str_of_def)

lemma lnk_strlen_str_of: "lnk_strlen arr = (if 0 \<in> set arr then Inr (length (str_of arr)) else Inl Overrun)"
  by (induction arr) (auto simp: str_of_def)

lemma lnk_strcpy_eq:
  "lnk_strcpy d s =
     (if length s < length d then Inr (s @ 0 # drop (Suc (length s)) d) else Inl Overrun)"
  by (induction d s rule: lnk_strcpy.induct) auto

lemma lnk_strcpy_length: "lnk_strcpy d s = Inr r \<Longrightarrow> length r = length d"
  by (auto simp: lnk_strcpy_eq split: if_splits)

lemma lnk_strcpy_str_of: "nul_free s \<Longrightarrow> lnk_strcpy d s = Inr r \<Longrightarrow> str_of r = s"
  by (auto simp: lnk_strcpy_eq split: if_splits)

lemma lnk_strcpy_succeeds_iff: "(\<exists>r. lnk_strcpy d s = Inr r) \<longleftrightarrow> length s < length d"
  by (simp add: lnk_strcpy_eq)

lemma lnk_strcat_eq:
  "0 \<in> set d \<Longrightarrow> lnk_strcat d s =
     (if length (str_of d) + length s < length d
      then Inr (str_of d @ s @ 0 # drop (Suc (length (str_of d) + length s)) d) else Inl Overrun)"
proof (induction d)
  case (Cons x d)
  then show ?case by (auto simp: str_of_def lnk_strcpy_eq)
qed simp

lemma lnk_strcat_length: "lnk_strcat d s = Inr r \<Longrightarrow> length r = length d"
  by (induction d arbitrary: r) (auto simp: rbind_eq_Inr_iff dest: lnk_strcpy_length split: if_splits)

section \<open>Base names\<close>

lemma rev_takeWhile_absent: "c \<notin> set p \<Longrightarrow> rev (takeWhile (\<lambda>x. x \<noteq> c) (rev p)) = p"
  by (subst takeWhile_eq_all_conv [THEN iffD2]) auto

lemma lnk_basename_loop_eq:
  "lnk_basename_loop base p = (if 47 \<in> set p then rev (takeWhile (\<lambda>c. c \<noteq> 47) (rev p)) else base)"
proof (induction base p rule: lnk_basename_loop.induct)
  case (2 slash c p)
  then show ?case by (auto simp: takeWhile_append rev_takeWhile_absent)
qed simp

lemma get_basename_loop_eq: "get_basename_loop base p = lnk_basename_loop base p"
  by (induction base p rule: lnk_basename_loop.induct) auto

lemma basenames_agree: "get_basename p = lnk_basename p"
  by (simp add: get_basename_def lnk_basename_def get_basename_loop_eq)

lemma lnk_basename_eq: "lnk_basename p = rev (takeWhile (\<lambda>c. c \<noteq> 47) (rev p))"
  by (simp add: lnk_basename_def lnk_basename_loop_eq rev_takeWhile_absent)

lemma lnk_basename_idem [simp]: "lnk_basename (lnk_basename p) = lnk_basename p"
  by (simp add: lnk_basename_eq takeWhile_idem)

lemma nul_free_lnk_basename: "nul_free p \<Longrightarrow> nul_free (lnk_basename p)"
  by (auto simp: lnk_basename_eq nul_free_def dest: set_takeWhileD)

section \<open>Hexadecimal output\<close>

definition hex_val :: "u8 \<Rightarrow> u64" where
  "hex_val c = (if c < 58 then ucast (c - 48) else ucast (c - 97) + 10)"

text \<open>The value a string of lower-case hexadecimal digits denotes.\<close>

definition parse_hex :: "u8 list \<Rightarrow> u64" where
  "parse_hex ds = foldl (\<lambda>v d. push_bit 4 v OR hex_val d) 0 ds"

lemma hex_val_digit: "x < 16 \<Longrightarrow> hex_val (hex_digit x) = x"
proof -
  assume "x < 16"
  then have "unat x < 16" by (simp add: word_less_nat_alt)
  then have "x \<in> of_nat ` set [0..<16]" by (intro image_eqI [where x = "unat x"]) simp_all
  moreover have "\<forall>n \<in> set [0..<16]. hex_val (hex_digit (of_nat n)) = of_nat n"
    by (simp add: upt_rec hex_digit_def hex_val_def)
  ultimately show ?thesis by auto
qed

lemma foldl_nibbles:
  "n \<le> 16 \<Longrightarrow>
     foldl (\<lambda>v i. push_bit 4 v OR (drop_bit ((15 - i) * 4) x AND 15)) 0 [0..<n] = drop_bit (64 - 4 * n) (x :: u64)"
proof (induction n)
  case 0
  then show ?case by (intro bit_word_eqI) (simp add: bit_drop_bit_eq)
next
  case (Suc n)
  have mask: "(15 :: u64) = mask 4" by (simp add: mask_eq_exp_minus_1)
  have "push_bit 4 (drop_bit (64 - 4 * n) x) OR take_bit 4 (drop_bit ((15 - n) * 4) x) = drop_bit (64 - 4 * Suc n) x"
    using Suc.prems
    by (intro bit_word_eqI)
      (auto simp: bit_or_iff bit_push_bit_iff bit_take_bit_iff bit_drop_bit_eq algebra_simps
        dest: bit_imp_le_length)
  with Suc show ?case by (simp add: mask take_bit_eq_mask [symmetric])
qed

end
