(* ===== verification/Guest_Memory.thy ===== *)
theory Guest_Memory
  imports Muplar_Base
begin

text \<open>
  The address space the linker works on: a byte per 64-bit address, the protection bits of
  the page an address lies on, and whether an address belongs to a file mapping beyond the
  end of the file (an access there raises SIGBUS). Loads need \<^verbatim>\<open>PROT_READ\<close>, stores
  need \<^verbatim>\<open>PROT_WRITE\<close>; AArch64 allows unaligned accesses to normal memory, so a
  load or store of n bytes is n byte accesses at consecutive addresses. An unmapped address
  has no permission at all.

  The laws a client of the memory relies on are the locale \<open>word_store\<close>, interpreted
  on 64-bit loads and stores at the end of the theory.
\<close>

section \<open>State and accesses\<close>

record vm =
  data :: "u64 \<Rightarrow> u8"
  prot :: "u64 \<Rightarrow> u32"
  past_eof :: "u64 \<Rightarrow> bool"

definition PROT_NONE :: u32 where "PROT_NONE = 0"
definition PROT_READ :: u32 where "PROT_READ = 1"
definition PROT_WRITE :: u32 where "PROT_WRITE = 2"
definition PROT_EXEC :: u32 where "PROT_EXEC = 4"

definition readable :: "vm \<Rightarrow> u64 \<Rightarrow> bool" where
  "readable m a \<longleftrightarrow> prot m a AND PROT_READ \<noteq> 0"

definition writable :: "vm \<Rightarrow> u64 \<Rightarrow> bool" where
  "writable m a \<longleftrightarrow> prot m a AND PROT_WRITE \<noteq> 0"

definition executable :: "vm \<Rightarrow> u64 \<Rightarrow> bool" where
  "executable m a \<longleftrightarrow> prot m a AND PROT_EXEC \<noteq> 0"

definition rd8 :: "vm \<Rightarrow> u64 \<Rightarrow> fault + u8" where
  "rd8 m a =
     (if \<not> readable m a then Inl (Segv a)
      else if past_eof m a then Inl (Bus a)
      else Inr (data m a))"

definition wr8 :: "vm \<Rightarrow> u64 \<Rightarrow> u8 \<Rightarrow> fault + vm" where
  "wr8 m a b =
     (if \<not> writable m a then Inl (Segv a)
      else if past_eof m a then Inl (Bus a)
      else Inr (m\<lparr>data := (data m)(a := b)\<rparr>))"

fun rd_bytes :: "vm \<Rightarrow> u64 \<Rightarrow> nat \<Rightarrow> fault + u8 list" where
  "rd_bytes m a 0 = Inr []"
| "rd_bytes m a (Suc n) =
     rbind (rd8 m a) (\<lambda>b. rbind (rd_bytes m (a + 1) n) (\<lambda>bs. Inr (b # bs)))"

fun wr_bytes :: "vm \<Rightarrow> u64 \<Rightarrow> u8 list \<Rightarrow> fault + vm" where
  "wr_bytes m a [] = Inr m"
| "wr_bytes m a (b # bs) = rbind (wr8 m a b) (\<lambda>m'. wr_bytes m' (a + 1) bs)"

definition rd16 :: "vm \<Rightarrow> u64 \<Rightarrow> fault + u16" where
  "rd16 m a = rbind (rd_bytes m a 2) (\<lambda>bs. Inr (le_decode bs))"

definition rd32 :: "vm \<Rightarrow> u64 \<Rightarrow> fault + u32" where
  "rd32 m a = rbind (rd_bytes m a 4) (\<lambda>bs. Inr (le_decode bs))"

definition rd64 :: "vm \<Rightarrow> u64 \<Rightarrow> fault + u64" where
  "rd64 m a = rbind (rd_bytes m a 8) (\<lambda>bs. Inr (le_decode bs))"

definition wr32 :: "vm \<Rightarrow> u64 \<Rightarrow> u32 \<Rightarrow> fault + vm" where
  "wr32 m a v = wr_bytes m a (le_encode 4 v)"

definition wr64 :: "vm \<Rightarrow> u64 \<Rightarrow> u64 \<Rightarrow> fault + vm" where
  "wr64 m a v = wr_bytes m a (le_encode 8 v)"

text \<open>Reading a NUL-terminated string; running off the top of the address space faults.\<close>

function cstr_at :: "vm \<Rightarrow> u64 \<Rightarrow> fault + cstring" where
  "cstr_at m a =
     rbind (rd8 m a) (\<lambda>b.
       if b = 0 then Inr []
       else if a = - 1 then Inl (Segv 0)
       else rbind (cstr_at m (a + 1)) (\<lambda>s. Inr (b # s)))"
  by pat_completeness auto
termination
proof (relation "measure (\<lambda>(m, a). 2 ^ 64 - unat a)")
  fix m and a :: u64 and b :: u8
  assume "a \<noteq> - 1"
  then have "1 + a \<noteq> 0" by (simp add: add_eq_0_iff)
  then have "unat (a + 1) = Suc (unat a)" by (simp add: unatSuc add.commute)
  moreover have "unat a < 2 ^ 64" using unsigned_less [of a] by simp
  ultimately show "((m, a + 1), m, a) \<in> measure (\<lambda>(m, a). 2 ^ 64 - unat a)" by simp
qed simp

declare cstr_at.simps [simp del]

section \<open>Same permissions\<close>

text \<open>Stores change bytes only.\<close>

definition same_perms :: "vm \<Rightarrow> vm \<Rightarrow> bool" where
  "same_perms m m' \<longleftrightarrow> prot m' = prot m \<and> past_eof m' = past_eof m"

lemma same_perms_refl [simp]: "same_perms m m"
  by (simp add: same_perms_def)

lemma same_perms_trans: "same_perms m m' \<Longrightarrow> same_perms m' m'' \<Longrightarrow> same_perms m m''"
  by (simp add: same_perms_def)

lemma wr8_same_perms: "wr8 m a b = Inr m' \<Longrightarrow> same_perms m m'"
  by (auto simp: wr8_def same_perms_def split: if_splits)

lemma wr_bytes_same_perms: "wr_bytes m a bs = Inr m' \<Longrightarrow> same_perms m m'"
proof (induction bs arbitrary: m a)
  case (Cons b bs)
  then show ?case by (auto simp: rbind_eq_Inr_iff intro: same_perms_trans wr8_same_perms)
qed simp

lemma wr64_same_perms: "wr64 m a v = Inr m' \<Longrightarrow> same_perms m m'"
  by (simp add: wr64_def wr_bytes_same_perms)

section \<open>Ranges\<close>

text \<open>The n addresses from a on, modulo the size of the address space.\<close>

definition span :: "u64 \<Rightarrow> nat \<Rightarrow> u64 set" where
  "span a n = (\<lambda>i. a + of_nat i) ` {..<n}"

lemma span_0 [simp]: "span a 0 = {}"
  by (simp add: span_def)

lemma span_Suc: "span a (Suc n) = insert a (span (a + 1) n)"
proof -
  have "{..<Suc n} = insert 0 (Suc ` {..<n})" by (simp add: lessThan_Suc_eq_insert_0)
  then show ?thesis by (auto simp: span_def image_image algebra_simps)
qed

definition can_read :: "vm \<Rightarrow> u64 \<Rightarrow> nat \<Rightarrow> bool" where
  "can_read m a n \<longleftrightarrow> (\<forall>x \<in> span a n. readable m x \<and> \<not> past_eof m x)"

definition can_write :: "vm \<Rightarrow> u64 \<Rightarrow> nat \<Rightarrow> bool" where
  "can_write m a n \<longleftrightarrow> (\<forall>x \<in> span a n. writable m x \<and> \<not> past_eof m x)"

lemma can_read_same_perms: "same_perms m m' \<Longrightarrow> can_read m' a n = can_read m a n"
  by (simp add: can_read_def same_perms_def readable_def)

lemma can_write_same_perms: "same_perms m m' \<Longrightarrow> can_write m' a n = can_write m a n"
  by (simp add: can_write_def same_perms_def writable_def)

lemma rd_bytes_eq:
  "can_read m a n \<Longrightarrow> rd_bytes m a n = Inr (map (\<lambda>i. data m (a + of_nat i)) [0..<n])"
proof (induction n arbitrary: a)
  case (Suc n)
  then have "rd8 m a = Inr (data m a)" "can_read m (a + 1) n"
    by (auto simp: can_read_def span_Suc rd8_def)
  with Suc.IH [of "a + 1"] show ?case
    by (simp add: upt_conv_Cons map_Suc_upt [symmetric] comp_def algebra_simps del: upt_Suc)
qed simp

lemma rd_bytes_Inr_can_read: "rd_bytes m a n = Inr bs \<Longrightarrow> can_read m a n"
proof (induction n arbitrary: a bs)
  case (Suc n)
  then show ?case
    by (auto simp: rbind_eq_Inr_iff rd8_def can_read_def span_Suc split: if_splits)
qed (simp add: can_read_def)

lemma rd_bytes_length: "rd_bytes m a n = Inr bs \<Longrightarrow> length bs = n"
  using rd_bytes_eq [OF rd_bytes_Inr_can_read] by fastforce

lemma rd_bytes_cong:
  assumes "same_perms m m'" and "\<And>x. x \<in> span a n \<Longrightarrow> data m' x = data m x"
  shows "rd_bytes m' a n = rd_bytes m a n"
  using assms
proof (induction n arbitrary: a)
  case (Suc n)
  then have "rd8 m' a = rd8 m a"
    by (simp add: rd8_def span_Suc same_perms_def readable_def)
  with Suc show ?case by (simp add: span_Suc)
qed simp

lemma wr_bytes_succeeds: "can_write m a (length bs) \<Longrightarrow> \<exists>m'. wr_bytes m a bs = Inr m'"
proof (induction bs arbitrary: m a)
  case (Cons b bs)
  then obtain m' where m': "wr8 m a b = Inr m'"
    by (auto simp: can_write_def span_Suc wr8_def)
  have "can_write m' (a + 1) (length bs)"
    using Cons.prems can_write_same_perms [OF wr8_same_perms [OF m']]
    by (simp add: can_write_def span_Suc)
  then show ?case using Cons.IH m' by simp
qed simp

lemma wr_bytes_Inr_can_write: "wr_bytes m a bs = Inr m' \<Longrightarrow> can_write m a (length bs)"
proof (induction bs arbitrary: m a)
  case (Cons b bs)
  then obtain m1 where m1: "wr8 m a b = Inr m1" "wr_bytes m1 (a + 1) bs = Inr m'"
    by (auto simp: rbind_eq_Inr_iff)
  then have "can_write m (a + 1) (length bs)"
    using Cons.IH can_write_same_perms [OF wr8_same_perms] by blast
  moreover have "writable m a \<and> \<not> past_eof m a"
    using m1(1) by (auto simp: wr8_def split: if_splits)
  ultimately show ?case by (simp add: can_write_def span_Suc)
qed (simp add: can_write_def)

lemma wr_bytes_frame: "wr_bytes m a bs = Inr m' \<Longrightarrow> x \<notin> span a (length bs) \<Longrightarrow> data m' x = data m x"
proof (induction bs arbitrary: m a)
  case (Cons b bs)
  then show ?case by (auto simp: rbind_eq_Inr_iff wr8_def span_Suc split: if_splits)
qed simp

lemma not_in_tail_span: "n < 2 ^ 64 \<Longrightarrow> a \<notin> span (a + 1) n"
proof
  assume n: "n < 2 ^ 64" and "a \<in> span (a + 1) n"
  then obtain i where i: "i < n" "a = a + 1 + of_nat i" by (auto simp: span_def)
  then have "(1 + of_nat i :: u64) = 0" by (simp add: algebra_simps)
  then have "unat (of_nat (Suc i) :: u64) = 0" by simp
  then have "Suc i mod 2 ^ 64 = 0" by (simp only: unat_of_nat) simp
  then show False using n i(1) by simp
qed

lemma wr_bytes_stored:
  "wr_bytes m a bs = Inr m' \<Longrightarrow> length bs \<le> 2 ^ 64 \<Longrightarrow>
     map (\<lambda>i. data m' (a + of_nat i)) [0..<length bs] = bs"
proof (induction bs arbitrary: m a)
  case (Cons b bs)
  then obtain m1 where m1: "wr8 m a b = Inr m1" "wr_bytes m1 (a + 1) bs = Inr m'"
    by (auto simp: rbind_eq_Inr_iff)
  have "a \<notin> span (a + 1) (length bs)"
    using Cons.prems(2) by (intro not_in_tail_span) simp
  then have "data m' a = data m1 a" using wr_bytes_frame [OF m1(2)] by blast
  also have "data m1 a = b" using m1(1) by (auto simp: wr8_def split: if_splits)
  finally have "data m' a = b" .
  moreover have "map (\<lambda>i. data m' (a + 1 + of_nat i)) [0..<length bs] = bs"
    using Cons.IH [OF m1(2)] Cons.prems(2) by simp
  ultimately show ?case
    by (simp add: upt_conv_Cons map_Suc_upt [symmetric] comp_def algebra_simps del: upt_Suc)
qed simp

section \<open>The contract of 64-bit words in memory\<close>

text \<open>
  What relocation code relies on: a store that succeeds is read back, leaves words that do
  not overlap it alone and keeps permissions; whether an access succeeds depends on the
  permissions only.
\<close>

locale word_store =
  fixes load :: "'m \<Rightarrow> u64 \<Rightarrow> fault + u64"
    and store :: "'m \<Rightarrow> u64 \<Rightarrow> u64 \<Rightarrow> fault + 'm"
    and disjoint :: "u64 \<Rightarrow> u64 \<Rightarrow> bool"
    and rights :: "'m \<Rightarrow> 'm \<Rightarrow> bool"
  assumes load_store: "store m a v = Inr m' \<Longrightarrow> \<exists>w. load m a = Inr w \<Longrightarrow> load m' a = Inr v"
    and load_store_other: "store m a v = Inr m' \<Longrightarrow> disjoint a b \<Longrightarrow> load m' b = load m b"
    and store_again: "store m a v = Inr m' \<Longrightarrow> \<exists>m''. store m a w = Inr m''"
    and rights_store: "store m a v = Inr m' \<Longrightarrow> rights m m'"
    and store_rights: "rights m m' \<Longrightarrow> store m b w = Inr n \<Longrightarrow> \<exists>n'. store m' b w = Inr n'"
    and load_rights: "rights m m' \<Longrightarrow> load m b = Inr w \<Longrightarrow> \<exists>w'. load m' b = Inr w'"
    and disjoint_sym: "disjoint a b \<Longrightarrow> disjoint b a"
begin

text \<open>Read a word, change it, write it back.\<close>

definition modify :: "(u64 \<Rightarrow> u64) \<Rightarrow> u64 \<Rightarrow> 'm \<Rightarrow> fault + 'm" where
  "modify f a m = rbind (load m a) (\<lambda>v. store m a (f v))"

lemma modify_here: "modify f a m = Inr m' \<Longrightarrow> load m a = Inr v \<Longrightarrow> load m' a = Inr (f v)"
  unfolding modify_def by (auto simp: rbind_eq_Inr_iff intro: load_store)

lemma modify_other: "modify f a m = Inr m' \<Longrightarrow> disjoint a b \<Longrightarrow> load m' b = load m b"
  unfolding modify_def by (auto simp: rbind_eq_Inr_iff intro: load_store_other)

lemma modify_rights: "modify f a m = Inr m' \<Longrightarrow> rights m m'"
  unfolding modify_def by (auto simp: rbind_eq_Inr_iff intro: rights_store)

text \<open>A pass over slots no two of which overlap changes each slot once.\<close>

lemma foldM_modify_other:
  "foldM (modify f) as m = Inr m' \<Longrightarrow> \<forall>a \<in> set as. disjoint a b \<Longrightarrow> load m' b = load m b"
proof (induction as arbitrary: m)
  case (Cons a as)
  then obtain m1 where m1: "modify f a m = Inr m1" "foldM (modify f) as m1 = Inr m'"
    by (auto simp: rbind_eq_Inr_iff)
  with Cons show ?case using modify_other [OF m1(1)] by auto
qed simp

lemma foldM_modify_each:
  assumes "foldM (modify f) as m = Inr m'" and "pairwise disjoint (set as)" and "distinct as"
    and "a \<in> set as" and "load m a = Inr v"
  shows "load m' a = Inr (f v)"
  using assms
proof (induction as arbitrary: m)
  case (Cons c as)
  then obtain m1 where m1: "modify f c m = Inr m1" "foldM (modify f) as m1 = Inr m'"
    by (auto simp: rbind_eq_Inr_iff)
  show ?case
  proof (cases "a = c")
    case True
    then have "load m1 a = Inr (f v)" using modify_here [OF m1(1)] Cons.prems(5) by simp
    moreover have "\<forall>x \<in> set as. disjoint x a"
      using Cons.prems(2,3) True by (auto simp: pairwise_insert)
    ultimately show ?thesis using foldM_modify_other [OF m1(2)] by simp
  next
    case False
    then have a: "a \<in> set as" using Cons.prems(4) by simp
    then have "disjoint c a" using Cons.prems(2) False by (auto simp: pairwise_insert)
    then have "load m1 a = Inr v" using modify_other [OF m1(1)] Cons.prems(5) by simp
    then show ?thesis using Cons.IH [OF m1(2)] Cons.prems(2,3) a
      by (simp add: pairwise_insert)
  qed
qed simp

end

text \<open>Two 64-bit words overlap when their byte ranges do.\<close>

definition apart :: "u64 \<Rightarrow> u64 \<Rightarrow> bool" where
  "apart a b \<longleftrightarrow> span a 8 \<inter> span b 8 = {}"

lemma apart_sym: "apart a b \<Longrightarrow> apart b a"
  by (auto simp: apart_def)

lemma apartI: "8 \<le> b - a \<Longrightarrow> 8 \<le> a - b \<Longrightarrow> apart a b"
proof -
  have near: "\<not> 8 \<le> b - a" if "a + of_nat i = b + of_nat j" "j \<le> i" "i < 8" for i j and a b :: u64
  proof -
    have "b - a = of_nat (i - j)" using that(1,2) by (simp add: algebra_simps of_nat_diff)
    then have "unat (b - a) = i - j" using that(3) by (simp only: unat_of_nat) simp
    then show ?thesis using that(3) by (simp add: word_le_nat_alt)
  qed
  assume "8 \<le> b - a" "8 \<le> a - b"
  then have "a + of_nat i \<noteq> b + of_nat j" if "i < 8" "j < 8" for i j
    using near [of a i b j] near [of b j a i] that by (metis nat_le_linear)
  then show ?thesis by (auto simp: apart_def span_def)
qed

lemma wr64_succeeds: "can_write m a 8 \<Longrightarrow> \<exists>m'. wr64 m a v = Inr m'"
  unfolding wr64_def by (rule wr_bytes_succeeds) simp

lemma wr64_Inr_can_write: "wr64 m a v = Inr m' \<Longrightarrow> can_write m a 8"
  unfolding wr64_def by (drule wr_bytes_Inr_can_write) simp

lemma rd64_Inr_can_read: "rd64 m a = Inr v \<Longrightarrow> can_read m a 8"
  unfolding rd64_def by (auto simp: rbind_eq_Inr_iff dest: rd_bytes_Inr_can_read)

lemma rd64_succeeds: "can_read m a 8 \<Longrightarrow> \<exists>v. rd64 m a = Inr v"
  unfolding rd64_def by (auto simp: rd_bytes_eq)

lemma rd64_wr64_same: "wr64 m a v = Inr m' \<Longrightarrow> can_read m a 8 \<Longrightarrow> rd64 m' a = Inr v"
proof -
  assume w: "wr64 m a v = Inr m'" and r: "can_read m a 8"
  have "can_read m' a 8" using can_read_same_perms [OF wr64_same_perms [OF w]] r by simp
  then have "rd_bytes m' a 8 = Inr (map (\<lambda>i. data m' (a + of_nat i)) [0..<8])"
    by (rule rd_bytes_eq)
  also have "map (\<lambda>i. data m' (a + of_nat i)) [0..<8] = le_encode 8 v"
    using wr_bytes_stored [OF w [unfolded wr64_def]] by (simp del: upt_rec_numeral)
  finally have "rd_bytes m' a 8 = Inr (le_encode 8 v)" .
  then show "rd64 m' a = Inr v" by (simp add: rd64_def)
qed

lemma rd_bytes_wr64_other: "wr64 m a v = Inr m' \<Longrightarrow> span a 8 \<inter> span b n = {} \<Longrightarrow> rd_bytes m' b n = rd_bytes m b n"
  by (rule rd_bytes_cong [OF wr64_same_perms])
    (auto simp: wr64_def dest!: wr_bytes_frame)

lemma rd64_wr64_other: "wr64 m a v = Inr m' \<Longrightarrow> apart a b \<Longrightarrow> rd64 m' b = rd64 m b"
  by (simp add: rd64_def rd_bytes_wr64_other apart_def)

interpretation vm64: word_store rd64 wr64 apart same_perms
proof
  fix m a v m' b w n n'
  show "wr64 m a v = Inr m' \<Longrightarrow> \<exists>w. rd64 m a = Inr w \<Longrightarrow> rd64 m' a = Inr v"
    using rd64_wr64_same rd64_Inr_can_read by blast
  show "wr64 m a v = Inr m' \<Longrightarrow> apart a b \<Longrightarrow> rd64 m' b = rd64 m b"
    by (rule rd64_wr64_other)
  show "wr64 m a v = Inr m' \<Longrightarrow> \<exists>m''. wr64 m a w = Inr m''"
    using wr64_Inr_can_write wr64_succeeds by blast
  show "wr64 m a v = Inr m' \<Longrightarrow> same_perms m m'"
    by (rule wr64_same_perms)
  show "same_perms m m' \<Longrightarrow> wr64 m b w = Inr n \<Longrightarrow> \<exists>n'. wr64 m' b w = Inr n'"
    using wr64_Inr_can_write wr64_succeeds can_write_same_perms by blast
  show "same_perms m m' \<Longrightarrow> rd64 m b = Inr w \<Longrightarrow> \<exists>w'. rd64 m' b = Inr w'"
    using rd64_Inr_can_read rd64_succeeds can_read_same_perms by blast
  show "apart a b \<Longrightarrow> apart b a" by (rule apart_sym)
qed

lemma rd_bytes_numeral:
  "rd_bytes m a (numeral k) =
     rbind (rd8 m a) (\<lambda>b. rbind (rd_bytes m (a + 1) (pred_numeral k)) (\<lambda>bs. Inr (b # bs)))"
  by (simp add: numeral_eq_Suc)

section \<open>Strings in memory\<close>

fun str_at :: "vm \<Rightarrow> u64 \<Rightarrow> cstring \<Rightarrow> bool" where
  "str_at m a [] \<longleftrightarrow> rd8 m a = Inr 0"
| "str_at m a (c # s) \<longleftrightarrow> rd8 m a = Inr c \<and> str_at m (a + 1) s"

lemma cstr_at_str_at: "cstr_at m a = Inr s \<Longrightarrow> str_at m a s \<and> 0 \<notin> set s"
proof (induction m a arbitrary: s rule: cstr_at.induct)
  case (1 m a)
  from 1(2) show ?case
    by (subst (asm) cstr_at.simps) (auto simp: rbind_eq_Inr_iff dest: 1(1) split: if_splits)
qed

text \<open>A memory that holds the given bytes from address 0 on and can be accessed everywhere.\<close>

definition image_mem :: "u8 list \<Rightarrow> vm" where
  "image_mem bs = \<lparr>data = (\<lambda>a. if unat a < length bs then bs ! unat a else 0),
     prot = (\<lambda>_. PROT_READ OR PROT_WRITE), past_eof = (\<lambda>_. False)\<rparr>"

lemma image_mem_access [simp]: "can_read (image_mem bs) a n" "can_write (image_mem bs) a n"
  by (simp_all add: can_read_def can_write_def image_mem_def readable_def writable_def
      PROT_READ_def PROT_WRITE_def)

lemma image_mem_rd8: "rd8 (image_mem bs) a = Inr (if unat a < length bs then bs ! unat a else 0)"
  by (simp add: rd8_def image_mem_def readable_def PROT_READ_def PROT_WRITE_def)

end
