(* ===== verification/Elf_Types.thy ===== *)
theory Elf_Types
  imports Guest_Memory
begin

text \<open>
  ELF64 structures and constants of \<^verbatim>\<open>linker64/src/elf.h\<close>, decoded from bytes in file
  order, and the page arithmetic of \<^verbatim>\<open>linker.c\<close>. Signed 64-bit members
  (\<open>d_tag\<close>, \<open>r_addend\<close>) are kept as 64-bit words: the code only adds them
  (wrapping) or compares them for equality.
\<close>

section \<open>Constants\<close>

definition PT_LOAD :: u32 where "PT_LOAD = 1"
definition PT_DYNAMIC :: u32 where "PT_DYNAMIC = 2"
definition PT_PHDR :: u32 where "PT_PHDR = 6"
definition PT_TLS :: u32 where "PT_TLS = 7"

definition PF_X :: u32 where "PF_X = 1"
definition PF_W :: u32 where "PF_W = 2"
definition PF_R :: u32 where "PF_R = 4"

definition SHN_UNDEF :: u16 where "SHN_UNDEF = 0"
definition STT_GNU_IFUNC :: u8 where "STT_GNU_IFUNC = 10"
definition ELF64_ST_TYPE :: "u8 \<Rightarrow> u8" where "ELF64_ST_TYPE i = i AND 15"

definition R_AARCH64_ABS64 :: u32 where "R_AARCH64_ABS64 = 257"
definition R_AARCH64_GLOB_DAT :: u32 where "R_AARCH64_GLOB_DAT = 1025"
definition R_AARCH64_JUMP_SLOT :: u32 where "R_AARCH64_JUMP_SLOT = 1026"
definition R_AARCH64_RELATIVE :: u32 where "R_AARCH64_RELATIVE = 1027"
definition R_AARCH64_TLS_TPREL64 :: u32 where "R_AARCH64_TLS_TPREL64 = 1030"
definition R_AARCH64_TLSDESC :: u32 where "R_AARCH64_TLSDESC = 1031"
definition R_AARCH64_IRELATIVE :: u32 where "R_AARCH64_IRELATIVE = 1032"

definition ELF64_R_SYM :: "u64 \<Rightarrow> u32" where "ELF64_R_SYM i = ucast (drop_bit 32 i)"
definition ELF64_R_TYPE :: "u64 \<Rightarrow> u32" where "ELF64_R_TYPE i = ucast (i AND 0xffffffff)"

definition AT_NULL :: u64 where "AT_NULL = 0"
definition AT_PHDR :: u64 where "AT_PHDR = 3"
definition AT_PHENT :: u64 where "AT_PHENT = 4"
definition AT_PHNUM :: u64 where "AT_PHNUM = 5"
definition AT_ENTRY :: u64 where "AT_ENTRY = 9"
definition AT_HWCAP :: u64 where "AT_HWCAP = 16"

lemmas elf_consts =
  PT_LOAD_def PT_DYNAMIC_def PT_PHDR_def PT_TLS_def PF_X_def PF_W_def PF_R_def SHN_UNDEF_def
  STT_GNU_IFUNC_def ELF64_ST_TYPE_def AT_NULL_def AT_PHDR_def AT_PHENT_def AT_PHNUM_def
  AT_ENTRY_def AT_HWCAP_def

lemmas reloc_consts =
  R_AARCH64_ABS64_def R_AARCH64_GLOB_DAT_def R_AARCH64_JUMP_SLOT_def R_AARCH64_RELATIVE_def
  R_AARCH64_TLS_TPREL64_def R_AARCH64_TLSDESC_def R_AARCH64_IRELATIVE_def

section \<open>Structures\<close>

text \<open>A little-endian member of \<open>n\<close> bytes at offset \<open>k\<close> of a structure's bytes.\<close>

definition member_at :: "nat \<Rightarrow> nat \<Rightarrow> u8 list \<Rightarrow> 'a::len word" where
  "member_at k n bs = le_decode (take n (drop k bs))"

text \<open>The members of the ELF header the linker reads.\<close>

record Elf64_Ehdr =
  e_ident :: "u8 list"
  e_phoff :: u64
  e_phnum :: u16

definition ehdr_of_bytes :: "u8 list \<Rightarrow> Elf64_Ehdr" where
  "ehdr_of_bytes bs =
     \<lparr>e_ident = take 16 bs, e_phoff = member_at 32 8 bs, e_phnum = member_at 56 2 bs\<rparr>"

record Elf64_Phdr =
  p_type :: u32
  p_flags :: u32
  p_offset :: u64
  p_vaddr :: u64
  p_paddr :: u64
  p_filesz :: u64
  p_memsz :: u64
  p_align :: u64

definition phdr_of_bytes :: "u8 list \<Rightarrow> Elf64_Phdr" where
  "phdr_of_bytes bs =
     \<lparr>p_type = member_at 0 4 bs, p_flags = member_at 4 4 bs, p_offset = member_at 8 8 bs,
      p_vaddr = member_at 16 8 bs, p_paddr = member_at 24 8 bs, p_filesz = member_at 32 8 bs,
      p_memsz = member_at 40 8 bs, p_align = member_at 48 8 bs\<rparr>"

text \<open>\<open>Elf64_Phdr phdrs[16]\<close> as read from a file.\<close>

fun phdrs_of_bytes :: "nat \<Rightarrow> u8 list \<Rightarrow> Elf64_Phdr list" where
  "phdrs_of_bytes 0 bs = []"
| "phdrs_of_bytes (Suc n) bs = phdr_of_bytes (take 56 bs) # phdrs_of_bytes n (drop 56 bs)"

record Elf64_Rela =
  r_offset :: u64
  r_info :: u64
  r_addend :: u64

definition rd_rela :: "vm \<Rightarrow> u64 \<Rightarrow> fault + Elf64_Rela" where
  "rd_rela m a =
     rbind (rd64 m (a + 8)) (\<lambda>info. rbind (rd64 m a) (\<lambda>off. rbind (rd64 m (a + 16)) (\<lambda>add.
       Inr \<lparr>r_offset = off, r_info = info, r_addend = add\<rparr>)))"

text \<open>Members of \<open>Elf64_Sym\<close>, each loaded where the code loads it.\<close>

definition st_name :: "vm \<Rightarrow> u64 \<Rightarrow> fault + u32" where
  "st_name m s = rd32 m s"

definition st_info :: "vm \<Rightarrow> u64 \<Rightarrow> fault + u8" where
  "st_info m s = rd8 m (s + 4)"

definition st_shndx :: "vm \<Rightarrow> u64 \<Rightarrow> fault + u16" where
  "st_shndx m s = rd16 m (s + 6)"

definition st_value :: "vm \<Rightarrow> u64 \<Rightarrow> fault + u64" where
  "st_value m s = rd64 m (s + 8)"

definition rd_phdr :: "vm \<Rightarrow> u64 \<Rightarrow> fault + Elf64_Phdr" where
  "rd_phdr m a = rbind (rd_bytes m a 56) (\<lambda>bs. Inr (phdr_of_bytes bs))"

lemma rd_rela_cong:
  assumes "\<And>x. x \<in> {a, a + 8, a + 16} \<Longrightarrow> rd64 m' x = rd64 m x"
  shows "rd_rela m' a = rd_rela m a"
  using assms by (simp add: rd_rela_def)

section \<open>Page arithmetic\<close>

definition PAGE_SIZE :: u64 where "PAGE_SIZE = 4096"
definition PAGE_MASK :: u64 where "PAGE_MASK = NOT (PAGE_SIZE - 1)"

definition PAGE_ALIGN_UP :: "u64 \<Rightarrow> u64" where
  "PAGE_ALIGN_UP x = (x + PAGE_SIZE - 1) AND PAGE_MASK"

definition PAGE_ALIGN_DOWN :: "u64 \<Rightarrow> u64" where
  "PAGE_ALIGN_DOWN x = x AND PAGE_MASK"

lemma and_page_mask: "x AND PAGE_MASK = push_bit 12 (drop_bit 12 x)"
proof -
  have "PAGE_MASK = NOT (mask 12)"
    by (simp add: PAGE_MASK_def PAGE_SIZE_def mask_eq_exp_minus_1)
  show ?thesis unfolding \<open>PAGE_MASK = _\<close>
    by (auto intro!: bit_word_eqI simp: bit_and_iff bit_not_iff bit_mask_iff bit_push_bit_iff bit_drop_bit_eq)
qed

lemma unat_and_page_mask: "unat (x AND PAGE_MASK) = unat x div 4096 * 4096"
proof -
  have "unat x div 4096 * 4096 < 2 ^ 64"
    using unsigned_less [of x] by (intro le_less_trans [OF div_times_less_eq_dividend]) simp
  moreover have "unat (x AND PAGE_MASK) = take_bit 64 (push_bit 12 (drop_bit 12 (unat x)))"
    by (simp add: and_page_mask unsigned_push_bit_eq unat_drop_bit_eq)
  ultimately show ?thesis by (simp add: drop_bit_eq_div push_bit_eq_mult take_bit_eq_mod)
qed

lemma unat_PAGE_ALIGN_DOWN: "unat (PAGE_ALIGN_DOWN x) = unat x - unat x mod 4096"
  by (simp add: PAGE_ALIGN_DOWN_def unat_and_page_mask minus_mod_eq_div_mult [symmetric])

lemma PAGE_ALIGN_DOWN_le: "unat (PAGE_ALIGN_DOWN x) \<le> unat x"
  by (simp add: unat_PAGE_ALIGN_DOWN)

lemma PAGE_ALIGN_DOWN_offset: "unat (x - PAGE_ALIGN_DOWN x) = unat x mod 4096"
proof -
  have "PAGE_ALIGN_DOWN x \<le> x" by (simp add: word_le_nat_alt PAGE_ALIGN_DOWN_le)
  then have "unat (x - PAGE_ALIGN_DOWN x) = unat x - unat (PAGE_ALIGN_DOWN x)"
    by (simp add: unat_sub)
  then show ?thesis by (simp add: unat_PAGE_ALIGN_DOWN)
qed

lemma unat_PAGE_ALIGN_UP:
  assumes "unat x + 4095 < 2 ^ 64"
  shows "unat (PAGE_ALIGN_UP x) = (unat x + 4095) div 4096 * 4096"
proof -
  have "unat (x + 4095) = unat x + 4095"
    using assms by (subst unat_add_lem [THEN iffD1]) simp_all
  then show ?thesis
    by (simp add: PAGE_ALIGN_UP_def unat_and_page_mask PAGE_SIZE_def add.commute)
qed

lemma PAGE_ALIGN_UP_ge:
  assumes "unat x + 4095 < 2 ^ 64"
  shows "unat x \<le> unat (PAGE_ALIGN_UP x)" and "unat (PAGE_ALIGN_UP x) < unat x + 4096"
  using assms by (simp_all add: unat_PAGE_ALIGN_UP)

end
