(* ===== verification/Lnk_Load.thy ===== *)
theory Lnk_Load
  imports Elf_Types Lnk_Strings
begin

text \<open>
  ELF loading in \<^verbatim>\<open>linker64/src/linker.c\<close>: the auxiliary vector, \<^verbatim>\<open>read_at\<close>,
  \<^verbatim>\<open>parse_dynamic\<close> and \<^verbatim>\<open>load_so\<close>.

  The kernel is not part of the repository. Its answers to system calls are the fields of
  a record \<open>os\<close> that every definition using them takes as an argument; the effect of a
  successful \<^verbatim>\<open>mmap\<close> or \<^verbatim>\<open>mprotect\<close> on memory is the documented one. Each
  call is numbered, so that equal requests may be answered differently. Pointers held by an
  object are 64-bit addresses, 0 for \<^verbatim>\<open>NULL\<close>.
\<close>

section \<open>System calls\<close>

record os =
  os_open :: "cstring \<Rightarrow> int"
    \<comment> \<open>\<^verbatim>\<open>openat(AT_FDCWD, path, O_RDONLY)\<close>: a descriptor, or a negative error\<close>
  os_file :: "int \<Rightarrow> u8 list"
    \<comment> \<open>the contents of the file a descriptor refers to\<close>
  os_lseek :: "int \<Rightarrow> u64 \<Rightarrow> int"
  os_read :: "int \<Rightarrow> nat \<Rightarrow> nat \<Rightarrow> int \<times> u8 list"
    \<comment> \<open>\<^verbatim>\<open>read\<close> at a file position with a byte count: its result and the bytes stored\<close>
  os_mmap :: "nat \<Rightarrow> u64 \<Rightarrow> u64 \<Rightarrow> u32 \<Rightarrow> u32 \<Rightarrow> int \<Rightarrow> u64 \<Rightarrow> u64"
    \<comment> \<open>the address \<^verbatim>\<open>mmap\<close> returns, or a negative error, for the n-th call\<close>
  os_mprotect :: "nat \<Rightarrow> u64 \<Rightarrow> u64 \<Rightarrow> u32 \<Rightarrow> bool"
    \<comment> \<open>whether the n-th \<^verbatim>\<open>mprotect\<close> succeeds\<close>
  os_gettid :: u32

definition MAP_PRIVATE :: u32 where "MAP_PRIVATE = 2"
definition MAP_FIXED :: u32 where "MAP_FIXED = 16"
definition MAP_ANONYMOUS :: u32 where "MAP_ANONYMOUS = 32"

text \<open>The memory of the process and the number of memory system calls made so far.\<close>

record proc =
  mem :: vm
  calls :: nat

text \<open>
  A mapping of \<open>len\<close> bytes at \<open>a\<close>, in whole pages: the bytes of the file from
  \<open>off\<close> on (zero behind its end, on the last page it reaches), or zeroes.
\<close>

definition in_range :: "u64 \<Rightarrow> u64 \<Rightarrow> u64 \<Rightarrow> bool" where
  "in_range a len x \<longleftrightarrow> unat (x - a) < unat (PAGE_ALIGN_UP len)"

definition map_pages :: "vm \<Rightarrow> u64 \<Rightarrow> u64 \<Rightarrow> u32 \<Rightarrow> u8 list option \<Rightarrow> u64 \<Rightarrow> vm" where
  "map_pages m a len pr file off =
     \<lparr>data = (\<lambda>x. if in_range a len x
        then (case file of None \<Rightarrow> 0
              | Some bs \<Rightarrow> let k = unat off + unat (x - a) in if k < length bs then bs ! k else 0)
        else data m x),
      prot = (\<lambda>x. if in_range a len x then pr else prot m x),
      past_eof = (\<lambda>x. if in_range a len x
        then (case file of None \<Rightarrow> False
              | Some bs \<Rightarrow> let k = unat off + unat (x - a) in length bs \<le> k - k mod 4096)
        else past_eof m x)\<rparr>"

definition sys_mmap :: "os \<Rightarrow> proc \<Rightarrow> u64 \<Rightarrow> u64 \<Rightarrow> u32 \<Rightarrow> u32 \<Rightarrow> int \<Rightarrow> u64 \<Rightarrow> u64 \<times> proc" where
  "sys_mmap os p addr len pr flags fd off =
     (let r = os_mmap os (calls p) addr len pr flags fd off; p' = p\<lparr>calls := Suc (calls p)\<rparr>
      in if r <s 0 then (r, p')
         else (r, p'\<lparr>mem := map_pages (mem p) r len pr
                 (if flags AND MAP_ANONYMOUS \<noteq> 0 then None else Some (os_file os fd)) off\<rparr>))"

definition sys_mprotect :: "os \<Rightarrow> proc \<Rightarrow> u64 \<Rightarrow> u64 \<Rightarrow> u32 \<Rightarrow> proc" where
  "sys_mprotect os p addr len pr =
     (let p' = p\<lparr>calls := Suc (calls p)\<rparr>
      in if os_mprotect os (calls p) addr len pr
         then p'\<lparr>mem := (mem p)\<lparr>prot := (\<lambda>x. if in_range addr len x then pr else prot (mem p) x)\<rparr>\<rparr>
         else p')"

section \<open>Objects\<close>

record Object =
  load_base :: u64
  strtab :: u64
  strsz :: u64
  symtab :: u64
  rela :: u64
  rela_count :: u64
  jmprel :: u64
  jmprel_count :: u64
  relr :: u64
  relr_count :: u64
  android_rela :: u64
  android_rela_size :: u64
  gnu_hash_tab :: u64
  needed_off :: "u32 list" \<comment> \<open>the first \<^verbatim>\<open>needed_count\<close> entries of the array\<close>
  path :: "u8 list"
  soname :: "u8 list"
  tls_offset :: u64
  tls_vaddr :: u64
  tls_filesz :: u64
  tls_memsz :: u64

definition MAX_NEEDED :: nat where "MAX_NEEDED = 256"

text \<open>\<^verbatim>\<open>lnk_memset(obj, 0, sizeof(*obj))\<close>\<close>

definition zero_object :: Object where
  "zero_object = \<lparr>load_base = 0, strtab = 0, strsz = 0, symtab = 0, rela = 0, rela_count = 0,
     jmprel = 0, jmprel_count = 0, relr = 0, relr_count = 0, android_rela = 0,
     android_rela_size = 0, gnu_hash_tab = 0, needed_off = [], path = replicate 256 0,
     soname = replicate 128 0, tls_offset = 0, tls_vaddr = 0, tls_filesz = 0, tls_memsz = 0\<rparr>"

section \<open>Tables of pairs\<close>

text \<open>The auxiliary vector and the dynamic section are arrays of 16-byte entries that a zero tag ends.\<close>

lemma unat_next_entry: "\<not> - 16 \<le> a \<Longrightarrow> unat (a + 16 :: u64) = unat a + 16"
proof -
  assume "\<not> - 16 \<le> a"
  then have "unat a < 2 ^ 64 - 16" by (simp add: word_le_nat_alt)
  then show ?thesis by (subst unat_add_lem [THEN iffD1]) simp_all
qed

function auxv_get :: "vm \<Rightarrow> u64 \<Rightarrow> u64 \<Rightarrow> fault + u64" where
  "auxv_get m auxv type =
     rbind (rd64 m auxv) (\<lambda>a_type.
       if a_type = AT_NULL then Inr 0
       else if a_type = type then rd64 m (auxv + 8)
       else if - 16 \<le> auxv then Inl (Segv 0)
       else auxv_get m (auxv + 16) type)"
  by pat_completeness auto
termination
proof (relation "measure (\<lambda>(m, a, t). 2 ^ 64 - unat a)")
  fix m and auxv type a_type :: u64
  assume "\<not> - 16 \<le> auxv"
  then show "((m, auxv + 16, type), m, auxv, type) \<in> measure (\<lambda>(m, a, t). 2 ^ 64 - unat a)"
    using unat64_less [of "auxv + 16"] by (simp add: unat_next_entry)
qed simp

declare auxv_get.simps [simp del]

text \<open>The dynamic section as a list of \<open>(d_tag, d_val)\<close> pairs up to \<^verbatim>\<open>DT_NULL\<close>.\<close>

function read_dyn :: "vm \<Rightarrow> u64 \<Rightarrow> fault + (u64 \<times> u64) list" where
  "read_dyn m dyn =
     rbind (rd64 m dyn) (\<lambda>d_tag.
       if d_tag = 0 then Inr []
       else rbind (rd64 m (dyn + 8)) (\<lambda>d_val.
         if - 16 \<le> dyn then Inl (Segv 0)
         else rbind (read_dyn m (dyn + 16)) (\<lambda>ds. Inr ((d_tag, d_val) # ds))))"
  by pat_completeness auto
termination
proof (relation "measure (\<lambda>(m, a). 2 ^ 64 - unat a)")
  fix m and dyn d_tag d_val :: u64
  assume "\<not> - 16 \<le> dyn"
  then show "((m, dyn + 16), m, dyn) \<in> measure (\<lambda>(m, a). 2 ^ 64 - unat a)"
    using unat64_less [of "dyn + 16"] by (simp add: unat_next_entry)
qed simp

declare read_dyn.simps [simp del]

text \<open>One turn of the loop in \<^verbatim>\<open>parse_dynamic\<close>; the second component is \<open>strtab_va\<close>.\<close>

definition dyn_step :: "u64 \<times> u64 \<Rightarrow> Object \<times> u64 \<Rightarrow> Object \<times> u64" where
  "dyn_step d st = (case d of (d_tag, d_val) \<Rightarrow> case st of (obj, strtab_va) \<Rightarrow>
     let based = d_val + load_base obj in
     if d_tag = 5 then (obj, based)
     else if d_tag = 10 then (obj\<lparr>strsz := d_val\<rparr>, strtab_va)
     else if d_tag = 6 then (obj\<lparr>symtab := based\<rparr>, strtab_va)
     else if d_tag = 7 then (obj\<lparr>rela := based\<rparr>, strtab_va)
     else if d_tag = 8 then (obj\<lparr>rela_count := d_val div 24\<rparr>, strtab_va)
     else if d_tag = 23 then (obj\<lparr>jmprel := based\<rparr>, strtab_va)
     else if d_tag = 2 then (obj\<lparr>jmprel_count := d_val div 24\<rparr>, strtab_va)
     else if d_tag = 36 \<or> d_tag = 0x6fffe000 then (obj\<lparr>relr := based\<rparr>, strtab_va)
     else if d_tag = 35 \<or> d_tag = 0x6fffe001 then (obj\<lparr>relr_count := d_val div 8\<rparr>, strtab_va)
     else if d_tag = 0x60000011 then (obj\<lparr>android_rela := based\<rparr>, strtab_va)
     else if d_tag = 0x60000012 then (obj\<lparr>android_rela_size := d_val\<rparr>, strtab_va)
     else if d_tag = 0x6ffffef5 then (obj\<lparr>gnu_hash_tab := based\<rparr>, strtab_va)
     else if d_tag = 1 then
       (if length (needed_off obj) < MAX_NEEDED
        then (obj\<lparr>needed_off := needed_off obj @ [ucast d_val]\<rparr>, strtab_va) else (obj, strtab_va))
     else (obj, strtab_va))"

definition parse_dynamic :: "vm \<Rightarrow> Object \<Rightarrow> u64 \<Rightarrow> fault + Object" where
  "parse_dynamic m obj dyn_va =
     rbind (read_dyn m dyn_va) (\<lambda>ds.
       case fold dyn_step ds (obj, 0) of (obj', strtab_va) \<Rightarrow>
         Inr (if strtab_va \<noteq> 0 then obj'\<lparr>strtab := strtab_va\<rparr> else obj'))"

section \<open>Loading a shared object\<close>

text \<open>\<^verbatim>\<open>read_at\<close>: \<open>None\<close> for the result -1, otherwise the bytes it stored.\<close>

function read_loop :: "os \<Rightarrow> int \<Rightarrow> nat \<Rightarrow> nat \<Rightarrow> nat \<Rightarrow> u8 list \<Rightarrow> u8 list option" where
  "read_loop os fd off got len buf =
     (if got < len then
        (let (r, bs) = os_read os fd (off + got) (len - got) in
         if r \<le> 0 then None else read_loop os fd off (got + nat r) len (buf @ bs))
      else Some buf)"
  by pat_completeness auto
termination
  by (relation "measure (\<lambda>(os, fd, off, got, len, buf). len - got)") auto

declare read_loop.simps [simp del]

definition read_at :: "os \<Rightarrow> int \<Rightarrow> u64 \<Rightarrow> nat \<Rightarrow> u8 list option" where
  "read_at os fd off len =
     (if os_lseek os fd off < 0 then None else read_loop os fd (unat off) 0 len [])"

definition pf_to_prot :: "u32 \<Rightarrow> u32" where
  "pf_to_prot flags =
     (if flags AND PF_R \<noteq> 0 then PROT_READ else 0) OR
     (if flags AND PF_W \<noteq> 0 then PROT_WRITE else 0) OR
     (if flags AND PF_X \<noteq> 0 then PROT_EXEC else 0)"

definition lnk_memset :: "vm \<Rightarrow> u64 \<Rightarrow> u8 \<Rightarrow> u64 \<Rightarrow> fault + vm" where
  "lnk_memset m a c n = wr_bytes m a (replicate (unat n) c)"

text \<open>The extent of the loadable segments: \<open>load_min\<close> and \<open>load_max\<close> before rounding.\<close>

definition extent_step :: "Elf64_Phdr \<Rightarrow> u64 \<times> u64 \<Rightarrow> u64 \<times> u64" where
  "extent_step ph lm = (case lm of (load_min, load_max) \<Rightarrow>
     if p_type ph \<noteq> PT_LOAD then (load_min, load_max)
     else (let e = p_vaddr ph + p_memsz ph in
       (if p_vaddr ph < load_min then p_vaddr ph else load_min,
        if load_max < e then e else load_max)))"

definition load_extent :: "Elf64_Phdr list \<Rightarrow> u64 \<times> u64" where
  "load_extent phdrs = fold extent_step phdrs (- 1, 0)"

definition clear_bss :: "u64 \<Rightarrow> Elf64_Phdr \<Rightarrow> vm \<Rightarrow> fault + vm" where
  "clear_bss base ph m =
     (if p_filesz ph < p_memsz ph
      then lnk_memset m (p_vaddr ph + p_filesz ph + base) 0 (p_memsz ph - p_filesz ph)
      else Inr m)"

definition map_segment :: "os \<Rightarrow> int \<Rightarrow> u64 \<Rightarrow> Elf64_Phdr \<Rightarrow> proc \<Rightarrow> fault + proc" where
  "map_segment os fd base ph p =
     (if p_type ph \<noteq> PT_LOAD then Inr p
      else
        let seg_start = PAGE_ALIGN_DOWN (p_vaddr ph) + base;
            seg_end = PAGE_ALIGN_UP (p_vaddr ph + p_memsz ph) + base;
            file_off = PAGE_ALIGN_DOWN (p_offset ph);
            final_prot = pf_to_prot (p_flags ph);
            (r, p1) = sys_mmap os p seg_start (seg_end - seg_start) (PROT_READ OR PROT_WRITE)
                        (MAP_PRIVATE OR MAP_FIXED) fd file_off
        in if r <s 0 then Inl (Fatal ''mmap segment'')
           else rbind (clear_bss base ph (mem p1)) (\<lambda>m.
             let p2 = p1\<lparr>mem := m\<rparr>
             in Inr (if final_prot \<noteq> PROT_READ OR PROT_WRITE
                     then sys_mprotect os p2 seg_start (seg_end - seg_start) final_prot
                     else p2)))"

text \<open>The last loop of \<^verbatim>\<open>load_so\<close>: \<^verbatim>\<open>PT_DYNAMIC\<close> and \<^verbatim>\<open>PT_TLS\<close>.\<close>

definition dynamic_and_tls :: "vm \<Rightarrow> Elf64_Phdr \<Rightarrow> Object \<Rightarrow> fault + Object" where
  "dynamic_and_tls m ph obj =
     (if p_type ph = PT_DYNAMIC then parse_dynamic m obj (p_vaddr ph + load_base obj)
      else if p_type ph = PT_TLS
      then Inr (obj\<lparr>tls_vaddr := p_vaddr ph, tls_filesz := p_filesz ph, tls_memsz := p_memsz ph\<rparr>)
      else Inr obj)"

text \<open>The file header and the program headers, read into local variables.\<close>

definition read_phdrs :: "os \<Rightarrow> int \<Rightarrow> fault + Elf64_Phdr list" where
  "read_phdrs os fd =
     (case read_at os fd 0 64 of None \<Rightarrow> Inl (Fatal ''read ELF header'')
      | Some hdr \<Rightarrow>
        let ehdr = ehdr_of_bytes hdr; phnum = unat (e_phnum ehdr) in
        if phnum > 16 then Inl (Fatal ''too many phdrs'')
        else case read_at os fd (e_phoff ehdr) (phnum * 56) of
          None \<Rightarrow> Inl (Fatal ''read phdrs'')
        | Some tab \<Rightarrow> Inr (phdrs_of_bytes phnum tab))"

definition load_so :: "os \<Rightarrow> int \<Rightarrow> Object \<Rightarrow> proc \<Rightarrow> fault + Object \<times> proc" where
  "load_so os fd obj p =
     rbind (read_phdrs os fd) (\<lambda>phdrs.
       let (lo, hi) = load_extent phdrs;
           load_min = PAGE_ALIGN_DOWN lo;
           load_max = PAGE_ALIGN_UP hi;
           (base, p1) = sys_mmap os p 0 (load_max - load_min) PROT_NONE
                          (MAP_PRIVATE OR MAP_ANONYMOUS) (- 1) 0
       in if base <s 0 then Inl (Fatal ''mmap reserve'')
          else let obj1 = obj\<lparr>load_base := base - load_min\<rparr>
               in rbind (foldM (map_segment os fd (load_base obj1)) phdrs p1) (\<lambda>p2.
                  rbind (foldM (dynamic_and_tls (mem p2)) phdrs obj1) (\<lambda>obj2.
                  Inr (obj2, p2))))"

section \<open>Reading files\<close>

text \<open>
  \<^verbatim>\<open>read(2)\<close> on a regular file: at a position inside the file it returns at least one
  and at most the requested number of bytes, those of the file at that position.
\<close>

definition reads_file :: "os \<Rightarrow> int \<Rightarrow> bool" where
  "reads_file os fd \<longleftrightarrow>
     (\<forall>pos want. 0 < want \<longrightarrow> pos < length (os_file os fd) \<longrightarrow>
       (\<exists>k. 0 < k \<and> k \<le> want \<and> pos + k \<le> length (os_file os fd) \<and>
            os_read os fd pos want = (int k, take k (drop pos (os_file os fd)))))"

lemma read_loop_eq:
  assumes "reads_file os fd" and "off + len \<le> length (os_file os fd)" and "got \<le> len"
    and "buf = take got (drop off (os_file os fd))"
  shows "read_loop os fd off got len buf = Some (take len (drop off (os_file os fd)))"
  using assms
proof (induction os fd off got len buf rule: read_loop.induct)
  case (1 os fd off got len buf)
  let ?f = "os_file os fd"
  show ?case
  proof (cases "got < len")
    case True
    then have "0 < len - got" "off + got < length ?f" using 1(3) by simp_all
    then obtain k where k: "0 < k" "k \<le> len - got" "off + got + k \<le> length ?f"
      "os_read os fd (off + got) (len - got) = (int k, take k (drop (off + got) ?f))"
      using 1(2) [unfolded reads_file_def] by blast
    have "read_loop os fd off (got + k) len (buf @ take k (drop (off + got) ?f)) =
        Some (take len (drop off ?f))"
      using 1(1) [OF True k(4) [symmetric] refl] 1(2-5) k
      by (simp add: take_add add.commute)
    then show ?thesis using True k by (subst read_loop.simps) simp
  next
    case False
    then show ?thesis using 1 by (subst read_loop.simps) simp
  qed
qed

section \<open>The auxiliary vector and the dynamic section\<close>

text \<open>The memory at \<open>a\<close> holds the given pairs, then a zero tag.\<close>

fun table_at :: "vm \<Rightarrow> u64 \<Rightarrow> (u64 \<times> u64) list \<Rightarrow> bool" where
  "table_at m a [] \<longleftrightarrow> rd64 m a = Inr 0"
| "table_at m a ((t, v) # es) \<longleftrightarrow>
     t \<noteq> 0 \<and> rd64 m a = Inr t \<and> rd64 m (a + 8) = Inr v \<and> \<not> - 16 \<le> a \<and> table_at m (a + 16) es"

lemma read_dyn_table: "table_at m a es \<Longrightarrow> read_dyn m a = Inr es"
  by (induction es arbitrary: a rule: list.induct) (auto simp: read_dyn.simps)

lemma auxv_get_table:
  "table_at m a es \<Longrightarrow> auxv_get m a t = Inr (case map_of es t of None \<Rightarrow> 0 | Some v \<Rightarrow> v)"
  by (induction es arbitrary: a rule: list.induct) (auto simp: auxv_get.simps AT_NULL_def)

lemma read_dyn_Inr_table: "read_dyn m a = Inr es \<Longrightarrow> table_at m a es"
proof (induction es arbitrary: a)
  case Nil
  then show ?case
    by (subst (asm) read_dyn.simps) (auto simp: rbind_eq_Inr_iff split: if_splits)
next
  case (Cons e es)
  then show ?case
    by (subst (asm) read_dyn.simps) (auto simp: rbind_eq_Inr_iff split: if_splits)
qed

text \<open>What one entry of the dynamic section can change.\<close>

lemma dyn_step_keeps:
  "load_base (fst (dyn_step d st)) = load_base (fst st)" "soname (fst (dyn_step d st)) = soname (fst st)"
  "path (fst (dyn_step d st)) = path (fst st)" "strtab (fst (dyn_step d st)) = strtab (fst st)"
  by (simp_all add: dyn_step_def Let_def split_beta)

lemma dyn_step_needed:
  "needed_off (fst (dyn_step d st)) =
     (if fst d = 1 \<and> length (needed_off (fst st)) < MAX_NEEDED
      then needed_off (fst st) @ [ucast (snd d)] else needed_off (fst st))"
  by (simp add: dyn_step_def Let_def split_beta)

lemma dyn_step_strtab: "snd (dyn_step d st) = (if fst d = 5 then snd d + load_base (fst st) else snd st)"
  by (simp add: dyn_step_def Let_def split_beta)

lemma fold_dyn_step_keeps:
  "load_base (fst (fold dyn_step ds st)) = load_base (fst st)"
  "soname (fst (fold dyn_step ds st)) = soname (fst st)"
  "path (fst (fold dyn_step ds st)) = path (fst st)"
  "strtab (fst (fold dyn_step ds st)) = strtab (fst st)"
  by (induction ds arbitrary: st) (simp_all add: dyn_step_keeps)

lemma fold_dyn_step_needed:
  "length (needed_off (fst st)) \<le> MAX_NEEDED \<Longrightarrow>
     needed_off (fst (fold dyn_step ds st)) =
       take MAX_NEEDED (needed_off (fst st) @ map (\<lambda>d. ucast (snd d)) (filter (\<lambda>d. fst d = 1) ds))"
proof (induction ds arbitrary: st)
  case (Cons d ds)
  then have "length (needed_off (fst (dyn_step d st))) \<le> MAX_NEEDED" by (simp add: dyn_step_needed)
  from Cons.IH [OF this] Cons.prems show ?case by (simp add: dyn_step_needed take_Cons')
qed simp

lemma fold_dyn_step_strtab:
  "snd (fold dyn_step ds st) =
     (case map_of (rev ds) 5 of None \<Rightarrow> snd st | Some v \<Rightarrow> v + load_base (fst st))"
proof (induction ds arbitrary: st)
  case (Cons d ds)
  then show ?case
    by (cases d) (simp add: dyn_step_strtab dyn_step_keeps map_of_append map_add_def split: option.splits)
qed simp

lemma parse_dynamic_alt:
  "parse_dynamic m obj a = rbind (read_dyn m a) (\<lambda>ds.
     let st = fold dyn_step ds (obj, 0) in Inr (if snd st \<noteq> 0 then (fst st)\<lparr>strtab := snd st\<rparr> else fst st))"
  by (simp add: parse_dynamic_def Let_def split_beta)

lemma parse_dynamic_keeps:
  assumes "parse_dynamic m obj a = Inr obj'"
  shows "load_base obj' = load_base obj" "soname obj' = soname obj" "path obj' = path obj"
  using assms by (auto simp: parse_dynamic_alt Let_def rbind_eq_Inr_iff fold_dyn_step_keeps)

section \<open>Segments\<close>

text \<open>
  A loadable segment whose end does not wrap, with its file part inside its memory part and
  its address and file offset congruent modulo the page size, as the ELF specification
  demands.
\<close>

definition seg_ok :: "Elf64_Phdr \<Rightarrow> bool" where
  "seg_ok ph \<longleftrightarrow> p_type ph = PT_LOAD \<and> unat (p_vaddr ph) + unat (p_memsz ph) + 4095 < 2 ^ 64
     \<and> p_filesz ph \<le> p_memsz ph \<and> unat (p_vaddr ph) mod 4096 = unat (p_offset ph) mod 4096"

definition seg_start :: "u64 \<Rightarrow> Elf64_Phdr \<Rightarrow> u64" where
  "seg_start base ph = PAGE_ALIGN_DOWN (p_vaddr ph) + base"

definition seg_len :: "Elf64_Phdr \<Rightarrow> u64" where
  "seg_len ph = PAGE_ALIGN_UP (p_vaddr ph + p_memsz ph) - PAGE_ALIGN_DOWN (p_vaddr ph)"

definition in_seg :: "u64 \<Rightarrow> Elf64_Phdr \<Rightarrow> u64 \<Rightarrow> bool" where
  "in_seg base ph x \<longleftrightarrow> in_range (seg_start base ph) (seg_len ph) x"

lemma map_segment_alt:
  "map_segment os fd base ph p =
     (if p_type ph \<noteq> PT_LOAD then Inr p
      else case sys_mmap os p (seg_start base ph) (seg_len ph) (PROT_READ OR PROT_WRITE)
                  (MAP_PRIVATE OR MAP_FIXED) fd (PAGE_ALIGN_DOWN (p_offset ph)) of (r, p1) \<Rightarrow>
        if r <s 0 then Inl (Fatal ''mmap segment'')
        else rbind (clear_bss base ph (mem p1)) (\<lambda>m.
          Inr (if pf_to_prot (p_flags ph) \<noteq> PROT_READ OR PROT_WRITE
               then sys_mprotect os (p1\<lparr>mem := m\<rparr>) (seg_start base ph) (seg_len ph) (pf_to_prot (p_flags ph))
               else p1\<lparr>mem := m\<rparr>)))"
proof -
  have "PAGE_ALIGN_UP (p_vaddr ph + p_memsz ph) + base - (PAGE_ALIGN_DOWN (p_vaddr ph) + base) = seg_len ph"
    by (simp add: seg_len_def)
  then show ?thesis by (simp only: map_segment_def Let_def seg_start_def)
qed

lemma map_segment_Inr:
  assumes "map_segment os fd base ph p = Inr p'" and "p_type ph = PT_LOAD"
    and "sys_mmap os p (seg_start base ph) (seg_len ph) (PROT_READ OR PROT_WRITE)
           (MAP_PRIVATE OR MAP_FIXED) fd (PAGE_ALIGN_DOWN (p_offset ph)) = (r, p1)"
  shows "\<not> r <s 0" and "\<exists>m. clear_bss base ph (mem p1) = Inr m \<and>
    p' = (if pf_to_prot (p_flags ph) \<noteq> PROT_READ OR PROT_WRITE
          then sys_mprotect os (p1\<lparr>mem := m\<rparr>) (seg_start base ph) (seg_len ph) (pf_to_prot (p_flags ph))
          else p1\<lparr>mem := m\<rparr>)"
proof -
  show r: "\<not> r <s 0" using assms by (auto simp: map_segment_alt)
  then show "\<exists>m. clear_bss base ph (mem p1) = Inr m \<and>
    p' = (if pf_to_prot (p_flags ph) \<noteq> PROT_READ OR PROT_WRITE
          then sys_mprotect os (p1\<lparr>mem := m\<rparr>) (seg_start base ph) (seg_len ph) (pf_to_prot (p_flags ph))
          else p1\<lparr>mem := m\<rparr>)"
    using assms by (cases "clear_bss base ph (mem p1)") (simp_all add: map_segment_alt)
qed

lemma clear_bss_same_perms: "clear_bss base ph m = Inr m' \<Longrightarrow> same_perms m m'"
  by (auto simp: clear_bss_def lnk_memset_def split: if_split_asm dest: wr_bytes_same_perms)

lemma seg_geometry:
  assumes "seg_ok ph"
  shows "unat (seg_len ph) = (unat (p_vaddr ph) + unat (p_memsz ph) + 4095) div 4096 * 4096
           - (unat (p_vaddr ph) - unat (p_vaddr ph) mod 4096)" (is "_ = ?up - ?down")
    and "unat (PAGE_ALIGN_UP (seg_len ph)) = unat (seg_len ph)"
proof -
  let ?v = "unat (p_vaddr ph)" and ?n = "unat (p_memsz ph)"
  have vn: "unat (p_vaddr ph + p_memsz ph) = ?v + ?n"
    using assms by (subst unat_add_lem [THEN iffD1]) (simp_all add: seg_ok_def)
  have up: "unat (PAGE_ALIGN_UP (p_vaddr ph + p_memsz ph)) = ?up"
    using assms by (subst unat_PAGE_ALIGN_UP) (simp_all add: vn seg_ok_def)
  have "?down \<le> ?up" using round_up_ge [of "?v + ?n"] by linarith
  then have "PAGE_ALIGN_DOWN (p_vaddr ph) \<le> PAGE_ALIGN_UP (p_vaddr ph + p_memsz ph)"
    by (simp add: word_le_nat_alt up unat_PAGE_ALIGN_DOWN)
  then show len: "unat (seg_len ph) = ?up - ?down"
    by (simp add: seg_len_def unat_sub up unat_PAGE_ALIGN_DOWN)
  moreover have "4096 dvd ?up" by simp
  ultimately have "4096 dvd unat (seg_len ph)" by (simp only: dvd_diff_nat round_down_multiple)
  then show "unat (PAGE_ALIGN_UP (seg_len ph)) = unat (seg_len ph)"
    using multiple_below [OF _ unat64_less] by (simp add: unat_PAGE_ALIGN_UP round_up_multiple)
qed

lemma seg_offset:
  assumes "seg_ok ph" and "i < unat (p_memsz ph)"
  shows "unat (p_vaddr ph + base + of_nat i - seg_start base ph) = unat (p_vaddr ph) mod 4096 + i"
proof -
  have i: "unat (of_nat i :: u64) = i"
    using assms(2) unat64_less [of "p_memsz ph"] by (simp add: unat_of_nat)
  have "p_vaddr ph + base + of_nat i - seg_start base ph = (p_vaddr ph - PAGE_ALIGN_DOWN (p_vaddr ph)) + of_nat i"
    by (simp add: seg_start_def)
  moreover have "unat (p_vaddr ph) mod 4096 + i < 2 ^ 64"
    using assms mod_le_divisor [of 4096 "unat (p_vaddr ph)"] mod_less_eq_dividend [of "unat (p_vaddr ph)" 4096]
    unfolding seg_ok_def by linarith
  ultimately show ?thesis
    by (simp only: unat_word_ariths PAGE_ALIGN_DOWN_offset i) simp
qed

lemma seg_byte_in_seg:
  assumes "seg_ok ph" and "i < unat (p_memsz ph)"
  shows "in_seg base ph (p_vaddr ph + base + of_nat i)"
proof -
  let ?v = "unat (p_vaddr ph)"
  have "?v mod 4096 + i < (?v + unat (p_memsz ph) + 4095) div 4096 * 4096 - (?v - ?v mod 4096)"
    using assms(2) round_up_ge [of "?v + unat (p_memsz ph)"] mod_less_eq_dividend [of ?v 4096]
    by linarith
  then show ?thesis
    unfolding in_seg_def in_range_def seg_offset [OF assms] seg_geometry(2) [OF assms(1)]
      seg_geometry(1) [OF assms(1)] .
qed

text \<open>\<^verbatim>\<open>MAP_FIXED\<close>: the mapping is placed at the requested address or the call fails.\<close>

definition honours_fixed :: "os \<Rightarrow> bool" where
  "honours_fixed os \<longleftrightarrow> (\<forall>n a len pr fd off.
     let r = os_mmap os n a len pr (MAP_PRIVATE OR MAP_FIXED) fd off in r = a \<or> r <s 0)"

text \<open>The bytes of a segment that the file does not supply.\<close>

definition bss :: "u64 \<Rightarrow> Elf64_Phdr \<Rightarrow> u64 set" where
  "bss base ph = span (p_vaddr ph + p_filesz ph + base) (unat (p_memsz ph - p_filesz ph))"

lemma bss_eq:
  assumes "seg_ok ph"
  shows "bss base ph = (\<lambda>i. p_vaddr ph + base + of_nat i) ` {unat (p_filesz ph)..<unat (p_memsz ph)}"
proof -
  have n: "unat (p_memsz ph - p_filesz ph) = unat (p_memsz ph) - unat (p_filesz ph)"
    using assms by (simp add: seg_ok_def unat_sub)
  have "{unat (p_filesz ph)..<unat (p_memsz ph)} = (+) (unat (p_filesz ph)) ` {..<unat (p_memsz ph) - unat (p_filesz ph)}"
    using assms by (simp add: seg_ok_def word_le_nat_alt lessThan_atLeast0)
  then show ?thesis by (simp add: bss_def span_def n image_image algebra_simps)
qed

lemma bss_in_seg: "seg_ok ph \<Longrightarrow> x \<in> bss base ph \<Longrightarrow> in_seg base ph x"
  by (auto simp: bss_eq intro: seg_byte_in_seg)

lemma file_byte_not_bss:
  assumes "seg_ok ph" and "i < unat (p_filesz ph)"
  shows "p_vaddr ph + base + of_nat i \<notin> bss base ph"
proof
  assume "p_vaddr ph + base + of_nat i \<in> bss base ph"
  then obtain j where j: "unat (p_filesz ph) \<le> j" "j < unat (p_memsz ph)" "of_nat i = (of_nat j :: u64)"
    using assms(1) by (auto simp: bss_eq)
  then have "i = j" using assms(2) unat64_less [of "p_memsz ph"] by (subst (asm) of_nat64_eq_iff) auto
  then show False using j assms(2) by simp
qed

text \<open>The memory right after the file has been mapped for a segment.\<close>

definition seg_mapped :: "os \<Rightarrow> int \<Rightarrow> u64 \<Rightarrow> Elf64_Phdr \<Rightarrow> proc \<Rightarrow> vm" where
  "seg_mapped os fd base ph p =
     map_pages (mem p) (seg_start base ph) (seg_len ph) (PROT_READ OR PROT_WRITE)
       (Some (os_file os fd)) (PAGE_ALIGN_DOWN (p_offset ph))"

lemma map_segment_bytes:
  assumes "map_segment os fd base ph p = Inr p'" and "seg_ok ph" and "honours_fixed os"
  shows "\<exists>m2. wr_bytes (seg_mapped os fd base ph p) (p_vaddr ph + p_filesz ph + base)
               (replicate (unat (p_memsz ph - p_filesz ph)) 0) = Inr m2 \<and>
      data (mem p') = data m2 \<and> past_eof (mem p') = past_eof m2 \<and>
      (\<forall>x. \<not> in_seg base ph x \<longrightarrow> prot (mem p') x = prot m2 x) \<and>
      (prot (mem p') = prot m2 \<or> (\<forall>x. in_seg base ph x \<longrightarrow> prot (mem p') x = pf_to_prot (p_flags ph)))"
proof -
  let ?a = "seg_start base ph" and ?off = "PAGE_ALIGN_DOWN (p_offset ph)"
  obtain r p1 where r: "sys_mmap os p ?a (seg_len ph) (PROT_READ OR PROT_WRITE)
      (MAP_PRIVATE OR MAP_FIXED) fd ?off = (r, p1)" by fastforce
  have load: "p_type ph = PT_LOAD" using assms(2) by (simp add: seg_ok_def)
  note ok = map_segment_Inr(1) [OF assms(1) load r]
  have anon: "(MAP_PRIVATE OR MAP_FIXED) AND MAP_ANONYMOUS = 0"
    by (simp add: MAP_PRIVATE_def MAP_FIXED_def MAP_ANONYMOUS_def)
  have rd: "r = os_mmap os (calls p) ?a (seg_len ph) (PROT_READ OR PROT_WRITE) (MAP_PRIVATE OR MAP_FIXED) fd ?off"
    using r by (auto simp: sys_mmap_def Let_def split: if_splits)
  then have "r = ?a" using assms(3) ok unfolding honours_fixed_def Let_def by blast
  with r ok rd have p1: "mem p1 = seg_mapped os fd base ph p"
    by (auto simp: sys_mmap_def seg_mapped_def Let_def anon split: if_splits)
  obtain m2 where m2: "clear_bss base ph (mem p1) = Inr m2"
    "p' = (if pf_to_prot (p_flags ph) \<noteq> PROT_READ OR PROT_WRITE
           then sys_mprotect os (p1\<lparr>mem := m2\<rparr>) ?a (seg_len ph) (pf_to_prot (p_flags ph))
           else p1\<lparr>mem := m2\<rparr>)"
    using map_segment_Inr(2) [OF assms(1) load r] by blast
  moreover have "wr_bytes (mem p1) (p_vaddr ph + p_filesz ph + base) (replicate (unat (p_memsz ph - p_filesz ph)) 0) = Inr m2"
    using m2(1) assms(2) by (auto simp: clear_bss_def lnk_memset_def seg_ok_def split: if_split_asm)
  ultimately show ?thesis
    by (intro exI [of _ m2]) (auto simp: p1 sys_mprotect_def Let_def in_seg_def)
qed

lemma map_segment_frame:
  assumes "map_segment os fd base ph p = Inr p'" and "p_type ph = PT_LOAD \<longrightarrow> seg_ok ph \<and> \<not> in_seg base ph x"
    and "honours_fixed os"
  shows "data (mem p') x = data (mem p) x \<and> prot (mem p') x = prot (mem p) x
    \<and> past_eof (mem p') x = past_eof (mem p) x"
proof (cases "p_type ph = PT_LOAD")
  case True
  then have ok: "seg_ok ph" and x: "\<not> in_seg base ph x" using assms by auto
  let ?m1 = "seg_mapped os fd base ph p"
  obtain m2 where m:
    "wr_bytes ?m1 (p_vaddr ph + p_filesz ph + base) (replicate (unat (p_memsz ph - p_filesz ph)) 0) = Inr m2"
    "data (mem p') = data m2" "past_eof (mem p') = past_eof m2" "prot (mem p') x = prot m2 x"
    using map_segment_bytes [OF assms(1) ok assms(3)] x by blast
  have "x \<notin> bss base ph" using bss_in_seg [OF ok] x by blast
  then have "data m2 x = data ?m1 x" using wr_bytes_frame [OF m(1)] by (simp add: bss_def)
  moreover have "prot m2 = prot ?m1" "past_eof m2 = past_eof ?m1"
    using wr_bytes_same_perms [OF m(1)] by (simp_all add: same_perms_def)
  ultimately show ?thesis using m(2-4) x by (simp add: seg_mapped_def map_pages_def in_seg_def)
qed (use assms(1) in \<open>simp add: map_segment_def\<close>)

text \<open>The image of a segment: the file's bytes, then zeroes.\<close>

definition seg_image :: "u8 list \<Rightarrow> u64 \<Rightarrow> Elf64_Phdr \<Rightarrow> vm \<Rightarrow> bool" where
  "seg_image file base ph m \<longleftrightarrow>
     (\<forall>i < unat (p_filesz ph). unat (p_offset ph) + i < length file \<longrightarrow>
        data m (p_vaddr ph + base + of_nat i) = file ! (unat (p_offset ph) + i)) \<and>
     (\<forall>i. unat (p_filesz ph) \<le> i \<longrightarrow> i < unat (p_memsz ph) \<longrightarrow>
        data m (p_vaddr ph + base + of_nat i) = 0)"

lemma map_segment_image:
  assumes "map_segment os fd base ph p = Inr p'" and ok: "seg_ok ph" and "honours_fixed os"
  shows "seg_image (os_file os fd) base ph (mem p')"
proof -
  let ?m1 = "seg_mapped os fd base ph p"
  obtain m2 where m:
    "wr_bytes ?m1 (p_vaddr ph + p_filesz ph + base) (replicate (unat (p_memsz ph - p_filesz ph)) 0) = Inr m2"
    "data (mem p') = data m2"
    using map_segment_bytes [OF assms] by blast
  have "data m2 (p_vaddr ph + base + of_nat i) = os_file os fd ! (unat (p_offset ph) + i)"
    if i: "i < unat (p_filesz ph)" "unat (p_offset ph) + i < length (os_file os fd)" for i
  proof -
    let ?x = "p_vaddr ph + base + of_nat i"
    have im: "i < unat (p_memsz ph)" using i(1) ok by (auto simp: seg_ok_def word_le_nat_alt)
    have "unat (PAGE_ALIGN_DOWN (p_offset ph)) + unat (?x - seg_start base ph) = unat (p_offset ph) + i"
      using ok mod_less_eq_dividend [of "unat (p_offset ph)" 4096]
      by (simp add: seg_offset [OF ok im] unat_PAGE_ALIGN_DOWN seg_ok_def)
    then have "data ?m1 ?x = os_file os fd ! (unat (p_offset ph) + i)"
      using seg_byte_in_seg [OF ok im, of base] i(2) by (simp add: seg_mapped_def map_pages_def in_seg_def)
    moreover have "data m2 ?x = data ?m1 ?x"
      using wr_bytes_frame [OF m(1)] file_byte_not_bss [OF ok i(1)] by (simp add: bss_def)
    ultimately show ?thesis by simp
  qed
  moreover have "data m2 (p_vaddr ph + base + of_nat i) = 0"
    if "unat (p_filesz ph) \<le> i" "i < unat (p_memsz ph)" for i
  proof -
    let ?n = "unat (p_memsz ph - p_filesz ph)" and ?b = "p_vaddr ph + p_filesz ph + base"
    have "p_vaddr ph + base + of_nat i \<in> bss base ph" using that ok by (simp add: bss_eq)
    then obtain j where j: "j < ?n" "p_vaddr ph + base + of_nat i = ?b + of_nat j"
      by (auto simp: bss_def span_def)
    have "map (\<lambda>i. data m2 (?b + of_nat i)) [0..<?n] = replicate ?n 0"
      using wr_bytes_stored [OF m(1)] unat64_less [of "p_memsz ph - p_filesz ph"] by simp
    then have "map (\<lambda>i. data m2 (?b + of_nat i)) [0..<?n] ! j = 0" using j(1) by simp
    then have "data m2 (?b + of_nat j) = 0" using j(1) by simp
    then show ?thesis by (simp only: j(2))
  qed
  ultimately show ?thesis by (simp add: seg_image_def m(2))
qed

text \<open>Segments that share no page.\<close>

definition segs_apart :: "u64 \<Rightarrow> Elf64_Phdr list \<Rightarrow> bool" where
  "segs_apart base phdrs \<longleftrightarrow> sorted_wrt (\<lambda>p q. p_type p = PT_LOAD \<longrightarrow> p_type q = PT_LOAD \<longrightarrow>
     (\<forall>x. \<not> (in_seg base p x \<and> in_seg base q x))) phdrs"

lemma foldM_map_segment_frame:
  assumes "foldM (map_segment os fd base) phdrs p = Inr p'" and "honours_fixed os"
    and "\<forall>ph \<in> set phdrs. p_type ph = PT_LOAD \<longrightarrow> seg_ok ph \<and> \<not> in_seg base ph x"
  shows "data (mem p') x = data (mem p) x"
  using assms
proof (induction phdrs arbitrary: p)
  case (Cons ph phdrs)
  then obtain p1 where "map_segment os fd base ph p = Inr p1" "foldM (map_segment os fd base) phdrs p1 = Inr p'"
    by (auto simp: rbind_eq_Inr_iff)
  with Cons show ?case using map_segment_frame by fastforce
qed simp

lemma seg_image_cong:
  assumes "seg_ok ph" and "\<And>x. in_seg base ph x \<Longrightarrow> data m' x = data m x"
  shows "seg_image file base ph m' = seg_image file base ph m"
proof -
  have eq: "data m' (p_vaddr ph + base + of_nat i) = data m (p_vaddr ph + base + of_nat i)"
    if "i < unat (p_memsz ph)" for i
    using assms(2) seg_byte_in_seg [OF assms(1) that] by blast
  have "i < unat (p_memsz ph)" if "i < unat (p_filesz ph)" for i
    using that assms(1) by (simp add: seg_ok_def word_le_nat_alt)
  with eq show ?thesis by (simp add: seg_image_def)
qed

lemma foldM_map_segment_image:
  assumes "foldM (map_segment os fd base) phdrs p = Inr p'" and "honours_fixed os"
    and "\<forall>ph \<in> set phdrs. p_type ph = PT_LOAD \<longrightarrow> seg_ok ph" and "segs_apart base phdrs"
    and "ph \<in> set phdrs" and "p_type ph = PT_LOAD"
  shows "seg_image (os_file os fd) base ph (mem p')"
  using assms
proof (induction phdrs arbitrary: p)
  case (Cons q phdrs)
  then obtain p1 where p1: "map_segment os fd base q p = Inr p1"
    "foldM (map_segment os fd base) phdrs p1 = Inr p'"
    by (auto simp: rbind_eq_Inr_iff)
  show ?case
  proof (cases "ph = q")
    case True
    then have ok: "seg_ok ph" using Cons.prems by simp
    have "seg_image (os_file os fd) base ph (mem p1)"
      using map_segment_image [OF p1(1)] ok True Cons.prems(2) by simp
    moreover have "data (mem p') x = data (mem p1) x" if "in_seg base ph x" for x
      using foldM_map_segment_frame [OF p1(2) Cons.prems(2), of x] Cons.prems(3,4,6) that True
      by (auto simp: segs_apart_def)
    ultimately show ?thesis using seg_image_cong [OF ok] by blast
  next
    case False
    then show ?thesis using Cons.IH [OF p1(2)] Cons.prems by (simp add: segs_apart_def)
  qed
qed simp

section \<open>Write xor execute\<close>

definition wx_free :: "vm \<Rightarrow> bool" where
  "wx_free m \<longleftrightarrow> (\<forall>x. \<not> (writable m x \<and> executable m x))"

definition wx_prot :: "u32 \<Rightarrow> bool" where
  "wx_prot pr \<longleftrightarrow> pr AND PROT_WRITE \<noteq> 0 \<and> pr AND PROT_EXEC \<noteq> 0"

lemma wx_free_alt: "wx_free m \<longleftrightarrow> (\<forall>x. \<not> wx_prot (prot m x))"
  by (simp add: wx_free_def wx_prot_def writable_def executable_def)

lemma wx_free_same_perms: "same_perms m m' \<Longrightarrow> wx_free m' = wx_free m"
  by (simp add: same_perms_def wx_free_alt)

lemma sys_mmap_wx: "sys_mmap os p a len pr fl fd off = (r, p') \<Longrightarrow> \<not> wx_prot pr \<Longrightarrow> wx_free (mem p) \<Longrightarrow> wx_free (mem p')"
  by (auto simp: sys_mmap_def Let_def map_pages_def wx_free_alt split: if_splits)

lemma sys_mprotect_wx: "\<not> wx_prot pr \<Longrightarrow> wx_free (mem p) \<Longrightarrow> wx_free (mem (sys_mprotect os p a len pr))"
  by (auto simp: sys_mprotect_def Let_def wx_free_alt)

lemma wx_prot_pf: "wx_prot (pf_to_prot flags) \<longleftrightarrow> flags AND PF_W \<noteq> 0 \<and> flags AND PF_X \<noteq> 0"
  by (simp add: wx_prot_def pf_to_prot_def PROT_READ_def PROT_WRITE_def PROT_EXEC_def)

lemma map_segment_wx:
  assumes "map_segment os fd base ph p = Inr p'" and "wx_free (mem p)"
    and "p_type ph = PT_LOAD \<Longrightarrow> \<not> (p_flags ph AND PF_W \<noteq> 0 \<and> p_flags ph AND PF_X \<noteq> 0)"
  shows "wx_free (mem p')"
proof (cases "p_type ph = PT_LOAD")
  case True
  have rw: "\<not> wx_prot (PROT_READ OR PROT_WRITE)"
    by (simp add: wx_prot_def PROT_READ_def PROT_WRITE_def PROT_EXEC_def)
  obtain r p1 where r: "sys_mmap os p (seg_start base ph) (seg_len ph) (PROT_READ OR PROT_WRITE)
      (MAP_PRIVATE OR MAP_FIXED) fd (PAGE_ALIGN_DOWN (p_offset ph)) = (r, p1)" by fastforce
  obtain m where m: "clear_bss base ph (mem p1) = Inr m"
    "p' = (if pf_to_prot (p_flags ph) \<noteq> PROT_READ OR PROT_WRITE
      then sys_mprotect os (p1\<lparr>mem := m\<rparr>) (seg_start base ph) (seg_len ph) (pf_to_prot (p_flags ph))
      else p1\<lparr>mem := m\<rparr>)"
    using map_segment_Inr(2) [OF assms(1) True r] by blast
  have "same_perms (mem p1) m" using clear_bss_same_perms [OF m(1)] .
  then have m_wx: "wx_free (mem (p1\<lparr>mem := m\<rparr>))"
    using sys_mmap_wx [OF r rw assms(2)] wx_free_same_perms by simp
  have "\<not> wx_prot (pf_to_prot (p_flags ph))" using assms(3) [OF True] by (simp add: wx_prot_pf)
  from sys_mprotect_wx [OF this m_wx] m_wx show ?thesis unfolding m(2) by (auto split: if_split)
qed (use assms in \<open>simp add: map_segment_def\<close>)

section \<open>Loading\<close>

text \<open>The address of the reservation and the state after it.\<close>

definition reserve :: "os \<Rightarrow> proc \<Rightarrow> Elf64_Phdr list \<Rightarrow> u64 \<times> proc" where
  "reserve os p phdrs =
     sys_mmap os p 0 (PAGE_ALIGN_UP (snd (load_extent phdrs)) - PAGE_ALIGN_DOWN (fst (load_extent phdrs)))
       PROT_NONE (MAP_PRIVATE OR MAP_ANONYMOUS) (- 1) 0"

definition so_base :: "os \<Rightarrow> proc \<Rightarrow> Elf64_Phdr list \<Rightarrow> u64" where
  "so_base os p phdrs = fst (reserve os p phdrs) - PAGE_ALIGN_DOWN (fst (load_extent phdrs))"

lemma load_so_alt:
  "load_so os fd obj p =
     rbind (read_phdrs os fd) (\<lambda>phdrs.
       if fst (reserve os p phdrs) <s 0 then Inl (Fatal ''mmap reserve'')
       else rbind (foldM (map_segment os fd (so_base os p phdrs)) phdrs (snd (reserve os p phdrs))) (\<lambda>p2.
            rbind (foldM (dynamic_and_tls (mem p2)) phdrs (obj\<lparr>load_base := so_base os p phdrs\<rparr>)) (\<lambda>obj2.
            Inr (obj2, p2))))"
  by (simp add: load_so_def reserve_def so_base_def Let_def split_beta cong: if_cong)

lemma load_so_Inr:
  assumes "load_so os fd obj p = Inr (obj', p')" and "read_phdrs os fd = Inr phdrs"
  shows "\<not> fst (reserve os p phdrs) <s 0"
    "foldM (map_segment os fd (so_base os p phdrs)) phdrs (snd (reserve os p phdrs)) = Inr p'"
    "foldM (dynamic_and_tls (mem p')) phdrs (obj\<lparr>load_base := so_base os p phdrs\<rparr>) = Inr obj'"
  using assms by (auto simp: load_so_alt rbind_eq_Inr_iff split: if_split_asm)

lemma dynamic_and_tls_keeps:
  assumes "foldM (dynamic_and_tls m) phdrs obj = Inr obj'"
  shows "load_base obj' = load_base obj \<and> soname obj' = soname obj \<and> path obj' = path obj"
proof -
  have step: "load_base o2 = load_base o1 \<and> soname o2 = soname o1 \<and> path o2 = path o1"
    if "dynamic_and_tls m ph o1 = Inr o2" for ph o1 o2
    using that parse_dynamic_keeps by (auto simp: dynamic_and_tls_def split: if_splits)
  show ?thesis
    by (rule foldM_inv [OF assms]) (auto dest: step)
qed

text \<open>When a segment is mapped: the kernel grants the mapping and the pages of the bss are backed.\<close>

definition bss_backed :: "nat \<Rightarrow> Elf64_Phdr \<Rightarrow> bool" where
  "bss_backed file_len ph \<longleftrightarrow>
     (\<forall>i. unat (p_filesz ph) \<le> i \<longrightarrow> i < unat (p_memsz ph) \<longrightarrow>
        (unat (p_offset ph) + i) - (unat (p_offset ph) + i) mod 4096 < file_len)"

lemma seg_file_pos:
  assumes "seg_ok ph" and "i < unat (p_memsz ph)"
  shows "unat (PAGE_ALIGN_DOWN (p_offset ph)) + unat (p_vaddr ph + base + of_nat i - seg_start base ph)
    = unat (p_offset ph) + i"
  using assms(1) mod_less_eq_dividend [of "unat (p_offset ph)" 4096]
  by (simp add: seg_offset [OF assms] unat_PAGE_ALIGN_DOWN seg_ok_def)

lemma can_write_bss:
  assumes "seg_ok ph"
  shows "can_write (seg_mapped os fd base ph p) (p_vaddr ph + p_filesz ph + base) (unat (p_memsz ph - p_filesz ph))
    \<longleftrightarrow> bss_backed (length (os_file os fd)) ph"
proof -
  let ?m = "seg_mapped os fd base ph p" and ?x = "\<lambda>i. p_vaddr ph + base + of_nat i"
  have w: "writable ?m (?x i)" and e: "past_eof ?m (?x i) \<longleftrightarrow>
      length (os_file os fd) \<le> (unat (p_offset ph) + i) - (unat (p_offset ph) + i) mod 4096"
    if "i < unat (p_memsz ph)" for i
    using seg_byte_in_seg [OF assms that, of base] seg_file_pos [OF assms that, of base]
    by (simp_all add: seg_mapped_def map_pages_def in_seg_def writable_def PROT_READ_def PROT_WRITE_def Let_def)
  have "can_write ?m (p_vaddr ph + p_filesz ph + base) (unat (p_memsz ph - p_filesz ph))
      \<longleftrightarrow> (\<forall>y \<in> bss base ph. writable ?m y \<and> \<not> past_eof ?m y)"
    by (simp add: can_write_def bss_def)
  also have "\<dots> \<longleftrightarrow> (\<forall>i. unat (p_filesz ph) \<le> i \<longrightarrow> i < unat (p_memsz ph) \<longrightarrow>
      writable ?m (?x i) \<and> \<not> past_eof ?m (?x i))"
    by (auto simp: bss_eq [OF assms])
  also have "\<dots> \<longleftrightarrow> bss_backed (length (os_file os fd)) ph"
    using w e by (auto simp: bss_backed_def not_le)
  finally show ?thesis .
qed

lemma map_segment_succeeds:
  assumes "seg_ok ph" and "\<not> seg_start base ph <s 0" and "bss_backed (length (os_file os fd)) ph"
    and "\<And>n. os_mmap os n (seg_start base ph) (seg_len ph) (PROT_READ OR PROT_WRITE)
           (MAP_PRIVATE OR MAP_FIXED) fd (PAGE_ALIGN_DOWN (p_offset ph)) = seg_start base ph"
  shows "\<exists>p'. map_segment os fd base ph p = Inr p'"
proof -
  have anon: "(MAP_PRIVATE OR MAP_FIXED) AND MAP_ANONYMOUS = 0"
    by (simp add: MAP_PRIVATE_def MAP_FIXED_def MAP_ANONYMOUS_def)
  obtain p1 where p1: "sys_mmap os p (seg_start base ph) (seg_len ph) (PROT_READ OR PROT_WRITE)
      (MAP_PRIVATE OR MAP_FIXED) fd (PAGE_ALIGN_DOWN (p_offset ph)) = (seg_start base ph, p1)"
    "mem p1 = seg_mapped os fd base ph p"
    using assms(2,4) by (auto simp: sys_mmap_def Let_def anon seg_mapped_def)
  have "\<exists>m. wr_bytes (mem p1) (p_vaddr ph + p_filesz ph + base) (replicate (unat (p_memsz ph - p_filesz ph)) 0) = Inr m"
    unfolding p1(2) using can_write_bss [OF assms(1)] assms(3) by (intro wr_bytes_succeeds) simp
  then obtain m where "clear_bss base ph (mem p1) = Inr m"
    by (cases "p_filesz ph < p_memsz ph") (auto simp: clear_bss_def lnk_memset_def)
  then show ?thesis using p1(1) assms(1,2) by (simp add: map_segment_alt seg_ok_def)
qed

section \<open>Properties\<close>

text \<open>\<^verbatim>\<open>read_at\<close> returns exactly the requested bytes of the file, however short the
  individual reads are.\<close>

theorem read_at_exact:
  assumes "reads_file os fd" and "0 \<le> os_lseek os fd off"
    and "unat off + len \<le> length (os_file os fd)"
  shows "read_at os fd off len = Some (take len (drop (unat off) (os_file os fd)))"
  using assms by (simp add: read_at_def read_loop_eq)

text \<open>A kernel that returns one byte per \<^verbatim>\<open>read\<close>.\<close>

definition demo_os :: "u8 list \<Rightarrow> os" where
  "demo_os file =
     \<lparr>os_open = (\<lambda>_. 3), os_file = (\<lambda>_. file), os_lseek = (\<lambda>_ off. int (unat off)),
      os_read = (\<lambda>_ pos want. if pos < length file \<and> 0 < want then (1, [file ! pos]) else (0, [])),
      os_mmap = (\<lambda>_ a _ _ flags _ _. if flags AND MAP_FIXED = 0 then 0x10000 else a),
      os_mprotect = (\<lambda>_ _ _ _. True), os_gettid = 7\<rparr>"

lemma demo_os_reads: "reads_file (demo_os file) fd"
  unfolding reads_file_def
  by (intro allI impI exI [of _ 1]) (simp add: demo_os_def take_Suc_conv_app_nth hd_drop_conv_nth take_Suc)

theorem read_at_exact_witness: "read_at (demo_os [10, 20, 30, 40, 50]) 3 1 3 = Some [20, 30, 40]"
proof -
  have "read_at (demo_os [10, 20, 30, 40, 50]) 3 1 3 =
      Some (take 3 (drop (unat (1 :: u64)) (os_file (demo_os [10, 20, 30, 40, 50]) 3)))"
    by (rule read_at_exact [OF demo_os_reads]) (simp_all add: demo_os_def)
  then show ?thesis by (simp add: demo_os_def)
qed

text \<open>A shared object of one segment: 64 bytes of header, one program header of 56 bytes, and a
  bss of two bytes.\<close>

definition demo_phdr :: Elf64_Phdr where
  "demo_phdr = \<lparr>p_type = PT_LOAD, p_flags = PF_R OR PF_W, p_offset = 0, p_vaddr = 0, p_paddr = 0,
     p_filesz = 120, p_memsz = 122, p_align = 4096\<rparr>"

definition demo_so :: "u8 list" where
  "demo_so = [127, 69, 76, 70] @ replicate 28 0 @ [64] @ replicate 23 0 @ [1] @ replicate 7 0 @
     [1, 0, 0, 0, 6, 0, 0, 0] @ replicate 24 0 @ [120] @ replicate 7 0 @ [122] @ replicate 8 0 @ [16] @
     replicate 6 0"

definition demo_proc :: proc where
  "demo_proc = \<lparr>mem = \<lparr>data = (\<lambda>_. 0), prot = (\<lambda>_. 0), past_eof = (\<lambda>_. False)\<rparr>, calls = 0\<rparr>"

lemma length_demo_so: "length demo_so = 120"
  by (simp add: demo_so_def)

lemma demo_phdrs: "read_phdrs (demo_os demo_so) 3 = Inr [demo_phdr]"
proof -
  have r: "read_at (demo_os demo_so) 3 off len = Some (take len (drop (unat off) demo_so))"
    if "unat off + len \<le> 120" for off len
    using that read_loop_eq [OF demo_os_reads [of demo_so 3], where off = "unat off" and len = len and got = 0]
    by (simp add: read_at_def demo_os_def length_demo_so)
  have h: "e_phoff (ehdr_of_bytes (take 64 demo_so)) = 64" "e_phnum (ehdr_of_bytes (take 64 demo_so)) = 1"
    by (simp_all add: ehdr_of_bytes_def member_at_def demo_so_def)
  have "phdr_of_bytes (take 56 (drop 64 demo_so)) = demo_phdr"
    by (simp add: phdr_of_bytes_def member_at_def demo_so_def demo_phdr_def elf_consts)
  then show ?thesis by (simp add: read_phdrs_def r h Let_def)
qed

lemma demo_seg_ok: "seg_ok demo_phdr"
  by (simp add: seg_ok_def demo_phdr_def elf_consts)

lemma demo_honours: "honours_fixed (demo_os file)"
  by (simp add: honours_fixed_def demo_os_def MAP_PRIVATE_def MAP_FIXED_def)

lemma demo_load: "\<exists>obj' p'. load_so (demo_os demo_so) 3 zero_object demo_proc = Inr (obj', p')"
proof -
  let ?os = "demo_os demo_so"
  have lm: "load_extent [demo_phdr] = (0, 122)"
    by (simp add: load_extent_def extent_step_def demo_phdr_def elf_consts word_gt_0)
  have r: "fst (reserve ?os demo_proc [demo_phdr]) = 0x10000"
    by (simp add: reserve_def sys_mmap_def Let_def demo_os_def MAP_PRIVATE_def MAP_FIXED_def MAP_ANONYMOUS_def)
  have b: "so_base ?os demo_proc [demo_phdr] = 0x10000"
    by (simp add: so_base_def r lm PAGE_ALIGN_DOWN_def)
  have "\<exists>p'. map_segment ?os 3 0x10000 demo_phdr (snd (reserve ?os demo_proc [demo_phdr])) = Inr p'"
  proof (rule map_segment_succeeds [OF demo_seg_ok])
    show "\<not> seg_start 0x10000 demo_phdr <s 0"
      by (simp add: seg_start_def demo_phdr_def PAGE_ALIGN_DOWN_def word_sless_alt)
    show "bss_backed (length (os_file ?os 3)) demo_phdr"
      by (simp add: bss_backed_def demo_phdr_def demo_os_def length_demo_so)
  qed (simp add: demo_os_def MAP_PRIVATE_def MAP_FIXED_def)
  then obtain p' where p': "map_segment ?os 3 0x10000 demo_phdr (snd (reserve ?os demo_proc [demo_phdr])) = Inr p'"
    by blast
  have "dynamic_and_tls m demo_phdr obj = Inr obj" for m obj
    by (simp add: dynamic_and_tls_def demo_phdr_def elf_consts)
  with p' show ?thesis by (simp add: load_so_alt demo_phdrs r b word_sless_alt)
qed

text \<open>C1: \<^verbatim>\<open>load_so\<close> maps every loadable segment at its address: its file part
  holds the bytes of the file, the rest of it is zero.\<close>

theorem load_so_image:
  assumes "load_so os fd obj p = Inr (obj', p')" and "read_phdrs os fd = Inr phdrs"
    and "honours_fixed os"
    and "\<forall>ph \<in> set phdrs. p_type ph = PT_LOAD \<longrightarrow> seg_ok ph"
    and "segs_apart (load_base obj') phdrs"
    and "ph \<in> set phdrs" and "p_type ph = PT_LOAD"
  shows "seg_image (os_file os fd) (load_base obj') ph (mem p')"
proof -
  note l = load_so_Inr [OF assms(1,2)]
  have "load_base obj' = so_base os p phdrs" using dynamic_and_tls_keeps [OF l(3)] by simp
  then show ?thesis using foldM_map_segment_image [OF l(2) assms(3,4)] assms(5-7) by simp
qed

theorem load_so_image_witness:
  "\<exists>obj' p'. load_so (demo_os demo_so) 3 zero_object demo_proc = Inr (obj', p') \<and>
     seg_image demo_so (load_base obj') demo_phdr (mem p')"
proof -
  obtain obj' p' where l: "load_so (demo_os demo_so) 3 zero_object demo_proc = Inr (obj', p')"
    using demo_load by blast
  have "seg_image (os_file (demo_os demo_so) 3) (load_base obj') demo_phdr (mem p')"
    by (rule load_so_image [OF l demo_phdrs demo_honours])
      (use demo_seg_ok in \<open>simp_all add: segs_apart_def seg_ok_def\<close>)
  then show ?thesis using l by (auto simp: demo_os_def)
qed

text \<open>C2: \<^verbatim>\<open>load_so\<close> never makes a page writable and executable at once, unless a
  segment of the file asks for both.\<close>

theorem load_so_wx:
  assumes "load_so os fd obj p = Inr (obj', p')" and "read_phdrs os fd = Inr phdrs"
    and "wx_free (mem p)"
    and "\<forall>ph \<in> set phdrs. p_type ph = PT_LOAD \<longrightarrow>
           \<not> (p_flags ph AND PF_W \<noteq> 0 \<and> p_flags ph AND PF_X \<noteq> 0)"
  shows "wx_free (mem p')"
proof (rule foldM_inv [where I = "\<lambda>p. wx_free (mem p)", OF load_so_Inr(2) [OF assms(1,2)]])
  have "\<not> wx_prot PROT_NONE" by (simp add: wx_prot_def PROT_NONE_def)
  then show "wx_free (mem (snd (reserve os p phdrs)))"
    using assms(3) by (auto simp: reserve_def intro: sys_mmap_wx [OF prod.collapse [symmetric]])
qed (use assms(4) map_segment_wx in blast)

theorem load_so_wx_witness:
  "\<exists>obj' p'. load_so (demo_os demo_so) 3 zero_object demo_proc = Inr (obj', p') \<and> wx_free (mem p')"
proof -
  obtain obj' p' where l: "load_so (demo_os demo_so) 3 zero_object demo_proc = Inr (obj', p')"
    using demo_load by blast
  have "wx_free (mem p')"
    by (rule load_so_wx [OF l demo_phdrs])
      (simp_all add: wx_free_alt wx_prot_def demo_proc_def demo_phdr_def elf_consts)
  then show ?thesis using l by blast
qed

text \<open>C3: a segment can only be loaded if the pages of its bss lie inside the file: the
  bss is cleared through the file mapping, and a page wholly behind the end of the file
  faults.\<close>

theorem map_segment_needs_backed_bss:
  assumes "map_segment os fd base ph p = Inr p'" and "seg_ok ph" and "honours_fixed os"
  shows "bss_backed (length (os_file os fd)) ph"
  using map_segment_bytes [OF assms] wr_bytes_Inr_can_write can_write_bss [OF assms(2)]
  by (metis length_replicate)

theorem map_segment_needs_backed_bss_witness:
  "\<exists>p'. map_segment (demo_os demo_so) 3 0x10000 demo_phdr demo_proc = Inr p' \<and> bss_backed 120 demo_phdr"
proof -
  have "\<exists>p'. map_segment (demo_os demo_so) 3 0x10000 demo_phdr demo_proc = Inr p'"
    by (rule map_segment_succeeds [OF demo_seg_ok])
      (simp_all add: demo_os_def MAP_PRIVATE_def MAP_FIXED_def bss_backed_def demo_phdr_def
        length_demo_so seg_start_def PAGE_ALIGN_DOWN_def word_sless_alt)
  then obtain p' where "map_segment (demo_os demo_so) 3 0x10000 demo_phdr demo_proc = Inr p'" ..
  moreover from map_segment_needs_backed_bss [OF this demo_seg_ok demo_honours]
  have "bss_backed 120 demo_phdr" by (simp add: demo_os_def length_demo_so)
  ultimately show ?thesis by blast
qed

end
