(* ===== verification/Lnk_Symbols.thy ===== *)
theory Lnk_Symbols
  imports Lnk_Strings Lnk_Load
begin

text \<open>
  Symbol lookup of \<^verbatim>\<open>linker64/src/linker.c\<close>: the GNU hash, the lookup in a hash table
  and in a plain symbol table, \<^verbatim>\<open>lookup_symbol\<close> with the linker's own entry points in
  front of the loaded objects, \<^verbatim>\<open>lnk_dlsym\<close>, \<^verbatim>\<open>lnk_dl_iterate_phdr\<close> and
  \<^verbatim>\<open>lnk_libc_init\<close>.

  A symbol is the address of its \<^verbatim>\<open>Elf64_Sym\<close>. The name searched for is a C string
  that is known to be terminated; names in string tables are compared byte by byte, as
  \<^verbatim>\<open>lnk_strcmp\<close> does, so that only the bytes the code reads can fault. Resolvers of
  IFUNC symbols are code of the loaded program: the parameter \<open>ifunc\<close> gives the value
  each returns, from the memory it runs in, its address and its two arguments.
\<close>

section \<open>State\<close>

text \<open>What the linker gets from outside: the kernel, the resolvers, and the addresses of its own code and data.\<close>

record lnk_env =
  env_os :: os
  ifunc :: "vm \<Rightarrow> u64 \<Rightarrow> u64 \<Rightarrow> u64 \<Rightarrow> u64"
  a_libc_init :: u64
  a_loader_shared_globals :: u64
  a_dlopen :: u64
  a_dlsym :: u64
  a_dlclose :: u64
  a_dlerror :: u64
  a_dl_iterate_phdr :: u64
  a_tlsdesc_static_resolver :: u64
  a_tls_block :: u64
  a_main_thread :: u64
  a_shared_globals :: u64

text \<open>The linker's global variables; \<open>g_objects\<close> holds the first \<^verbatim>\<open>g_nobjects\<close> entries of the array.\<close>

record lnk =
  lproc :: proc
  g_objects :: "Object list"
  g_hwcap :: u64
  g_auxv :: u64

section \<open>Operations\<close>

definition gnu_hash :: "cstring \<Rightarrow> u32" where
  "gnu_hash name = foldl (\<lambda>h c. push_bit 5 h + h + ucast c) 5381 name"

text \<open>\<^verbatim>\<open>lnk_strcmp\<close> of a string in memory with a known one.\<close>

fun strcmp_mem :: "vm \<Rightarrow> u64 \<Rightarrow> cstring \<Rightarrow> fault + int" where
  "strcmp_mem m a [] = rbind (rd8 m a) (\<lambda>c. Inr (uint c))"
| "strcmp_mem m a (b # bs) =
     rbind (rd8 m a) (\<lambda>c. if c \<noteq> 0 \<and> c = b then strcmp_mem m (a + 1) bs else Inr (uint c - uint b))"

definition sym_at :: "Object \<Rightarrow> u64 \<Rightarrow> u64" where
  "sym_at obj i = symtab obj + 24 * i"

definition gnu_sym_matches :: "vm \<Rightarrow> Object \<Rightarrow> cstring \<Rightarrow> u64 \<Rightarrow> fault + bool" where
  "gnu_sym_matches m obj name sy =
     rbind (st_name m sy) (\<lambda>n.
       if ucast n < strsz obj
       then rbind (strcmp_mem m (strtab obj + ucast n) name) (\<lambda>r. Inr (r = 0))
       else Inr False)"

fun gnu_chain :: "nat \<Rightarrow> vm \<Rightarrow> Object \<Rightarrow> cstring \<Rightarrow> u32 \<Rightarrow> u64 \<Rightarrow> u32 \<Rightarrow> u32 \<Rightarrow> fault + u64 option" where
  "gnu_chain 0 m obj name hash chain_tab symoffset i = Inr None"
| "gnu_chain (Suc loop_limit) m obj name hash chain_tab symoffset i =
     rbind (rd32 m (chain_tab + 4 * ucast (i - symoffset))) (\<lambda>chain_val.
     rbind (if drop_bit 1 (chain_val XOR hash) = 0
            then gnu_sym_matches m obj name (sym_at obj (ucast i)) else Inr False) (\<lambda>hit.
       if hit then Inr (Some (sym_at obj (ucast i)))
       else if chain_val AND 1 \<noteq> 0 then Inr None
       else gnu_chain loop_limit m obj name hash chain_tab symoffset (i + 1)))"

definition bloom_mask :: "u32 \<Rightarrow> u32 \<Rightarrow> u64" where
  "bloom_mask hash bloom_shift =
     push_bit (unat (hash mod 64)) 1 OR push_bit (unat (drop_bit (unat bloom_shift) hash mod 64)) 1"

definition lookup_gnu_hash :: "vm \<Rightarrow> Object \<Rightarrow> cstring \<Rightarrow> fault + u64 option" where
  "lookup_gnu_hash m obj name =
     (if gnu_hash_tab obj = 0 \<or> symtab obj = 0 \<or> strtab obj = 0 then Inr None
      else
        let hash = gnu_hash name; tab = gnu_hash_tab obj in
        rbind (rd32 m tab) (\<lambda>nbuckets.
        rbind (rd32 m (tab + 4)) (\<lambda>symoffset.
        rbind (rd32 m (tab + 8)) (\<lambda>bloom_size.
        rbind (rd32 m (tab + 12)) (\<lambda>bloom_shift.
          let bloom = tab + 16; buckets = bloom + 8 * ucast bloom_size; chain_tab = buckets + 4 * ucast nbuckets in
          if bloom_size = 0 then Inl Undefined
          else rbind (rd64 m (bloom + 8 * ucast (hash div 64 mod bloom_size))) (\<lambda>word.
            if 32 \<le> bloom_shift then Inl Undefined
            else if word AND bloom_mask hash bloom_shift \<noteq> bloom_mask hash bloom_shift then Inr None
            else if nbuckets = 0 then Inl Undefined
            else rbind (rd32 m (buckets + 4 * ucast (hash mod nbuckets))) (\<lambda>bucket.
              if bucket < symoffset then Inr None
              else gnu_chain 10000 m obj name hash chain_tab symoffset bucket)))))))"

text \<open>The scan of a symbol table without hash table, over the indexes given.\<close>

fun scan_symtab :: "vm \<Rightarrow> Object \<Rightarrow> cstring \<Rightarrow> nat list \<Rightarrow> fault + u64 option" where
  "scan_symtab m obj name [] = Inr None"
| "scan_symtab m obj name (j # js) =
     (let sy = sym_at obj (of_nat j) in
      rbind (st_shndx m sy) (\<lambda>sh.
        if sh = SHN_UNDEF then scan_symtab m obj name js
        else rbind (st_name m sy) (\<lambda>n.
          if strsz obj \<le> ucast n then Inr None
          else rbind (strcmp_mem m (strtab obj + ucast n) name) (\<lambda>r.
            if r = 0 then Inr (Some sy) else scan_symtab m obj name js))))"

text \<open>The search of one object, as \<^verbatim>\<open>lookup_symbol\<close> and \<^verbatim>\<open>lnk_dlsym\<close> do it.\<close>

definition find_in_object :: "vm \<Rightarrow> Object \<Rightarrow> cstring \<Rightarrow> fault + u64 option" where
  "find_in_object m obj name =
     (if gnu_hash_tab obj \<noteq> 0 then lookup_gnu_hash m obj name
      else if symtab obj = 0 \<or> strtab obj = 0 then Inr None
      else scan_symtab m obj name [1..<4096])"

definition sym_address :: "lnk_env \<Rightarrow> lnk \<Rightarrow> Object \<Rightarrow> u64 \<Rightarrow> fault + u64" where
  "sym_address env l obj sy =
     (let m = mem (lproc l) in
      rbind (st_value m sy) (\<lambda>v.
      rbind (st_info m sy) (\<lambda>inf.
        let sym_val = v + load_base obj in
        Inr (if ELF64_ST_TYPE inf = STT_GNU_IFUNC then ifunc env m sym_val (g_hwcap l) (g_auxv l)
             else sym_val))))"

fun lookup_objects :: "lnk_env \<Rightarrow> lnk \<Rightarrow> cstring \<Rightarrow> Object list \<Rightarrow> fault + u64" where
  "lookup_objects env l name [] = Inr 0"
| "lookup_objects env l name (obj # objs) =
     rbind (find_in_object (mem (lproc l)) obj name) (\<lambda>r.
       case r of Some sy \<Rightarrow> sym_address env l obj sy | None \<Rightarrow> lookup_objects env l name objs)"

definition lookup_symbol :: "lnk_env \<Rightarrow> lnk \<Rightarrow> cstring \<Rightarrow> fault + u64" where
  "lookup_symbol env l name =
     (if lnk_strcmp name (lit ''__libc_init'') = 0 then Inr (a_libc_init env)
      else if lnk_strcmp name (lit ''__loader_shared_globals'') = 0 then Inr (a_loader_shared_globals env)
      else if lnk_strcmp name (lit ''dlopen'') = 0 then Inr (a_dlopen env)
      else if lnk_strcmp name (lit ''dlsym'') = 0 then Inr (a_dlsym env)
      else if lnk_strcmp name (lit ''dlclose'') = 0 then Inr (a_dlclose env)
      else if lnk_strcmp name (lit ''dlerror'') = 0 then Inr (a_dlerror env)
      else if lnk_strcmp name (lit ''dl_iterate_phdr'') = 0 then Inr (a_dl_iterate_phdr env)
      else lookup_objects env l name (g_objects l))"

text \<open>The handle is \<open>None\<close> for the values 0 and -1, otherwise the object it points to.\<close>

definition lnk_dlsym :: "lnk_env \<Rightarrow> lnk \<Rightarrow> Object option \<Rightarrow> cstring \<Rightarrow> fault + u64" where
  "lnk_dlsym env l handle symbol =
     (case handle of None \<Rightarrow> lookup_symbol env l symbol
      | Some obj \<Rightarrow>
        rbind (find_in_object (mem (lproc l)) obj symbol) (\<lambda>r.
          case r of Some sy \<Rightarrow> sym_address env l obj sy | None \<Rightarrow> lookup_symbol env l symbol))"

record dl_phdr_info =
  dlpi_addr :: u64
  dlpi_name :: "u8 list"
  dlpi_phdr :: u64
  dlpi_phnum :: u16

text \<open>One object of \<^verbatim>\<open>lnk_dl_iterate_phdr\<close>: the structure for the callback, unless it is skipped.\<close>

definition phdr_info :: "vm \<Rightarrow> nat \<Rightarrow> Object \<Rightarrow> fault + dl_phdr_info option" where
  "phdr_info m i obj =
     (if load_base obj = 0 \<and> 0 < i then Inr None
      else rbind (rd8 m (load_base obj)) (\<lambda>c0.
        if c0 \<noteq> 127 then Inr None
        else rbind (rd8 m (load_base obj + 1)) (\<lambda>c1.
          if c1 \<noteq> 69 then Inr None
          else rbind (rd8 m (load_base obj + 2)) (\<lambda>c2.
            if c2 \<noteq> 76 then Inr None
            else rbind (rd8 m (load_base obj + 3)) (\<lambda>c3.
              if c3 \<noteq> 70 then Inr None
              else rbind (rd64 m (load_base obj + 32)) (\<lambda>phoff.
                rbind (rd16 m (load_base obj + 56)) (\<lambda>phnum.
                Inr (Some \<lparr>dlpi_addr = load_base obj, dlpi_name = soname obj,
                  dlpi_phdr = load_base obj + phoff, dlpi_phnum = phnum\<rparr>))))))))"

text \<open>The callback works on its own data; a result other than 0 ends the walk.\<close>

fun iterate_phdr_loop ::
  "vm \<Rightarrow> (dl_phdr_info \<Rightarrow> 'd \<Rightarrow> int \<times> 'd) \<Rightarrow> nat \<Rightarrow> Object list \<Rightarrow> 'd \<Rightarrow> fault + int \<times> 'd" where
  "iterate_phdr_loop m callback i [] d = Inr (0, d)"
| "iterate_phdr_loop m callback i (obj # objs) d =
     rbind (phdr_info m i obj) (\<lambda>r.
       case r of None \<Rightarrow> iterate_phdr_loop m callback (Suc i) objs d
       | Some info \<Rightarrow>
         let (ret, d') = callback info d in
         if ret \<noteq> 0 then Inr (ret, d') else iterate_phdr_loop m callback (Suc i) objs d')"

definition lnk_dl_iterate_phdr ::
  "lnk \<Rightarrow> (dl_phdr_info \<Rightarrow> 'd \<Rightarrow> int \<times> 'd) \<Rightarrow> 'd \<Rightarrow> fault + int \<times> 'd" where
  "lnk_dl_iterate_phdr l callback d = iterate_phdr_loop (mem (lproc l)) callback 0 (g_objects l) d"

definition lnk_dlclose :: "u64 \<Rightarrow> int" where
  "lnk_dlclose handle = 0"

definition lnk_dlerror :: u64 where
  "lnk_dlerror = 0"

text \<open>\<^verbatim>\<open>lnk_basename\<close> as a pointer into the string at \<open>p\<close>.\<close>

definition lnk_basename_ptr :: "vm \<Rightarrow> u64 \<Rightarrow> fault + u64" where
  "lnk_basename_ptr m p =
     rbind (cstr_at m p) (\<lambda>s. Inr (p + of_nat (length s - length (lnk_basename s))))"

text \<open>
  \<^verbatim>\<open>lnk_libc_init\<close>: the result is the exit status, computed by the program's main
  function \<open>slingshot\<close> from the memory, argc, argv and envp. The int argc is the low half
  of the first word of the stack.
\<close>

definition lnk_libc_init ::
  "lnk_env \<Rightarrow> lnk \<Rightarrow> u64 \<Rightarrow> (vm \<Rightarrow> u32 \<Rightarrow> u64 \<Rightarrow> u64 \<Rightarrow> u32) \<Rightarrow> fault + u32" where
  "lnk_libc_init env l sp slingshot =
     rbind (rd64 (mem (lproc l)) sp) (\<lambda>w.
       let argc = (ucast w :: u32); argv = sp + 8; envp = argv + 8 * (scast argc + 1) in
       rbind (lookup_symbol env l (lit ''environ'')) (\<lambda>environ_addr.
       rbind (if environ_addr \<noteq> 0 then wr64 (mem (lproc l)) environ_addr envp else Inr (mem (lproc l))) (\<lambda>m1.
       let l1 = l\<lparr>lproc := (lproc l)\<lparr>mem := m1\<rparr>\<rparr> in
       rbind (lookup_symbol env l1 (lit ''__progname'')) (\<lambda>progname_addr.
       rbind (if progname_addr \<noteq> 0 \<and> 0 <s argc
              then rbind (rd64 m1 argv) (\<lambda>argv0.
                if argv0 \<noteq> 0 then rbind (lnk_basename_ptr m1 argv0) (wr64 m1 progname_addr) else Inr m1)
              else Inr m1) (\<lambda>m2.
       Inr (slingshot m2 argc argv envp))))))"

section \<open>String comparison in memory\<close>

lemma strcmp_mem_eq_0_iff: "nul_free name \<Longrightarrow> strcmp_mem m a name = Inr 0 \<longleftrightarrow> str_at m a name"
proof (induction name arbitrary: a)
  case Nil
  then show ?case by (auto simp: rbind_eq_Inr_iff uint_0_iff)
next
  case (Cons b bs)
  then show ?case by (cases "rd8 m a") (auto simp: word_uint_eq_iff)
qed

lemma strcmp_mem_str_at:
  "str_at m a s \<Longrightarrow> nul_free s \<Longrightarrow> nul_free name \<Longrightarrow> strcmp_mem m a name = Inr (lnk_strcmp s name)"
proof (induction s name arbitrary: a rule: lnk_strcmp.induct)
  case (4 a as b bs)
  then show ?case by auto
qed auto

text \<open>The symbol has the given name in the object's string table.\<close>

definition symbol_named :: "vm \<Rightarrow> Object \<Rightarrow> u64 \<Rightarrow> cstring \<Rightarrow> bool" where
  "symbol_named m obj sy s \<longleftrightarrow>
     (\<exists>x. st_name m sy = Inr x \<and> ucast x < strsz obj \<and> str_at m (strtab obj + ucast x) s)"

lemma gnu_sym_matches_iff:
  "nul_free name \<Longrightarrow> gnu_sym_matches m obj name sy = Inr True \<longleftrightarrow> symbol_named m obj sy name"
  by (auto simp: gnu_sym_matches_def symbol_named_def rbind_eq_Inr_iff strcmp_mem_eq_0_iff)

lemma gnu_sym_matches_named:
  "symbol_named m obj sy s \<Longrightarrow> nul_free s \<Longrightarrow> nul_free name \<Longrightarrow> gnu_sym_matches m obj name sy = Inr (s = name)"
  by (auto simp: gnu_sym_matches_def symbol_named_def strcmp_mem_str_at lnk_strcmp_eq_0_iff)

section \<open>Hash tables\<close>

lemma gnu_chain_sound:
  "gnu_chain k m obj name h ct so i = Inr (Some sy) \<Longrightarrow> nul_free name \<Longrightarrow>
     symbol_named m obj sy name \<and> (\<exists>j :: u32. sy = sym_at obj (ucast j))"
proof (induction k m obj name h ct so i rule: gnu_chain.induct)
  case (2 k m obj name h ct so i)
  from 2(2) obtain c hit where c: "rd32 m (ct + 4 * ucast (i - so)) = Inr c"
    "(if drop_bit 1 (c XOR h) = 0 then gnu_sym_matches m obj name (sym_at obj (ucast i)) else Inr False) = Inr hit"
    "(if hit then Inr (Some (sym_at obj (ucast i)))
      else if c AND 1 \<noteq> 0 then Inr None else gnu_chain k m obj name h ct so (i + 1)) = Inr (Some sy)"
    by (auto simp: rbind_eq_Inr_iff)
  show ?case
  proof (cases hit)
    case True
    then show ?thesis using c 2(3) gnu_sym_matches_iff by (auto split: if_splits)
  next
    case False
    then show ?thesis using c 2 by (auto split: if_splits)
  qed
qed simp

text \<open>The chain from symbol \<open>i\<close> on leads to symbol \<open>i + n\<close> without ending before it.\<close>

definition chain_leads :: "vm \<Rightarrow> Object \<Rightarrow> u32 \<Rightarrow> u64 \<Rightarrow> u32 \<Rightarrow> u32 \<Rightarrow> nat \<Rightarrow> bool" where
  "chain_leads m obj h ct so i n \<longleftrightarrow>
     (\<forall>k \<le> n. \<exists>c s. rd32 m (ct + 4 * ucast (i + of_nat k - so)) = Inr c \<and>
        (k < n \<longrightarrow> c AND 1 = 0) \<and> (k = n \<longrightarrow> drop_bit 1 (c XOR h) = 0) \<and>
        nul_free s \<and> symbol_named m obj (sym_at obj (ucast (i + of_nat k))) s)"

lemma chain_leads_Suc: "chain_leads m obj h ct so i (Suc n) \<Longrightarrow> chain_leads m obj h ct so (i + 1) n"
  unfolding chain_leads_def
proof (intro allI impI)
  fix k
  assume *: "\<forall>k \<le> Suc n. \<exists>c s. rd32 m (ct + 4 * ucast (i + of_nat k - so)) = Inr c \<and>
        (k < Suc n \<longrightarrow> c AND 1 = 0) \<and> (k = Suc n \<longrightarrow> drop_bit 1 (c XOR h) = 0) \<and>
        nul_free s \<and> symbol_named m obj (sym_at obj (ucast (i + of_nat k))) s" and "k \<le> n"
  then show "\<exists>c s. rd32 m (ct + 4 * ucast (i + 1 + of_nat k - so)) = Inr c \<and>
        (k < n \<longrightarrow> c AND 1 = 0) \<and> (k = n \<longrightarrow> drop_bit 1 (c XOR h) = 0) \<and>
        nul_free s \<and> symbol_named m obj (sym_at obj (ucast (i + 1 + of_nat k))) s"
    using spec [OF *, of "Suc k"] by (simp add: ac_simps)
qed

lemma gnu_chain_finds:
  assumes "n < limit" and "chain_leads m obj h ct so i n" and "nul_free name"
    and "symbol_named m obj (sym_at obj (ucast (i + of_nat n))) name"
  shows "\<exists>sy. gnu_chain limit m obj name h ct so i = Inr (Some sy)"
  using assms
proof (induction n arbitrary: limit i)
  case 0
  then obtain limit' where l: "limit = Suc limit'" by (cases limit) auto
  obtain c where "rd32 m (ct + 4 * ucast (i - so)) = Inr c" "drop_bit 1 (c XOR h) = 0"
    using 0(2) by (auto simp: chain_leads_def)
  moreover have "gnu_sym_matches m obj name (sym_at obj (ucast i)) = Inr True"
    using 0(3,4) by (simp add: gnu_sym_matches_iff)
  ultimately show ?case by (simp add: l)
next
  case (Suc n)
  then obtain limit' where l: "limit = Suc limit'" "n < limit'" by (cases limit) auto
  obtain c s where c: "rd32 m (ct + 4 * ucast (i - so)) = Inr c" "c AND 1 = 0"
    "nul_free s" "symbol_named m obj (sym_at obj (ucast i)) s"
    using Suc.prems(2) [unfolded chain_leads_def, THEN spec [of _ 0]] by auto
  have "\<exists>sy. gnu_chain limit' m obj name h ct so (i + 1) = Inr (Some sy)"
    using Suc.IH [OF l(2) chain_leads_Suc [OF Suc.prems(2)] Suc.prems(3)] Suc.prems(4)
    by (simp add: add.assoc)
  then show ?case
    using c gnu_sym_matches_named [OF c(4,3) Suc.prems(3)] by (auto simp: l)
qed

text \<open>
  The promise of a GNU hash table for a symbol: the Bloom filter has the bits of its hash,
  its bucket is not empty and the chain of the bucket leads to it.
\<close>

definition gnu_indexed :: "vm \<Rightarrow> Object \<Rightarrow> cstring \<Rightarrow> u32 \<Rightarrow> nat \<Rightarrow> bool" where
  "gnu_indexed m obj name bucket n \<longleftrightarrow>
     (let h = gnu_hash name; tab = gnu_hash_tab obj in
      tab \<noteq> 0 \<and> symtab obj \<noteq> 0 \<and> strtab obj \<noteq> 0 \<and>
      (\<exists>nb so bs sh w. rd32 m tab = Inr nb \<and> rd32 m (tab + 4) = Inr so \<and> rd32 m (tab + 8) = Inr bs \<and>
        rd32 m (tab + 12) = Inr sh \<and> nb \<noteq> 0 \<and> bs \<noteq> 0 \<and> sh < 32 \<and>
        rd64 m (tab + 16 + 8 * ucast (h div 64 mod bs)) = Inr w \<and> w AND bloom_mask h sh = bloom_mask h sh \<and>
        rd32 m (tab + 16 + 8 * ucast bs + 4 * ucast (h mod nb)) = Inr bucket \<and> so \<le> bucket \<and>
        chain_leads m obj h (tab + 16 + 8 * ucast bs + 4 * ucast nb) so bucket n)) \<and>
     symbol_named m obj (sym_at obj (ucast (bucket + of_nat n))) name"

lemma lookup_gnu_hash_sound:
  assumes "lookup_gnu_hash m obj name = Inr (Some sy)" and "nul_free name"
  shows "symbol_named m obj sy name"
  using assms
  by (auto simp: lookup_gnu_hash_def Let_def rbind_eq_Inr_iff split: if_splits dest!: gnu_chain_sound)

lemma lookup_gnu_hash_finds:
  assumes "gnu_indexed m obj name bucket n" and "n < 10000" and "nul_free name"
  shows "\<exists>sy. lookup_gnu_hash m obj name = Inr (Some sy)"
  using assms gnu_chain_finds [OF assms(2) _ assms(3)]
  by (auto simp: gnu_indexed_def lookup_gnu_hash_def Let_def not_le not_less)

section \<open>Plain symbol tables\<close>

lemma scan_symtab_sound:
  "scan_symtab m obj name js = Inr (Some sy) \<Longrightarrow> nul_free name \<Longrightarrow>
     symbol_named m obj sy name \<and> (\<exists>x. st_shndx m sy = Inr x \<and> x \<noteq> SHN_UNDEF)"
proof (induction js)
  case (Cons j js)
  then show ?case
    by (auto simp: Let_def rbind_eq_Inr_iff symbol_named_def strcmp_mem_eq_0_iff not_le split: if_splits)
qed simp

lemma find_in_object_sound:
  "find_in_object m obj name = Inr (Some sy) \<Longrightarrow> nul_free name \<Longrightarrow> symbol_named m obj sy name"
  by (auto simp: find_in_object_def split: if_splits dest: lookup_gnu_hash_sound scan_symtab_sound)

section \<open>The search order\<close>

lemma lookup_objects_iff:
  "lookup_objects env l name objs = Inr v \<longleftrightarrow>
     (\<forall>obj \<in> set objs. find_in_object (mem (lproc l)) obj name = Inr None) \<and> v = 0 \<or>
     (\<exists>before obj after sy. objs = before @ obj # after \<and>
        (\<forall>o' \<in> set before. find_in_object (mem (lproc l)) o' name = Inr None) \<and>
        find_in_object (mem (lproc l)) obj name = Inr (Some sy) \<and> sym_address env l obj sy = Inr v)"
  (is "_ \<longleftrightarrow> ?none objs \<or> ?some objs")
proof (induction objs)
  case (Cons o1 objs)
  let ?r = "find_in_object (mem (lproc l)) o1 name"
  have "?some (o1 # objs) \<longleftrightarrow>
      (\<exists>sy. ?r = Inr (Some sy) \<and> sym_address env l o1 sy = Inr v) \<or> ?r = Inr None \<and> ?some objs"
    (is "_ \<longleftrightarrow> ?here \<or> ?later")
  proof
    assume "?some (o1 # objs)"
    then obtain before obj after sy where s: "o1 # objs = before @ obj # after"
      "\<forall>o' \<in> set before. find_in_object (mem (lproc l)) o' name = Inr None"
      "find_in_object (mem (lproc l)) obj name = Inr (Some sy)" "sym_address env l obj sy = Inr v" by blast
    then show "?here \<or> ?later" by (cases before) auto
  next
    assume "?here \<or> ?later"
    then show "?some (o1 # objs)"
    proof
      assume ?here
      then show ?thesis by (intro exI [of _ "[]"]) auto
    next
      assume ?later
      then obtain before obj after sy where "objs = before @ obj # after"
        "\<forall>o' \<in> set before. find_in_object (mem (lproc l)) o' name = Inr None"
        "find_in_object (mem (lproc l)) obj name = Inr (Some sy)" "sym_address env l obj sy = Inr v"
        and "?r = Inr None" by blast
      then show ?thesis by (intro exI [of _ "o1 # before"] exI [of _ obj] exI [of _ after] exI [of _ sy]) simp
    qed
  qed
  then show ?case using Cons.IH by (cases ?r) (auto split: option.split)
qed auto

definition builtin_names :: "cstring set" where
  "builtin_names = {lit ''__libc_init'', lit ''__loader_shared_globals'', lit ''dlopen'', lit ''dlsym'',
     lit ''dlclose'', lit ''dlerror'', lit ''dl_iterate_phdr''}"

section \<open>Properties\<close>

text \<open>\<^verbatim>\<open>gnu_hash\<close> computes the GNU hash function: \<open>h * 33 + c\<close> from
  5381 on, modulo \<open>2 ^ 32\<close>.\<close>

theorem gnu_hash_eq: "unat (gnu_hash s) = foldl (\<lambda>h c. h * 33 + unat c) 5381 s mod 2 ^ 32"
proof -
  have "unat (foldl (\<lambda>h c. push_bit 5 h + h + ucast c) w s) = foldl (\<lambda>h c. h * 33 + unat c) (unat w) s mod 2 ^ 32"
    for w :: u32
  proof (induction s rule: rev_induct)
    case Nil
    then show ?case using unat32_less [of w] by simp
  next
    case (snoc c s)
    let ?h = "foldl (\<lambda>h c. push_bit 5 h + h + ucast c) w s" and ?n = "foldl (\<lambda>h c. h * 33 + unat c) (unat w) s"
    have "push_bit 5 ?h + ?h + ucast c = of_nat (?n * 33 + unat c)"
    proof -
      have "?h = of_nat ?n" using snoc by (simp add: word_eq_iff_unsigned [where ?'a = nat] unat_of_nat)
      then show ?thesis by (simp add: push_bit_eq_mult)
    qed
    then have "unat (push_bit 5 ?h + ?h + ucast c) = (?n * 33 + unat c) mod 2 ^ 32"
      by (simp only: unat_of_nat) simp
    then show ?case by simp
  qed
  from this [of 5381] show ?thesis by (simp add: gnu_hash_def)
qed

text \<open>C4: a symbol that the GNU hash table of an object indexes (within the 10000 steps the walk
  of a chain is limited to) is found, and what is found has the name searched for.\<close>

theorem lookup_gnu_hash_correct:
  assumes "gnu_indexed m obj name bucket n" and "n < 10000" and "nul_free name"
  shows "\<exists>sy. lookup_gnu_hash m obj name = Inr (Some sy) \<and> symbol_named m obj sy name"
  using lookup_gnu_hash_finds [OF assms] lookup_gnu_hash_sound assms(3) by blast

text \<open>A memory with a hash table of one symbol \<^verbatim>\<open>a\<close> at address 16, its symbol table
  at 48 and its string table at 96.\<close>

definition demo_table :: "u8 list" where
  "demo_table = replicate 16 0 @ [1, 0, 0, 0, 1, 0, 0, 0, 1, 0, 0, 0, 6, 0, 0, 0] @ replicate 8 255 @
     [1, 0, 0, 0, 7, 182, 2, 0] @ replicate 24 0 @
     [1, 0, 0, 0, 18, 0, 3, 0, 5, 0, 0, 0, 0, 0, 0, 0, 0, 0, 0, 0, 0, 0, 0, 0] @ [0, 97, 0]"

definition demo_obj :: Object where
  "demo_obj = zero_object\<lparr>load_base := 0x1000, gnu_hash_tab := 16, symtab := 48, strtab := 96, strsz := 3\<rparr>"

definition demo_env :: lnk_env where
  "demo_env = \<lparr>env_os = demo_os demo_so, ifunc = (\<lambda>_ a _ _. a + 1), a_libc_init = 1, a_loader_shared_globals = 2,
     a_dlopen = 3, a_dlsym = 4, a_dlclose = 5, a_dlerror = 6, a_dl_iterate_phdr = 7,
     a_tlsdesc_static_resolver = 8, a_tls_block = 0x4000, a_main_thread = 0x9000, a_shared_globals = 0xa000\<rparr>"

definition demo_lnk :: lnk where
  "demo_lnk = \<lparr>lproc = \<lparr>mem = image_mem demo_table, calls = 0\<rparr>, g_objects = [demo_obj], g_hwcap = 0, g_auxv = 0\<rparr>"

lemma demo_words:
  "rd32 (image_mem demo_table) 16 = Inr 1" "rd32 (image_mem demo_table) 20 = Inr 1"
  "rd32 (image_mem demo_table) 24 = Inr 1" "rd32 (image_mem demo_table) 28 = Inr 6"
  "rd64 (image_mem demo_table) 32 = Inr (- 1)" "rd32 (image_mem demo_table) 40 = Inr 1"
  "rd32 (image_mem demo_table) 44 = Inr 177671"
  by (simp_all add: rd32_def rd64_def rd_bytes_numeral image_mem_rd8 demo_table_def nth_append)

lemma demo_sym:
  "st_name (image_mem demo_table) 72 = Inr 1" "st_value (image_mem demo_table) 72 = Inr 5"
  "st_info (image_mem demo_table) 72 = Inr 18"
  "rd8 (image_mem demo_table) 97 = Inr 97" "rd8 (image_mem demo_table) 98 = Inr 0"
  by (simp_all add: st_name_def st_value_def st_info_def rd32_def rd64_def rd_bytes_numeral image_mem_rd8 demo_table_def nth_append)

lemma demo_indexed: "gnu_indexed (image_mem demo_table) demo_obj [97] 1 0"
proof -
  have h: "gnu_hash [97] = 177670" by (simp add: gnu_hash_def)
  have "symbol_named (image_mem demo_table) demo_obj 72 [97]"
    by (simp add: symbol_named_def demo_sym demo_obj_def)
  then show ?thesis
    by (auto simp: gnu_indexed_def h demo_obj_def demo_words chain_leads_def sym_at_def intro!: exI [of _ "[97]"])
qed

lemma demo_lookup: "lookup_gnu_hash (image_mem demo_table) demo_obj [97] = Inr (Some 72)"
proof -
  have "gnu_chain (Suc n) (image_mem demo_table) demo_obj [97] 177670 44 1 1 = Inr (Some 72)" for n
    by (simp add: demo_words gnu_sym_matches_def demo_sym sym_at_def demo_obj_def)
  from this [of 9999] show ?thesis
    by (simp add: lookup_gnu_hash_def Let_def gnu_hash_def demo_obj_def demo_words bloom_mask_def)
qed

theorem lookup_gnu_hash_correct_witness:
  "gnu_indexed (image_mem demo_table) demo_obj [97] 1 0 \<and>
   (\<exists>sy. lookup_gnu_hash (image_mem demo_table) demo_obj [97] = Inr (Some sy) \<and>
      symbol_named (image_mem demo_table) demo_obj sy [97])"
  using lookup_gnu_hash_correct [OF demo_indexed] demo_indexed by simp

text \<open>C5: the result of \<^verbatim>\<open>lookup_symbol\<close> for a name that is not one of the linker's own
  entry points comes from the first loaded object that defines the name, is the address of a
  symbol of that name (or what its IFUNC resolver returns), and is 0 only if no object has the
  name or the symbol's own value is 0.\<close>

theorem lookup_symbol_first:
  assumes "name \<notin> builtin_names" and "nul_free name"
  shows "lookup_symbol env l name = Inr v \<longleftrightarrow>
     (\<forall>obj \<in> set (g_objects l). find_in_object (mem (lproc l)) obj name = Inr None) \<and> v = 0 \<or>
     (\<exists>before obj after sy. g_objects l = before @ obj # after \<and>
        (\<forall>o' \<in> set before. find_in_object (mem (lproc l)) o' name = Inr None) \<and>
        find_in_object (mem (lproc l)) obj name = Inr (Some sy) \<and>
        symbol_named (mem (lproc l)) obj sy name \<and> sym_address env l obj sy = Inr v)"
proof -
  have lits: "nul_free s" if "s \<in> builtin_names" for s
    using that by (auto simp: builtin_names_def nul_free_def lit_def)
  have "lookup_symbol env l name = lookup_objects env l name (g_objects l)"
    using assms lits by (auto simp: lookup_symbol_def builtin_names_def lnk_strcmp_eq_0_iff)
  moreover have "symbol_named m obj sy name" if "find_in_object m obj name = Inr (Some sy)" for m obj sy
    using find_in_object_sound [OF that assms(2)] .
  ultimately show ?thesis by (simp only: lookup_objects_iff) blast
qed

theorem lookup_symbol_first_witness:
  "find_in_object (image_mem demo_table) demo_obj [97] = Inr (Some 72) \<and>
   lookup_symbol demo_env demo_lnk [97] = Inr 0x1005"
proof -
  have nb: "[97] \<notin> builtin_names" by (simp add: builtin_names_def lit_def)
  have f: "find_in_object (image_mem demo_table) demo_obj [97] = Inr (Some 72)"
    by (simp add: find_in_object_def demo_lookup) (simp add: demo_obj_def)
  moreover have "sym_address demo_env demo_lnk demo_obj 72 = Inr 0x1005"
    by (simp add: sym_address_def demo_lnk_def demo_sym Let_def elf_consts) (simp add: demo_obj_def)
  moreover have "symbol_named (image_mem demo_table) demo_obj 72 [97]"
    using find_in_object_sound [OF f] by simp
  ultimately show ?thesis
    unfolding lookup_symbol_first [OF nb, simplified]
    by (auto simp: demo_lnk_def intro!: exI [of _ "[]"])
qed

end
