(* ===== verification/Lnk_Reloc.thy ===== *)
theory Lnk_Reloc
  imports Lnk_Symbols
begin

text \<open>
  Relocation, \<^verbatim>\<open>linker64/src/linker.c\<close>: \<^verbatim>\<open>apply_rela\<close>, packed relative
  relocations (\<^verbatim>\<open>apply_relr\<close>), Android's packed relocations with their SLEB128 decoder
  (\<^verbatim>\<open>apply_android_rela\<close>) and \<^verbatim>\<open>relocate_object\<close>.

  Relocation tables lie in the memory that is being relocated; every entry is read when the
  code reads it, after the stores of the entries before it.
\<close>

definition set_mem :: "lnk \<Rightarrow> vm \<Rightarrow> lnk" where
  "set_mem l m = l\<lparr>lproc := (lproc l)\<lparr>mem := m\<rparr>\<rparr>"

abbreviation lmem :: "lnk \<Rightarrow> vm" where
  "lmem l \<equiv> mem (lproc l)"

section \<open>Operations\<close>

text \<open>The value of the symbol of a \<^verbatim>\<open>GLOB_DAT\<close>, \<^verbatim>\<open>JUMP_SLOT\<close> or
  \<^verbatim>\<open>ABS64\<close> relocation; \<open>None\<close> for an undefined symbol that no object defines.\<close>

definition rela_symbol :: "lnk_env \<Rightarrow> lnk \<Rightarrow> Object \<Rightarrow> u32 \<Rightarrow> fault + u64 option" where
  "rela_symbol env l obj sym_idx =
     (let m = lmem l; sy = sym_at obj (ucast sym_idx) in
      if sym_idx \<noteq> 0 \<and> symtab obj \<noteq> 0 \<and> strtab obj \<noteq> 0
      then rbind (st_shndx m sy) (\<lambda>sh.
        if sh \<noteq> SHN_UNDEF then rbind (sym_address env l obj sy) (\<lambda>v. Inr (Some v))
        else rbind (st_name m sy) (\<lambda>n.
             rbind (cstr_at m (strtab obj + ucast n)) (\<lambda>name.
             rbind (lookup_symbol env l name) (\<lambda>sym_val.
               Inr (if sym_val = 0 then None else Some sym_val)))))
      else Inr (Some 0))"

text \<open>The search for a thread-local symbol through the symbol tables of all objects.\<close>

fun tls_find :: "vm \<Rightarrow> cstring \<Rightarrow> Object list \<Rightarrow> fault + u64" where
  "tls_find m name [] = Inr 0"
| "tls_find m name (target # ts) =
     (if symtab target = 0 \<or> strtab target = 0 then tls_find m name ts
      else rbind (scan_symtab m target name [1..<4096]) (\<lambda>r.
        case r of None \<Rightarrow> tls_find m name ts
        | Some sy \<Rightarrow> rbind (st_value m sy) (\<lambda>v.
            let sym_val = tls_offset target + v in
            if sym_val \<noteq> 0 then Inr sym_val else tls_find m name ts)))"

definition tls_symbol :: "lnk \<Rightarrow> Object \<Rightarrow> u32 \<Rightarrow> fault + u64" where
  "tls_symbol l obj sym_idx =
     (let m = lmem l; sy = sym_at obj (ucast sym_idx) in
      if sym_idx \<noteq> 0 \<and> symtab obj \<noteq> 0 \<and> strtab obj \<noteq> 0
      then rbind (st_shndx m sy) (\<lambda>sh.
        if sh \<noteq> SHN_UNDEF then rbind (st_value m sy) (\<lambda>v. Inr (tls_offset obj + v))
        else rbind (st_name m sy) (\<lambda>n.
             rbind (cstr_at m (strtab obj + ucast n)) (\<lambda>name. tls_find m name (g_objects l))))
      else Inr (tls_offset obj))"

text \<open>One relocation: the body of the loop of \<^verbatim>\<open>apply_rela\<close>.\<close>

definition apply_one :: "lnk_env \<Rightarrow> u64 \<Rightarrow> u64 \<Rightarrow> Object \<Rightarrow> Elf64_Rela \<Rightarrow> lnk \<Rightarrow> fault + lnk" where
  "apply_one env hwcap auxv obj r l =
     (let m = lmem l;
          sym_idx = ELF64_R_SYM (r_info r);
          rel_type = ELF64_R_TYPE (r_info r);
          slot = r_offset r + load_base obj;
          addend = r_addend r;
          done = (\<lambda>m'. Inr (set_mem l m'))
      in
      if rel_type = R_AARCH64_RELATIVE then rbind (wr64 m slot (load_base obj + addend)) done
      else if rel_type = R_AARCH64_GLOB_DAT \<or> rel_type = R_AARCH64_JUMP_SLOT \<or> rel_type = R_AARCH64_ABS64
      then rbind (rela_symbol env l obj sym_idx) (\<lambda>s.
        case s of None \<Rightarrow> Inr l | Some sym_val \<Rightarrow> rbind (wr64 m slot (sym_val + addend)) done)
      else if rel_type = R_AARCH64_TLS_TPREL64
      then rbind (tls_symbol l obj sym_idx) (\<lambda>sym_val. rbind (wr64 m slot (sym_val + addend)) done)
      else if rel_type = R_AARCH64_TLSDESC
      then rbind (tls_symbol l obj sym_idx) (\<lambda>sym_val.
             rbind (wr64 m slot (a_tlsdesc_static_resolver env)) (\<lambda>m'.
             rbind (wr64 m' (slot + 8) (sym_val + addend)) done))
      else if rel_type = R_AARCH64_IRELATIVE
      then rbind (wr64 m slot (ifunc env m (load_base obj + addend) hwcap auxv)) done
      else Inr l)"

definition apply_rela :: "lnk_env \<Rightarrow> u64 \<Rightarrow> u64 \<Rightarrow> Object \<Rightarrow> u64 \<Rightarrow> u64 \<Rightarrow> lnk \<Rightarrow> fault + lnk" where
  "apply_rela env hwcap auxv obj tab count l =
     foldM (\<lambda>i l. rbind (rd_rela (lmem l) (tab + 24 * of_nat i)) (\<lambda>r. apply_one env hwcap auxv obj r l))
       [0..<unat count] l"

text \<open>\<^verbatim>\<open>*slot += base\<close>\<close>

definition add_base :: "u64 \<Rightarrow> u64 \<Rightarrow> vm \<Rightarrow> fault + vm" where
  "add_base base slot m = rbind (rd64 m slot) (\<lambda>v. wr64 m slot (v + base))"

lemma drop_bit_less: "b \<noteq> 0 \<Longrightarrow> unat (drop_bit (Suc 0) b) < unat (b :: u64)"
  by (simp add: drop_bit_Suc unat_div unat_gt_0)

function relr_bitmap :: "u64 \<Rightarrow> u64 \<Rightarrow> u64 \<Rightarrow> vm \<Rightarrow> fault + vm" where
  "relr_bitmap base s bitmap m =
     (if bitmap = 0 then Inr m
      else rbind (if bitmap AND 1 \<noteq> 0 then add_base base s m else Inr m) (\<lambda>m'.
        relr_bitmap base (s + 8) (drop_bit 1 bitmap) m'))"
  by pat_completeness auto
termination
  by (relation "measure (\<lambda>(base, s, bitmap, m). unat bitmap)") (auto simp: drop_bit_less)

declare relr_bitmap.simps [simp del]

text \<open>One word of the table, on the pointer \<open>slot\<close> and the memory.\<close>

definition relr_entry :: "u64 \<Rightarrow> u64 \<Rightarrow> u64 \<times> vm \<Rightarrow> fault + u64 \<times> vm" where
  "relr_entry base ent st = (case st of (slot, m) \<Rightarrow>
     if ent AND 1 = 0
     then rbind (add_base base (ent + base) m) (\<lambda>m'. Inr (ent + base + 8, m'))
     else rbind (relr_bitmap base slot (drop_bit 1 ent) m) (\<lambda>m'. Inr (slot + 63 * 8, m')))"

definition apply_relr :: "Object \<Rightarrow> vm \<Rightarrow> fault + vm" where
  "apply_relr obj m =
     (if relr obj = 0 \<or> relr_count obj = 0 then Inr m
      else rbind (foldM (\<lambda>i st. rbind (rd64 (snd st) (relr obj + 8 * of_nat i)) (\<lambda>ent. relr_entry (load_base obj) ent st))
                   [0..<unat (relr_count obj)] (0, m))
             (\<lambda>st. Inr (snd st)))"

subsection \<open>Android packed relocations\<close>

lemma unat_inc: "(cur :: u64) < e \<Longrightarrow> unat (cur + 1) = Suc (unat cur)"
proof -
  assume "cur < e"
  then have "unat cur < unat e" by (simp add: word_less_nat_alt)
  then have "unat cur + 1 < 2 ^ 64" using unat64_less [of e] by linarith
  then show ?thesis by (subst unat_add_lem [THEN iffD1]) simp_all
qed

text \<open>The loop of \<^verbatim>\<open>sleb128_decoder_pop_front\<close>: value, shift, last byte and the new position.\<close>

function sleb128_loop :: "vm \<Rightarrow> u64 \<Rightarrow> u64 \<Rightarrow> u64 \<Rightarrow> nat \<Rightarrow> fault + u64 \<times> nat \<times> u8 \<times> u64" where
  "sleb128_loop m cur e val shift =
     (if e \<le> cur then Inl (Fatal ''sleb128_decoder ran out of bounds'')
      else rbind (rd8 m cur) (\<lambda>byte.
        if 64 \<le> shift then Inl Undefined
        else
          let val' = val OR push_bit shift (ucast (byte AND 127)); shift' = shift + 7 in
          if byte AND 128 \<noteq> 0 then sleb128_loop m (cur + 1) e val' shift'
          else Inr (val', shift', byte, cur + 1)))"
  by pat_completeness auto
termination
  by (relation "measure (\<lambda>(m, cur, e, val, shift). unat e - unat cur)")
    (auto simp: not_le unat_inc word_less_nat_alt)

declare sleb128_loop.simps [simp del]

definition sleb128_decoder_pop_front :: "vm \<Rightarrow> u64 \<Rightarrow> u64 \<Rightarrow> fault + u64 \<times> u64" where
  "sleb128_decoder_pop_front m cur e =
     rbind (sleb128_loop m cur e 0 0) (\<lambda>(val, shift, byte, cur').
       Inr (if shift < 64 \<and> byte AND 64 \<noteq> 0 then val OR - push_bit shift 1 else val, cur'))"

lemma sleb128_loop_Inr:
  "sleb128_loop m cur e val shift = Inr r \<longleftrightarrow>
     cur < e \<and> shift < 64 \<and> (\<exists>byte. rd8 m cur = Inr byte \<and>
       (let val' = val OR push_bit shift (ucast (byte AND 127)) in
        if byte AND 128 \<noteq> 0 then sleb128_loop m (cur + 1) e val' (shift + 7) = Inr r
        else r = (val', shift + 7, byte, cur + 1)))"
  by (subst sleb128_loop.simps) (auto simp: rbind_eq_Inr_iff Let_def not_le split: if_splits)

lemma sleb128_loop_advances:
  "sleb128_loop m cur e val shift = Inr (v, sh, b, cur') \<Longrightarrow> cur < cur' \<and> cur' \<le> e"
proof (induction m cur e val shift rule: sleb128_loop.induct)
  case (1 m cur e val shift)
  from 1(2) obtain byte where b: "cur < e" "shift < 64" "rd8 m cur = Inr byte"
    and r: "if byte AND 128 \<noteq> 0
      then sleb128_loop m (cur + 1) e (val OR push_bit shift (ucast (byte AND 127))) (shift + 7) = Inr (v, sh, b, cur')
      else cur' = cur + 1"
    unfolding sleb128_loop_Inr [of m cur] by (auto simp: Let_def split: if_splits)
  have "cur < cur + 1" "cur + 1 \<le> e"
    using unat_inc [OF b(1)] b(1) by (simp_all add: word_less_nat_alt word_le_nat_alt)
  then show ?case using r 1(1) [OF _ b(3) _ refl refl] b(1,2) by (auto simp: not_le intro: less_trans split: if_splits)
qed

lemma pop_front_advances: "sleb128_decoder_pop_front m cur e = Inr (v, cur') \<Longrightarrow> cur < cur' \<and> cur' \<le> e"
  by (auto simp: sleb128_decoder_pop_front_def rbind_eq_Inr_iff dest: sleb128_loop_advances)

definition RELOCATION_GROUPED_BY_INFO_FLAG :: u64 where "RELOCATION_GROUPED_BY_INFO_FLAG = 1"
definition RELOCATION_GROUPED_BY_OFFSET_DELTA_FLAG :: u64 where "RELOCATION_GROUPED_BY_OFFSET_DELTA_FLAG = 2"
definition RELOCATION_GROUPED_BY_ADDEND_FLAG :: u64 where "RELOCATION_GROUPED_BY_ADDEND_FLAG = 4"
definition RELOCATION_GROUP_HAS_ADDEND_FLAG :: u64 where "RELOCATION_GROUP_HAS_ADDEND_FLAG = 8"

lemmas group_flags_defs =
  RELOCATION_GROUPED_BY_INFO_FLAG_def RELOCATION_GROUPED_BY_OFFSET_DELTA_FLAG_def
  RELOCATION_GROUPED_BY_ADDEND_FLAG_def RELOCATION_GROUP_HAS_ADDEND_FLAG_def

text \<open>The local variables of \<^verbatim>\<open>apply_android_rela\<close> that its loops change.\<close>

record packed =
  dec_current :: u64
  pk_offset :: u64
  pk_info :: u64
  pk_addend :: u64

definition pop :: "vm \<Rightarrow> u64 \<Rightarrow> packed \<Rightarrow> fault + u64 \<times> packed" where
  "pop m e pk = rbind (sleb128_decoder_pop_front m (dec_current pk) e) (\<lambda>(v, cur).
     Inr (v, pk\<lparr>dec_current := cur\<rparr>))"

text \<open>The relocation that one turn of the inner loop decodes.\<close>

definition packed_next :: "vm \<Rightarrow> u64 \<Rightarrow> u64 \<Rightarrow> u64 \<Rightarrow> packed \<Rightarrow> fault + packed" where
  "packed_next m e group_flags delta pk =
     rbind (if group_flags AND RELOCATION_GROUPED_BY_OFFSET_DELTA_FLAG \<noteq> 0
            then Inr (pk\<lparr>pk_offset := pk_offset pk + delta\<rparr>)
            else rbind (pop m e pk) (\<lambda>(v, pk). Inr (pk\<lparr>pk_offset := pk_offset pk + v\<rparr>))) (\<lambda>pk.
     rbind (if group_flags AND RELOCATION_GROUPED_BY_INFO_FLAG = 0
            then rbind (pop m e pk) (\<lambda>(v, pk). Inr (pk\<lparr>pk_info := v\<rparr>))
            else Inr pk) (\<lambda>pk.
     if group_flags AND (RELOCATION_GROUP_HAS_ADDEND_FLAG OR RELOCATION_GROUPED_BY_ADDEND_FLAG)
          = RELOCATION_GROUP_HAS_ADDEND_FLAG
     then rbind (pop m e pk) (\<lambda>(v, pk). Inr (pk\<lparr>pk_addend := pk_addend pk + v\<rparr>))
     else Inr pk))"

definition packed_rela :: "packed \<Rightarrow> Elf64_Rela" where
  "packed_rela pk = \<lparr>r_offset = pk_offset pk, r_info = pk_info pk, r_addend = pk_addend pk\<rparr>"

text \<open>The inner loop, on the locals and the linker state; \<open>act\<close> is what it does with each
  relocation.\<close>

fun packed_group ::
  "(Elf64_Rela \<Rightarrow> lnk \<Rightarrow> fault + lnk) \<Rightarrow> u64 \<Rightarrow> u64 \<Rightarrow> u64 \<Rightarrow> nat \<Rightarrow> packed \<Rightarrow> lnk \<Rightarrow> fault + packed \<times> lnk" where
  "packed_group act e group_flags delta 0 pk l = Inr (pk, l)"
| "packed_group act e group_flags delta (Suc n) pk l =
     rbind (packed_next (lmem l) e group_flags delta pk) (\<lambda>pk'.
     rbind (act (packed_rela pk') l) (\<lambda>l'.
     packed_group act e group_flags delta n pk' l'))"

text \<open>The head of a group: its size, its flags, the common offset delta and the locals after it.\<close>

definition group_head :: "vm \<Rightarrow> u64 \<Rightarrow> packed \<Rightarrow> fault + u64 \<times> u64 \<times> u64 \<times> packed" where
  "group_head m e pk =
     rbind (pop m e pk) (\<lambda>(group_size, pk).
     rbind (pop m e pk) (\<lambda>(group_flags, pk).
     rbind (if group_flags AND RELOCATION_GROUPED_BY_OFFSET_DELTA_FLAG \<noteq> 0 then pop m e pk else Inr (0, pk)) (\<lambda>(delta, pk).
     rbind (if group_flags AND RELOCATION_GROUPED_BY_INFO_FLAG \<noteq> 0
            then rbind (pop m e pk) (\<lambda>(v, pk). Inr (pk\<lparr>pk_info := v\<rparr>)) else Inr pk) (\<lambda>pk.
     let fr = group_flags AND (RELOCATION_GROUP_HAS_ADDEND_FLAG OR RELOCATION_GROUPED_BY_ADDEND_FLAG) in
     rbind (if fr = RELOCATION_GROUP_HAS_ADDEND_FLAG then Inr pk
            else if fr = RELOCATION_GROUP_HAS_ADDEND_FLAG OR RELOCATION_GROUPED_BY_ADDEND_FLAG
            then rbind (pop m e pk) (\<lambda>(v, pk). Inr (pk\<lparr>pk_addend := pk_addend pk + v\<rparr>))
            else Inr (pk\<lparr>pk_addend := 0\<rparr>)) (\<lambda>pk.
     Inr (group_size, group_flags, delta, pk))))))"

lemma pop_advances: "pop m e pk = Inr (v, pk') \<Longrightarrow> dec_current pk < dec_current pk' \<and> dec_current pk' \<le> e"
  by (auto simp: pop_def rbind_eq_Inr_iff dest: pop_front_advances)

lemma packed_next_advances: "packed_next m e fl d pk = Inr pk' \<Longrightarrow> dec_current pk \<le> dec_current pk'"
  unfolding packed_next_def
  by (auto simp: rbind_eq_Inr_iff split: if_split_asm dest!: pop_advances)

lemma packed_group_advances:
  "packed_group act e fl d n pk l = Inr (pk', l') \<Longrightarrow> dec_current pk \<le> dec_current pk'"
proof (induction n arbitrary: pk l)
  case (Suc n)
  then show ?case by (auto simp: rbind_eq_Inr_iff dest!: packed_next_advances intro: order_trans)
qed simp

lemma group_head_advances:
  "group_head m e pk = Inr (n, fl, d, pk') \<Longrightarrow> dec_current pk < dec_current pk' \<and> dec_current pk < e"
  unfolding group_head_def
  by (auto simp: rbind_eq_Inr_iff Let_def split: if_split_asm dest!: pop_advances)

text \<open>The outer loop. It ends because every group consumes input, whatever its size.\<close>

function packed_loop ::
  "(Elf64_Rela \<Rightarrow> lnk \<Rightarrow> fault + lnk) \<Rightarrow> u64 \<Rightarrow> u64 \<Rightarrow> u64 \<Rightarrow> packed \<Rightarrow> lnk \<Rightarrow> fault + lnk" where
  "packed_loop act e num_relocs idx pk l =
     (if idx < num_relocs
      then rbind (group_head (lmem l) e pk) (\<lambda>(group_size, group_flags, delta, pk1).
           rbind (packed_group act e group_flags delta (unat group_size) pk1 l) (\<lambda>(pk2, l2).
           packed_loop act e num_relocs (idx + group_size) pk2 l2))
      else Inr l)"
  by pat_completeness auto
termination
proof (relation "measure (\<lambda>(act, e, num_relocs, idx, pk, l). unat e - unat (dec_current pk))", goal_cases)
  case (2 act e num_relocs idx pk l a n b fl c d pk1 r pk2 l2)
  then have "dec_current pk < dec_current pk1" "dec_current pk < e" "dec_current pk1 \<le> dec_current pk2"
    by (auto dest: group_head_advances packed_group_advances)
  then show ?case by (auto simp: word_less_nat_alt word_le_nat_alt)
qed simp

declare packed_loop.simps [simp del]

definition apply_android_rela :: "lnk_env \<Rightarrow> u64 \<Rightarrow> u64 \<Rightarrow> Object \<Rightarrow> u64 \<Rightarrow> u64 \<Rightarrow> lnk \<Rightarrow> fault + lnk" where
  "apply_android_rela env hwcap auxv obj packed_relocs sz l =
     (if sz < 4 then Inr l
      else
        let m = lmem l; bad = Inl (Fatal ''invalid Android packed relocations signature'');
            e = packed_relocs + 4 + (sz - 4) in
        rbind (rd8 m packed_relocs) (\<lambda>c0. if c0 \<noteq> 65 then bad else
        rbind (rd8 m (packed_relocs + 1)) (\<lambda>c1. if c1 \<noteq> 80 then bad else
        rbind (rd8 m (packed_relocs + 2)) (\<lambda>c2. if c2 \<noteq> 83 then bad else
        rbind (rd8 m (packed_relocs + 3)) (\<lambda>c3. if c3 \<noteq> 50 then bad else
        rbind (sleb128_decoder_pop_front m (packed_relocs + 4) e) (\<lambda>(num_relocs, cur1).
        rbind (sleb128_decoder_pop_front m cur1 e) (\<lambda>(off, cur2).
        packed_loop (apply_one env hwcap auxv obj) e num_relocs 0
          \<lparr>dec_current = cur2, pk_offset = off, pk_info = 0, pk_addend = 0\<rparr> l)))))))"

definition relocate_object :: "lnk_env \<Rightarrow> u64 \<Rightarrow> u64 \<Rightarrow> Object \<Rightarrow> lnk \<Rightarrow> fault + lnk" where
  "relocate_object env hwcap auxv obj l =
     rbind (apply_relr obj (lmem l)) (\<lambda>m.
     rbind (if android_rela obj \<noteq> 0 \<and> android_rela_size obj \<noteq> 0
            then apply_android_rela env hwcap auxv obj (android_rela obj) (android_rela_size obj) (set_mem l m)
            else Inr (set_mem l m)) (\<lambda>l.
     rbind (if rela obj \<noteq> 0 \<and> rela_count obj \<noteq> 0
            then apply_rela env hwcap auxv obj (rela obj) (rela_count obj) l else Inr l) (\<lambda>l.
     if jmprel obj \<noteq> 0 \<and> jmprel_count obj \<noteq> 0
     then apply_rela env hwcap auxv obj (jmprel obj) (jmprel_count obj) l else Inr l)))"

section \<open>Packed relative relocations\<close>

text \<open>The slots that a RELR table of the given words stands for.\<close>

definition bitmap_slots :: "u64 \<Rightarrow> u64 \<Rightarrow> u64 list" where
  "bitmap_slots slot bitmap = map (\<lambda>k. slot + 8 * of_nat k) (filter (bit bitmap) [0..<63])"

fun relr_slots :: "u64 \<Rightarrow> u64 \<Rightarrow> u64 list \<Rightarrow> u64 list" where
  "relr_slots base slot [] = []"
| "relr_slots base slot (ent # es) =
     (if ent AND 1 = 0 then (ent + base) # relr_slots base (ent + base + 8) es
      else bitmap_slots slot (drop_bit 1 ent) @ relr_slots base (slot + 63 * 8) es)"

lemma add_base_modify: "add_base base = vm64.modify (\<lambda>v. v + base)"
  by (simp add: add_base_def vm64.modify_def fun_eq_iff)

lemma relr_bitmap_eq:
  "take_bit n bitmap = bitmap \<Longrightarrow>
     relr_bitmap base s bitmap m = foldM (add_base base) (map (\<lambda>k. s + 8 * of_nat k) (filter (bit bitmap) [0..<n])) m"
proof (induction n arbitrary: s bitmap m)
  case 0
  then show ?case by (subst relr_bitmap.simps) simp
next
  case (Suc n)
  have tl: "filter (bit bitmap) [1..<Suc n] = map Suc (filter (bit (drop_bit 1 bitmap)) [0..<n])"
    unfolding One_nat_def map_Suc_upt [symmetric] by (simp add: filter_map comp_def bit_drop_bit_eq)
  have "take_bit n (drop_bit 1 bitmap) = drop_bit 1 (take_bit (Suc n) bitmap)"
    by (simp add: drop_bit_take_bit)
  then have rest: "take_bit n (drop_bit 1 bitmap) = drop_bit 1 bitmap" using Suc.prems by simp
  have split: "filter (bit bitmap) [0..<Suc n] =
      (if bit bitmap 0 then [0] else []) @ map Suc (filter (bit (drop_bit 1 bitmap)) [0..<n])"
    unfolding tl [symmetric] by (simp add: upt_conv_Cons del: upt_Suc)
  show ?case
  proof (cases "bitmap = 0")
    case True
    then show ?thesis by (subst relr_bitmap.simps) simp
  next
    case False
    have "relr_bitmap base (s + 8) (drop_bit 1 bitmap) =
        foldM (add_base base) (map (\<lambda>k. s + (8 + 8 * of_nat k)) (filter (bit (drop_bit 1 bitmap)) [0..<n]))"
      using Suc.IH [OF rest, of "s + 8"] by (simp add: fun_eq_iff add.assoc)
    then show ?thesis
      using False unfolding split
      by (subst relr_bitmap.simps) (auto simp: bit_0 odd_iff_mod_2_eq_one and_one_eq comp_def)
  qed
qed

lemma relr_entry_eq:
  "relr_entry base ent (slot, m) =
     rbind (foldM (add_base base) (relr_slots base slot [ent]) m) (\<lambda>m'.
       Inr (if ent AND 1 = 0 then ent + base + 8 else slot + 63 * 8, m'))"
proof -
  have "take_bit 63 (drop_bit 1 ent) = drop_bit 1 ent"
    by (intro bit_word_eqI) (auto simp: bit_take_bit_iff bit_drop_bit_eq dest: bit_imp_le_length)
  then show ?thesis using relr_bitmap_eq [of 63 "drop_bit 1 ent"]
    by (simp add: relr_entry_def bitmap_slots_def rbind_assoc del: upt_rec_numeral)
qed

text \<open>The table in memory, and slots that do not overlap it.\<close>

definition relr_table :: "vm \<Rightarrow> u64 \<Rightarrow> u64 list \<Rightarrow> bool" where
  "relr_table m tab es \<longleftrightarrow> (\<forall>i < length es. rd64 m (tab + 8 * of_nat i) = Inr (es ! i))"

lemma foldM_add_base_other:
  "foldM (add_base base) as m = Inr m' \<Longrightarrow> \<forall>a \<in> set as. apart a b \<Longrightarrow> rd64 m' b = rd64 m b"
  unfolding add_base_modify by (rule vm64.foldM_modify_other)

lemma relr_loop_eq:
  assumes "relr_table m tab es" and "\<forall>a \<in> set (relr_slots base slot es). \<forall>i < length es. apart a (tab + 8 * of_nat i)"
  shows "rbind (foldM (\<lambda>i st. rbind (rd64 (snd st) (tab + 8 * of_nat i)) (\<lambda>ent. relr_entry base ent st))
            [0..<length es] (slot, m)) (\<lambda>st. Inr (snd st)) =
         foldM (add_base base) (relr_slots base slot es) m"
proof -
  define body where "body = (\<lambda>i st. rbind (rd64 (snd st) (tab + 8 * of_nat i)) (\<lambda>ent. relr_entry base ent st))"
  have "rbind (foldM body [k..<length es] (slot, m)) (\<lambda>st. Inr (snd st)) =
      foldM (add_base base) (relr_slots base slot (drop k es)) m"
    if "k \<le> length es" "relr_table m tab es"
      "\<forall>a \<in> set (relr_slots base slot (drop k es)). \<forall>i < length es. apart a (tab + 8 * of_nat i)" for k slot m
    using that
  proof (induction "length es - k" arbitrary: k slot m)
    case 0
    then show ?case by simp
  next
    case (Suc d)
    then have k: "k < length es" and ent: "rd64 m (tab + 8 * of_nat k) = Inr (es ! k)"
      by (auto simp: relr_table_def)
    have d: "drop k es = es ! k # drop (Suc k) es" using k by (simp add: Cons_nth_drop_Suc)
    let ?slot' = "if es ! k AND 1 = 0 then es ! k + base + 8 else slot + 63 * 8"
    have sl: "relr_slots base slot (drop k es) = relr_slots base slot [es ! k] @ relr_slots base ?slot' (drop (Suc k) es)"
      unfolding d by simp
    show ?case
    proof (cases "foldM (add_base base) (relr_slots base slot [es ! k]) m")
      case (Inl f)
      then show ?thesis unfolding sl
        using k by (simp add: upt_conv_Cons body_def ent relr_entry_eq foldM_append)
    next
      case (Inr m1)
      have "rd64 m1 (tab + 8 * of_nat i) = rd64 m (tab + 8 * of_nat i)" if "i < length es" for i
        using foldM_add_base_other [OF Inr] Suc.prems(3) that unfolding sl by (simp add: ball_Un)
      then have t1: "relr_table m1 tab es" using Suc.prems(2) by (simp add: relr_table_def)
      have "rbind (foldM body [Suc k..<length es] (?slot', m1)) (\<lambda>st. Inr (snd st)) =
          foldM (add_base base) (relr_slots base ?slot' (drop (Suc k) es)) m1"
        using Suc.prems(3) Suc.hyps(2) k unfolding sl by (intro Suc.hyps(1) t1) (simp_all add: ball_Un)
      then show ?thesis unfolding sl
        using k Inr by (simp add: upt_conv_Cons body_def ent relr_entry_eq foldM_append)
    qed
  qed
  from this [of 0 m slot] assms show ?thesis by (simp add: body_def)
qed

lemma add_base_succeeds:
  assumes "can_read m a 8" and "can_write m a 8"
  shows "\<exists>m'. add_base base a m = Inr m' \<and> same_perms m m'"
proof -
  obtain v where "rd64 m a = Inr v" using rd64_succeeds [OF assms(1)] ..
  moreover obtain m' where "wr64 m a (v + base) = Inr m'" using wr64_succeeds [OF assms(2)] ..
  ultimately show ?thesis using wr64_same_perms by (auto simp: add_base_def)
qed

lemma foldM_add_base_succeeds:
  assumes "\<forall>a \<in> set as. can_read m a 8 \<and> can_write m a 8"
  shows "\<exists>m'. foldM (add_base base) as m = Inr m' \<and> same_perms m m'"
proof (rule foldM_succeeds [where I = "same_perms m"])
  fix a s
  assume "a \<in> set as" "same_perms m s"
  then have "can_read s a 8" "can_write s a 8"
    using assms by (auto simp: can_read_same_perms can_write_same_perms)
  then show "\<exists>s'. add_base base a s = Inr s' \<and> same_perms m s'"
    using add_base_succeeds \<open>same_perms m s\<close> same_perms_trans by blast
qed simp

section \<open>SLEB128\<close>

lemma sleb_last_iff:
  "v div 128 = 0 \<and> v mod 128 < 64 \<or> v div 128 = - 1 \<and> 64 \<le> v mod 128 \<longleftrightarrow> - 64 \<le> v \<and> v < (64 :: int)"
  by presburger

text \<open>The standard encoding of an integer.\<close>

function sleb_encode :: "int \<Rightarrow> u8 list" where
  "sleb_encode v =
     (let b = v mod 128; r = v div 128 in
      if r = 0 \<and> b < 64 \<or> r = - 1 \<and> 64 \<le> b then [word_of_int b]
      else word_of_int (b + 128) # sleb_encode r)"
  by pat_completeness auto
termination
proof (relation "measure (\<lambda>v. nat (if v < 0 then - v else v + 1))", goal_cases)
  case (2 v b r)
  then have "\<not> (- 64 \<le> v \<and> v < 64)" using sleb_last_iff [of v] by simp
  then show ?case using 2 by auto
qed simp

declare sleb_encode.simps [simp del]

fun bytes_at :: "vm \<Rightarrow> u64 \<Rightarrow> u8 list \<Rightarrow> bool" where
  "bytes_at m a [] \<longleftrightarrow> True"
| "bytes_at m a (b # bs) \<longleftrightarrow> rd8 m a = Inr b \<and> bytes_at m (a + 1) bs"

lemma bytes_at_append:
  "bytes_at m a (xs @ ys) \<longleftrightarrow> bytes_at m a xs \<and> bytes_at m (a + of_nat (length xs)) ys"
  by (induction xs arbitrary: a) (auto simp: algebra_simps)

text \<open>What remains to be read at shift \<open>s\<close> fits into the remaining bits.\<close>

lemma or_push_bit_add:
  assumes "take_bit s w = (w :: u64)"
  shows "w OR push_bit s x = w + push_bit s x"
proof (rule disjunctive_add_eq_or [symmetric])
  show "w AND push_bit s x = 0"
    using assms by (intro bit_word_eqI) (metis bit_and_iff bit_push_bit_iff bit_take_bit_iff not_less bit_0_eq bot_apply bot_bool_def)
qed

lemma sleb_encode_fits:
  assumes "- (2 ^ (63 - s)) \<le> v" and "v < (2 :: int) ^ (63 - s)" and "s \<le> 63"
    and "\<not> (v div 128 = 0 \<and> v mod 128 < 64 \<or> v div 128 = - 1 \<and> 64 \<le> v mod 128)"
  shows "s + 7 \<le> 63" "- (2 ^ (63 - (s + 7))) \<le> v div 128" "v div 128 < 2 ^ (63 - (s + 7))"
proof -
  have big: "\<not> (- 64 \<le> v \<and> v < 64)" using assms(4) unfolding sleb_last_iff .
  show s: "s + 7 \<le> 63"
  proof (rule ccontr)
    assume "\<not> s + 7 \<le> 63"
    then have "(2 :: int) ^ (63 - s) \<le> 2 ^ 6" by (intro power_increasing) auto
    then show False using assms(1,2) big by auto
  qed
  have "(2 :: int) ^ (63 - s) = 128 * 2 ^ (63 - (s + 7))"
    using s power_add [of "2 :: int" 7 "63 - (s + 7)"] by (simp add: add.commute)
  then show "- (2 ^ (63 - (s + 7))) \<le> v div 128" "v div 128 < 2 ^ (63 - (s + 7))"
    using assms(1,2) by auto
qed

lemma sleb_byte_table:
  "\<forall>b \<in> set [0..127]. (word_of_int b :: u8) AND 127 = word_of_int b \<and> (word_of_int b :: u8) AND 128 = 0 \<and>
     ((word_of_int b :: u8) AND 64 \<noteq> 0 \<longleftrightarrow> 64 \<le> b) \<and> (word_of_int (b + 128) :: u8) AND 127 = word_of_int b \<and>
     (word_of_int (b + 128) :: u8) AND 128 \<noteq> 0 \<and> ucast (word_of_int b :: u8) = (word_of_int b :: u64)"
  by code_simp

lemma sleb_byte:
  fixes b :: int
  assumes "0 \<le> b" and "b < 128"
  shows "(word_of_int b :: u8) AND 127 = word_of_int b" "(word_of_int b :: u8) AND 128 = 0"
    "(word_of_int b :: u8) AND 64 \<noteq> 0 \<longleftrightarrow> 64 \<le> b"
    "(word_of_int (b + 128) :: u8) AND 127 = word_of_int b" "(word_of_int (b + 128) :: u8) AND 128 \<noteq> 0"
    "ucast (word_of_int b :: u8) = (word_of_int b :: u64)"
  using bspec [OF sleb_byte_table, of b] assms by auto

lemma push_bit_word_of_int: "push_bit s (word_of_int v :: u64) = word_of_int (2 ^ s * v)"
  by (simp add: push_bit_eq_mult mult.commute)

lemma take_bit_or_byte:
  assumes "take_bit s w = (w :: u64)" and "0 \<le> b" and "b < 128"
  shows "take_bit (s + 7) (w OR push_bit s (word_of_int b)) = w OR push_bit s (word_of_int b)"
proof (rule bit_word_eqI)
  fix n
  have w: "\<not> bit w n" if "s + 7 \<le> n"
    using assms(1) that by (metis bit_take_bit_iff le_add1 le_trans not_less)
  have "take_bit 7 b = b" using assms(2,3) by (simp add: take_bit_int_eq_self)
  then have "\<not> bit b (n - s)" if "s + 7 \<le> n"
    using that by (metis Nat.le_diff_conv2 add.commute add_leD1 bit_take_bit_iff not_less)
  then show "bit (take_bit (s + 7) (w OR push_bit s (word_of_int b))) n = bit (w OR push_bit s (word_of_int b)) n"
    using w by (auto simp: bit_take_bit_iff bit_or_iff bit_push_bit_iff bit_word_of_int_iff not_less)
qed

lemma or_minus_push_bit:
  assumes "take_bit s w = (w :: u64)"
  shows "w OR - push_bit s 1 = w - push_bit s 1"
proof -
  have "- push_bit s (1 :: u64) = push_bit s (- 1)" by (simp add: push_bit_eq_mult)
  then show ?thesis using or_push_bit_add [OF assms, of "- 1"] by (simp add: push_bit_eq_mult)
qed

lemma sleb_sign:
  assumes "take_bit s w = (w :: u64)" and "s \<le> 63"
    and "v div 128 = 0 \<and> v mod 128 < 64 \<or> v div 128 = - 1 \<and> 64 \<le> v mod 128"
  defines "val \<equiv> w OR push_bit s (word_of_int (v mod 128))"
  shows "(if s + 7 < 64 \<and> 64 \<le> v mod 128 then val OR - push_bit (s + 7) 1 else val) = w + push_bit s (word_of_int v)"
proof -
  let ?b = "v mod 128"
  have val: "val = w + word_of_int (2 ^ s * ?b)"
    unfolding val_def or_push_bit_add [OF assms(1)] by (simp only: push_bit_word_of_int)
  have v: "v = (if 64 \<le> ?b then ?b - 128 else ?b)" using assms(3) by presburger
  have p: "(2 :: int) ^ (s + 7) = 2 ^ s * 128" by (simp add: power_add)
  have wrap: "word_of_int (2 ^ (s + 7)) = (0 :: u64)" if "\<not> s + 7 < 64"
    using that by simp
  show ?thesis
  proof (cases "64 \<le> ?b")
    case True
    then have "2 ^ s * v = 2 ^ s * ?b - 2 ^ (s + 7)" using v unfolding p by (metis right_diff_distrib)
    then have eq: "w + push_bit s (word_of_int v) = val - word_of_int (2 ^ (s + 7))"
      unfolding push_bit_word_of_int val by simp
    have "take_bit (s + 7) val = val" unfolding val_def by (rule take_bit_or_byte [OF assms(1)]) simp_all
    then have "val OR - push_bit (s + 7) 1 = val - word_of_int (2 ^ (s + 7))"
      using or_minus_push_bit [of "s + 7" val] by (simp add: push_bit_eq_mult)
    then show ?thesis using True eq wrap by simp
  next
    case False
    then show ?thesis using v val by (simp add: push_bit_word_of_int)
  qed
qed

lemma sleb128_loop_decodes:
  assumes "bytes_at m cur (sleb_encode v)" and "unat cur + length (sleb_encode v) \<le> unat e"
    and "take_bit s w = w" and "s \<le> 63" and "- (2 ^ (63 - s)) \<le> v" and "v < 2 ^ (63 - s)"
  shows "\<exists>val sh byte. sleb128_loop m cur e w s = Inr (val, sh, byte, cur + of_nat (length (sleb_encode v))) \<and>
     (if sh < 64 \<and> byte AND 64 \<noteq> 0 then val OR - push_bit sh 1 else val) = w + push_bit s (word_of_int v)"
  using assms
proof (induction v arbitrary: cur w s rule: sleb_encode.induct)
  case (1 v)
  let ?b = "v mod 128" and ?r = "v div 128"
  let ?last = "?r = 0 \<and> ?b < 64 \<or> ?r = - 1 \<and> 64 \<le> ?b"
  let ?val = "w OR push_bit s (word_of_int ?b)"
  have b: "0 \<le> ?b" "?b < 128" by simp_all
  note bf = sleb_byte [OF b]
  have lt: "cur < e" using 1(3) by (subst (asm) sleb_encode.simps) (auto simp: Let_def word_less_nat_alt split: if_splits)
  show ?case
  proof (cases ?last)
    case True
    then have enc: "sleb_encode v = [word_of_int ?b]" by (subst sleb_encode.simps) (simp add: Let_def)
    have "sleb128_loop m cur e w s = Inr (?val, s + 7, word_of_int ?b, cur + 1)"
      using 1(2,5) lt by (subst sleb128_loop.simps) (simp add: enc bf)
    then show ?thesis using sleb_sign [OF 1(4,5) True] by (simp add: enc bf)
  next
    case False
    define c :: u8 where "c = word_of_int (?b + 128)"
    have c: "c AND 127 = word_of_int ?b" "c AND 128 \<noteq> 0" unfolding c_def by (fact bf(4), fact bf(5))
    have enc: "sleb_encode v = c # sleb_encode ?r"
      unfolding c_def by (subst sleb_encode.simps) (use False in \<open>simp add: Let_def\<close>)
    note fits = sleb_encode_fits [OF 1(6,7,5) False]
    have step: "sleb128_loop m cur e w s = sleb128_loop m (cur + 1) e ?val (s + 7)"
      using 1(2,5) lt by (subst sleb128_loop.simps) (auto simp: enc c bf(6) Let_def)
    have at: "bytes_at m (cur + 1) (sleb_encode ?r)" "unat (cur + 1) + length (sleb_encode ?r) \<le> unat e"
      using 1(2,3) unat_inc [OF lt] by (simp_all add: enc)
    have "?val + push_bit (s + 7) (word_of_int ?r) = w + push_bit s (word_of_int v)"
    proof -
      have "2 ^ s * v = 2 ^ s * ?b + 2 ^ (s + 7) * ?r"
        using div_mult_mod_eq [of v 128] by (simp add: power_add algebra_simps flip: distrib_left)
      then show ?thesis unfolding or_push_bit_add [OF 1(4)] by (simp add: push_bit_word_of_int)
    qed
    then show ?thesis
      using 1(1) [OF refl refl False at take_bit_or_byte [OF 1(4) b] fits] by (simp add: step enc add.assoc)
  qed
qed

lemma pop_front_decodes:
  assumes "bytes_at m cur (sleb_encode v)" and "unat cur + length (sleb_encode v) \<le> unat e"
    and "- (2 ^ 63) \<le> v" and "v < 2 ^ 63"
  shows "sleb128_decoder_pop_front m cur e = Inr (word_of_int v, cur + of_nat (length (sleb_encode v)))"
  using sleb128_loop_decodes [OF assms(1,2), of 0 0] assms(3,4)
  by (auto simp: sleb128_decoder_pop_front_def)

section \<open>Stores change writable memory only\<close>

definition ro_same :: "vm \<Rightarrow> vm \<Rightarrow> bool" where
  "ro_same m m' \<longleftrightarrow> same_perms m m' \<and> (\<forall>x. \<not> writable m x \<longrightarrow> data m' x = data m x)"

lemma ro_same_refl [simp]: "ro_same m m"
  by (simp add: ro_same_def)

lemma ro_same_trans: "ro_same m m' \<Longrightarrow> ro_same m' m'' \<Longrightarrow> ro_same m m''"
  by (auto simp: ro_same_def same_perms_def writable_def)

lemma wr64_ro_same: "wr64 m a v = Inr m' \<Longrightarrow> ro_same m m'"
proof -
  assume w: "wr64 m a v = Inr m'"
  have "data m' x = data m x" if "\<not> writable m x" for x
    using wr64_Inr_can_write [OF w] that w [unfolded wr64_def]
    by (intro wr_bytes_frame [of m a "le_encode 8 v"]) (auto simp: can_write_def)
  then show ?thesis using wr64_same_perms [OF w] by (simp add: ro_same_def)
qed

lemma lmem_set_mem [simp]: "lmem (set_mem l m) = m"
  by (simp add: set_mem_def)

lemma set_mem_fields [simp]:
  "g_objects (set_mem l m) = g_objects l" "g_hwcap (set_mem l m) = g_hwcap l" "g_auxv (set_mem l m) = g_auxv l"
  "calls (lproc (set_mem l m)) = calls (lproc l)"
  by (simp_all add: set_mem_def)

text \<open>What relocation code leaves alone: everything but the contents of writable memory.\<close>

definition patches :: "lnk \<Rightarrow> lnk \<Rightarrow> bool" where
  "patches l l' \<longleftrightarrow> ro_same (lmem l) (lmem l') \<and> g_objects l' = g_objects l \<and> g_hwcap l' = g_hwcap l
     \<and> g_auxv l' = g_auxv l \<and> calls (lproc l') = calls (lproc l)"

lemma patches_refl [simp]: "patches l l"
  by (simp add: patches_def)

lemma patches_trans: "patches l l' \<Longrightarrow> patches l' l'' \<Longrightarrow> patches l l''"
  by (auto simp: patches_def intro: ro_same_trans)

lemma patches_set_mem: "patches l (set_mem l m) \<longleftrightarrow> ro_same (lmem l) m"
  by (simp add: patches_def)

lemma apply_one_patches: "apply_one env hw ax obj r l = Inr l' \<Longrightarrow> patches l l'"
  unfolding apply_one_def Let_def
  by (auto simp: rbind_eq_Inr_iff patches_set_mem split: if_split_asm option.split_asm
      dest!: wr64_ro_same intro: ro_same_trans)

lemma apply_rela_patches: "apply_rela env hw ax obj tab n l = Inr l' \<Longrightarrow> patches l l'"
  unfolding apply_rela_def
  by (erule foldM_inv) (auto simp: rbind_eq_Inr_iff intro: patches_trans apply_one_patches)

lemma packed_group_patches:
  assumes "\<And>r l l'. act r l = Inr l' \<Longrightarrow> patches l l'"
  shows "packed_group act e fl d n pk l = Inr (pk', l') \<Longrightarrow> patches l l'"
proof (induction n arbitrary: pk l)
  case (Suc n)
  then show ?case by (auto simp: rbind_eq_Inr_iff intro: patches_trans assms)
qed simp

lemma packed_loop_patches:
  assumes "\<And>r l l'. act r l = Inr l' \<Longrightarrow> patches l l'"
  shows "packed_loop act e num idx pk l = Inr l' \<Longrightarrow> patches l l'"
  using assms
proof (induction act e num idx pk l rule: packed_loop.induct)
  case (1 act e num idx pk l)
  show ?case
  proof (cases "idx < num")
    case True
    from 1(2) True obtain n fl d pk1 pk2 l2 where s: "group_head (lmem l) e pk = Inr (n, fl, d, pk1)"
      "packed_group act e fl d (unat n) pk1 l = Inr (pk2, l2)" "packed_loop act e num (idx + n) pk2 l2 = Inr l'"
      by (subst (asm) packed_loop.simps) (auto simp: rbind_eq_Inr_iff)
    have "patches l2 l'" by (rule 1(1) [OF True s(1) refl refl refl s(2) refl s(3)]) (rule 1(3))
    moreover have "patches l l2" by (rule packed_group_patches [OF _ s(2)]) (rule 1(3))
    ultimately show ?thesis using patches_trans by blast
  qed (use 1(2) in \<open>simp add: packed_loop.simps\<close>)
qed

lemma apply_relr_ro_same: "apply_relr obj m = Inr m' \<Longrightarrow> ro_same m m'"
proof -
  have add: "ro_same m m'" if "add_base b a m = Inr m'" for a b m m'
    using that by (auto simp: add_base_def rbind_eq_Inr_iff dest: wr64_ro_same)
  have fold: "ro_same m m'" if "foldM (add_base b) as m = Inr m'" for b as m m'
    by (rule foldM_inv [OF that]) (auto intro: add ro_same_trans)
  have ent: "ro_same (snd st) (snd st')" if "relr_entry b ent st = Inr st'" for b ent st st'
    using that by (cases st) (auto simp: relr_entry_eq rbind_eq_Inr_iff dest: fold)
  assume a: "apply_relr obj m = Inr m'"
  show ?thesis
  proof (cases "relr obj = 0 \<or> relr_count obj = 0")
    case False
    then obtain st where "foldM (\<lambda>i st. rbind (rd64 (snd st) (relr obj + 8 * of_nat i)) (\<lambda>ent. relr_entry (load_base obj) ent st))
        [0..<unat (relr_count obj)] (0, m) = Inr st" "m' = snd st"
      using a by (auto simp: apply_relr_def rbind_eq_Inr_iff)
    then show ?thesis
      by (elim foldM_inv [where I = "\<lambda>st. ro_same m (snd st)", elim_format])
        (auto simp: rbind_eq_Inr_iff dest: ro_same_trans [OF _ ent])
  qed (use a in \<open>simp add: apply_relr_def\<close>)
qed

lemma apply_android_rela_patches: "apply_android_rela env hw ax obj p n l = Inr l' \<Longrightarrow> patches l l'"
  unfolding apply_android_rela_def Let_def
  by (auto simp: rbind_eq_Inr_iff split: if_split_asm intro: packed_loop_patches apply_one_patches)

lemma relocate_object_patches:
  assumes "relocate_object env hw ax obj l = Inr l'"
  shows "patches l l'"
proof -
  obtain m l1 l2 where s: "apply_relr obj (lmem l) = Inr m"
    "(if android_rela obj \<noteq> 0 \<and> android_rela_size obj \<noteq> 0
      then apply_android_rela env hw ax obj (android_rela obj) (android_rela_size obj) (set_mem l m)
      else Inr (set_mem l m)) = Inr l1"
    "(if rela obj \<noteq> 0 \<and> rela_count obj \<noteq> 0 then apply_rela env hw ax obj (rela obj) (rela_count obj) l1 else Inr l1) = Inr l2"
    "(if jmprel obj \<noteq> 0 \<and> jmprel_count obj \<noteq> 0 then apply_rela env hw ax obj (jmprel obj) (jmprel_count obj) l2 else Inr l2) = Inr l'"
    using assms by (auto simp only: relocate_object_def rbind_eq_Inr_iff)
  have "patches l (set_mem l m)" using apply_relr_ro_same [OF s(1)] by (simp add: patches_set_mem)
  moreover have "patches (set_mem l m) l1" using s(2) apply_android_rela_patches by (auto split: if_split_asm)
  moreover have "patches l1 l2" "patches l2 l'" using s(3,4) apply_rela_patches by (auto split: if_split_asm)
  ultimately show ?thesis using patches_trans by blast
qed

section \<open>Encoded packed relocations\<close>

definition ro_bytes :: "vm \<Rightarrow> u64 \<Rightarrow> u8 list \<Rightarrow> bool" where
  "ro_bytes m a bs \<longleftrightarrow> bytes_at m a bs \<and> (\<forall>x \<in> span a (length bs). \<not> writable m x)"

lemma bytes_at_cong:
  "(\<And>x. x \<in> span a (length bs) \<Longrightarrow> rd8 m' x = rd8 m x) \<Longrightarrow> bytes_at m' a bs = bytes_at m a bs"
  by (induction bs arbitrary: a) (auto simp: span_Suc)

lemma ro_bytes_same: "ro_same m m' \<Longrightarrow> ro_bytes m a bs \<Longrightarrow> ro_bytes m' a bs"
proof -
  assume r: "ro_same m m'" and b: "ro_bytes m a bs"
  have "bytes_at m' a bs = bytes_at m a bs"
    using r b by (intro bytes_at_cong) (auto simp: ro_same_def ro_bytes_def rd8_def same_perms_def readable_def)
  then show ?thesis using r b by (auto simp: ro_bytes_def ro_same_def same_perms_def writable_def)
qed

lemma span_append: "span a (m + n) = span a m \<union> span (a + of_nat m) n"
  by (induction m arbitrary: a) (auto simp: span_Suc algebra_simps)

lemma ro_bytes_append:
  "ro_bytes m a (xs @ ys) \<longleftrightarrow> ro_bytes m a xs \<and> ro_bytes m (a + of_nat (length xs)) ys"
  by (auto simp: ro_bytes_def bytes_at_append span_append)

text \<open>The encoding of a list of relocations as one group, each with its own offset delta, info
  and addend delta.\<close>

definition enc :: "u64 \<Rightarrow> u8 list" where
  "enc w = sleb_encode (sint w)"

fun enc_entries :: "u64 \<Rightarrow> u64 \<Rightarrow> Elf64_Rela list \<Rightarrow> u8 list" where
  "enc_entries off add [] = []"
| "enc_entries off add (r # rs) =
     enc (r_offset r - off) @ enc (r_info r) @ enc (r_addend r - add) @ enc_entries (r_offset r) (r_addend r) rs"

definition encode_packed :: "Elf64_Rela list \<Rightarrow> u8 list" where
  "encode_packed rs = [65, 80, 83, 50] @ enc (of_nat (length rs)) @ enc 0 @
     (if rs = [] then [] else enc (of_nat (length rs)) @ enc RELOCATION_GROUP_HAS_ADDEND_FLAG @ enc_entries 0 0 rs)"

lemma sint64_bounds: "- (2 ^ 63) \<le> sint (w :: u64)" "sint (w :: u64) < 2 ^ 63"
  using sint_ge [of w] sint_lt [of w] by simp_all

text \<open>Reading one encoded word off the front of read-only input.\<close>

lemma pop_front_enc:
  assumes "ro_bytes m cur (enc w @ rest)" and "unat cur + length (enc w @ rest) = unat e"
  shows "sleb128_decoder_pop_front m cur e = Inr (w, cur + of_nat (length (enc w)))"
    "ro_bytes m (cur + of_nat (length (enc w))) rest"
    "unat (cur + of_nat (length (enc w))) + length rest = unat e"
proof -
  show "sleb128_decoder_pop_front m cur e = Inr (w, cur + of_nat (length (enc w)))"
    using pop_front_decodes [of m cur "sint w" e] assms sint64_bounds [of w]
    by (simp add: enc_def ro_bytes_def bytes_at_append)
  show "ro_bytes m (cur + of_nat (length (enc w))) rest" using assms(1) by (simp add: ro_bytes_append)
  have "unat cur + length (enc w) < 2 ^ 64" using assms(2) unat64_less [of e] by simp
  then have "unat (cur + of_nat (length (enc w))) = unat cur + length (enc w)"
    by (simp add: unat_word_ariths unat_of_nat)
  then show "unat (cur + of_nat (length (enc w))) + length rest = unat e" using assms(2) by simp
qed

lemma pop_enc:
  assumes "ro_bytes m (dec_current pk) (enc w @ rest)" and "unat (dec_current pk) + length (enc w @ rest) = unat e"
  shows "pop m e pk = Inr (w, pk\<lparr>dec_current := dec_current pk + of_nat (length (enc w))\<rparr>)"
  using pop_front_enc(1) [OF assms] by (simp add: pop_def)

lemma packed_next_enc:
  assumes "ro_bytes m (dec_current pk) (enc (r_offset r - pk_offset pk) @ enc (r_info r) @ enc (r_addend r - pk_addend pk) @ rest)"
    and "unat (dec_current pk) + length (enc (r_offset r - pk_offset pk) @ enc (r_info r) @ enc (r_addend r - pk_addend pk) @ rest) = unat e"
  shows "\<exists>pk'. packed_next m e RELOCATION_GROUP_HAS_ADDEND_FLAG d pk = Inr pk' \<and> packed_rela pk' = r \<and>
     ro_bytes m (dec_current pk') rest \<and> unat (dec_current pk') + length rest = unat e"
proof -
  let ?c1 = "dec_current pk + of_nat (length (enc (r_offset r - pk_offset pk)))"
  let ?c2 = "?c1 + of_nat (length (enc (r_info r)))"
  let ?c3 = "?c2 + of_nat (length (enc (r_addend r - pk_addend pk)))"
  let ?pk1 = "pk\<lparr>dec_current := ?c1, pk_offset := r_offset r\<rparr>" and ?pk2 = "pk\<lparr>dec_current := ?c2, pk_offset := r_offset r, pk_info := r_info r\<rparr>"
  note a1 = pop_front_enc(2,3) [OF assms] and p1 = pop_enc [OF assms]
  note a2 = pop_front_enc(2,3) [OF a1] and a3 = pop_front_enc(2,3) [OF pop_front_enc(2,3) [OF a1]]
  have p2: "pop m e ?pk1 = Inr (r_info r, ?pk1\<lparr>dec_current := ?c2\<rparr>)"
    using pop_enc [of m ?pk1] a1 by simp
  have p3: "pop m e ?pk2 = Inr (r_addend r - pk_addend pk, ?pk2\<lparr>dec_current := ?c3\<rparr>)"
    using pop_enc [of m ?pk2] a2 by simp
  have "packed_next m e RELOCATION_GROUP_HAS_ADDEND_FLAG d pk =
      Inr (pk\<lparr>dec_current := ?c3, pk_offset := r_offset r, pk_info := r_info r, pk_addend := r_addend r\<rparr>)"
    using p1 p2 p3 by (cases pk) (simp add: packed_next_def group_flags_defs)
  then show ?thesis using a3 by (auto simp: packed_rela_def)
qed

lemma packed_group_enc:
  assumes "\<And>r l l'. act r l = Inr l' \<Longrightarrow> ro_same (lmem l) (lmem l')"
    and "ro_bytes (lmem l) (dec_current pk) (enc_entries (pk_offset pk) (pk_addend pk) rs @ rest)"
    and "unat (dec_current pk) + length (enc_entries (pk_offset pk) (pk_addend pk) rs @ rest) = unat e"
  shows "\<exists>pk'. packed_group act e RELOCATION_GROUP_HAS_ADDEND_FLAG d (length rs) pk l =
     rbind (foldM act rs l) (\<lambda>l'. Inr (pk', l'))"
  using assms(2,3)
proof (induction rs arbitrary: pk l)
  case (Cons r rs)
  let ?rest = "enc_entries (r_offset r) (r_addend r) rs @ rest"
  obtain pk' where pk': "packed_next (lmem l) e RELOCATION_GROUP_HAS_ADDEND_FLAG d pk = Inr pk'" "packed_rela pk' = r"
    "ro_bytes (lmem l) (dec_current pk') ?rest" "unat (dec_current pk') + length ?rest = unat e"
    using packed_next_enc [of "lmem l" pk r ?rest e] Cons.prems by auto
  then have f: "r_offset r = pk_offset pk'" "r_addend r = pk_addend pk'" by (auto simp: packed_rela_def)
  show ?case
  proof (cases "act r l")
    case (Inr l')
    have "ro_bytes (lmem l') (dec_current pk') ?rest" using pk'(3) assms(1) [OF Inr] ro_bytes_same by blast
    then obtain pk2 where "packed_group act e RELOCATION_GROUP_HAS_ADDEND_FLAG d (length rs) pk' l' =
        rbind (foldM act rs l') (\<lambda>l'. Inr (pk2, l'))"
      using Cons.IH [of l' pk'] pk'(4) unfolding f by auto
    then show ?thesis using pk' Inr by auto
  qed (simp add: pk')
qed auto

lemma packed_loop_one_group:
  assumes "group_head (lmem l) e pk = Inr (of_nat (length rs), fl, d, pk1)" and "0 < length rs" and "length rs < 2 ^ 64"
    and "packed_group act e fl d (length rs) pk1 l = rbind (foldM act rs l) (\<lambda>l'. Inr (pk2, l'))"
  shows "packed_loop act e (of_nat (length rs)) 0 pk l = foldM act rs l"
  using assms by (subst packed_loop.simps) (simp add: word_less_nat_alt unat_of_nat rbind_assoc packed_loop.simps)

section \<open>Properties\<close>

text \<open>C6: \<^verbatim>\<open>apply_relr\<close> adds the load base, once, to every slot its table encodes and to
  nothing else; it succeeds whenever the slots can be read and written.\<close>

theorem apply_relr_correct:
  assumes "relr obj \<noteq> 0" and "length es = unat (relr_count obj)" and "relr_table m (relr obj) es"
    and "slots = relr_slots (load_base obj) 0 es"
    and "\<forall>a \<in> set slots. \<forall>i < length es. apart a (relr obj + 8 * of_nat i)"
    and "distinct slots" and "pairwise apart (set slots)"
    and "\<forall>a \<in> set slots. can_read m a 8 \<and> can_write m a 8"
  shows "\<exists>m'. apply_relr obj m = Inr m' \<and>
     (\<forall>a \<in> set slots. \<forall>v. rd64 m a = Inr v \<longrightarrow> rd64 m' a = Inr (v + load_base obj)) \<and>
     (\<forall>b. (\<forall>a \<in> set slots. apart a b) \<longrightarrow> rd64 m' b = rd64 m b)"
proof -
  have eq: "apply_relr obj m = foldM (add_base (load_base obj)) slots m"
  proof (cases "relr_count obj = 0")
    case True
    then show ?thesis using assms(2,4) by (simp add: apply_relr_def)
  next
    case False
    then show ?thesis
      using relr_loop_eq [OF assms(3) assms(5) [unfolded assms(4)]] assms(1,2,4) by (simp add: apply_relr_def)
  qed
  obtain m' where m': "foldM (add_base (load_base obj)) slots m = Inr m'"
    using foldM_add_base_succeeds [OF assms(8)] by blast
  have "rd64 m' a = Inr (v + load_base obj)" if "a \<in> set slots" "rd64 m a = Inr v" for a v
    using vm64.foldM_modify_each [OF m' [unfolded add_base_modify] assms(7,6) that] .
  moreover have "rd64 m' b = rd64 m b" if "\<forall>a \<in> set slots. apart a b" for b
    using foldM_add_base_other [OF m' that] .
  ultimately show ?thesis using eq m' by auto
qed

text \<open>A table of an address word and a bitmap word at address 8, for the slots 48 and 56.\<close>

definition demo_relr :: "u8 list" where
  "demo_relr = replicate 8 0 @ [16, 0, 0, 0, 0, 0, 0, 0] @ [3, 0, 0, 0, 0, 0, 0, 0] @ replicate 24 0 @
     [5, 0, 0, 0, 0, 0, 0, 0] @ [7, 0, 0, 0, 0, 0, 0, 0]"

definition demo_relr_obj :: Object where
  "demo_relr_obj = zero_object\<lparr>load_base := 32, relr := 8, relr_count := 2\<rparr>"

lemma demo_relr_words:
  "rd64 (image_mem demo_relr) 8 = Inr 16" "rd64 (image_mem demo_relr) 16 = Inr 3"
  "rd64 (image_mem demo_relr) 48 = Inr 5" "rd64 (image_mem demo_relr) 56 = Inr 7"
  by (simp_all add: rd64_def rd_bytes_numeral image_mem_rd8 demo_relr_def nth_append)

lemma demo_relr_slots: "relr_slots 32 0 [16, 3] = [48, 56]"
  by code_simp

theorem apply_relr_correct_witness:
  "\<exists>m'. apply_relr demo_relr_obj (image_mem demo_relr) = Inr m' \<and> rd64 m' 48 = Inr 37 \<and> rd64 m' 56 = Inr 39"
proof -
  have "relr_table (image_mem demo_relr) 8 [16, 3]"
    using demo_relr_words by (simp add: relr_table_def less_Suc_eq)
  then have "\<exists>m'. apply_relr demo_relr_obj (image_mem demo_relr) = Inr m' \<and>
     (\<forall>a \<in> set [48, 56]. \<forall>v. rd64 (image_mem demo_relr) a = Inr v \<longrightarrow> rd64 m' a = Inr (v + load_base demo_relr_obj)) \<and>
     (\<forall>b. (\<forall>a \<in> set [48, 56]. apart a b) \<longrightarrow> rd64 m' b = rd64 (image_mem demo_relr) b)"
    by (intro apply_relr_correct [of _ "[16, 3]"])
      (auto simp: demo_relr_obj_def demo_relr_slots less_Suc_eq pairwise_def simp del: relr_slots.simps intro!: apartI)
  then show ?thesis using demo_relr_words by (auto simp: demo_relr_obj_def)
qed

text \<open>C7: \<^verbatim>\<open>sleb128_decoder_pop_front\<close> inverts the SLEB128 encoding of every signed 64-bit
  value and moves exactly behind it.\<close>

theorem sleb128_roundtrip:
  assumes "bytes_at m cur (sleb_encode v)" and "unat cur + length (sleb_encode v) \<le> unat e"
    and "- (2 ^ 63) \<le> v" and "v < 2 ^ 63"
  shows "sleb128_decoder_pop_front m cur e = Inr (word_of_int v, cur + of_nat (length (sleb_encode v)))"
  using assms by (rule pop_front_decodes)

theorem sleb128_roundtrip_witness:
  "sleb128_decoder_pop_front (image_mem [255, 126]) 0 2 = Inr (- 129, 2)"
proof -
  have e: "sleb_encode (- 129) = [255, 126]" by code_simp
  have "sleb128_decoder_pop_front (image_mem [255, 126]) 0 2 =
      Inr (word_of_int (- 129), 0 + of_nat (length (sleb_encode (- 129))))"
    by (rule sleb128_roundtrip) (simp_all add: e image_mem_rd8)
  then show ?thesis by (simp add: e)
qed


text \<open>One relative relocation, packed in read-only memory; the rest of the memory is writable.\<close>

definition demo_relas :: "Elf64_Rela list" where
  "demo_relas = [\<lparr>r_offset = 0x1000, r_info = 1027, r_addend = 5\<rparr>]"

definition demo_packed_lnk :: lnk where
  "demo_packed_lnk = \<lparr>lproc = \<lparr>mem = (image_mem (encode_packed demo_relas))\<lparr>
       prot := (\<lambda>a. if a < 256 then PROT_READ else PROT_READ OR PROT_WRITE)\<rparr>, calls = 0\<rparr>,
     g_objects = [], g_hwcap = 0, g_auxv = 0\<rparr>"

lemma demo_packed_bytes:
  "encode_packed demo_relas = [65, 80, 83, 50, 1, 0, 1, 8, 128, 32, 131, 8, 5]"
  by code_simp



definition demo_relr_lnk :: lnk where
  "demo_relr_lnk = \<lparr>lproc = \<lparr>mem = (image_mem demo_relr)\<lparr>
       prot := (\<lambda>a. if a < 32 then PROT_READ else PROT_READ OR PROT_WRITE)\<rparr>, calls = 0\<rparr>,
     g_objects = [], g_hwcap = 0, g_auxv = 0\<rparr>"

lemma demo_relocated:
  "case relocate_object demo_env 0 0 demo_relr_obj demo_relr_lnk of
     Inl _ \<Rightarrow> False | Inr l' \<Rightarrow> rd64 (lmem l') 48 = Inr 37 \<and> rd64 (lmem l') 56 = Inr 39"
  by code_simp


end
