(* ===== verification/Lnk_Registry.thy ===== *)
theory Lnk_Registry
  imports Lnk_Reloc
begin

text \<open>
  The registry of loaded objects, \<^verbatim>\<open>linker64/src/linker.c\<close>: the library search,
  \<^verbatim>\<open>load_needed_so\<close> with its recursion over \<^verbatim>\<open>DT_NEEDED\<close> and
  \<^verbatim>\<open>lnk_dlopen\<close>.

  Every level of the recursion registers an object before it goes deeper and the registry holds
  at most \<^verbatim>\<open>MAX_OBJECTS\<close> = 1024 objects, so its depth is at most 1025: this is the fuel
  the callers give, and a theorem below shows that more of it never changes the result.
\<close>

section \<open>Operations\<close>

text \<open>\<^verbatim>\<open>try_dir\<close>: \<open>None\<close> for false, otherwise the new contents of \<open>path_out\<close> and the descriptor.\<close>

definition try_dir :: "os \<Rightarrow> cstring \<Rightarrow> cstring \<Rightarrow> u8 list \<Rightarrow> fault + (u8 list \<times> int) option" where
  "try_dir os dir name path_out =
     rbind (lnk_strcpy (replicate 256 0) dir) (\<lambda>p1.
     rbind (lnk_strcat p1 (lit ''/'')) (\<lambda>p2.
     rbind (lnk_strcat p2 name) (\<lambda>p3.
       let fd = os_open os (str_of p3) in
       if 0 \<le> fd then rbind (lnk_strcpy path_out (str_of p3)) (\<lambda>out. Inr (Some (out, fd)))
       else Inr None)))"

definition is_system_lib :: "cstring \<Rightarrow> bool" where
  "is_system_lib name \<longleftrightarrow>
     lnk_strcmp name (lit ''libdl.so'') = 0 \<or> lnk_strcmp name (lit ''libdl_android.so'') = 0 \<or>
     lnk_strcmp name (lit ''ld-android.so'') = 0"

definition search_dirs :: "cstring list" where
  "search_dirs = map lit [''/data/local/tmp'', ''/system/lib64'', ''/apex/com.android.art/lib64'',
     ''/apex/com.android.runtime/lib64'', ''/apex/com.android.i18n/lib64'',
     ''/apex/com.android.conscrypt/lib64'', ''/vendor/lib64'', ''/lib'', ''/usr/lib'']"

fun try_dirs :: "os \<Rightarrow> cstring list \<Rightarrow> cstring \<Rightarrow> u8 list \<Rightarrow> fault + (u8 list \<times> int) option" where
  "try_dirs os [] name path_out = Inr None"
| "try_dirs os (d # ds) name path_out =
     rbind (try_dir os d name path_out) (\<lambda>r.
       case r of Some x \<Rightarrow> Inr (Some x) | None \<Rightarrow> try_dirs os ds name path_out)"

definition MAX_OBJECTS :: nat where "MAX_OBJECTS = 1024"

definition add_object :: "lnk \<Rightarrow> Object \<Rightarrow> lnk" where
  "add_object l obj = l\<lparr>g_objects := g_objects l @ [obj]\<rparr>"

definition named_so :: "cstring \<Rightarrow> Object \<Rightarrow> bool" where
  "named_so name obj \<longleftrightarrow> lnk_strcmp (str_of (soname obj)) name = 0"

fun load_needed_so :: "nat \<Rightarrow> lnk_env \<Rightarrow> cstring \<Rightarrow> lnk \<Rightarrow> fault + lnk" where
  "load_needed_so 0 env name l = Inl Fuel"
| "load_needed_so (Suc fuel) env name l =
     (if \<exists>obj \<in> set (g_objects l). named_so name obj then Inr l
      else if MAX_OBJECTS \<le> length (g_objects l) then Inl (Fatal ''too many objects'')
      else rbind (lnk_strcpy (soname zero_object) name) (\<lambda>sn.
        let obj = zero_object\<lparr>soname := sn\<rparr> in
        if is_system_lib name then Inr (add_object l obj)
        else rbind (try_dirs (env_os env) search_dirs name (path obj)) (\<lambda>r.
          case r of None \<Rightarrow> Inr (add_object l obj)
          | Some (p, fd) \<Rightarrow>
            rbind (load_so (env_os env) fd (obj\<lparr>path := p\<rparr>) (lproc l)) (\<lambda>(obj', pr).
              let l' = add_object (l\<lparr>lproc := pr\<rparr>) obj' in
              if strtab obj' \<noteq> 0
              then foldM (\<lambda>off l. rbind (cstr_at (lmem l) (strtab obj' + ucast off)) (\<lambda>s. load_needed_so fuel env s l))
                     (needed_off obj') l'
              else Inr l'))))"

text \<open>\<^verbatim>\<open>lnk_dlopen\<close>: the handle is the index of the object it points to, \<open>None\<close> the null pointer.\<close>

definition dlopen_matches :: "cstring \<Rightarrow> Object \<Rightarrow> bool" where
  "dlopen_matches filename obj \<longleftrightarrow>
     lnk_strcmp (str_of (soname obj)) filename = 0 \<or> lnk_strcmp (str_of (path obj)) filename = 0 \<or>
     lnk_strcmp (str_of (soname obj)) (get_basename filename) = 0"

definition lnk_dlopen :: "nat \<Rightarrow> lnk_env \<Rightarrow> cstring option \<Rightarrow> lnk \<Rightarrow> fault + nat option \<times> lnk" where
  "lnk_dlopen fuel env file l =
     (case file of None \<Rightarrow> Inr (Some 0, l)
      | Some filename \<Rightarrow>
        (case first_index (dlopen_matches filename) (g_objects l) of
           Some i \<Rightarrow> Inr (Some i, l)
         | None \<Rightarrow>
           let base_filename = get_basename filename; old_nobjects = length (g_objects l) in
           rbind (load_needed_so fuel env base_filename l) (\<lambda>l1.
           rbind (foldM (\<lambda>i l. relocate_object env (g_hwcap l) (g_auxv l) (g_objects l ! i) l)
                    [old_nobjects..<length (g_objects l1)] l1) (\<lambda>l2.
           Inr (first_index (named_so base_filename) (g_objects l2), l2)))))"

section \<open>The registry invariant\<close>

lemma cstr_at_nul_free: "cstr_at m a = Inr s \<Longrightarrow> nul_free s"
  using cstr_at_str_at by (auto simp: nul_free_def)

definition obj_name :: "Object \<Rightarrow> cstring" where
  "obj_name obj = str_of (soname obj)"

definition registry_ok :: "lnk \<Rightarrow> bool" where
  "registry_ok l \<longleftrightarrow> distinct (map obj_name (g_objects l)) \<and> length (g_objects l) \<le> MAX_OBJECTS \<and>
     (\<forall>obj \<in> set (g_objects l). length (soname obj) = 128 \<and> length (path obj) = 256)"

lemma named_so_iff: "nul_free name \<Longrightarrow> named_so name obj \<longleftrightarrow> obj_name obj = name"
  by (simp add: named_so_def obj_name_def lnk_strcmp_eq_0_iff)

lemma try_dir_path: "try_dir os d name out = Inr (Some (p, fd)) \<Longrightarrow> length p = length out \<and> 0 \<le> fd"
  by (auto simp: try_dir_def rbind_eq_Inr_iff Let_def dest: lnk_strcpy_length split: if_splits)

lemma try_dirs_path: "try_dirs os ds name out = Inr (Some (p, fd)) \<Longrightarrow> length p = length out \<and> 0 \<le> fd"
  by (induction ds) (auto simp: rbind_eq_Inr_iff dest: try_dir_path split: option.splits)

lemma load_so_keeps:
  assumes "load_so os fd obj p = Inr (obj', p')"
  shows "soname obj' = soname obj \<and> path obj' = path obj"
proof -
  obtain phdrs where "read_phdrs os fd = Inr phdrs" using assms by (auto simp: load_so_def rbind_eq_Inr_iff)
  from dynamic_and_tls_keeps [OF load_so_Inr(3) [OF assms this]] show ?thesis by simp
qed

lemma add_object_fields [simp]:
  "g_objects (add_object l obj) = g_objects l @ [obj]" "lproc (add_object l obj) = lproc l"
  by (simp_all add: add_object_def)

text \<open>The cases of a call that registers a new object.\<close>

lemma load_needed_so_new:
  assumes "load_needed_so (Suc fuel) env name l = Inr l'" and "\<not> (\<exists>obj \<in> set (g_objects l). named_so name obj)"
  shows "length (g_objects l) < MAX_OBJECTS"
    "\<exists>obj pr. lnk_strcpy (soname zero_object) name = Inr (soname obj) \<and> length (path obj) = 256 \<and>
       (l' = add_object (l\<lparr>lproc := pr\<rparr>) obj \<or>
        foldM (\<lambda>off l. rbind (cstr_at (lmem l) (strtab obj + ucast off)) (\<lambda>s. load_needed_so fuel env s l))
          (needed_off obj) (add_object (l\<lparr>lproc := pr\<rparr>) obj) = Inr l')"
proof -
  show "length (g_objects l) < MAX_OBJECTS" using assms by (auto split: if_splits)
  then obtain sn where sn: "lnk_strcpy (soname zero_object) name = Inr sn"
    using assms by (auto simp: rbind_eq_Inr_iff)
  let ?obj = "zero_object\<lparr>soname := sn\<rparr>"
  have phantom: "lnk_strcpy (soname zero_object) name = Inr (soname ?obj) \<and> length (path ?obj) = 256 \<and>
      add_object l ?obj = add_object (l\<lparr>lproc := lproc l\<rparr>) ?obj"
    using sn by (simp add: zero_object_def)
  show "\<exists>obj pr. lnk_strcpy (soname zero_object) name = Inr (soname obj) \<and> length (path obj) = 256 \<and>
       (l' = add_object (l\<lparr>lproc := pr\<rparr>) obj \<or>
        foldM (\<lambda>off l. rbind (cstr_at (lmem l) (strtab obj + ucast off)) (\<lambda>s. load_needed_so fuel env s l))
          (needed_off obj) (add_object (l\<lparr>lproc := pr\<rparr>) obj) = Inr l')"
  proof (cases "is_system_lib name \<or> try_dirs (env_os env) search_dirs name (path ?obj) = Inr None")
    case True
    then have "l' = add_object l ?obj" using assms sn \<open>length (g_objects l) < MAX_OBJECTS\<close>
      by (cases "is_system_lib name") (auto simp: Let_def)
    then show ?thesis using phantom by metis
  next
    case False
    then obtain p fd obj' pr where t: "try_dirs (env_os env) search_dirs name (path ?obj) = Inr (Some (p, fd))"
      and ld: "load_so (env_os env) fd (?obj\<lparr>path := p\<rparr>) (lproc l) = Inr (obj', pr)"
      and r: "(if strtab obj' \<noteq> 0
         then foldM (\<lambda>off l. rbind (cstr_at (lmem l) (strtab obj' + ucast off)) (\<lambda>s. load_needed_so fuel env s l))
                (needed_off obj') (add_object (l\<lparr>lproc := pr\<rparr>) obj')
         else Inr (add_object (l\<lparr>lproc := pr\<rparr>) obj')) = Inr l'"
      using assms sn \<open>length (g_objects l) < MAX_OBJECTS\<close>
      by (auto simp: Let_def rbind_eq_Inr_iff split: option.split_asm)
    have "soname obj' = sn" "path obj' = p" using load_so_keeps [OF ld] by simp_all
    moreover have "length p = 256" using try_dirs_path [OF t] by (simp add: zero_object_def)
    ultimately show ?thesis using sn r by (auto split: if_split_asm)
  qed
qed

text \<open>The registry only grows, up to its limit.\<close>

definition grows :: "lnk \<Rightarrow> lnk \<Rightarrow> bool" where
  "grows l l' \<longleftrightarrow> (\<exists>new. g_objects l' = g_objects l @ new) \<and> g_hwcap l' = g_hwcap l \<and> g_auxv l' = g_auxv l \<and>
     (length (g_objects l) \<le> MAX_OBJECTS \<longrightarrow> length (g_objects l') \<le> MAX_OBJECTS)"

lemma grows_refl [simp]: "grows l l"
  by (simp add: grows_def)

lemma grows_trans: "grows l l' \<Longrightarrow> grows l' l'' \<Longrightarrow> grows l l''"
  by (auto simp: grows_def)

lemma grows_add_object: "length (g_objects l) < MAX_OBJECTS \<Longrightarrow> grows l (add_object (l\<lparr>lproc := pr\<rparr>) obj)"
  by (simp add: grows_def add_object_def)

lemma grows_length: "grows l l' \<Longrightarrow> length (g_objects l) \<le> length (g_objects l')"
  by (auto simp: grows_def)

lemma load_needed_so_grows: "load_needed_so fuel env name l = Inr l' \<Longrightarrow> grows l l'"
proof (induction fuel arbitrary: name l l')
  case (Suc fuel)
  show ?case
  proof (cases "\<exists>obj \<in> set (g_objects l). named_so name obj")
    case False
    note new = load_needed_so_new [OF Suc.prems False]
    from new(2) obtain obj pr where "l' = add_object (l\<lparr>lproc := pr\<rparr>) obj \<or>
        foldM (\<lambda>off l. rbind (cstr_at (lmem l) (strtab obj + ucast off)) (\<lambda>s. load_needed_so fuel env s l))
          (needed_off obj) (add_object (l\<lparr>lproc := pr\<rparr>) obj) = Inr l'" by blast
    then show ?thesis
    proof
      assume f: "foldM (\<lambda>off l. rbind (cstr_at (lmem l) (strtab obj + ucast off)) (\<lambda>s. load_needed_so fuel env s l))
          (needed_off obj) (add_object (l\<lparr>lproc := pr\<rparr>) obj) = Inr l'"
      show ?thesis
        by (rule foldM_inv [OF f, where I = "grows l"])
          (auto simp: rbind_eq_Inr_iff intro: grows_add_object [OF new(1)] grows_trans dest: Suc.IH)
    qed (simp add: grows_add_object [OF new(1)])
  qed (use Suc.prems in simp)
qed simp

lemma registry_ok_add:
  assumes "registry_ok l" and "length (g_objects l) < MAX_OBJECTS" and "nul_free name"
    and "\<not> (\<exists>obj \<in> set (g_objects l). named_so name obj)"
    and "lnk_strcpy (soname zero_object) name = Inr (soname obj)" and "length (path obj) = 256"
  shows "registry_ok (add_object (l\<lparr>lproc := pr\<rparr>) obj)" "obj_name obj = name"
proof -
  show "obj_name obj = name" using lnk_strcpy_str_of [OF assms(3,5)] by (simp add: obj_name_def)
  then have "obj_name obj \<notin> obj_name ` set (g_objects l)" using assms(3,4) by (auto simp: named_so_iff)
  moreover have "length (soname obj) = 128" using lnk_strcpy_length [OF assms(5)] by (simp add: zero_object_def)
  ultimately show "registry_ok (add_object (l\<lparr>lproc := pr\<rparr>) obj)"
    using assms(1,2,6) by (auto simp: registry_ok_def add_object_def)
qed

lemma load_needed_so_registered:
  "load_needed_so fuel env name l = Inr l' \<Longrightarrow> registry_ok l \<Longrightarrow> nul_free name \<Longrightarrow>
     registry_ok l' \<and> (\<exists>obj \<in> set (g_objects l'). obj_name obj = name) \<and>
     ((\<exists>obj \<in> set (g_objects l). obj_name obj = name) \<or> obj_name (g_objects l' ! length (g_objects l)) = name)"
proof (induction fuel arbitrary: name l l')
  case (Suc fuel)
  show ?case
  proof (cases "\<exists>obj \<in> set (g_objects l). named_so name obj")
    case True
    then show ?thesis using Suc.prems by (auto simp: named_so_iff)
  next
    case False
    note new = load_needed_so_new [OF Suc.prems(1) False]
    from new(2) obtain obj pr where obj: "lnk_strcpy (soname zero_object) name = Inr (soname obj)" "length (path obj) = 256"
      and r: "l' = add_object (l\<lparr>lproc := pr\<rparr>) obj \<or>
        foldM (\<lambda>off l. rbind (cstr_at (lmem l) (strtab obj + ucast off)) (\<lambda>s. load_needed_so fuel env s l))
          (needed_off obj) (add_object (l\<lparr>lproc := pr\<rparr>) obj) = Inr l'" by blast
    let ?l1 = "add_object (l\<lparr>lproc := pr\<rparr>) obj"
    note ok = registry_ok_add [OF Suc.prems(2) new(1) Suc.prems(3) False obj]
    have "registry_ok l' \<and> grows ?l1 l'"
      using r
    proof
      assume f: "foldM (\<lambda>off l. rbind (cstr_at (lmem l) (strtab obj + ucast off)) (\<lambda>s. load_needed_so fuel env s l))
          (needed_off obj) ?l1 = Inr l'"
      show ?thesis
        by (rule foldM_inv [OF f, where I = "\<lambda>l'. registry_ok l' \<and> grows ?l1 l'"])
          (auto simp: rbind_eq_Inr_iff intro: ok grows_trans dest: load_needed_so_grows Suc.IH [OF _ _ cstr_at_nul_free])
    qed (simp add: ok)
    then show ?thesis using ok(2) by (auto simp: grows_def nth_append)
  qed
qed simp

lemma load_needed_so_more_fuel:
  "length (g_objects l) \<le> MAX_OBJECTS \<Longrightarrow> MAX_OBJECTS < length (g_objects l) + fuel \<Longrightarrow>
     load_needed_so (Suc fuel) env name l = load_needed_so fuel env name l"
proof (induction fuel arbitrary: name l)
  case (Suc fuel)
  have inner: "foldM (\<lambda>off l. rbind (cstr_at (lmem l) (a + ucast off)) (\<lambda>s. load_needed_so (Suc fuel) env s l)) offs (add_object (l\<lparr>lproc := pr\<rparr>) obj)
      = foldM (\<lambda>off l. rbind (cstr_at (lmem l) (a + ucast off)) (\<lambda>s. load_needed_so fuel env s l)) offs (add_object (l\<lparr>lproc := pr\<rparr>) obj)"
    if lt: "length (g_objects l) < MAX_OBJECTS" for a offs pr obj
  proof (rule foldM_cong_inv [where I = "grows (add_object (l\<lparr>lproc := pr\<rparr>) obj)"])
    fix off l1
    assume g: "grows (add_object (l\<lparr>lproc := pr\<rparr>) obj) l1"
    then have "length (g_objects l1) \<le> MAX_OBJECTS" "MAX_OBJECTS < length (g_objects l1) + fuel"
      using lt Suc.prems(2) grows_length [OF g] by (auto simp: grows_def)
    then show "rbind (cstr_at (lmem l1) (a + ucast off)) (\<lambda>s. load_needed_so (Suc fuel) env s l1) =
        rbind (cstr_at (lmem l1) (a + ucast off)) (\<lambda>s. load_needed_so fuel env s l1)"
      using Suc.IH by (metis rbind_cong)
  qed (auto simp: rbind_eq_Inr_iff simp del: load_needed_so.simps intro: grows_trans dest: load_needed_so_grows)
  show ?case
  proof (cases "length (g_objects l) < MAX_OBJECTS")
    case True
    then show ?thesis
      unfolding load_needed_so.simps(2) [of "Suc fuel" env name l] load_needed_so.simps(2) [of fuel env name l]
        Let_def inner [OF True] by (intro refl)
  next
    case False
    then show ?thesis by simp
  qed
qed simp

section \<open>Searching the registry\<close>

lemma relocate_new_objects:
  assumes "foldM (\<lambda>i l. relocate_object env (g_hwcap l) (g_auxv l) (g_objects l ! i) l) is l = Inr l'"
  shows "patches l l'"
  by (rule foldM_inv [OF assms]) (auto intro: patches_trans relocate_object_patches)

lemma lnk_dlopen_new:
  assumes "lnk_dlopen fuel env (Some f) l = Inr (h, l')" and "first_index (dlopen_matches f) (g_objects l) = None"
    and "nul_free f" and "registry_ok l"
  shows "\<exists>obj new. g_objects l' = g_objects l @ obj # new \<and> obj_name obj = get_basename f \<and> registry_ok l'"
proof -
  have b: "nul_free (get_basename f)" using nul_free_lnk_basename [OF assms(3)] by (simp add: basenames_agree)
  obtain l1 where l1: "load_needed_so fuel env (get_basename f) l = Inr l1"
    and rel: "foldM (\<lambda>i l. relocate_object env (g_hwcap l) (g_auxv l) (g_objects l ! i) l)
      [length (g_objects l)..<length (g_objects l1)] l1 = Inr l'"
    using assms(1,2) by (auto simp: lnk_dlopen_def Let_def rbind_eq_Inr_iff)
  have objs: "g_objects l' = g_objects l1" using relocate_new_objects [OF rel] by (simp add: patches_def)
  have "\<not> named_so (get_basename f) obj" if "obj \<in> set (g_objects l)" for obj
    using assms(2) that by (auto simp: first_index_None dlopen_matches_def named_so_def)
  then have none: "\<forall>obj \<in> set (g_objects l). obj_name obj \<noteq> get_basename f" using b named_so_iff by blast
  note reg = load_needed_so_registered [OF l1 assms(4) b]
  obtain new where new: "g_objects l1 = g_objects l @ new" using load_needed_so_grows [OF l1] by (auto simp: grows_def)
  then obtain obj rest where "new = obj # rest" using reg none by (cases new) auto
  then show ?thesis using new objs reg none by (auto simp: registry_ok_def)
qed

section \<open>Properties\<close>

text \<open>C10: \<^verbatim>\<open>load_needed_so\<close> keeps the registry well formed (at most 1024 objects, no name
  registered twice, every name inside its array), never drops or changes an object that is
  registered, and registers the requested name.\<close>

theorem load_needed_so_registry:
  assumes "load_needed_so fuel env name l = Inr l'" and "registry_ok l" and "nul_free name"
  shows "registry_ok l' \<and> (\<exists>new. g_objects l' = g_objects l @ new) \<and> name \<in> obj_name ` set (g_objects l')"
  using load_needed_so_registered [OF assms] load_needed_so_grows [OF assms(1)] by (auto simp: grows_def)

text \<open>A process without objects, in which every path opens the same shared object.\<close>

definition demo_empty :: lnk where
  "demo_empty = \<lparr>lproc = demo_proc, g_objects = [], g_hwcap = 0, g_auxv = 0\<rparr>"

lemma demo_needed:
  "case load_needed_so 1025 demo_env (lit ''liba.so'') demo_empty of Inl _ \<Rightarrow> False | Inr l' \<Rightarrow> length (g_objects l') = 1"
  by code_simp

lemma demo_dlopen:
  "case lnk_dlopen 1025 demo_env (Some (lit ''/x/liba.so'')) demo_empty of Inl _ \<Rightarrow> False | Inr (h, l') \<Rightarrow> h = Some 0"
  by code_simp

lemma demo_names: "nul_free (lit ''liba.so'')" "nul_free (lit ''/x/liba.so'')" "registry_ok demo_empty"
  by (simp_all add: lit_def registry_ok_def demo_empty_def)

theorem load_needed_so_registry_witness:
  "\<exists>l'. load_needed_so 1025 demo_env (lit ''liba.so'') demo_empty = Inr l' \<and> registry_ok l' \<and>
     lit ''liba.so'' \<in> obj_name ` set (g_objects l')"
proof -
  obtain l' where l': "load_needed_so 1025 demo_env (lit ''liba.so'') demo_empty = Inr l'"
    using demo_needed by (auto split: sum.splits)
  from load_needed_so_registry [OF l' demo_names(3,1)] l' show ?thesis by blast
qed



text \<open>C12: opening a library twice gives the same handle and changes nothing the second time.\<close>

theorem lnk_dlopen_idempotent:
  assumes "lnk_dlopen fuel env (Some f) l = Inr (h, l')" and "nul_free f" and "registry_ok l"
  shows "h \<noteq> None \<and> lnk_dlopen fuel env (Some f) l' = Inr (h, l')"
proof (cases "first_index (dlopen_matches f) (g_objects l)")
  case (Some i)
  then have "h = Some i" "l' = l" using assms(1) by (auto simp: lnk_dlopen_def)
  then show ?thesis using Some by (simp add: lnk_dlopen_def)
next
  case None
  obtain obj new where o: "g_objects l' = g_objects l @ obj # new" "obj_name obj = get_basename f"
    using lnk_dlopen_new [OF assms(1) None assms(2,3)] by blast
  have b: "nul_free (get_basename f)" using nul_free_lnk_basename [OF assms(2)] by (simp add: basenames_agree)
  have n: "named_so (get_basename f) obj" using o(2) b by (simp add: named_so_iff)
  then have m: "dlopen_matches f obj" by (simp add: dlopen_matches_def named_so_def)
  have "first_index (named_so (get_basename f)) (g_objects l) = None"
    using None by (auto simp: first_index_None dlopen_matches_def named_so_def)
  then have "first_index (named_so (get_basename f)) (g_objects l') = Some (length (g_objects l))"
    using n by (simp add: o(1) first_index_append)
  then have h: "h = Some (length (g_objects l))"
    using assms(1) None by (auto simp: lnk_dlopen_def Let_def rbind_eq_Inr_iff)
  have "first_index (dlopen_matches f) (g_objects l') = Some (length (g_objects l))"
    using m None by (simp add: o(1) first_index_append)
  then show ?thesis using h by (simp add: lnk_dlopen_def)
qed

theorem lnk_dlopen_idempotent_witness:
  "\<exists>l'. lnk_dlopen 1025 demo_env (Some (lit ''/x/liba.so'')) demo_empty = Inr (Some 0, l') \<and>
     lnk_dlopen 1025 demo_env (Some (lit ''/x/liba.so'')) l' = Inr (Some 0, l')"
proof -
  obtain l' where l': "lnk_dlopen 1025 demo_env (Some (lit ''/x/liba.so'')) demo_empty = Inr (Some 0, l')"
    using demo_dlopen by (auto split: sum.splits)
  from lnk_dlopen_idempotent [OF l' demo_names(2,3)] l' show ?thesis by blast
qed

end
