(* ===== verification/Lnk_Main.thy ===== *)
theory Lnk_Main
  imports Lnk_Registry
begin

text \<open>
  \<^verbatim>\<open>linker_main\<close> of \<^verbatim>\<open>linker64/src/linker.c\<close>: the process stack, the load base of
  the executable, the registration of the executable and of its libraries, static TLS, the
  relocation of all objects and the patch of \<^verbatim>\<open>rtld_db_dlactivity\<close>. Its result is
  the address it jumps to, the stack pointer it restores and the thread pointer it has set.

  The linker's own arrays \<^verbatim>\<open>g_tls_block\<close> (16384 bytes), \<^verbatim>\<open>g_main_thread\<close> (1024) and
  \<^verbatim>\<open>g_shared_globals\<close> lie in memory at addresses given by the environment; a TLS template
  that does not fit into the block stops the model with \<open>Overrun\<close>.
\<close>

section \<open>The process stack\<close>

lemma unat_next_word: "\<not> - 8 \<le> a \<Longrightarrow> unat (a + 8 :: u64) = unat a + 8"
proof -
  assume "\<not> - 8 \<le> a"
  then have "unat a < 2 ^ 64 - 8" by (simp add: word_le_nat_alt)
  then show ?thesis by (subst unat_add_lem [THEN iffD1]) simp_all
qed

text \<open>\<^verbatim>\<open>while (*ep) ep++\<close>\<close>

function skip_pointers :: "vm \<Rightarrow> u64 \<Rightarrow> fault + u64" where
  "skip_pointers m ep =
     rbind (rd64 m ep) (\<lambda>p.
       if p = 0 then Inr ep else if - 8 \<le> ep then Inl (Segv 0) else skip_pointers m (ep + 8))"
  by pat_completeness auto
termination
proof (relation "measure (\<lambda>(m, a). 2 ^ 64 - unat a)")
  fix m and ep p :: u64
  assume "\<not> - 8 \<le> ep"
  then show "((m, ep + 8), m, ep) \<in> measure (\<lambda>(m, a). 2 ^ 64 - unat a)"
    using unat64_less [of "ep + 8"] by (simp add: unat_next_word)
qed simp

declare skip_pointers.simps [simp del]

text \<open>argc, argv and the auxiliary vector.\<close>

definition parse_stack :: "vm \<Rightarrow> u64 \<Rightarrow> fault + u32 \<times> u64 \<times> u64" where
  "parse_stack m sp =
     rbind (rd64 m sp) (\<lambda>w.
       let argc = (ucast w :: u32); argv = sp + 8; envp = argv + 8 * scast argc + 8 in
       rbind (skip_pointers m envp) (\<lambda>ep. Inr (argc, argv, ep + 8)))"

section \<open>The executable\<close>

definition exe_phdr_at :: "vm \<Rightarrow> u64 \<Rightarrow> u16 \<Rightarrow> nat \<Rightarrow> fault + Elf64_Phdr" where
  "exe_phdr_at m exe_phdr phentsize i = rd_phdr m (exe_phdr + of_nat (i * unat phentsize))"

fun find_phdr :: "vm \<Rightarrow> u64 \<Rightarrow> u16 \<Rightarrow> (Elf64_Phdr \<Rightarrow> bool) \<Rightarrow> nat list \<Rightarrow> fault + Elf64_Phdr option" where
  "find_phdr m exe_phdr phentsize P [] = Inr None"
| "find_phdr m exe_phdr phentsize P (i # is) =
     rbind (exe_phdr_at m exe_phdr phentsize i) (\<lambda>ph.
       if P ph then Inr (Some ph) else find_phdr m exe_phdr phentsize P is)"

definition exe_load_base :: "vm \<Rightarrow> u64 \<Rightarrow> u16 \<Rightarrow> u16 \<Rightarrow> fault + u64" where
  "exe_load_base m exe_phdr phnum phentsize =
     rbind (find_phdr m exe_phdr phentsize (\<lambda>ph. p_type ph = PT_PHDR) [0..<unat phnum]) (\<lambda>r1.
       case r1 of Some ph \<Rightarrow> Inr (exe_phdr - p_vaddr ph)
       | None \<Rightarrow>
         rbind (find_phdr m exe_phdr phentsize (\<lambda>ph. p_type ph = PT_LOAD \<and> p_offset ph = 0) [0..<unat phnum]) (\<lambda>r2.
           case r2 of Some ph \<Rightarrow> Inr (exe_phdr - p_vaddr ph) | None \<Rightarrow> Inr 0))"

definition exe_name :: "vm \<Rightarrow> u32 \<Rightarrow> u64 \<Rightarrow> fault + cstring" where
  "exe_name m argc argv =
     (if 0 <s argc
      then rbind (rd64 m argv) (\<lambda>p. if p \<noteq> 0 then cstr_at m p else Inr (lit ''main''))
      else Inr (lit ''main''))"

text \<open>The object of the executable.\<close>

definition register_exe :: "vm \<Rightarrow> u64 \<Rightarrow> u16 \<Rightarrow> u16 \<Rightarrow> u64 \<Rightarrow> cstring \<Rightarrow> fault + Object" where
  "register_exe m exe_phdr phnum phentsize base name =
     rbind (lnk_strcpy (soname zero_object) name) (\<lambda>sn.
       foldM (\<lambda>i obj. rbind (exe_phdr_at m exe_phdr phentsize i) (\<lambda>ph. dynamic_and_tls m ph obj))
         [0..<unat phnum] (zero_object\<lparr>soname := sn, load_base := base\<rparr>))"

text \<open>The page range of the executable's segments.\<close>

definition exe_range_step :: "u64 \<Rightarrow> Elf64_Phdr \<Rightarrow> u64 \<times> u64 \<Rightarrow> u64 \<times> u64" where
  "exe_range_step base ph lm = (case lm of (load_min, load_max) \<Rightarrow>
     if p_type ph \<noteq> PT_LOAD then (load_min, load_max)
     else (let start = PAGE_ALIGN_DOWN (p_vaddr ph) + base; e = PAGE_ALIGN_UP (p_vaddr ph + p_memsz ph) + base in
       (if start < load_min then start else load_min, if load_max < e then e else load_max)))"

definition exe_range :: "vm \<Rightarrow> u64 \<Rightarrow> u16 \<Rightarrow> u16 \<Rightarrow> u64 \<Rightarrow> fault + u64 \<times> u64" where
  "exe_range m exe_phdr phnum phentsize base =
     foldM (\<lambda>i lm. rbind (exe_phdr_at m exe_phdr phentsize i) (\<lambda>ph. Inr (exe_range_step base ph lm)))
       [0..<unat phnum] (- 1, 0)"

section \<open>Static TLS\<close>

definition tls_align :: "u64 \<Rightarrow> u64" where
  "tls_align current = (current + 15) AND NOT 15"

fun assign_tls :: "u64 \<Rightarrow> Object list \<Rightarrow> Object list" where
  "assign_tls current [] = []"
| "assign_tls current (obj # objs) =
     (if 0 < tls_memsz obj
      then (let off = tls_align current in
            obj\<lparr>tls_offset := off\<rparr> # assign_tls (off + tls_memsz obj) objs)
      else obj # assign_tls current objs)"

definition TLS_BLOCK_SIZE :: nat where "TLS_BLOCK_SIZE = 16384"

text \<open>The copy of one template, byte by byte.\<close>

definition copy_template :: "u64 \<Rightarrow> Object \<Rightarrow> vm \<Rightarrow> fault + vm" where
  "copy_template block obj m =
     (if 0 < tls_memsz obj \<and> 0 < tls_vaddr obj
      then foldM (\<lambda>k m.
             if TLS_BLOCK_SIZE \<le> unat (tls_offset obj) + k then Inl Overrun
             else rbind (rd8 m (load_base obj + tls_vaddr obj + of_nat k)) (\<lambda>b.
                  wr8 m (block + tls_offset obj + of_nat k) b))
           [0..<unat (tls_filesz obj)] m
      else Inr m)"

definition init_tls :: "lnk_env \<Rightarrow> lnk \<Rightarrow> fault + lnk" where
  "init_tls env l =
     (let objs = assign_tls 256 (g_objects l); block = a_tls_block env; thread = a_main_thread env in
      rbind (lnk_memset (lmem l) block 0 (of_nat TLS_BLOCK_SIZE)) (\<lambda>m.
      rbind (foldM (copy_template block) objs m) (\<lambda>m.
      rbind (wr64 m block block) (\<lambda>m.
      rbind (wr64 m (block + 8) thread) (\<lambda>m.
      rbind (lnk_memset m thread 0 1024) (\<lambda>m.
      rbind (wr32 m (thread + 0x10) (os_gettid (env_os env))) (\<lambda>m.
      Inr (set_mem (l\<lparr>g_objects := objs\<rparr>) m))))))))"

section \<open>Relocation of all objects\<close>

definition protect :: "lnk_env \<Rightarrow> u64 \<Rightarrow> u64 \<Rightarrow> u32 \<Rightarrow> lnk \<Rightarrow> lnk" where
  "protect env a len pr l = l\<lparr>lproc := sys_mprotect (env_os env) (lproc l) a len pr\<rparr>"

text \<open>Permissions of one segment of the executable.\<close>

definition restore_prot :: "lnk_env \<Rightarrow> u64 \<Rightarrow> Elf64_Phdr \<Rightarrow> lnk \<Rightarrow> lnk" where
  "restore_prot env base ph l =
     (if p_type ph \<noteq> PT_LOAD then l
      else let start = PAGE_ALIGN_DOWN (p_vaddr ph) + base; e = PAGE_ALIGN_UP (p_vaddr ph + p_memsz ph) + base
           in protect env start (e - start) (pf_to_prot (p_flags ph)) l)"

text \<open>The word of \<^verbatim>\<open>libandroid_runtime.so\<close> that is printed before and after.\<close>

definition show_got :: "Object \<Rightarrow> lnk \<Rightarrow> fault + lnk" where
  "show_got obj l =
     (if named_so (lit ''libandroid_runtime.so'') obj
      then rbind (rd64 (lmem l) (load_base obj + 0x2e37e8)) (\<lambda>_. Inr l) else Inr l)"

definition relocate_all :: "lnk_env \<Rightarrow> u64 \<Rightarrow> u64 \<Rightarrow> u64 \<Rightarrow> u16 \<Rightarrow> u16 \<Rightarrow> u64 \<times> u64 \<Rightarrow> lnk \<Rightarrow> fault + lnk" where
  "relocate_all env hwcap auxv exe_phdr phnum phentsize lm l = (case lm of (load_min, load_max) \<Rightarrow>
     let exe = g_objects l ! 0; base = load_base exe in
     rbind (relocate_object env hwcap auxv exe
       (if load_min \<noteq> - 1 then protect env load_min (load_max - load_min) (PROT_READ OR PROT_WRITE) l else l)) (\<lambda>l.
     rbind (if load_min \<noteq> - 1
       then foldM (\<lambda>i l. rbind (exe_phdr_at (lmem l) exe_phdr phentsize i) (\<lambda>ph. Inr (restore_prot env base ph l)))
              [0..<unat phnum] l
       else Inr l) (\<lambda>l.
     foldM (\<lambda>obj l.
         rbind (show_got obj l) (\<lambda>l. rbind (relocate_object env hwcap auxv obj l) (show_got obj)))
       (tl (g_objects l)) l)))"

definition patch_dlactivity :: "lnk_env \<Rightarrow> lnk \<Rightarrow> fault + lnk" where
  "patch_dlactivity env l =
     rbind (lookup_symbol env l (lit ''rtld_db_dlactivity'')) (\<lambda>a.
       if a = 0 then Inr l
       else
         let page_start = PAGE_ALIGN_DOWN a;
             l1 = protect env page_start PAGE_SIZE (PROT_READ OR PROT_WRITE) l in
         rbind (wr32 (lmem l1) (a + 4) 0xd65f03c0) (\<lambda>m.
         Inr (protect env page_start PAGE_SIZE (PROT_READ OR PROT_EXEC) (set_mem l1 m))))"

section \<open>The linker\<close>

definition load_exe_needed :: "nat \<Rightarrow> lnk_env \<Rightarrow> Object \<Rightarrow> lnk \<Rightarrow> fault + lnk" where
  "load_exe_needed fuel env exe l =
     (if strtab exe \<noteq> 0
      then foldM (\<lambda>off l. rbind (cstr_at (lmem l) (strtab exe + ucast off)) (\<lambda>s. load_needed_so fuel env s l))
             (needed_off exe) l
      else Inr l)"

record jump =
  j_entry :: u64
  j_sp :: u64
  j_tpidr :: u64

definition linker_main :: "lnk_env \<Rightarrow> u64 \<Rightarrow> proc \<Rightarrow> fault + jump \<times> lnk" where
  "linker_main env sp p =
     rbind (parse_stack (mem p) sp) (\<lambda>(argc, argv, auxv).
     rbind (wr64 (mem p) (a_shared_globals env + 0x418) auxv) (\<lambda>m.
     rbind (auxv_get m auxv AT_HWCAP) (\<lambda>hwcap.
     rbind (auxv_get m auxv AT_ENTRY) (\<lambda>exe_entry.
     rbind (auxv_get m auxv AT_PHDR) (\<lambda>exe_phdr.
     rbind (auxv_get m auxv AT_PHNUM) (\<lambda>phnum_w.
     rbind (auxv_get m auxv AT_PHENT) (\<lambda>phent_w.
     let phnum = (ucast phnum_w :: u16); phentsize = (ucast phent_w :: u16) in
     rbind (exe_load_base m exe_phdr phnum phentsize) (\<lambda>base.
     rbind (exe_name m argc argv) (\<lambda>name.
     rbind (register_exe m exe_phdr phnum phentsize base name) (\<lambda>exe.
     rbind (load_exe_needed 1025 env exe
       \<lparr>lproc = p\<lparr>mem := m\<rparr>, g_objects = [exe], g_hwcap = hwcap, g_auxv = auxv\<rparr>) (\<lambda>l.
     rbind (exe_range (lmem l) exe_phdr phnum phentsize base) (\<lambda>lm.
     rbind (init_tls env l) (\<lambda>l.
     rbind (relocate_all env hwcap auxv exe_phdr phnum phentsize lm l) (\<lambda>l.
     rbind (patch_dlactivity env l) (\<lambda>l.
     Inr (\<lparr>j_entry = exe_entry, j_sp = sp, j_tpidr = a_tls_block env\<rparr>, l))))))))))))))))"

section \<open>The layout of static TLS\<close>

lemma align16:
  assumes "unat x + 15 < 2 ^ 64"
  shows "unat x \<le> unat (tls_align x)" "unat (tls_align x) \<le> unat x + 15"
    "16 dvd unat (tls_align x)"
proof -
  let ?y = "x + 15"
  have "tls_align x = push_bit 4 (drop_bit 4 ?y)"
  proof -
    have m: "(15 :: u64) = mask 4" by (simp add: mask_eq_exp_minus_1)
    show ?thesis unfolding tls_align_def m
      by (auto intro!: bit_word_eqI simp: bit_and_iff bit_not_iff bit_mask_iff bit_push_bit_iff bit_drop_bit_eq)
  qed
  then have "unat (tls_align x) = take_bit 64 (push_bit 4 (drop_bit 4 (unat ?y)))"
    by (simp add: unsigned_push_bit_eq unat_drop_bit_eq)
  moreover have "unat ?y div 16 * 16 < 2 ^ 64"
    using unat64_less [of ?y] by (intro le_less_trans [OF div_times_less_eq_dividend])
  ultimately have "unat (tls_align x) = unat ?y div 16 * 16"
    by (simp add: drop_bit_eq_div push_bit_eq_mult take_bit_eq_mod)
  moreover have "unat ?y = unat x + 15" using assms by (subst unat_add_lem [THEN iffD1]) simp_all
  ultimately have eq: "unat (tls_align x) = (unat x + 15) div 16 * 16" by simp
  show "unat x \<le> unat (tls_align x)" "unat (tls_align x) \<le> unat x + 15" "16 dvd unat (tls_align x)"
    unfolding eq using div_mult_mod_eq [of "unat x + 15" 16] mod_less_divisor [of 16 "unat x + 15"] by auto
qed

text \<open>The space the objects need at most, with alignment.\<close>

definition tls_need :: "Object list \<Rightarrow> nat" where
  "tls_need objs = (\<Sum>obj \<leftarrow> objs. if 0 < tls_memsz obj then unat (tls_memsz obj) + 15 else 0)"

definition tls_end :: "Object \<Rightarrow> nat" where
  "tls_end obj = unat (tls_offset obj) + unat (tls_memsz obj)"

lemma assign_tls_layout:
  assumes "unat current + tls_need objs < 2 ^ 64"
  shows "\<forall>obj \<in> set (assign_tls current objs). 0 < tls_memsz obj \<longrightarrow> unat current \<le> unat (tls_offset obj) \<and>
      16 dvd unat (tls_offset obj) \<and> tls_end obj \<le> unat current + tls_need objs"
    "sorted_wrt (\<lambda>a b. 0 < tls_memsz a \<longrightarrow> 0 < tls_memsz b \<longrightarrow> tls_end a \<le> unat (tls_offset b)) (assign_tls current objs)"
proof -
  have "(\<forall>obj \<in> set (assign_tls current objs). 0 < tls_memsz obj \<longrightarrow> unat current \<le> unat (tls_offset obj) \<and>
      16 dvd unat (tls_offset obj) \<and> tls_end obj \<le> unat current + tls_need objs) \<and>
    sorted_wrt (\<lambda>a b. 0 < tls_memsz a \<longrightarrow> 0 < tls_memsz b \<longrightarrow> tls_end a \<le> unat (tls_offset b)) (assign_tls current objs)"
    using assms
  proof (induction current objs rule: assign_tls.induct)
    case (2 current obj objs)
    show ?case
    proof (cases "0 < tls_memsz obj")
      case True
      let ?off = "tls_align current" and ?n = "tls_memsz obj"
      have need: "unat current + (unat ?n + 15) + tls_need objs < 2 ^ 64" using 2(3) True by (simp add: tls_need_def)
      then have "unat current + 15 < 2 ^ 64" by linarith
      note al = align16 [OF this]
      have e: "unat (?off + ?n) = unat ?off + unat ?n"
        using al(2) need by (subst unat_add_lem [THEN iffD1]) simp_all
      have ih: "(\<forall>o' \<in> set (assign_tls (?off + ?n) objs). 0 < tls_memsz o' \<longrightarrow> unat (?off + ?n) \<le> unat (tls_offset o') \<and>
          16 dvd unat (tls_offset o') \<and> tls_end o' \<le> unat (?off + ?n) + tls_need objs) \<and>
        sorted_wrt (\<lambda>a b. 0 < tls_memsz a \<longrightarrow> 0 < tls_memsz b \<longrightarrow> tls_end a \<le> unat (tls_offset b)) (assign_tls (?off + ?n) objs)"
        using al(2) need by (intro 2(1) [OF True refl]) (simp add: e)
      have tn: "tls_need (obj # objs) = unat ?n + 15 + tls_need objs" using True by (simp add: tls_need_def)
      have eq: "assign_tls current (obj # objs) = obj\<lparr>tls_offset := ?off\<rparr> # assign_tls (?off + ?n) objs"
        using True by (simp add: Let_def)
      show ?thesis unfolding eq tn
        using ih al by (fastforce simp: e tls_end_def)
    next
      case False
      then show ?thesis using 2 by (auto simp: tls_need_def)
    qed
  qed simp
  then show "\<forall>obj \<in> set (assign_tls current objs). 0 < tls_memsz obj \<longrightarrow> unat current \<le> unat (tls_offset obj) \<and>
      16 dvd unat (tls_offset obj) \<and> tls_end obj \<le> unat current + tls_need objs"
    "sorted_wrt (\<lambda>a b. 0 < tls_memsz a \<longrightarrow> 0 < tls_memsz b \<longrightarrow> tls_end a \<le> unat (tls_offset b)) (assign_tls current objs)"
    by blast+
qed

section \<open>TLS templates\<close>

text \<open>Copying forward between ranges that do not overlap.\<close>

lemma copy_loop:
  assumes "foldM (\<lambda>k m. if g k then Inl Overrun
             else rbind (rd8 m (src + of_nat k)) (\<lambda>b. wr8 m (dst + of_nat k) b)) [0..<n] m = Inr m'"
    and "span src n \<inter> span dst n = {}" and "n \<le> 2 ^ 64"
  shows "same_perms m m' \<and> (\<forall>x. x \<notin> span dst n \<longrightarrow> data m' x = data m x) \<and>
    (\<forall>k < n. data m' (dst + of_nat k) = data m (src + of_nat k))"
  using assms
proof (induction n arbitrary: m')
  case (Suc n)
  have sub: "span a n \<subseteq> span a (Suc n)" for a by (auto simp: span_def)
  obtain m1 b where m1: "foldM (\<lambda>k m. if g k then Inl Overrun
             else rbind (rd8 m (src + of_nat k)) (\<lambda>b. wr8 m (dst + of_nat k) b)) [0..<n] m = Inr m1"
    and b: "rd8 m1 (src + of_nat n) = Inr b" "wr8 m1 (dst + of_nat n) b = Inr m'"
    using Suc.prems(1) by (auto simp: foldM_append rbind_eq_Inr_iff split: if_splits)
  have ih: "same_perms m m1 \<and> (\<forall>x. x \<notin> span dst n \<longrightarrow> data m1 x = data m x) \<and>
    (\<forall>k < n. data m1 (dst + of_nat k) = data m (src + of_nat k))"
    using Suc.prems(2,3) sub [of src] sub [of dst] by (intro Suc.IH [OF m1]) auto
  have upd: "data m' = (data m1)(dst + of_nat n := b)" using b(2) by (auto simp: wr8_def split: if_splits)
  have "src + of_nat n \<in> span src (Suc n)" by (auto simp: span_def)
  then have "src + of_nat n \<notin> span dst n" using Suc.prems(2) sub [of dst] by blast
  then have bv: "b = data m (src + of_nat n)" using b(1) ih by (auto simp: rd8_def split: if_splits)
  have ne: "dst + of_nat k \<noteq> dst + of_nat n" if "k < n" for k
    using that Suc.prems(3) of_nat64_eq_iff [of k n] by simp
  have "dst + of_nat n \<in> span dst (Suc n)" by (auto simp: span_def)
  then have "\<forall>x. x \<notin> span dst (Suc n) \<longrightarrow> data m' x = data m x" using upd ih sub [of dst] by auto
  moreover have "\<forall>k < Suc n. data m' (dst + of_nat k) = data m (src + of_nat k)"
    using upd ih bv ne by (auto simp: less_Suc_eq)
  ultimately show ?case using ih wr8_same_perms [OF b(2)] same_perms_trans by blast
qed simp

lemma span_offset: "span (a + of_nat i) n = (\<lambda>k. a + of_nat k) ` {i..<i + n}"
proof (intro set_eqI iffI)
  fix x
  assume "x \<in> (\<lambda>k. a + of_nat k) ` {i..<i + n}"
  then obtain k where "i \<le> k" "k < i + n" "x = a + of_nat k" by auto
  then have "x = a + of_nat i + of_nat (k - i)" "k - i < n" by (simp_all add: of_nat_diff)
  then show "x \<in> span (a + of_nat i) n" unfolding span_def by blast
next
  fix x
  assume "x \<in> span (a + of_nat i) n"
  then obtain k where "k < n" "x = a + of_nat (i + k)" by (auto simp: span_def add.assoc)
  then show "x \<in> (\<lambda>k. a + of_nat k) ` {i..<i + n}" by (intro image_eqI [of _ _ "i + k"]) simp_all
qed

lemma span_sub: "i + n \<le> N \<Longrightarrow> span (a + of_nat i) n \<subseteq> span a N"
  unfolding span_offset by (auto simp: span_def)

lemma span_disjoint:
  assumes "i + n \<le> j" and "j + k \<le> 2 ^ 64"
  shows "span (a + of_nat i) n \<inter> span (a + of_nat j) k = {}"
  unfolding span_offset using assms by (auto simp: of_nat64_eq_iff)

text \<open>The place of an object in the block, and where its template lies.\<close>

definition tls_area :: "u64 \<Rightarrow> Object \<Rightarrow> u64 set" where
  "tls_area block obj = span (block + tls_offset obj) (unat (tls_memsz obj))"

definition tls_source :: "Object \<Rightarrow> u64 set" where
  "tls_source obj = span (load_base obj + tls_vaddr obj) (unat (tls_filesz obj))"

definition template_ok :: "u64 \<Rightarrow> Object \<Rightarrow> bool" where
  "template_ok block obj \<longleftrightarrow> tls_filesz obj \<le> tls_memsz obj \<and> tls_source obj \<inter> span block TLS_BLOCK_SIZE = {}"

lemma tls_area_offset: "tls_area block obj = span (block + of_nat (unat (tls_offset obj))) (unat (tls_memsz obj))"
  by (simp add: tls_area_def)

definition tls_fits :: "Object \<Rightarrow> bool" where
  "tls_fits obj \<longleftrightarrow> (0 < tls_memsz obj \<longrightarrow> tls_end obj \<le> TLS_BLOCK_SIZE)"

lemma tls_area_sub: "tls_fits obj \<Longrightarrow> tls_area block obj \<subseteq> span block TLS_BLOCK_SIZE"
proof (cases "0 < tls_memsz obj")
  case True
  moreover assume "tls_fits obj"
  ultimately show ?thesis unfolding tls_area_offset by (intro span_sub) (simp add: tls_end_def tls_fits_def)
qed (simp add: tls_area_def word_gt_0)

lemma copy_template_effect:
  assumes "copy_template block obj m = Inr m'" and "template_ok block obj" and "tls_fits obj"
  shows "same_perms m m'" "x \<notin> tls_area block obj \<Longrightarrow> data m' x = data m x"
    "0 < tls_memsz obj \<Longrightarrow> 0 < tls_vaddr obj \<Longrightarrow> k < unat (tls_memsz obj) \<Longrightarrow>
       data m' (block + tls_offset obj + of_nat k) =
         (if k < unat (tls_filesz obj) then data m (load_base obj + tls_vaddr obj + of_nat k)
          else data m (block + tls_offset obj + of_nat k))"
proof -
  let ?n = "unat (tls_filesz obj)" and ?dst = "block + tls_offset obj" and ?src = "load_base obj + tls_vaddr obj"
  have le: "?n \<le> unat (tls_memsz obj)" using assms(2) by (simp add: template_ok_def word_le_nat_alt)
  have sub: "span ?dst ?n \<subseteq> tls_area block obj" using le by (auto simp: tls_area_def span_def)
  have "span ?src ?n \<inter> span ?dst ?n = {}"
    using assms(2) sub tls_area_sub [OF assms(3), of block] by (auto simp: template_ok_def tls_source_def)
  then have eff: "same_perms m m' \<and> (\<forall>x. x \<notin> span ?dst ?n \<longrightarrow> data m' x = data m x) \<and>
      (\<forall>k < ?n. data m' (?dst + of_nat k) = data m (?src + of_nat k))" if "0 < tls_memsz obj \<and> 0 < tls_vaddr obj"
    using assms(1) that unat64_less [of "tls_filesz obj"]
    by (intro copy_loop [where g = "\<lambda>k. TLS_BLOCK_SIZE \<le> unat (tls_offset obj) + k"]) (simp_all add: copy_template_def)
  have id: "m' = m" if "\<not> (0 < tls_memsz obj \<and> 0 < tls_vaddr obj)" using assms(1) that by (simp add: copy_template_def)
  show "same_perms m m'" using eff id by (metis same_perms_refl)
  show "x \<notin> tls_area block obj \<Longrightarrow> data m' x = data m x" using eff id sub by blast
  assume a: "0 < tls_memsz obj" "0 < tls_vaddr obj" "k < unat (tls_memsz obj)"
  have "?dst + of_nat k \<notin> span ?dst ?n" if "\<not> k < ?n"
    using that a(3) unat64_less [of "tls_memsz obj"] le by (auto simp: span_def of_nat64_eq_iff)
  then show "data m' (?dst + of_nat k) = (if k < ?n then data m (?src + of_nat k) else data m (?dst + of_nat k))"
    using eff a(1,2) by auto
qed

lemma copy_templates_effect:
  assumes "foldM (copy_template block) objs m = Inr m'"
    and "\<forall>obj \<in> set objs. template_ok block obj \<and> tls_fits obj"
    and "sorted_wrt (\<lambda>a b. tls_area block a \<inter> tls_area block b = {}) objs"
  shows "(\<forall>x. x \<notin> (\<Union>obj \<in> set objs. tls_area block obj) \<longrightarrow> data m' x = data m x) \<and>
    (\<forall>obj \<in> set objs. 0 < tls_memsz obj \<longrightarrow> 0 < tls_vaddr obj \<longrightarrow> (\<forall>k < unat (tls_memsz obj).
       data m' (block + tls_offset obj + of_nat k) =
         (if k < unat (tls_filesz obj) then data m (load_base obj + tls_vaddr obj + of_nat k)
          else data m (block + tls_offset obj + of_nat k))))"
  using assms
proof (induction objs arbitrary: m)
  case (Cons obj objs)
  obtain m1 where m1: "copy_template block obj m = Inr m1" "foldM (copy_template block) objs m1 = Inr m'"
    using Cons.prems(1) by (auto simp: rbind_eq_Inr_iff)
  have ok: "template_ok block obj" "tls_fits obj" using Cons.prems(2) by auto
  note eff = copy_template_effect [OF m1(1) ok]
  have ih: "(\<forall>x. x \<notin> (\<Union>obj \<in> set objs. tls_area block obj) \<longrightarrow> data m' x = data m1 x)"
    "\<And>o' k. o' \<in> set objs \<Longrightarrow> 0 < tls_memsz o' \<Longrightarrow> 0 < tls_vaddr o' \<Longrightarrow> k < unat (tls_memsz o') \<Longrightarrow>
       data m' (block + tls_offset o' + of_nat k) =
         (if k < unat (tls_filesz o') then data m1 (load_base o' + tls_vaddr o' + of_nat k)
          else data m1 (block + tls_offset o' + of_nat k))"
    using Cons.IH [OF m1(2)] Cons.prems(2,3) by auto
  have self: "block + tls_offset o' + of_nat k \<in> tls_area block o'" if "k < unat (tls_memsz o')" for o' k
    using that by (auto simp: tls_area_def span_def)
  have first: "data m' (block + tls_offset obj + of_nat k) = data m1 (block + tls_offset obj + of_nat k)"
    if "k < unat (tls_memsz obj)" for k
    using ih(1) self [OF that] Cons.prems(3) by auto
  have others: "data m1 y = data m y" if "o' \<in> set objs" "y \<in> tls_area block o' \<or> y \<in> tls_source o'" for o' y
  proof -
    have "tls_source o' \<inter> span block TLS_BLOCK_SIZE = {}" "tls_area block obj \<inter> tls_area block o' = {}"
      using Cons.prems(2,3) that(1) by (simp_all add: template_ok_def)
    then have "y \<notin> tls_area block obj" using that(2) tls_area_sub [OF ok(2), of block] by blast
    then show ?thesis by (rule eff(2))
  qed
  have src: "load_base o' + tls_vaddr o' + of_nat k \<in> tls_source o'" if "k < unat (tls_filesz o')" for o' k
    using that by (auto simp: tls_source_def span_def)
  show ?case
    using ih eff(2,3) first others self src by simp
qed simp

lemma template_ok_offset [simp]: "template_ok b (obj\<lparr>tls_offset := off\<rparr>) = template_ok b obj"
  by (simp add: template_ok_def tls_source_def)

lemma assign_tls_all:
  assumes "\<And>obj off. P (obj\<lparr>tls_offset := off\<rparr>) = P obj"
  shows "(\<forall>obj \<in> set (assign_tls c objs). P obj) \<longleftrightarrow> (\<forall>obj \<in> set objs. P obj)"
  by (induction c objs rule: assign_tls.induct) (simp_all add: Let_def assms)

lemma assign_tls_names [simp]: "map obj_name (assign_tls c objs) = map obj_name objs"
  by (induction c objs rule: assign_tls.induct) (auto simp: Let_def obj_name_def)

lemma length_assign_tls [simp]: "length (assign_tls c objs) = length objs"
  by (induction c objs rule: assign_tls.induct) (auto simp: Let_def)

lemma lnk_memset_effect:
  assumes "lnk_memset m a c n = Inr m'"
  shows "x \<in> span a (unat n) \<Longrightarrow> data m' x = c" "x \<notin> span a (unat n) \<Longrightarrow> data m' x = data m x"
proof -
  have w: "wr_bytes m a (replicate (unat n) c) = Inr m'" using assms by (simp add: lnk_memset_def)
  show "x \<notin> span a (unat n) \<Longrightarrow> data m' x = data m x" using wr_bytes_frame [OF w] by simp
  assume "x \<in> span a (unat n)"
  then obtain i where i: "i < unat n" "x = a + of_nat i" by (auto simp: span_def)
  have "map (\<lambda>i. data m' (a + of_nat i)) [0..<unat n] = replicate (unat n) c"
    using wr_bytes_stored [OF w] unat64_less [of n] by simp
  then have "map (\<lambda>i. data m' (a + of_nat i)) [0..<unat n] ! i = c" using i(1) by simp
  then show "data m' x = c" using i by simp
qed

lemma wr64_frame: "wr64 m a v = Inr m' \<Longrightarrow> x \<notin> span a 8 \<Longrightarrow> data m' x = data m x"
  unfolding wr64_def by (drule wr_bytes_frame) simp_all

lemma wr32_frame: "wr32 m a v = Inr m' \<Longrightarrow> x \<notin> span a 4 \<Longrightarrow> data m' x = data m x"
  unfolding wr32_def by (drule wr_bytes_frame) simp_all

text \<open>After the templates only the first 16 bytes of the block and the thread structure change.\<close>

lemma init_tls_steps:
  assumes "init_tls env l = Inr l'"
  shows "\<exists>m1 m2. lnk_memset (lmem l) (a_tls_block env) 0 (of_nat TLS_BLOCK_SIZE) = Inr m1 \<and>
     foldM (copy_template (a_tls_block env)) (g_objects l') m1 = Inr m2 \<and>
     g_objects l' = assign_tls 256 (g_objects l) \<and>
     (\<forall>x. x \<notin> span (a_tls_block env) 16 \<longrightarrow> x \<notin> span (a_main_thread env) 1024 \<longrightarrow> data (lmem l') x = data m2 x)"
proof -
  let ?b = "a_tls_block env" and ?t = "a_main_thread env"
  obtain m1 m2 m3 m4 m5 m6 where m: "lnk_memset (lmem l) ?b 0 (of_nat TLS_BLOCK_SIZE) = Inr m1"
    "foldM (copy_template ?b) (assign_tls 256 (g_objects l)) m1 = Inr m2"
    "wr64 m2 ?b ?b = Inr m3" "wr64 m3 (?b + 8) ?t = Inr m4" "lnk_memset m4 ?t 0 1024 = Inr m5"
    "wr32 m5 (?t + 0x10) (os_gettid (env_os env)) = Inr m6" "l' = set_mem (l\<lparr>g_objects := assign_tls 256 (g_objects l)\<rparr>) m6"
    using assms by (auto simp: init_tls_def Let_def rbind_eq_Inr_iff)
  have s: "span ?b 8 \<subseteq> span ?b 16" "span (?b + 8) 8 \<subseteq> span ?b 16" "span (?t + 0x10) 4 \<subseteq> span ?t 1024"
    using span_sub [of 0 8 16 ?b] span_sub [of 8 8 16 ?b] span_sub [of 16 4 1024 ?t] by simp_all
  have "data m6 x = data m2 x" if "x \<notin> span ?b 16" "x \<notin> span ?t 1024" for x
  proof -
    have "data m6 x = data m5 x" using that s(3) by (intro wr32_frame [OF m(6)]) blast
    also have "\<dots> = data m4 x" using that by (intro lnk_memset_effect(2) [OF m(5)]) simp
    also have "\<dots> = data m3 x" using that s(2) by (intro wr64_frame [OF m(4)]) blast
    also have "\<dots> = data m2 x" using that s(1) by (intro wr64_frame [OF m(3)]) blast
    finally show ?thesis .
  qed
  then show ?thesis using m by auto
qed

lemma init_tls_layout:
  assumes "init_tls env l = Inr l'" and "256 + tls_need (g_objects l) \<le> TLS_BLOCK_SIZE" and "obj \<in> set (g_objects l')"
    and "0 < tls_memsz obj"
  shows "256 \<le> unat (tls_offset obj)" "16 dvd unat (tls_offset obj)" "tls_end obj \<le> TLS_BLOCK_SIZE"
proof -
  have "g_objects l' = assign_tls 256 (g_objects l)" using init_tls_steps [OF assms(1)] by blast
  then show "256 \<le> unat (tls_offset obj)" "16 dvd unat (tls_offset obj)" "tls_end obj \<le> TLS_BLOCK_SIZE"
    using assign_tls_layout(1) [of 256 "g_objects l"] assms(2-4) by (force simp: TLS_BLOCK_SIZE_def)+
qed

lemma tls_areas_disjoint:
  assumes "256 + tls_need objs \<le> TLS_BLOCK_SIZE"
  shows "sorted_wrt (\<lambda>a b. tls_area block a \<inter> tls_area block b = {}) (assign_tls 256 objs)"
proof -
  have need: "unat (256 :: u64) + tls_need objs < 2 ^ 64" using assms by (simp add: TLS_BLOCK_SIZE_def)
  have dis: "tls_area block a \<inter> tls_area block b = {}"
    if "0 < tls_memsz a \<longrightarrow> 0 < tls_memsz b \<longrightarrow> tls_end a \<le> unat (tls_offset b)" "b \<in> set (assign_tls 256 objs)" for a b
  proof (cases "0 < tls_memsz a \<and> 0 < tls_memsz b")
    case True
    then have "tls_end b \<le> TLS_BLOCK_SIZE" using assign_tls_layout(1) [OF need] that(2) assms by force
    then show ?thesis using that(1) True unfolding tls_area_offset
      by (intro span_disjoint) (simp_all add: tls_end_def TLS_BLOCK_SIZE_def)
  qed (auto simp: tls_area_def word_gt_0)
  show ?thesis by (rule sorted_wrt_mono_rel [OF _ assign_tls_layout(2) [OF need]]) (use dis in blast)
qed

section \<open>The registry through \<^verbatim>\<open>linker_main\<close>\<close>

lemma dynamic_and_tls_step_keeps:
  assumes "dynamic_and_tls m ph o1 = Inr o2"
  shows "load_base o2 = load_base o1 \<and> soname o2 = soname o1 \<and> path o2 = path o1"
  using dynamic_and_tls_keeps [of m "[ph]" o1 o2] assms by simp

lemma register_exe_keeps:
  assumes "register_exe m exe_phdr phnum phentsize base name = Inr exe" and "nul_free name"
  shows "load_base exe = base \<and> obj_name exe = name \<and> length (soname exe) = 128 \<and> length (path exe) = 256"
proof -
  obtain sn where sn: "lnk_strcpy (soname zero_object) name = Inr sn"
    and f: "foldM (\<lambda>i obj. rbind (exe_phdr_at m exe_phdr phentsize i) (\<lambda>ph. dynamic_and_tls m ph obj))
      [0..<unat phnum] (zero_object\<lparr>soname := sn, load_base := base\<rparr>) = Inr exe"
    using assms(1) by (auto simp: register_exe_def rbind_eq_Inr_iff)
  have "load_base exe = base \<and> soname exe = sn \<and> path exe = path zero_object"
    by (rule foldM_inv [OF f]) (auto simp: rbind_eq_Inr_iff dest: dynamic_and_tls_step_keeps)
  then show ?thesis
    using lnk_strcpy_str_of [OF assms(2) sn] lnk_strcpy_length [OF sn] by (simp add: obj_name_def zero_object_def)
qed

lemma load_exe_needed_ok:
  assumes "load_exe_needed fuel env exe l = Inr l'" and "registry_ok l"
  shows "registry_ok l' \<and> grows l l'"
proof (cases "strtab exe = 0")
  case False
  then have f: "foldM (\<lambda>off l. rbind (cstr_at (lmem l) (strtab exe + ucast off)) (\<lambda>s. load_needed_so fuel env s l))
      (needed_off exe) l = Inr l'" using assms(1) by (simp add: load_exe_needed_def)
  show ?thesis
    by (rule foldM_inv [OF f]) (auto simp: rbind_eq_Inr_iff assms(2)
        dest: load_needed_so_grows load_needed_so_registered [OF _ _ cstr_at_nul_free] intro: grows_trans)
qed (use assms in \<open>simp add: load_exe_needed_def\<close>)

text \<open>The rest of \<^verbatim>\<open>linker_main\<close> leaves the registry alone.\<close>

definition same_registry :: "lnk \<Rightarrow> lnk \<Rightarrow> bool" where
  "same_registry l l' \<longleftrightarrow> g_objects l' = g_objects l \<and> g_hwcap l' = g_hwcap l \<and> g_auxv l' = g_auxv l"

lemma same_registry_refl [simp]: "same_registry l l"
  by (simp add: same_registry_def)

lemma same_registry_trans: "same_registry l l' \<Longrightarrow> same_registry l' l'' \<Longrightarrow> same_registry l l''"
  by (simp add: same_registry_def)

lemma protect_same [simp]: "same_registry l (protect env a len pr l')  = same_registry l l'"
  by (simp add: same_registry_def protect_def)

lemma set_mem_same [simp]: "same_registry l (set_mem l' m) = same_registry l l'"
  by (simp add: same_registry_def)

lemma restore_prot_same [simp]: "same_registry l (restore_prot env base ph l') = same_registry l l'"
  by (simp add: restore_prot_def Let_def)

lemma relocate_object_same: "relocate_object env hw ax obj l = Inr l' \<Longrightarrow> same_registry l l'"
  by (drule relocate_object_patches) (simp add: patches_def same_registry_def)

lemma show_got_same: "show_got obj l = Inr l' \<Longrightarrow> l' = l"
  by (auto simp: show_got_def rbind_eq_Inr_iff split: if_splits)

lemma relocate_all_same:
  assumes "relocate_all env hw ax exe_phdr phnum phentsize lm l = Inr l'"
  shows "same_registry l l'"
proof -
  obtain load_min load_max where lm: "lm = (load_min, load_max)" by fastforce
  let ?l0 = "if load_min \<noteq> - 1 then protect env load_min (load_max - load_min) (PROT_READ OR PROT_WRITE) l else l"
  let ?base = "load_base (g_objects l ! 0)"
  obtain l1 l2 where s: "relocate_object env hw ax (g_objects l ! 0) ?l0 = Inr l1"
    "(if load_min \<noteq> - 1
       then foldM (\<lambda>i l. rbind (exe_phdr_at (lmem l) exe_phdr phentsize i) (\<lambda>ph. Inr (restore_prot env ?base ph l)))
              [0..<unat phnum] l1
       else Inr l1) = Inr l2"
    "foldM (\<lambda>obj l. rbind (show_got obj l) (\<lambda>l. rbind (relocate_object env hw ax obj l) (show_got obj)))
       (tl (g_objects l2)) l2 = Inr l'"
    using assms by (auto simp: relocate_all_def lm Let_def rbind_eq_Inr_iff)
  have "same_registry l ?l0" by simp
  moreover have "same_registry ?l0 l1" by (rule relocate_object_same [OF s(1)])
  moreover have "same_registry l1 l2"
  proof (cases "load_min = - 1")
    case False
    then have f: "foldM (\<lambda>i l. rbind (exe_phdr_at (lmem l) exe_phdr phentsize i) (\<lambda>ph. Inr (restore_prot env ?base ph l)))
              [0..<unat phnum] l1 = Inr l2" using s(2) by simp
    show ?thesis by (rule foldM_inv [OF f]) (auto simp: rbind_eq_Inr_iff)
  qed (use s(2) in simp)
  moreover have "same_registry l2 l'"
    by (rule foldM_inv [OF s(3)]) (auto simp: rbind_eq_Inr_iff dest!: show_got_same relocate_object_same intro: same_registry_trans)
  ultimately show ?thesis using same_registry_trans by blast
qed

lemma patch_dlactivity_same: "patch_dlactivity env l = Inr l' \<Longrightarrow> same_registry l l'"
  by (auto simp: patch_dlactivity_def Let_def rbind_eq_Inr_iff split: if_splits)

lemma init_tls_registry:
  assumes "init_tls env l = Inr l'" and "registry_ok l"
  shows "registry_ok l' \<and> map obj_name (g_objects l') = map obj_name (g_objects l) \<and> g_auxv l' = g_auxv l \<and> g_hwcap l' = g_hwcap l"
proof -
  have "g_objects l' = assign_tls 256 (g_objects l)" "g_auxv l' = g_auxv l" "g_hwcap l' = g_hwcap l"
    using assms(1) by (auto simp: init_tls_def Let_def rbind_eq_Inr_iff)
  then show ?thesis
    using assms(2) assign_tls_all [of "\<lambda>obj. length (soname obj) = 128 \<and> length (path obj) = 256"]
    by (simp add: registry_ok_def)
qed

section \<open>Memory that can be accessed everywhere\<close>

definition accessible :: "vm \<Rightarrow> bool" where
  "accessible m \<longleftrightarrow> (\<forall>x. readable m x \<and> writable m x \<and> \<not> past_eof m x)"

lemma accessible_same_perms: "same_perms m m' \<Longrightarrow> accessible m \<Longrightarrow> accessible m'"
  by (simp add: accessible_def same_perms_def readable_def writable_def)

lemma accessible_image [simp]: "accessible (image_mem bs)"
  by (simp add: accessible_def image_mem_def readable_def writable_def PROT_READ_def PROT_WRITE_def)

lemma wr_bytes_accessible: "accessible m \<Longrightarrow> \<exists>m'. wr_bytes m a bs = Inr m' \<and> accessible m'"
  using wr_bytes_succeeds [of m a bs] wr_bytes_same_perms accessible_same_perms
  by (fastforce simp: accessible_def can_write_def)

lemma copy_template_accessible:
  assumes "accessible m" and "tls_fits obj" and "tls_filesz obj \<le> tls_memsz obj"
  shows "\<exists>m'. copy_template block obj m = Inr m' \<and> accessible m'"
proof (cases "0 < tls_memsz obj \<and> 0 < tls_vaddr obj")
  case True
  have le: "unat (tls_filesz obj) \<le> unat (tls_memsz obj)" using assms(3) by (simp add: word_le_nat_alt)
  have "\<exists>m'. foldM (\<lambda>k m. if TLS_BLOCK_SIZE \<le> unat (tls_offset obj) + k then Inl Overrun
      else rbind (rd8 m (load_base obj + tls_vaddr obj + of_nat k)) (\<lambda>b. wr8 m (block + tls_offset obj + of_nat k) b))
      [0..<unat (tls_filesz obj)] m = Inr m' \<and> accessible m'"
  proof (rule foldM_succeeds [where I = accessible, OF assms(1)], goal_cases)
    case (1 k s)
    then have "\<not> TLS_BLOCK_SIZE \<le> unat (tls_offset obj) + k"
      using assms(2) le True by (auto simp: tls_fits_def tls_end_def)
    then show ?case using 1(2) by (simp add: rd8_def wr8_def accessible_def readable_def writable_def)
  qed
  then show ?thesis using True by (simp add: copy_template_def)
qed (use assms(1) in \<open>auto simp: copy_template_def\<close>)

lemma init_tls_succeeds:
  assumes "accessible (lmem l)" and "256 + tls_need (g_objects l) \<le> TLS_BLOCK_SIZE"
    and "\<forall>obj \<in> set (g_objects l). tls_filesz obj \<le> tls_memsz obj"
  shows "\<exists>m. init_tls env l = Inr (set_mem (l\<lparr>g_objects := assign_tls 256 (g_objects l)\<rparr>) m) \<and> accessible m"
proof -
  let ?objs = "assign_tls 256 (g_objects l)"
  have fits: "\<forall>obj \<in> set ?objs. tls_fits obj \<and> tls_filesz obj \<le> tls_memsz obj"
    using assign_tls_layout(1) [of 256 "g_objects l"] assms(2,3) assign_tls_all [of "\<lambda>obj. tls_filesz obj \<le> tls_memsz obj"]
    by (force simp: tls_fits_def TLS_BLOCK_SIZE_def)
  obtain m1 where m1: "lnk_memset (lmem l) (a_tls_block env) 0 (of_nat TLS_BLOCK_SIZE) = Inr m1" "accessible m1"
    using wr_bytes_accessible [OF assms(1)] by (metis lnk_memset_def)
  obtain m2 where m2: "foldM (copy_template (a_tls_block env)) ?objs m1 = Inr m2" "accessible m2"
    using foldM_succeeds [of accessible m1 ?objs "copy_template (a_tls_block env)"] m1(2) fits copy_template_accessible by blast
  obtain m3 where m3: "wr64 m2 (a_tls_block env) (a_tls_block env) = Inr m3" "accessible m3"
    using wr_bytes_accessible [OF m2(2)] by (metis wr64_def)
  obtain m4 where m4: "wr64 m3 (a_tls_block env + 8) (a_main_thread env) = Inr m4" "accessible m4"
    using wr_bytes_accessible [OF m3(2)] by (metis wr64_def)
  obtain m5 where m5: "lnk_memset m4 (a_main_thread env) 0 1024 = Inr m5" "accessible m5"
    using wr_bytes_accessible [OF m4(2)] by (metis lnk_memset_def)
  obtain m6 where m6: "wr32 m5 (a_main_thread env + 0x10) (os_gettid (env_os env)) = Inr m6" "accessible m6"
    using wr_bytes_accessible [OF m5(2)] by (metis wr32_def)
  show ?thesis using m1 m2 m3 m4 m5 m6 by (auto simp: init_tls_def)
qed

section \<open>Properties\<close>

text \<open>C13: static TLS: every object with thread-local data gets a 16-byte aligned place of its own
  behind the 256 bytes of the thread control block, inside the block; the place holds the
  object's template, then zeroes.\<close>

theorem init_tls_image:
  assumes "init_tls env l = Inr l'" and "256 + tls_need (g_objects l) \<le> TLS_BLOCK_SIZE"
    and "\<forall>obj \<in> set (g_objects l). template_ok (a_tls_block env) obj"
    and "span (a_tls_block env) TLS_BLOCK_SIZE \<inter> span (a_main_thread env) 1024 = {}"
    and "obj \<in> set (g_objects l')" and "0 < tls_memsz obj" and "0 < tls_vaddr obj" and "k < unat (tls_memsz obj)"
  shows "256 \<le> unat (tls_offset obj) \<and> 16 dvd unat (tls_offset obj) \<and> tls_end obj \<le> TLS_BLOCK_SIZE \<and>
     data (lmem l') (a_tls_block env + tls_offset obj + of_nat k) =
       (if k < unat (tls_filesz obj) then data (lmem l) (load_base obj + tls_vaddr obj + of_nat k) else 0)"
proof -
  let ?b = "a_tls_block env" and ?x = "a_tls_block env + tls_offset obj + of_nat k"
  obtain m1 m2 where m: "lnk_memset (lmem l) ?b 0 (of_nat TLS_BLOCK_SIZE) = Inr m1"
    "foldM (copy_template ?b) (g_objects l') m1 = Inr m2" "g_objects l' = assign_tls 256 (g_objects l)"
    and late: "\<forall>x. x \<notin> span ?b 16 \<longrightarrow> x \<notin> span (a_main_thread env) 1024 \<longrightarrow> data (lmem l') x = data m2 x"
    using init_tls_steps [OF assms(1)] by blast
  note lay = init_tls_layout [OF assms(1,2,5,6)]
  have ok: "\<forall>o' \<in> set (g_objects l'). template_ok ?b o' \<and> tls_fits o'"
  proof -
    have "\<forall>o' \<in> set (g_objects l'). template_ok ?b o'"
      using assms(3) assign_tls_all [of "template_ok ?b" 256 "g_objects l"] m(3) by simp
    then show ?thesis using init_tls_layout(3) [OF assms(1,2)] by (simp add: tls_fits_def)
  qed
  have "data m2 ?x = (if k < unat (tls_filesz obj) then data m1 (load_base obj + tls_vaddr obj + of_nat k) else data m1 ?x)"
    using copy_templates_effect [OF m(2) ok] tls_areas_disjoint [OF assms(2)] assms(5-8) m(3) by simp
  moreover have size: "unat (of_nat TLS_BLOCK_SIZE :: u64) = TLS_BLOCK_SIZE" by (simp add: TLS_BLOCK_SIZE_def)
  have xa: "?x \<in> tls_area ?b obj" using assms(8) by (auto simp: tls_area_def span_def)
  then have xin: "?x \<in> span ?b TLS_BLOCK_SIZE" using tls_area_sub ok assms(5) by blast
  then have "data m1 ?x = 0" using lnk_memset_effect(1) [OF m(1)] by (simp add: size)
  moreover have "data m1 (load_base obj + tls_vaddr obj + of_nat k) = data (lmem l) (load_base obj + tls_vaddr obj + of_nat k)"
    if "k < unat (tls_filesz obj)"
  proof -
    have "load_base obj + tls_vaddr obj + of_nat k \<in> tls_source obj" using that by (auto simp: tls_source_def span_def)
    then have "load_base obj + tls_vaddr obj + of_nat k \<notin> span ?b TLS_BLOCK_SIZE"
      using ok assms(5) by (auto simp: template_ok_def)
    then show ?thesis using lnk_memset_effect(2) [OF m(1)] by (simp add: size)
  qed
  moreover have "?x \<notin> span ?b 16"
  proof -
    have "span (?b + of_nat 0) 16 \<inter> tls_area ?b obj = {}"
      unfolding tls_area_offset using lay by (intro span_disjoint) (simp_all add: tls_end_def TLS_BLOCK_SIZE_def)
    then show ?thesis using xa by auto
  qed
  moreover have "?x \<notin> span (a_main_thread env) 1024" using xin assms(4) by blast
  ultimately show ?thesis using late lay by simp
qed

text \<open>An object with three bytes of thread-local data, two of them initialised.\<close>

definition demo_tls_obj :: Object where
  "demo_tls_obj = zero_object\<lparr>load_base := 16, tls_vaddr := 16, tls_filesz := 2, tls_memsz := 3\<rparr>"

definition demo_tls_lnk :: lnk where
  "demo_tls_lnk = \<lparr>lproc = \<lparr>mem = image_mem (replicate 32 0 @ [11, 22, 33]), calls = 0\<rparr>,
     g_objects = [demo_tls_obj], g_hwcap = 0, g_auxv = 0\<rparr>"

theorem init_tls_image_witness:
  "\<exists>l'. init_tls demo_env demo_tls_lnk = Inr l' \<and> data (lmem l') (0x4000 + 256) = 11"
proof -
  let ?b = "a_tls_block demo_env" and ?objs = "g_objects demo_tls_lnk"
  have b: "?b = 0x4000" "a_main_thread demo_env = 0x9000" by (simp_all add: demo_env_def)
  have need: "256 + tls_need ?objs \<le> TLS_BLOCK_SIZE"
    by (simp add: tls_need_def demo_tls_lnk_def demo_tls_obj_def TLS_BLOCK_SIZE_def)
  obtain m where m: "init_tls demo_env demo_tls_lnk = Inr (set_mem (demo_tls_lnk\<lparr>g_objects := assign_tls 256 ?objs\<rparr>) m)"
    using init_tls_succeeds [of demo_tls_lnk demo_env] need by (auto simp: demo_tls_lnk_def demo_tls_obj_def)
  have objs: "assign_tls 256 ?objs = [demo_tls_obj\<lparr>tls_offset := 256\<rparr>]"
    by (simp add: demo_tls_lnk_def demo_tls_obj_def tls_align_def)
  have far: "span (of_nat i) n \<inter> span (of_nat j) k = {}" if "i + n \<le> j" "j + k \<le> 2 ^ 64" for i n j k
    using span_disjoint [of i n j k 0] that by simp
  have "\<forall>obj \<in> set ?objs. template_ok ?b obj"
    using far [of 32 2 16384 16384] by (simp add: template_ok_def tls_source_def b demo_tls_lnk_def demo_tls_obj_def TLS_BLOCK_SIZE_def)
  moreover have "span ?b TLS_BLOCK_SIZE \<inter> span (a_main_thread demo_env) 1024 = {}"
    using far [of 16384 16384 36864 1024] by (simp add: b TLS_BLOCK_SIZE_def)
  ultimately have "data (lmem (set_mem (demo_tls_lnk\<lparr>g_objects := assign_tls 256 ?objs\<rparr>) m)) (?b + 256 + of_nat 0) =
      data (lmem demo_tls_lnk) (16 + 16 + of_nat 0)"
    using init_tls_image [OF m need, where obj = "demo_tls_obj\<lparr>tls_offset := 256\<rparr>" and k = 0] objs by (simp add: demo_tls_obj_def)
  then have "data m (0x4000 + 256) = 11" by (simp add: b demo_tls_lnk_def image_mem_def nth_append)
  then show ?thesis using m by auto
qed


text \<open>A process whose memory is zero: no arguments, no program headers.\<close>

definition demo_zero_proc :: proc where
  "demo_zero_proc = \<lparr>mem = image_mem [], calls = 0\<rparr>"

lemma demo_zero_word: "rd64 (image_mem []) a = Inr 0"
  by (simp add: rd64_def rd_bytes_numeral image_mem_rd8)

lemma demo_linker_main: "\<exists>j l. linker_main demo_env 0 demo_zero_proc = Inr (j, l)"
proof -
  let ?m0 = "image_mem []"
  have st: "parse_stack ?m0 0 = Inr (0, 8, 24)"
    by (simp add: parse_stack_def demo_zero_word skip_pointers.simps Let_def)
  obtain m where m: "wr64 ?m0 (a_shared_globals demo_env + 0x418) 24 = Inr m" "accessible m"
    using wr_bytes_accessible [OF accessible_image] by (metis wr64_def)
  have "apart (a_shared_globals demo_env + 0x418) 24" by (rule apartI) (simp_all add: demo_env_def)
  then have aux: "auxv_get m 24 t = Inr 0" for t
    using rd64_wr64_other [OF m(1)] demo_zero_word by (subst auxv_get.simps) (simp add: AT_NULL_def)
  let ?sn = "lit ''main'' @ replicate 124 0"
  have cpy: "lnk_strcpy (soname zero_object) (lit ''main'') = Inr ?sn"
    by (simp add: lnk_strcpy_eq zero_object_def numeral_eq_Suc)
  let ?exe = "zero_object\<lparr>soname := ?sn, load_base := 0\<rparr>"
  let ?l = "\<lparr>lproc = \<lparr>mem = m, calls = 0\<rparr>, g_objects = [?exe], g_hwcap = 0, g_auxv = 24\<rparr>"
  have fields: "tls_memsz zero_object = 0" "strtab zero_object = 0" "symtab zero_object = 0"
    "gnu_hash_tab zero_object = 0" "relr zero_object = 0" "android_rela zero_object = 0" "rela zero_object = 0"
    "jmprel zero_object = 0" "tls_filesz zero_object = 0"
    by (simp_all add: zero_object_def)
  obtain m2 where tls: "init_tls demo_env ?l = Inr (set_mem ?l m2)"
    using init_tls_succeeds [of ?l demo_env] m(2) by (auto simp: tls_need_def fields TLS_BLOCK_SIZE_def)
  have rel: "relocate_all demo_env 0 24 0 0 0 (- 1, 0) (set_mem ?l m2) = Inr (set_mem (set_mem ?l m2) m2)"
    by (simp add: relocate_all_def relocate_object_def apply_relr_def fields)
  have patch: "patch_dlactivity demo_env (set_mem (set_mem ?l m2) m2) = Inr (set_mem (set_mem ?l m2) m2)"
    by (simp add: patch_dlactivity_def lookup_symbol_def find_in_object_def fields lit_def)
  show ?thesis
    by (simp add: linker_main_def demo_zero_proc_def st m(1) aux exe_load_base_def exe_name_def register_exe_def cpy
        load_exe_needed_def fields exe_range_def tls rel
        patch Let_def)
qed


end
