(* ===== verification/Shim_Base.thy ===== *)
theory Shim_Base
  imports Muplar_Base
begin

text \<open>
  What the components of the ART shim (\<^verbatim>\<open>muplar_android_art_shim.c\<close>) share: heap buffers
  with bounds, alignment, and the parts of the C library and of JNI they call.

  A heap buffer is the list of its bytes. \<^verbatim>\<open>memcpy\<close> into or out of a buffer stops with
  \<open>Overrun\<close> when it would leave the buffer. Sizes of type \<^verbatim>\<open>size_t\<close> are natural
  numbers: they are sums of a few values below \<open>2 ^ 32\<close> and sizes of allocated buffers, which
  cannot wrap around in 64 bits. Whether an allocation succeeds is a parameter.
\<close>

section \<open>Buffers\<close>

definition poke :: "'a list \<Rightarrow> nat \<Rightarrow> 'a list \<Rightarrow> fault + 'a list" where
  "poke d off bs =
     (if off + length bs \<le> length d then Inr (take off d @ bs @ drop (off + length bs) d) else Inl Overrun)"

definition peek :: "'a list \<Rightarrow> nat \<Rightarrow> nat \<Rightarrow> fault + 'a list" where
  "peek d off n = (if off + n \<le> length d then Inr (take n (drop off d)) else Inl Overrun)"

text \<open>One element of an array.\<close>

definition array_at :: "'a list \<Rightarrow> int \<Rightarrow> fault + 'a" where
  "array_at xs i = (if 0 \<le> i \<and> i < int (length xs) then Inr (xs ! nat i) else Inl Overrun)"

lemma poke_length: "poke d off bs = Inr d' \<Longrightarrow> length d' = length d"
  by (auto simp: poke_def split: if_splits)

lemma poke_succeeds_iff: "(\<exists>d'. poke d off bs = Inr d') \<longleftrightarrow> off + length bs \<le> length d"
  by (simp add: poke_def)

lemma peek_length: "peek d off n = Inr bs \<Longrightarrow> length bs = n"
  by (auto simp: peek_def split: if_splits)

lemma peek_poke_same: "poke d off bs = Inr d' \<Longrightarrow> peek d' off (length bs) = Inr bs"
  by (auto simp: poke_def peek_def split: if_splits)

lemma nth_poke:
  "poke d off bs = Inr d' \<Longrightarrow> i < length d \<Longrightarrow>
     d' ! i = (if off \<le> i \<and> i < off + length bs then bs ! (i - off) else d ! i)"
  by (auto simp: poke_def nth_append split: if_splits)

lemma peek_eq_map: "off + n \<le> length d \<Longrightarrow> peek d off n = Inr (map (\<lambda>i. d ! (off + i)) [0..<n])"
  by (auto simp: peek_def list_eq_iff_nth_eq)

lemma peek_cong:
  assumes "off + n \<le> length d" and "off + n \<le> length d'" and "\<And>i. off \<le> i \<Longrightarrow> i < off + n \<Longrightarrow> d' ! i = d ! i"
  shows "peek d' off n = peek d off n"
  using assms by (simp add: peek_eq_map)

lemma peek_poke_other:
  assumes "poke d off bs = Inr d'" and "o' + n \<le> off \<or> off + length bs \<le> o'"
  shows "peek d' o' n = peek d o' n"
proof (cases "o' + n \<le> length d")
  case True
  show ?thesis
    by (rule peek_cong) (use True assms poke_length [OF assms(1)] nth_poke [OF assms(1)] in auto)
qed (use poke_length [OF assms(1)] in \<open>simp add: peek_def\<close>)

section \<open>Alignment\<close>

text \<open>\<^verbatim>\<open>(n + 3) & ~3\<close>\<close>

definition align4 :: "nat \<Rightarrow> nat" where
  "align4 n = (n + 3) div 4 * 4"

lemma align4_ge: "n \<le> align4 n"
  unfolding align4_def using div_mult_mod_eq [of "n + 3" 4] mod_less_divisor [of 4 "n + 3"] by linarith

lemma align4_less: "align4 n < n + 4"
  unfolding align4_def using div_mult_mod_eq [of "n + 3" 4] by linarith

lemma align4_dvd [simp]: "4 dvd align4 n"
  by (simp add: align4_def)

lemma align4_id [simp]: "4 dvd n \<Longrightarrow> align4 n = n"
  by (auto simp: align4_def elim!: dvdE)

section \<open>Arithmetic of type \<^verbatim>\<open>int\<close>\<close>

text \<open>Sums and products; overflow is undefined.\<close>

definition iadd :: "int \<Rightarrow> int \<Rightarrow> fault + int" where
  "iadd a b = (if - (2 ^ 31) \<le> a + b \<and> a + b < 2 ^ 31 then Inr (a + b) else Inl Undefined)"

definition imul :: "int \<Rightarrow> int \<Rightarrow> fault + int" where
  "imul a b = (if - (2 ^ 31) \<le> a * b \<and> a * b < 2 ^ 31 then Inr (a * b) else Inl Undefined)"

section \<open>Positive \<^verbatim>\<open>jint\<close>s\<close>

lemma sint_signed_take_bit: "sint (w :: u32) = signed_take_bit 31 (uint w)"
  by (simp add: sint_uint)

lemma pos_sint_bit:
  assumes "0 < sint (w :: u32)"
  shows "\<not> bit (uint w) 31"
proof
  assume "bit (uint w) 31"
  then have "signed_take_bit 31 (uint w) < 0" by (subst signed_take_bit_negative_iff)
  then show False using assms unfolding sint_signed_take_bit by linarith
qed

lemma sint_small: "n < 2 ^ 31 \<Longrightarrow> sint (of_nat n :: u32) = int n"
  by (simp add: signed_of_nat signed_take_bit_int_eq_self)

lemma unat_pos_sint:
  assumes "0 < sint (w :: u32)"
  shows "unat w = nat (sint w)"
proof -
  note nb = pos_sint_bit [OF assms]
  have "take_bit 31 (uint w) = uint w"
  proof (rule bit_eqI)
    fix n
    have "bit (uint w) n \<Longrightarrow> n < 32" by (simp add: bit_uint_iff)
    then show "bit (take_bit 31 (uint w)) n = bit (uint w) n"
      using nb unfolding bit_take_bit_iff by (cases "n = 31") fastforce+
  qed
  moreover have "signed_take_bit 31 (uint w) = take_bit 31 (uint w)" using nb by (rule signed_take_bit_eq_if_positive)
  ultimately show ?thesis unfolding sint_signed_take_bit by (simp only: unat_eq_nat_uint)
qed

section \<open>Colours\<close>

text \<open>The channels of a pixel, \<^verbatim>\<open>(color >> k) & 0xff\<close>, and a pixel put together from them.\<close>

definition alpha_of :: "u32 \<Rightarrow> u32" where "alpha_of c = drop_bit 24 c AND 0xff"
definition red_of :: "u32 \<Rightarrow> u32" where "red_of c = drop_bit 16 c AND 0xff"
definition green_of :: "u32 \<Rightarrow> u32" where "green_of c = drop_bit 8 c AND 0xff"
definition blue_of :: "u32 \<Rightarrow> u32" where "blue_of c = c AND 0xff"

definition argb :: "u32 \<Rightarrow> u32 \<Rightarrow> u32 \<Rightarrow> u32 \<Rightarrow> u32" where
  "argb a r g b = push_bit 24 a OR push_bit 16 r OR push_bit 8 g OR b"

lemmas channel_defs = alpha_of_def red_of_def green_of_def blue_of_def

lemma ff_mask: "(0xff :: u32) = mask 8" "(0x00ffffff :: u32) = mask 24"
  by (simp_all add: mask_eq_exp_minus_1)

lemma byte_self: "(x :: u32) < 256 \<Longrightarrow> take_bit 8 x = x"
  by (simp add: word_less_nat_alt unsigned_take_bit_eq take_bit_eq_mod word_unat_eq_iff unat_mod)

lemma byte_bit: "(x :: u32) < 256 \<Longrightarrow> bit x n \<Longrightarrow> n < 8"
  using byte_self [of x] bit_take_bit_iff [of 8 x n] by auto

lemma channel_less [simp]: "alpha_of c < 256" "red_of c < 256" "green_of c < 256" "blue_of c < 256"
  unfolding channel_defs ff_mask
  by (simp_all add: word_less_nat_alt unsigned_take_bit_eq take_bit_eq_mod unat_mod flip: take_bit_eq_mask)

lemma channel_argb:
  assumes "a < 256" and "r < 256" and "g < 256" and "b < 256"
  shows "alpha_of (argb a r g b) = a" "red_of (argb a r g b) = r" "green_of (argb a r g b) = g" "blue_of (argb a r g b) = b"
proof -
  note bits = assms [THEN byte_bit]
  show "alpha_of (argb a r g b) = a" "red_of (argb a r g b) = r" "green_of (argb a r g b) = g" "blue_of (argb a r g b) = b"
    unfolding channel_defs argb_def ff_mask by (rule bit_word_eqI, auto simp: bit_simps dest: bits)+
qed

lemma argb_channels: "argb (alpha_of c) (red_of c) (green_of c) (blue_of c) = c"
proof (rule bit_word_eqI)
  fix n :: nat
  assume "n < LENGTH(32)"
  then consider "n < 8" | "8 \<le> n" "n < 16" | "16 \<le> n" "n < 24" | "24 \<le> n" "n < 32" by fastforce
  then show "bit (argb (alpha_of c) (red_of c) (green_of c) (blue_of c)) n = bit c n"
    unfolding channel_defs argb_def ff_mask by cases (auto simp: bit_simps)
qed

text \<open>Replacing the alpha channel: \<^verbatim>\<open>(c & 0x00ffffff) | (a << 24)\<close>.\<close>

lemma replace_alpha:
  assumes "a < 256"
  shows "alpha_of ((c AND 0x00ffffff) OR push_bit 24 a) = a"
    "((c AND 0x00ffffff) OR push_bit 24 a) AND 0x00ffffff = c AND 0x00ffffff"
  unfolding channel_defs ff_mask by (rule bit_word_eqI, auto simp: bit_simps dest: byte_bit [OF assms])+

section \<open>JNI and the C library\<close>

text \<open>
  The parameters: whether an allocation of so many bytes succeeds, whether the VM can give
  access to the characters of a string, and the modified UTF-8 conversions of
  \<^verbatim>\<open>GetStringUTFChars\<close> and \<^verbatim>\<open>NewStringUTF\<close>. A \<^verbatim>\<open>jstring\<close> is the list of its
  UTF-16 code units, or \<open>None\<close> for null.
\<close>

type_synonym jstring = "u16 list option"

record jni =
  alloc :: "nat \<Rightarrow> bool"
  get_chars :: bool
  to_utf :: "u16 list \<Rightarrow> u8 list"
  from_utf :: "u8 list \<Rightarrow> u16 list"

end
