(* ===== verification/Parcel.thy ===== *)
theory Parcel
  imports Shim_Base
begin

text \<open>
  \<^verbatim>\<open>android.os.Parcel\<close> of the ART shim: \<^verbatim>\<open>struct muplar_parcel\<close>, its growth and
  the native methods. A handle is \<open>None\<close> for the null pointer, on which every method
  returns its default. References to Java objects are numbers; a global reference denotes the
  object it was made from. Floating point values are their bit patterns, as in the unions of
  the code.
\<close>

section \<open>State\<close>

type_synonym jobject = nat

record parcel =
  pdata :: "u8 list" \<comment> \<open>\<^verbatim>\<open>data\<close>; its length is \<^verbatim>\<open>capacity\<close>\<close>
  psize :: nat
  ppos :: nat
  binders :: "jobject list" \<comment> \<open>the first \<^verbatim>\<open>binder_count\<close> entries\<close>
  binder_cap :: nat

abbreviation capacity :: "parcel \<Rightarrow> nat" where
  "capacity p \<equiv> length (pdata p)"

text \<open>A method on a handle: the default on the null pointer.\<close>

definition with_parcel :: "'r \<Rightarrow> (parcel \<Rightarrow> fault + 'r \<times> parcel) \<Rightarrow> parcel option \<Rightarrow> fault + 'r \<times> parcel option" where
  "with_parcel r f h =
     (case h of None \<Rightarrow> Inr (r, None) | Some p \<Rightarrow> rbind (f p) (\<lambda>(r', p'). Inr (r', Some p')))"

section \<open>Operations\<close>

text \<open>\<^verbatim>\<open>while (new_cap < needed) new_cap *= 2\<close>; the first capacity is never 0.\<close>

function grow_cap :: "nat \<Rightarrow> nat \<Rightarrow> nat" where
  "grow_cap new_cap needed =
     (if new_cap < needed \<and> 0 < new_cap then grow_cap (2 * new_cap) needed else new_cap)"
  by pat_completeness auto
termination
  by (relation "measure (\<lambda>(c, n). n - c)") auto

declare grow_cap.simps [simp del]

definition muplar_parcel_grow :: "jni \<Rightarrow> parcel \<Rightarrow> nat \<Rightarrow> bool \<times> parcel" where
  "muplar_parcel_grow j p needed =
     (if needed \<le> capacity p then (True, p)
      else
        let new_cap = grow_cap (if capacity p = 0 then 128 else capacity p * 2) needed in
        if \<not> alloc j new_cap then (False, p)
        else (True, p\<lparr>pdata := pdata p @ replicate (new_cap - capacity p) 0\<rparr>))"

definition Parcel_nativeCreate :: "jni \<Rightarrow> parcel option" where
  "Parcel_nativeCreate j =
     (if alloc j 56 then Some \<lparr>pdata = [], psize = 0, ppos = 0, binders = [], binder_cap = 0\<rparr> else None)"

definition Parcel_nativeDataAvail :: "parcel option \<Rightarrow> u32" where
  "Parcel_nativeDataAvail h = (case h of None \<Rightarrow> 0
     | Some p \<Rightarrow> if psize p \<le> ppos p then 0 else of_nat (psize p - ppos p))"

definition Parcel_nativeDataCapacity :: "parcel option \<Rightarrow> u32" where
  "Parcel_nativeDataCapacity h = (case h of None \<Rightarrow> 0 | Some p \<Rightarrow> of_nat (capacity p))"

definition Parcel_nativeDataPosition :: "parcel option \<Rightarrow> u32" where
  "Parcel_nativeDataPosition h = (case h of None \<Rightarrow> 0 | Some p \<Rightarrow> of_nat (ppos p))"

definition Parcel_nativeDataSize :: "parcel option \<Rightarrow> u32" where
  "Parcel_nativeDataSize h = (case h of None \<Rightarrow> 0 | Some p \<Rightarrow> of_nat (psize p))"

definition Parcel_nativeSetDataCapacity :: "jni \<Rightarrow> u32 \<Rightarrow> parcel \<Rightarrow> parcel" where
  "Parcel_nativeSetDataCapacity j n p = (if n \<le>s 0 then p else snd (muplar_parcel_grow j p (unat n)))"

definition Parcel_nativeSetDataPosition :: "u32 \<Rightarrow> parcel \<Rightarrow> parcel" where
  "Parcel_nativeSetDataPosition pos p = (if pos <s 0 then p else p\<lparr>ppos := unat pos\<rparr>)"

definition Parcel_nativeSetDataSize :: "jni \<Rightarrow> u32 \<Rightarrow> parcel \<Rightarrow> parcel" where
  "Parcel_nativeSetDataSize j n p =
     (if n <s 0 then p
      else let p1 = (if capacity p < unat n then snd (muplar_parcel_grow j p (unat n)) else p);
               p2 = p1\<lparr>psize := unat n\<rparr>
           in if psize p2 < ppos p2 then p2\<lparr>ppos := psize p2\<rparr> else p2)"

definition Parcel_nativeFreeBuffer :: "parcel \<Rightarrow> parcel" where
  "Parcel_nativeFreeBuffer p = \<lparr>pdata = [], psize = 0, ppos = 0, binders = [], binder_cap = 0\<rparr>"

text \<open>\<^verbatim>\<open>nativeDestroy\<close>: the global references it deletes; the handle is gone.\<close>

definition Parcel_nativeDestroy :: "parcel option \<Rightarrow> jobject list \<times> parcel option" where
  "Parcel_nativeDestroy h = (case h of None \<Rightarrow> ([], None) | Some p \<Rightarrow> (binders p, None))"

definition Parcel_nativeHasBinders :: "parcel option \<Rightarrow> bool" where
  "Parcel_nativeHasBinders h = (case h of None \<Rightarrow> False | Some p \<Rightarrow> 0 < length (binders p))"

definition Parcel_nativeHasBindersInRange :: "parcel option \<Rightarrow> u32 \<Rightarrow> u32 \<Rightarrow> bool" where
  "Parcel_nativeHasBindersInRange h offset len = (case h of None \<Rightarrow> False | Some p \<Rightarrow> 0 < length (binders p))"

text \<open>Writing bytes at an offset and moving the position behind them: the end of every write method.\<close>

definition store_at :: "parcel \<Rightarrow> nat \<Rightarrow> u8 list \<Rightarrow> nat \<Rightarrow> fault + parcel" where
  "store_at p off bs fin =
     rbind (poke (pdata p) off bs) (\<lambda>d.
       let p' = p\<lparr>pdata := d, ppos := fin\<rparr> in
       Inr (if psize p' < fin then p'\<lparr>psize := fin\<rparr> else p'))"

definition Parcel_nativeWriteInt :: "jni \<Rightarrow> u32 \<Rightarrow> parcel \<Rightarrow> fault + u32 \<times> parcel" where
  "Parcel_nativeWriteInt j val p =
     (let aligned_pos = align4 (ppos p); fin = aligned_pos + 4; (ok, p1) = muplar_parcel_grow j p fin in
      if \<not> ok then Inr (- 1, p1)
      else rbind (store_at p1 aligned_pos (le_encode 4 val) fin) (\<lambda>p2. Inr (0, p2)))"

definition Parcel_nativeWriteLong :: "jni \<Rightarrow> u64 \<Rightarrow> parcel \<Rightarrow> fault + u32 \<times> parcel" where
  "Parcel_nativeWriteLong j val p =
     (let aligned_pos = align4 (ppos p); fin = aligned_pos + 8; (ok, p1) = muplar_parcel_grow j p fin in
      if \<not> ok then Inr (- 1, p1)
      else rbind (store_at p1 aligned_pos (le_encode 8 val) fin) (\<lambda>p2. Inr (0, p2)))"

definition Parcel_nativeWriteFloat :: "jni \<Rightarrow> u32 \<Rightarrow> parcel \<Rightarrow> fault + u32 \<times> parcel" where
  "Parcel_nativeWriteFloat j bits p = Parcel_nativeWriteInt j bits p"

definition Parcel_nativeWriteDouble :: "jni \<Rightarrow> u64 \<Rightarrow> parcel \<Rightarrow> fault + u32 \<times> parcel" where
  "Parcel_nativeWriteDouble j bits p = Parcel_nativeWriteLong j bits p"

text \<open>The body of a string: its bytes and terminator, padded to four bytes.\<close>

definition write_body :: "jni \<Rightarrow> u8 list \<Rightarrow> nat \<Rightarrow> parcel \<Rightarrow> fault + parcel" where
  "write_body j bs padded p =
     (let fin = ppos p + padded; (ok, p1) = muplar_parcel_grow j p fin in
      if ok then store_at p1 (ppos p1) bs fin else Inr p1)"

definition Parcel_nativeWriteString8 :: "jni \<Rightarrow> jstring \<Rightarrow> parcel \<Rightarrow> fault + unit \<times> parcel" where
  "Parcel_nativeWriteString8 j str p =
     (case str of None \<Rightarrow> rbind (Parcel_nativeWriteInt j (- 1) p) (\<lambda>(_, p). Inr ((), p))
      | Some s \<Rightarrow>
        if \<not> get_chars j then rbind (Parcel_nativeWriteInt j (- 1) p) (\<lambda>(_, p). Inr ((), p))
        else
          let chars = to_utf j s; len = length chars in
          rbind (Parcel_nativeWriteInt j (of_nat len) p) (\<lambda>(_, p).
          rbind (write_body j (chars @ [0]) (align4 (len + 1)) p) (\<lambda>p. Inr ((), p))))"

definition utf16_bytes :: "u16 list \<Rightarrow> u8 list" where
  "utf16_bytes s = concat (map (le_encode 2) s)"

definition Parcel_nativeWriteString16 :: "jni \<Rightarrow> jstring \<Rightarrow> parcel \<Rightarrow> fault + unit \<times> parcel" where
  "Parcel_nativeWriteString16 j str p =
     (case str of None \<Rightarrow> rbind (Parcel_nativeWriteInt j (- 1) p) (\<lambda>(_, p). Inr ((), p))
      | Some s \<Rightarrow>
        if \<not> get_chars j then rbind (Parcel_nativeWriteInt j (- 1) p) (\<lambda>(_, p). Inr ((), p))
        else
          let len = length s in
          rbind (Parcel_nativeWriteInt j (of_nat len) p) (\<lambda>(_, p).
          rbind (write_body j (utf16_bytes s @ [0, 0]) (align4 ((len + 1) * 2)) p) (\<lambda>p. Inr ((), p))))"

definition Parcel_nativeWriteInterfaceToken :: "jni \<Rightarrow> jstring \<Rightarrow> parcel \<Rightarrow> fault + unit \<times> parcel" where
  "Parcel_nativeWriteInterfaceToken j str p = rbind (Parcel_nativeWriteInt j 0 p) (\<lambda>(_, p). Parcel_nativeWriteString16 j str p)"

definition Parcel_nativeWriteStrongBinder :: "jni \<Rightarrow> jobject option \<Rightarrow> parcel \<Rightarrow> fault + unit \<times> parcel" where
  "Parcel_nativeWriteStrongBinder j binder p =
     (case binder of None \<Rightarrow> rbind (Parcel_nativeWriteInt j (- 1) p) (\<lambda>(_, p). Inr ((), p))
      | Some b \<Rightarrow>
        let full = binder_cap p \<le> length (binders p);
            new_cap = (if binder_cap p = 0 then 4 else binder_cap p * 2) in
        if full \<and> \<not> alloc j (new_cap * 8) then rbind (Parcel_nativeWriteInt j (- 1) p) (\<lambda>(_, p). Inr ((), p))
        else
          let p1 = (if full then p\<lparr>binder_cap := new_cap\<rparr> else p); idx = length (binders p1) in
          rbind (Parcel_nativeWriteInt j (of_nat idx) (p1\<lparr>binders := binders p1 @ [b]\<rparr>)) (\<lambda>(_, p). Inr ((), p)))"

definition Parcel_nativeReadInt :: "parcel \<Rightarrow> fault + u32 \<times> parcel" where
  "Parcel_nativeReadInt p =
     (let aligned_pos = align4 (ppos p) in
      if psize p < aligned_pos + 4 then Inr (0, p)
      else rbind (peek (pdata p) aligned_pos 4) (\<lambda>bs. Inr (le_decode bs, p\<lparr>ppos := aligned_pos + 4\<rparr>)))"

definition Parcel_nativeReadLong :: "parcel \<Rightarrow> fault + u64 \<times> parcel" where
  "Parcel_nativeReadLong p =
     (let aligned_pos = align4 (ppos p) in
      if psize p < aligned_pos + 8 then Inr (0, p)
      else rbind (peek (pdata p) aligned_pos 8) (\<lambda>bs. Inr (le_decode bs, p\<lparr>ppos := aligned_pos + 8\<rparr>)))"

definition Parcel_nativeReadFloat :: "parcel \<Rightarrow> fault + u32 \<times> parcel" where
  "Parcel_nativeReadFloat p = Parcel_nativeReadInt p"

definition Parcel_nativeReadDouble :: "parcel \<Rightarrow> fault + u64 \<times> parcel" where
  "Parcel_nativeReadDouble p = Parcel_nativeReadLong p"

definition skip_to :: "parcel \<Rightarrow> nat \<Rightarrow> parcel" where
  "skip_to p n = p\<lparr>ppos := (if ppos p + n \<le> psize p then ppos p + n else psize p)\<rparr>"

definition Parcel_nativeReadString8 :: "jni \<Rightarrow> parcel \<Rightarrow> fault + jstring \<times> parcel" where
  "Parcel_nativeReadString8 j p =
     rbind (Parcel_nativeReadInt p) (\<lambda>(len, p).
       if len <s 0 then Inr (None, p)
       else if len = 0 then Inr (Some (from_utf j []), skip_to p 4)
       else
         let n = unat len; padded = align4 (n + 1) in
         if psize p < ppos p + n then Inr (None, p)
         else if \<not> alloc j (n + 1) then Inr (None, p)
         else rbind (peek (pdata p) (ppos p) n) (\<lambda>buf.
           Inr (Some (from_utf j (takeWhile (\<lambda>c. c \<noteq> 0) buf)), skip_to p padded)))"

fun utf16_of :: "u8 list \<Rightarrow> u16 list" where
  "utf16_of (a # b # bs) = le_decode [a, b] # utf16_of bs"
| "utf16_of _ = []"

definition Parcel_nativeReadString16 :: "parcel \<Rightarrow> fault + jstring \<times> parcel" where
  "Parcel_nativeReadString16 p =
     rbind (Parcel_nativeReadInt p) (\<lambda>(len, p).
       if len <s 0 then Inr (None, p)
       else if len = 0 then Inr (Some [], skip_to p 4)
       else
         let n = unat len; padded = align4 ((n + 1) * 2) in
         if psize p < ppos p + n * 2 then Inr (None, p)
         else rbind (peek (pdata p) (ppos p) (n * 2)) (\<lambda>buf. Inr (Some (utf16_of buf), skip_to p padded)))"

definition Parcel_nativeEnforceInterface :: "jstring \<Rightarrow> parcel \<Rightarrow> fault + unit \<times> parcel" where
  "Parcel_nativeEnforceInterface interface p =
     rbind (Parcel_nativeReadInt p) (\<lambda>(_, p). rbind (Parcel_nativeReadString16 p) (\<lambda>(_, p). Inr ((), p)))"

definition Parcel_nativeReadStrongBinder :: "parcel \<Rightarrow> fault + jobject option \<times> parcel" where
  "Parcel_nativeReadStrongBinder p =
     rbind (Parcel_nativeReadInt p) (\<lambda>(idx, p).
       Inr (if idx <s 0 \<or> length (binders p) \<le> unat idx then None else Some (binders p ! unat idx), p))"

section \<open>Growth\<close>

lemma grow_cap_ge: "0 < c \<Longrightarrow> needed \<le> grow_cap c needed \<and> c \<le> grow_cap c needed"
proof (induction c needed rule: grow_cap.induct)
  case (1 c needed)
  show ?case
  proof (cases "c < needed")
    case True
    then have "needed \<le> grow_cap (2 * c) needed \<and> 2 * c \<le> grow_cap (2 * c) needed" using 1 by simp
    then show ?thesis using True 1(2) by (subst (1 2) grow_cap.simps) simp
  qed (use 1(2) in \<open>simp add: grow_cap.simps\<close>)
qed

lemma grow_eq:
  assumes "muplar_parcel_grow j p needed = (ok, p')"
  shows "\<exists>k. p' = p\<lparr>pdata := pdata p @ replicate k 0\<rparr> \<and> (ok \<longrightarrow> needed \<le> capacity p')"
proof (cases "needed \<le> capacity p")
  case True
  then show ?thesis using assms by (intro exI [of _ 0]) (simp add: muplar_parcel_grow_def)
next
  case False
  let ?c = "grow_cap (if capacity p = 0 then 128 else capacity p * 2) needed"
  have c: "needed \<le> ?c" using grow_cap_ge [of "if capacity p = 0 then 128 else capacity p * 2" needed] by auto
  show ?thesis
  proof (cases "alloc j ?c")
    case True
    then show ?thesis using assms False c by (intro exI [of _ "?c - capacity p"]) (auto simp: muplar_parcel_grow_def Let_def)
  next
    case f: False
    then show ?thesis using assms False by (intro exI [of _ 0]) (auto simp: muplar_parcel_grow_def Let_def)
  qed
qed

text \<open>An allocator that never fails.\<close>

definition allocates :: "jni \<Rightarrow> bool" where
  "allocates j \<longleftrightarrow> (\<forall>n. alloc j n)"

lemma grow_allocates:
  assumes "allocates j"
  obtains k where "muplar_parcel_grow j p needed = (True, p\<lparr>pdata := pdata p @ replicate k 0\<rparr>)" "needed \<le> capacity p + k"
proof -
  obtain ok p' where g: "muplar_parcel_grow j p needed = (ok, p')" by fastforce
  moreover have ok using g assms by (auto simp: muplar_parcel_grow_def allocates_def Let_def split: if_splits)
  ultimately show thesis using grow_eq [OF g] that by auto
qed

section \<open>The invariant\<close>

definition parcel_ok :: "parcel \<Rightarrow> bool" where
  "parcel_ok p \<longleftrightarrow> psize p \<le> capacity p \<and> length (binders p) \<le> binder_cap p"

lemma parcel_ok_grow: "muplar_parcel_grow j p n = (ok, p') \<Longrightarrow> parcel_ok p \<Longrightarrow> parcel_ok p'"
  using grow_eq [of j p n ok p'] by (auto simp: parcel_ok_def)

lemma store_at_ok:
  assumes "parcel_ok p" and "off + length bs \<le> fin" and "fin \<le> capacity p"
  shows "\<exists>p'. store_at p off bs fin = Inr p' \<and> parcel_ok p'"
proof -
  obtain d where d: "poke (pdata p) off bs = Inr d" using assms(2,3) poke_succeeds_iff by fastforce
  then show ?thesis using poke_length [OF d] assms by (auto simp: store_at_def parcel_ok_def Let_def)
qed

text \<open>The methods that return on every well-formed parcel, keeping it well formed.\<close>

definition keeps_ok :: "(parcel \<Rightarrow> fault + 'r \<times> parcel) \<Rightarrow> bool" where
  "keeps_ok f \<longleftrightarrow> (\<forall>p. parcel_ok p \<longrightarrow> (\<exists>r p'. f p = Inr (r, p') \<and> parcel_ok p'))"

lemma keeps_okD: "keeps_ok f \<Longrightarrow> parcel_ok p \<Longrightarrow> \<exists>r p'. f p = Inr (r, p') \<and> parcel_ok p'"
  by (simp add: keeps_ok_def)

lemma keeps_ok_bind:
  "keeps_ok f \<Longrightarrow> (\<And>r. keeps_ok (g r)) \<Longrightarrow> keeps_ok (\<lambda>p. rbind (f p) (\<lambda>(r, p'). g r p'))"
  unfolding keeps_ok_def by fastforce

lemma keeps_ok_return: "(\<And>p. parcel_ok p \<Longrightarrow> parcel_ok (h p)) \<Longrightarrow> keeps_ok (\<lambda>p. Inr (r p, h p))"
  by (simp add: keeps_ok_def)

lemma write_word_ok:
  assumes "length bs = n"
  shows "keeps_ok (\<lambda>p. let aligned_pos = align4 (ppos p); fin = aligned_pos + n; (ok, p1) = muplar_parcel_grow j p fin in
      if \<not> ok then Inr (c, p1) else rbind (store_at p1 aligned_pos bs fin) (\<lambda>p2. Inr (0, p2)))"
  unfolding keeps_ok_def
proof (intro allI impI)
  fix p
  assume ok: "parcel_ok p"
  obtain g p1 where g: "muplar_parcel_grow j p (align4 (ppos p) + n) = (g, p1)" by fastforce
  have ok1: "parcel_ok p1" using parcel_ok_grow [OF g ok] .
  show "\<exists>r p'. (let aligned_pos = align4 (ppos p); fin = aligned_pos + n; (ok, p1) = muplar_parcel_grow j p fin in
      if \<not> ok then Inr (c, p1) else rbind (store_at p1 aligned_pos bs fin) (\<lambda>p2. Inr (0, p2))) = Inr (r, p') \<and> parcel_ok p'"
  proof (cases g)
    case True
    then have "align4 (ppos p) + n \<le> capacity p1" using grow_eq [OF g] by auto
    then show ?thesis using g True store_at_ok [OF ok1, of "align4 (ppos p)" bs "align4 (ppos p) + n"] assms
      by (auto simp: Let_def)
  qed (use g ok1 in \<open>simp add: Let_def\<close>)
qed

lemma WriteInt_ok: "keeps_ok (Parcel_nativeWriteInt j v)"
  unfolding Parcel_nativeWriteInt_def [abs_def] by (rule write_word_ok) simp

lemma WriteLong_ok: "keeps_ok (Parcel_nativeWriteLong j v)"
  unfolding Parcel_nativeWriteLong_def [abs_def] by (rule write_word_ok) simp

lemma WriteInt_unit_ok: "keeps_ok (\<lambda>p. rbind (Parcel_nativeWriteInt j v p) (\<lambda>(_, p). Inr ((), p)))"
  by (rule keeps_ok_bind [OF WriteInt_ok]) (rule keeps_ok_return)

lemma write_body_ok:
  assumes "length bs \<le> padded" and "parcel_ok p"
  shows "\<exists>p'. write_body j bs padded p = Inr p' \<and> parcel_ok p'"
proof -
  obtain g p1 where g: "muplar_parcel_grow j p (ppos p + padded) = (g, p1)" by fastforce
  have ok1: "parcel_ok p1" using parcel_ok_grow [OF g assms(2)] .
  show ?thesis
  proof (cases g)
    case True
    then have "ppos p + padded \<le> capacity p1" "ppos p1 = ppos p" using grow_eq [OF g] by auto
    then show ?thesis using g True store_at_ok [OF ok1, of "ppos p1" bs "ppos p + padded"] assms(1)
      by (auto simp: write_body_def)
  qed (use g ok1 in \<open>simp add: write_body_def\<close>)
qed

lemma write_string_ok:
  assumes "length bs \<le> padded"
  shows "keeps_ok (\<lambda>p. rbind (Parcel_nativeWriteInt j v p) (\<lambda>(_, p). rbind (write_body j bs padded p) (\<lambda>p. Inr ((), p))))"
  by (rule keeps_ok_bind [OF WriteInt_ok]) (use write_body_ok [OF assms, where j = j] in \<open>fastforce simp: keeps_ok_def\<close>)

lemma length_utf16_bytes [simp]: "length (utf16_bytes s) = 2 * length s"
  by (induction s) (auto simp: utf16_bytes_def)

lemma WriteString8_ok: "keeps_ok (Parcel_nativeWriteString8 j s)"
  unfolding Parcel_nativeWriteString8_def [abs_def]
  by (cases s; cases "get_chars j") (auto simp: Let_def align4_ge intro!: WriteInt_unit_ok write_string_ok)

lemma WriteString16_ok: "keeps_ok (Parcel_nativeWriteString16 j s)"
  unfolding Parcel_nativeWriteString16_def [abs_def]
  by (cases s; cases "get_chars j") (auto simp: Let_def intro!: WriteInt_unit_ok write_string_ok order_trans [OF _ align4_ge])

lemma WriteInterfaceToken_ok: "keeps_ok (Parcel_nativeWriteInterfaceToken j s)"
  unfolding Parcel_nativeWriteInterfaceToken_def [abs_def] by (rule keeps_ok_bind [OF WriteInt_ok]) (rule WriteString16_ok)

lemma WriteStrongBinder_ok: "keeps_ok (Parcel_nativeWriteStrongBinder j b)"
proof (cases b)
  case None
  then show ?thesis unfolding Parcel_nativeWriteStrongBinder_def [abs_def] by (simp add: WriteInt_unit_ok)
next
  case (Some x)
  show ?thesis unfolding keeps_ok_def
  proof (intro allI impI)
    fix p
    assume ok: "parcel_ok p"
    let ?full = "binder_cap p \<le> length (binders p)" and ?cap = "if binder_cap p = 0 then 4 else binder_cap p * 2"
    let ?p1 = "(if ?full then p\<lparr>binder_cap := ?cap\<rparr> else p)\<lparr>binders := binders p @ [x]\<rparr>"
    have "parcel_ok ?p1" using ok by (auto simp: parcel_ok_def)
    from keeps_okD [OF WriteInt_unit_ok this] keeps_okD [OF WriteInt_unit_ok ok]
    show "\<exists>r p'. Parcel_nativeWriteStrongBinder j b p = Inr (r, p') \<and> parcel_ok p'"
      unfolding Parcel_nativeWriteStrongBinder_def Some by (auto simp: Let_def)
  qed
qed

lemma ReadInt_ok: "keeps_ok Parcel_nativeReadInt"
  by (auto simp: keeps_ok_def Parcel_nativeReadInt_def parcel_ok_def peek_def Let_def)

lemma ReadLong_ok: "keeps_ok Parcel_nativeReadLong"
  by (auto simp: keeps_ok_def Parcel_nativeReadLong_def parcel_ok_def peek_def Let_def)

lemma skip_to_ok [simp]: "parcel_ok (skip_to p n) = parcel_ok p"
  by (simp add: skip_to_def parcel_ok_def)

lemma ReadString8_ok: "keeps_ok (Parcel_nativeReadString8 j)"
  unfolding Parcel_nativeReadString8_def [abs_def]
  by (rule keeps_ok_bind [OF ReadInt_ok]) (auto simp: keeps_ok_def Let_def peek_def, auto simp: parcel_ok_def)

lemma ReadString16_ok: "keeps_ok Parcel_nativeReadString16"
  unfolding Parcel_nativeReadString16_def [abs_def]
  by (rule keeps_ok_bind [OF ReadInt_ok]) (auto simp: keeps_ok_def Let_def peek_def, auto simp: parcel_ok_def)

lemma EnforceInterface_ok: "keeps_ok (Parcel_nativeEnforceInterface s)"
  unfolding Parcel_nativeEnforceInterface_def [abs_def]
  by (intro keeps_ok_bind [OF ReadInt_ok] keeps_ok_bind [OF ReadString16_ok] keeps_ok_return)

lemma ReadStrongBinder_ok: "keeps_ok Parcel_nativeReadStrongBinder"
  unfolding Parcel_nativeReadStrongBinder_def [abs_def]
  by (intro keeps_ok_bind [OF ReadInt_ok] keeps_ok_return)

section \<open>Sequences of calls\<close>

datatype parcel_call =
    SetDataCapacity u32 | SetDataPosition u32 | SetDataSize u32 | FreeBuffer
  | EnforceInterface jstring | WriteStrongBinder "jobject option" | ReadStrongBinder
  | WriteInt u32 | WriteLong u64 | WriteFloat u32 | WriteDouble u64
  | WriteString8 jstring | WriteString16 jstring | WriteInterfaceToken jstring
  | ReadInt | ReadLong | ReadFloat | ReadDouble | ReadString8 | ReadString16

definition discard :: "fault + 'r \<times> parcel \<Rightarrow> fault + unit \<times> parcel" where
  "discard x = rbind x (\<lambda>(_, p). Inr ((), p))"

fun exec_parcel :: "jni \<Rightarrow> parcel_call \<Rightarrow> parcel \<Rightarrow> fault + unit \<times> parcel" where
  "exec_parcel j (SetDataCapacity n) = (\<lambda>p. Inr ((), Parcel_nativeSetDataCapacity j n p))"
| "exec_parcel j (SetDataPosition n) = (\<lambda>p. Inr ((), Parcel_nativeSetDataPosition n p))"
| "exec_parcel j (SetDataSize n) = (\<lambda>p. Inr ((), Parcel_nativeSetDataSize j n p))"
| "exec_parcel j FreeBuffer = (\<lambda>p. Inr ((), Parcel_nativeFreeBuffer p))"
| "exec_parcel j (EnforceInterface s) = (\<lambda>p. Parcel_nativeEnforceInterface s p)"
| "exec_parcel j (WriteStrongBinder b) = (\<lambda>p. Parcel_nativeWriteStrongBinder j b p)"
| "exec_parcel j ReadStrongBinder = (\<lambda>p. discard (Parcel_nativeReadStrongBinder p))"
| "exec_parcel j (WriteInt v) = (\<lambda>p. discard (Parcel_nativeWriteInt j v p))"
| "exec_parcel j (WriteLong v) = (\<lambda>p. discard (Parcel_nativeWriteLong j v p))"
| "exec_parcel j (WriteFloat v) = (\<lambda>p. discard (Parcel_nativeWriteFloat j v p))"
| "exec_parcel j (WriteDouble v) = (\<lambda>p. discard (Parcel_nativeWriteDouble j v p))"
| "exec_parcel j (WriteString8 s) = (\<lambda>p. Parcel_nativeWriteString8 j s p)"
| "exec_parcel j (WriteString16 s) = (\<lambda>p. Parcel_nativeWriteString16 j s p)"
| "exec_parcel j (WriteInterfaceToken s) = (\<lambda>p. Parcel_nativeWriteInterfaceToken j s p)"
| "exec_parcel j ReadInt = (\<lambda>p. discard (Parcel_nativeReadInt p))"
| "exec_parcel j ReadLong = (\<lambda>p. discard (Parcel_nativeReadLong p))"
| "exec_parcel j ReadFloat = (\<lambda>p. discard (Parcel_nativeReadFloat p))"
| "exec_parcel j ReadDouble = (\<lambda>p. discard (Parcel_nativeReadDouble p))"
| "exec_parcel j ReadString8 = (\<lambda>p. discard (Parcel_nativeReadString8 j p))"
| "exec_parcel j ReadString16 = (\<lambda>p. discard (Parcel_nativeReadString16 p))"

definition run_parcel :: "jni \<Rightarrow> parcel_call list \<Rightarrow> parcel option \<Rightarrow> fault + parcel option" where
  "run_parcel j cs h = foldM (\<lambda>c h. rbind (with_parcel () (exec_parcel j c) h) (\<lambda>(_, h'). Inr h')) cs h"

lemma keeps_ok_discard: "keeps_ok f \<Longrightarrow> keeps_ok (\<lambda>p. discard (f p))"
  unfolding discard_def by (rule keeps_ok_bind) (auto intro: keeps_ok_return)

lemma SetDataCapacity_ok: "parcel_ok p \<Longrightarrow> parcel_ok (Parcel_nativeSetDataCapacity j n p)"
  using parcel_ok_grow [of j p "unat n"] by (cases "muplar_parcel_grow j p (unat n)") (auto simp: Parcel_nativeSetDataCapacity_def)

lemma SetDataSize_ok:
  assumes "allocates j" and "parcel_ok p"
  shows "parcel_ok (Parcel_nativeSetDataSize j n p)"
proof -
  obtain k where "muplar_parcel_grow j p (unat n) = (True, p\<lparr>pdata := pdata p @ replicate k 0\<rparr>)" "unat n \<le> capacity p + k"
    using grow_allocates [OF assms(1)] .
  then show ?thesis using assms(2) by (auto simp: Parcel_nativeSetDataSize_def parcel_ok_def Let_def)
qed

lemma exec_parcel_ok:
  assumes "\<forall>n. c = SetDataSize n \<longrightarrow> allocates j"
  shows "keeps_ok (exec_parcel j c)"
proof -
  have state: "keeps_ok (\<lambda>p. Inr ((), Parcel_nativeSetDataCapacity j n p))" "keeps_ok (\<lambda>p. Inr ((), Parcel_nativeSetDataPosition n p))"
    "keeps_ok (\<lambda>p. Inr ((), Parcel_nativeFreeBuffer p))" for n
    by (rule keeps_ok_return, rule SetDataCapacity_ok, assumption,
        (rule keeps_ok_return, simp add: Parcel_nativeSetDataPosition_def Parcel_nativeFreeBuffer_def parcel_ok_def)+)
  have float: "keeps_ok (Parcel_nativeWriteFloat j v)" "keeps_ok (Parcel_nativeWriteDouble j w)"
    "keeps_ok Parcel_nativeReadFloat" "keeps_ok Parcel_nativeReadDouble" for v w
    by (simp_all add: Parcel_nativeWriteFloat_def [abs_def] Parcel_nativeWriteDouble_def [abs_def]
        Parcel_nativeReadFloat_def [abs_def] Parcel_nativeReadDouble_def [abs_def] WriteInt_ok WriteLong_ok ReadInt_ok ReadLong_ok)
  have size: "keeps_ok (\<lambda>p. Inr ((), Parcel_nativeSetDataSize j n p))" if "c = SetDataSize n" for n
    using SetDataSize_ok assms that by (auto intro: keeps_ok_return)
  note ok = state float WriteInt_ok WriteLong_ok ReadInt_ok ReadLong_ok WriteString8_ok WriteString16_ok WriteInterfaceToken_ok
    WriteStrongBinder_ok ReadString8_ok ReadString16_ok EnforceInterface_ok ReadStrongBinder_ok
  show ?thesis by (cases c) (auto intro: ok keeps_ok_discard ok [THEN keeps_ok_discard] size)
qed

section \<open>What a write leaves behind\<close>

definition wrote :: "parcel \<Rightarrow> parcel \<Rightarrow> nat \<Rightarrow> bool" where
  "wrote p p' n \<longleftrightarrow> ppos p' = ppos p + n \<and> psize p \<le> psize p' \<and> (0 < n \<longrightarrow> ppos p' \<le> psize p') \<and> psize p' \<le> capacity p' \<and>
     (\<forall>off k. off + k \<le> ppos p \<longrightarrow> off + k \<le> capacity p \<longrightarrow> peek (pdata p') off k = peek (pdata p) off k) \<and>
     capacity p \<le> capacity p' \<and> (\<exists>bs. binders p' = binders p @ bs) \<and> (parcel_ok p \<longrightarrow> parcel_ok p')"

lemma wrote_trans:
  assumes a: "wrote p p1 n" and b: "wrote p1 p2 k" and c: "n + k = l"
  shows "wrote p p2 l"
proof -
  have "peek (pdata p2) off i = peek (pdata p) off i" if "off + i \<le> ppos p" "off + i \<le> capacity p" for off i
    using a b that unfolding wrote_def by fastforce
  moreover have "\<exists>bs. binders p2 = binders p @ bs" using a b by (auto simp: wrote_def)
  ultimately show ?thesis using a b c by (auto simp: wrote_def)
qed

text \<open>Growing and storing at the position.\<close>

lemma put_effect:
  assumes "allocates j" and "parcel_ok p" and "length bs \<le> n"
  obtains p1 p' where "muplar_parcel_grow j p (ppos p + n) = (True, p1)" "ppos p1 = ppos p"
    "store_at p1 (ppos p) bs (ppos p + n) = Inr p'" "wrote p p' n" "peek (pdata p') (ppos p) (length bs) = Inr bs"
    "binders p' = binders p"
proof -
  obtain k where g: "muplar_parcel_grow j p (ppos p + n) = (True, p\<lparr>pdata := pdata p @ replicate k 0\<rparr>)"
    "ppos p + n \<le> capacity p + k"
    using grow_allocates [OF assms(1)] .
  let ?p1 = "p\<lparr>pdata := pdata p @ replicate k 0\<rparr>"
  have "ppos p + length bs \<le> length (pdata ?p1)" using g(2) assms(3) by simp
  then obtain d where d: "poke (pdata ?p1) (ppos p) bs = Inr d" using poke_succeeds_iff by blast
  note len = poke_length [OF d]
  let ?p' = "?p1\<lparr>pdata := d, ppos := ppos p + n, psize := max (psize p) (ppos p + n)\<rparr>"
  have st: "store_at ?p1 (ppos p) bs (ppos p + n) = Inr ?p'"
    using d by (auto simp: store_at_def Let_def max_def)
  have "peek d off i = peek (pdata p) off i" if "off + i \<le> ppos p" "off + i \<le> capacity p" for off i
  proof -
    have "peek d off i = peek (pdata ?p1) off i" using peek_poke_other [OF d] that(1) by blast
    also have "\<dots> = peek (pdata p) off i" using that(2) by (simp add: peek_def)
    finally show ?thesis .
  qed
  then have "wrote p ?p' n"
    using g(2) len assms(2,3) by (auto simp: wrote_def parcel_ok_def)
  moreover have "peek (pdata ?p') (ppos p) (length bs) = Inr bs" using peek_poke_same [OF d] by simp
  ultimately show thesis using that [of ?p1 ?p'] g(1) st by simp
qed

lemma WriteInt_effect:
  assumes "allocates j" and "parcel_ok p" and "4 dvd ppos p"
  shows "\<exists>p'. Parcel_nativeWriteInt j v p = Inr (0, p') \<and> wrote p p' 4 \<and>
     peek (pdata p') (ppos p) 4 = Inr (le_encode 4 v) \<and> binders p' = binders p"
proof -
  obtain p1 p' where "muplar_parcel_grow j p (ppos p + 4) = (True, p1)"
    "store_at p1 (ppos p) (le_encode 4 v) (ppos p + 4) = Inr p'" "wrote p p' 4"
    "peek (pdata p') (ppos p) 4 = Inr (le_encode 4 v)" "binders p' = binders p"
    by (rule put_effect [OF assms(1,2), of "le_encode 4 v" 4]) simp_all
  then show ?thesis using assms(3) by (simp add: Parcel_nativeWriteInt_def)
qed

lemma WriteLong_effect:
  assumes "allocates j" and "parcel_ok p" and "4 dvd ppos p"
  shows "\<exists>p'. Parcel_nativeWriteLong j v p = Inr (0, p') \<and> wrote p p' 8 \<and>
     peek (pdata p') (ppos p) 8 = Inr (le_encode 8 v) \<and> binders p' = binders p"
proof -
  obtain p1 p' where "muplar_parcel_grow j p (ppos p + 8) = (True, p1)"
    "store_at p1 (ppos p) (le_encode 8 v) (ppos p + 8) = Inr p'" "wrote p p' 8"
    "peek (pdata p') (ppos p) 8 = Inr (le_encode 8 v)" "binders p' = binders p"
    by (rule put_effect [OF assms(1,2), of "le_encode 8 v" 8]) simp_all
  then show ?thesis using assms(3) by (simp add: Parcel_nativeWriteLong_def)
qed

lemma write_body_effect:
  assumes "allocates j" and "parcel_ok p" and "length bs \<le> n"
  shows "\<exists>p'. write_body j bs n p = Inr p' \<and> wrote p p' n \<and> peek (pdata p') (ppos p) (length bs) = Inr bs \<and> binders p' = binders p"
proof -
  obtain p1 p' where "muplar_parcel_grow j p (ppos p + n) = (True, p1)" "ppos p1 = ppos p"
    "store_at p1 (ppos p) bs (ppos p + n) = Inr p'" "wrote p p' n" "peek (pdata p') (ppos p) (length bs) = Inr bs"
    "binders p' = binders p" using put_effect [OF assms] .
  then show ?thesis by (auto simp: write_body_def)
qed

lemma peek_prefix:
  assumes "peek d off (length (a @ b)) = Inr (a @ b)"
  shows "peek d off (length a) = Inr a"
proof -
  have le: "off + length (a @ b) \<le> length d" and eq: "take (length (a @ b)) (drop off d) = a @ b"
    using assms by (simp_all add: peek_def split: if_splits)
  have "take (length a) (take (length (a @ b)) (drop off d)) = a" unfolding eq by simp
  then show ?thesis using le by (simp add: peek_def take_take)
qed

text \<open>A length word followed by a padded body.\<close>

lemma write_string_effect:
  assumes "allocates j" and "parcel_ok p" and "4 dvd ppos p" and "length (bs @ z) \<le> n"
  shows "\<exists>p'. rbind (Parcel_nativeWriteInt j v p) (\<lambda>(_, p). rbind (write_body j (bs @ z) n p) (\<lambda>p. Inr ((), p))) = Inr ((), p') \<and>
     wrote p p' (4 + n) \<and> peek (pdata p') (ppos p) 4 = Inr (le_encode 4 v) \<and>
     peek (pdata p') (ppos p + 4) (length bs) = Inr bs \<and> binders p' = binders p"
proof -
  obtain p1 where p1: "Parcel_nativeWriteInt j v p = Inr (0, p1)" "wrote p p1 4"
    "peek (pdata p1) (ppos p) 4 = Inr (le_encode 4 v)" "binders p1 = binders p"
    using WriteInt_effect [OF assms(1-3)] by blast
  have pos: "ppos p1 = ppos p + 4" "parcel_ok p1" using p1(2) assms(2) by (auto simp: wrote_def)
  obtain p2 where p2: "write_body j (bs @ z) n p1 = Inr p2" "wrote p1 p2 n"
    "peek (pdata p2) (ppos p1) (length (bs @ z)) = Inr (bs @ z)" "binders p2 = binders p1"
    using write_body_effect [OF assms(1) pos(2) assms(4)] by blast
  have "peek (pdata p2) (ppos p) 4 = peek (pdata p1) (ppos p) 4"
    using p2(2) pos(1) p1(2) unfolding wrote_def by auto
  then show ?thesis
    using p1 p2 pos peek_prefix [OF p2(3)] wrote_trans [OF p1(2) p2(2) refl] by auto
qed

section \<open>Marshalled values\<close>

datatype pvalue = VInt u32 | VLong u64 | VString8 jstring | VString16 jstring | VBinder "jobject option"
datatype pkind = KInt | KLong | KString8 | KString16 | KBinder

fun kind_of :: "pvalue \<Rightarrow> pkind" where
  "kind_of (VInt _) = KInt"
| "kind_of (VLong _) = KLong"
| "kind_of (VString8 _) = KString8"
| "kind_of (VString16 _) = KString16"
| "kind_of (VBinder _) = KBinder"

fun write_value :: "jni \<Rightarrow> pvalue \<Rightarrow> parcel \<Rightarrow> fault + parcel" where
  "write_value j (VInt v) p = rbind (Parcel_nativeWriteInt j v p) (\<lambda>(_, p). Inr p)"
| "write_value j (VLong v) p = rbind (Parcel_nativeWriteLong j v p) (\<lambda>(_, p). Inr p)"
| "write_value j (VString8 s) p = rbind (Parcel_nativeWriteString8 j s p) (\<lambda>(_, p). Inr p)"
| "write_value j (VString16 s) p = rbind (Parcel_nativeWriteString16 j s p) (\<lambda>(_, p). Inr p)"
| "write_value j (VBinder b) p = rbind (Parcel_nativeWriteStrongBinder j b p) (\<lambda>(_, p). Inr p)"

fun read_value :: "jni \<Rightarrow> pkind \<Rightarrow> parcel \<Rightarrow> fault + pvalue \<times> parcel" where
  "read_value j KInt p = rbind (Parcel_nativeReadInt p) (\<lambda>(v, p). Inr (VInt v, p))"
| "read_value j KLong p = rbind (Parcel_nativeReadLong p) (\<lambda>(v, p). Inr (VLong v, p))"
| "read_value j KString8 p = rbind (Parcel_nativeReadString8 j p) (\<lambda>(s, p). Inr (VString8 s, p))"
| "read_value j KString16 p = rbind (Parcel_nativeReadString16 p) (\<lambda>(s, p). Inr (VString16 s, p))"
| "read_value j KBinder p = rbind (Parcel_nativeReadStrongBinder p) (\<lambda>(b, p). Inr (VBinder b, p))"

fun read_values :: "jni \<Rightarrow> pkind list \<Rightarrow> parcel \<Rightarrow> fault + pvalue list \<times> parcel" where
  "read_values j [] p = Inr ([], p)"
| "read_values j (k # ks) p =
     rbind (read_value j k p) (\<lambda>(v, p). rbind (read_values j ks p) (\<lambda>(vs, p). Inr (v # vs, p)))"

text \<open>Values that fit: lengths are positive ints, and the conversion to UTF-8 can be undone and
  has no zero byte.\<close>

fun value_ok :: "jni \<Rightarrow> pvalue \<Rightarrow> bool" where
  "value_ok j (VString8 (Some s)) \<longleftrightarrow>
     from_utf j (to_utf j s) = s \<and> 0 \<notin> set (to_utf j s) \<and> length (to_utf j s) < 2 ^ 31"
| "value_ok j (VString16 (Some s)) \<longleftrightarrow> length s < 2 ^ 31"
| "value_ok j _ \<longleftrightarrow> True"

fun extent :: "jni \<Rightarrow> pvalue \<Rightarrow> nat" where
  "extent j (VLong _) = 8"
| "extent j (VString8 (Some s)) = 4 + align4 (length (to_utf j s) + 1)"
| "extent j (VString16 (Some s)) = 4 + align4 ((length s + 1) * 2)"
| "extent j _ = 4"

text \<open>The bytes at an offset stand for a value.\<close>

definition int_at :: "parcel \<Rightarrow> nat \<Rightarrow> u32 \<Rightarrow> bool" where
  "int_at p off w \<longleftrightarrow> peek (pdata p) off 4 = Inr (le_encode 4 w)"

fun represents :: "jni \<Rightarrow> parcel \<Rightarrow> nat \<Rightarrow> pvalue \<Rightarrow> bool" where
  "represents j p off (VInt v) \<longleftrightarrow> int_at p off v"
| "represents j p off (VLong v) \<longleftrightarrow> peek (pdata p) off 8 = Inr (le_encode 8 v)"
| "represents j p off (VString8 None) \<longleftrightarrow> int_at p off (- 1)"
| "represents j p off (VString8 (Some s)) \<longleftrightarrow> int_at p off (of_nat (length (to_utf j s))) \<and>
     peek (pdata p) (off + 4) (length (to_utf j s)) = Inr (to_utf j s)"
| "represents j p off (VString16 None) \<longleftrightarrow> int_at p off (- 1)"
| "represents j p off (VString16 (Some s)) \<longleftrightarrow> int_at p off (of_nat (length s)) \<and>
     peek (pdata p) (off + 4) (2 * length s) = Inr (utf16_bytes s)"
| "represents j p off (VBinder None) \<longleftrightarrow> int_at p off (- 1)"
| "represents j p off (VBinder (Some b)) \<longleftrightarrow>
     (\<exists>i < length (binders p). i < 2 ^ 31 \<and> binders p ! i = b \<and> int_at p off (of_nat i))"

lemma extent_dvd: "4 dvd extent j v"
  by (cases "(j, v)" rule: extent.cases) auto

lemma extent_pos: "0 < extent j v"
  by (cases "(j, v)" rule: extent.cases) auto

lemma WriteInt_unit_effect:
  assumes "allocates j" and "parcel_ok p" and "4 dvd ppos p"
  shows "\<exists>p'. rbind (Parcel_nativeWriteInt j v p) (\<lambda>(_, p). Inr ((), p)) = Inr ((), p') \<and> wrote p p' 4 \<and>
     int_at p' (ppos p) v \<and> binders p' = binders p"
  using WriteInt_effect [OF assms, of v] by (auto simp: int_at_def)

lemma write_value_effect:
  assumes "allocates j" and "get_chars j" and "parcel_ok p" and "4 dvd ppos p" and "value_ok j v"
    and "length (binders p) < 2 ^ 31"
  shows "\<exists>p'. write_value j v p = Inr p' \<and> wrote p p' (extent j v) \<and> represents j p' (ppos p) v \<and>
     length (binders p') \<le> Suc (length (binders p))"
proof -
  note w = WriteInt_unit_effect [OF assms(1,3,4)]
  show ?thesis
  proof (cases v)
    case (VInt x)
    then show ?thesis using WriteInt_effect [OF assms(1,3,4), of x] by (auto simp: int_at_def)
  next
    case (VLong x)
    then show ?thesis using WriteLong_effect [OF assms(1,3,4), of x] by auto
  next
    case (VString8 s)
    show ?thesis
    proof (cases s)
      case None
      then show ?thesis using w [of "- 1"] VString8 by (auto simp: Parcel_nativeWriteString8_def)
    next
      case (Some t)
      then show ?thesis
        using write_string_effect [OF assms(1,3,4), of "to_utf j t" "[0]" "align4 (length (to_utf j t) + 1)" "of_nat (length (to_utf j t))"]
          VString8 assms(2) by (auto simp: Parcel_nativeWriteString8_def int_at_def align4_ge Let_def)
    qed
  next
    case (VString16 s)
    show ?thesis
    proof (cases s)
      case None
      then show ?thesis using w [of "- 1"] VString16 by (auto simp: Parcel_nativeWriteString16_def)
    next
      case (Some t)
      have "length (utf16_bytes t @ [0, 0]) \<le> align4 ((length t + 1) * 2)"
        using align4_ge [of "(length t + 1) * 2"] by simp
      then show ?thesis
        using write_string_effect [OF assms(1,3,4), of "utf16_bytes t" "[0, 0]" "align4 ((length t + 1) * 2)" "of_nat (length t)"]
          VString16 Some assms(2) by (auto simp: Parcel_nativeWriteString16_def int_at_def Let_def)
    qed
  next
    case (VBinder b)
    show ?thesis
    proof (cases b)
      case None
      then show ?thesis using w [of "- 1"] VBinder by (auto simp: Parcel_nativeWriteStrongBinder_def)
    next
      case (Some x)
      let ?full = "binder_cap p \<le> length (binders p)" and ?cap = "if binder_cap p = 0 then 4 else binder_cap p * 2"
      let ?p1 = "(if ?full then p\<lparr>binder_cap := ?cap\<rparr> else p)\<lparr>binders := binders p @ [x]\<rparr>"
      have ok: "parcel_ok ?p1" using assms(3) by (auto simp: parcel_ok_def)
      have same: "pdata ?p1 = pdata p" "ppos ?p1 = ppos p" "psize ?p1 = psize p" "binders ?p1 = binders p @ [x]" by simp_all
      obtain p' where p': "rbind (Parcel_nativeWriteInt j (of_nat (length (binders p))) ?p1) (\<lambda>(_, p). Inr ((), p)) = Inr ((), p')"
        "wrote ?p1 p' 4" "int_at p' (ppos ?p1) (of_nat (length (binders p)))" "binders p' = binders ?p1"
        using WriteInt_unit_effect [OF assms(1) ok] assms(4) same(2) by metis
      have "Parcel_nativeWriteStrongBinder j b p = Inr ((), p')"
        using p'(1) assms(1) unfolding Some by (auto simp: Parcel_nativeWriteStrongBinder_def allocates_def Let_def)
      moreover have "wrote p p' 4" using p'(2) ok same by (auto simp: wrote_def)
      moreover have "represents j p' (ppos p) v"
        using p'(3,4) same VBinder Some assms(6) by (auto intro!: exI [of _ "length (binders p)"])
      ultimately show ?thesis using VBinder Some p'(4) same by auto
    qed
  qed
qed

lemma represents_wrote:
  assumes "represents j p off v" and "wrote p p' n" and "off + extent j v \<le> ppos p" and "off + extent j v \<le> capacity p"
  shows "represents j p' off v"
proof -
  have keep: "peek (pdata p') o' k = peek (pdata p) o' k" if "o' + k \<le> off + extent j v" for o' k
    using assms(2-4) that by (auto simp: wrote_def)
  obtain bs where b: "binders p' = binders p @ bs" using assms(2) by (auto simp: wrote_def)
  have a8: "length (to_utf j s) \<le> align4 (length (to_utf j s) + 1)" for s
    using align4_ge [of "length (to_utf j s) + 1"] by simp
  have a16: "2 * length s \<le> align4 ((length s + 1) * 2)" for s :: "u16 list"
    using align4_ge [of "(length s + 1) * 2"] by simp
  show ?thesis
    using assms(1) keep a8 a16
    by (cases "(j, p, off, v)" rule: represents.cases) (auto simp: int_at_def b nth_append add.assoc)
qed

section \<open>Reading\<close>

lemma ReadInt_at:
  assumes "int_at p (ppos p) w" and "4 dvd ppos p" and "ppos p + 4 \<le> psize p"
  shows "Parcel_nativeReadInt p = Inr (w, p\<lparr>ppos := ppos p + 4\<rparr>)"
  using assms by (simp add: Parcel_nativeReadInt_def int_at_def)

lemma utf16_of_bytes [simp]: "utf16_of (utf16_bytes s) = s"
proof (induction s)
  case (Cons a s)
  have "le_encode 2 a = [ucast a, ucast (drop_bit 8 a)]" by (simp add: numeral_2_eq_2)
  moreover have "le_decode (le_encode 2 a) = a" by simp
  ultimately show ?case using Cons by (simp add: utf16_bytes_def)
qed (simp add: utf16_bytes_def)

lemma small_jint:
  assumes "n < 2 ^ 31"
  shows "\<not> (of_nat n :: u32) <s 0" "unat (of_nat n :: u32) = n" "(of_nat n :: u32) = 0 \<longleftrightarrow> n = 0"
proof -
  show u: "unat (of_nat n :: u32) = n" using assms by (simp add: unat_of_nat)
  have n: "- (2 ^ 31) \<le> int n" "int n < 2 ^ 31" using assms by simp_all
  have "sint (of_nat n :: u32) = signed_take_bit 31 (int n)" by (simp add: signed_of_nat)
  also have "\<dots> = int n" using n by (rule signed_take_bit_int_eq_self)
  finally show "\<not> (of_nat n :: u32) <s 0" by (simp add: word_sless_alt)
  show "(of_nat n :: u32) = 0 \<longleftrightarrow> n = 0" using u by auto
qed

lemma skip_to_end: "ppos p + n \<le> psize p \<Longrightarrow> skip_to p n = p\<lparr>ppos := ppos p + n\<rparr>"
  by (simp add: skip_to_def)

lemma read_value_effect:
  assumes "represents j p (ppos p) v" and "value_ok j v" and "allocates j" and "4 dvd ppos p"
    and "ppos p + extent j v \<le> psize p"
  shows "read_value j (kind_of v) p = Inr (v, p\<lparr>ppos := ppos p + extent j v\<rparr>)"
proof -
  note m1 = ReadInt_at [where w = "- 1"]
  have neg: "(- 1 :: u32) <s 0" by (simp add: word_sless_alt)
  show ?thesis
    using assms
  proof (cases "(j, p, ppos p, v)" rule: represents.cases)
    case (4 j' p' off s)
    let ?c = "to_utf j s" and ?n = "length (to_utf j s)"
    have v: "v = VString8 (Some s)" and n: "?n < 2 ^ 31" "from_utf j ?c = s" "0 \<notin> set ?c" using 4 assms(2) by auto
    have ext: "ppos p + 4 + align4 (?n + 1) \<le> psize p" using assms(5) v by simp
    have i: "Parcel_nativeReadInt p = Inr (of_nat ?n, p\<lparr>ppos := ppos p + 4\<rparr>)"
      using assms(1,4) ext v by (intro ReadInt_at) simp_all
    have "?n \<le> align4 (?n + 1)" using align4_ge [of "?n + 1"] by simp
    moreover have tw: "takeWhile (\<lambda>c. c \<noteq> 0) ?c = ?c" using n(3) by (subst takeWhile_eq_all_conv) blast
    have "align4 (?n + 1) = 4" if "?n = 0" using that by (simp add: align4_def)
    ultimately show ?thesis
      using i small_jint [OF n(1)] ext assms(1,3) n(2) v
      by (cases "?n = 0") (auto simp: Parcel_nativeReadString8_def Let_def allocates_def skip_to_end tw)
  next
    case (6 j' p' off s)
    let ?n = "length s"
    have v: "v = VString16 (Some s)" and n: "?n < 2 ^ 31" using 6 assms(2) by auto
    have ext: "ppos p + 4 + align4 ((?n + 1) * 2) \<le> psize p" using assms(5) v by simp
    have i: "Parcel_nativeReadInt p = Inr (of_nat ?n, p\<lparr>ppos := ppos p + 4\<rparr>)"
      using assms(1,4) ext v by (intro ReadInt_at) simp_all
    have "2 * ?n \<le> align4 ((?n + 1) * 2)" using align4_ge [of "(?n + 1) * 2"] by simp
    moreover have "align4 ((?n + 1) * 2) = 4" if "?n = 0" using that by (simp add: align4_def)
    ultimately show ?thesis
      using i small_jint [OF n] ext assms(1) v
      by (cases "?n = 0") (auto simp: Parcel_nativeReadString16_def Let_def skip_to_end mult.commute)
  next
    case (8 j' p' off b)
    then obtain i where i: "i < length (binders p)" "i < 2 ^ 31" "binders p ! i = b" "int_at p (ppos p) (of_nat i)" "v = VBinder (Some b)"
      using assms(1) by auto
    then have "Parcel_nativeReadInt p = Inr (of_nat i, p\<lparr>ppos := ppos p + 4\<rparr>)"
      using assms(4,5) by (intro ReadInt_at) simp_all
    then show ?thesis using i small_jint [OF i(2)] by (simp add: Parcel_nativeReadStrongBinder_def)
  qed (auto simp: ReadInt_at Parcel_nativeReadLong_def m1 neg Parcel_nativeReadString8_def Parcel_nativeReadString16_def
      Parcel_nativeReadStrongBinder_def)
qed

section \<open>Sequences of values\<close>

fun represents_all :: "jni \<Rightarrow> parcel \<Rightarrow> nat \<Rightarrow> pvalue list \<Rightarrow> bool" where
  "represents_all j p off [] \<longleftrightarrow> True"
| "represents_all j p off (v # vs) \<longleftrightarrow> represents j p off v \<and> represents_all j p (off + extent j v) vs"

definition extents :: "jni \<Rightarrow> pvalue list \<Rightarrow> nat" where
  "extents j vs = (\<Sum>v \<leftarrow> vs. extent j v)"

lemma write_values_effect:
  assumes "allocates j" and "get_chars j"
  shows "parcel_ok p \<Longrightarrow> 4 dvd ppos p \<Longrightarrow> \<forall>v \<in> set vs. value_ok j v \<Longrightarrow> length (binders p) + length vs \<le> 2 ^ 31 \<Longrightarrow>
     \<exists>p'. foldM (write_value j) vs p = Inr p' \<and> wrote p p' (extents j vs) \<and> represents_all j p' (ppos p) vs"
proof (induction vs arbitrary: p)
  case Nil
  then show ?case by (auto simp: wrote_def extents_def parcel_ok_def)
next
  case (Cons v vs)
  then obtain p1 where p1: "write_value j v p = Inr p1" "wrote p p1 (extent j v)" "represents j p1 (ppos p) v"
    "length (binders p1) \<le> Suc (length (binders p))"
    using write_value_effect [OF assms Cons.prems(1,2), of v] by auto
  have pos: "ppos p1 = ppos p + extent j v" "parcel_ok p1" "ppos p1 \<le> capacity p1"
    using p1(2) Cons.prems(1) extent_pos [of j v] by (auto simp: wrote_def)
  obtain p2 where p2: "foldM (write_value j) vs p1 = Inr p2" "wrote p1 p2 (extents j vs)" "represents_all j p2 (ppos p1) vs"
    using Cons.IH [of p1] Cons.prems p1(4) pos extent_dvd [of j v] by auto
  have "represents j p2 (ppos p) v" using represents_wrote [OF p1(3) p2(2)] pos by simp
  then show ?case
    using p1(1) p2 pos(1) wrote_trans [OF p1(2) p2(2), of "extents j (v # vs)"] by (auto simp: extents_def)
qed

lemma represents_pos [simp]: "represents j (p\<lparr>ppos := n\<rparr>) off v = represents j p off v"
  by (cases "(j, p, off, v)" rule: represents.cases) (auto simp: int_at_def)

lemma represents_all_pos [simp]: "represents_all j (p\<lparr>ppos := n\<rparr>) off vs = represents_all j p off vs"
  by (induction vs arbitrary: off) auto

lemma read_values_effect:
  assumes "allocates j"
  shows "represents_all j p (ppos p) vs \<Longrightarrow> \<forall>v \<in> set vs. value_ok j v \<Longrightarrow> 4 dvd ppos p \<Longrightarrow>
     vs \<noteq> [] \<longrightarrow> ppos p + extents j vs \<le> psize p \<Longrightarrow>
     read_values j (map kind_of vs) p = Inr (vs, p\<lparr>ppos := ppos p + extents j vs\<rparr>)"
proof (induction vs arbitrary: p)
  case (Cons v vs)
  let ?p1 = "p\<lparr>ppos := ppos p + extent j v\<rparr>"
  have "read_value j (kind_of v) p = Inr (v, ?p1)"
    using Cons.prems assms by (intro read_value_effect) (simp_all add: extents_def)
  moreover have "read_values j (map kind_of vs) ?p1 = Inr (vs, ?p1\<lparr>ppos := ppos ?p1 + extents j vs\<rparr>)"
    using Cons.prems extent_dvd [of j v] by (intro Cons.IH) (simp_all add: extents_def)
  ultimately show ?case by (simp add: extents_def add.assoc)
qed (simp add: extents_def)

section \<open>Properties\<close>

text \<open>C15: values written to a parcel one after another (ints, longs, strings in both encodings,
  binders, null strings and null binders) are read back in the same order from the position at
  which writing began.\<close>

theorem parcel_roundtrip:
  assumes "allocates j" and "get_chars j" and "parcel_ok p" and "4 dvd ppos p" and "ppos p < 2 ^ 31"
    and "\<forall>v \<in> set vs. value_ok j v" and "length (binders p) + length vs \<le> 2 ^ 31"
  shows "\<exists>p1 p2. foldM (write_value j) vs p = Inr p1 \<and>
     read_values j (map kind_of vs) (Parcel_nativeSetDataPosition (of_nat (ppos p)) p1) = Inr (vs, p2) \<and>
     ppos p2 = ppos p1"
proof -
  obtain p1 where p1: "foldM (write_value j) vs p = Inr p1" "wrote p p1 (extents j vs)" "represents_all j p1 (ppos p) vs"
    using write_values_effect [OF assms(1-4,6,7)] by blast
  let ?p2 = "p1\<lparr>ppos := ppos p\<rparr>"
  have set: "Parcel_nativeSetDataPosition (of_nat (ppos p)) p1 = ?p2"
    using small_jint [OF assms(5)] by (simp add: Parcel_nativeSetDataPosition_def)
  have "0 < extents j vs" if "vs \<noteq> []" using that extent_pos by (cases vs) (simp_all add: extents_def)
  then have "read_values j (map kind_of vs) ?p2 = Inr (vs, ?p2\<lparr>ppos := ppos ?p2 + extents j vs\<rparr>)"
    using p1 assms(4,6) by (intro read_values_effect [OF assms(1)]) (auto simp: wrote_def)
  then show ?thesis using p1 set by (auto simp: wrote_def)
qed

text \<open>A VM whose allocations succeed and whose strings are plain ASCII.\<close>

definition demo_jni :: jni where
  "demo_jni = \<lparr>alloc = (\<lambda>_. True), get_chars = True, to_utf = map ucast, from_utf = map ucast\<rparr>"

definition demo_parcel :: parcel where
  "demo_parcel = \<lparr>pdata = [], psize = 0, ppos = 0, binders = [], binder_cap = 0\<rparr>"

definition demo_values :: "pvalue list" where
  "demo_values = [VInt 7, VString16 (Some [104, 105]), VBinder (Some 3), VString8 (Some [97]), VString16 None, VLong (- 2)]"

theorem parcel_roundtrip_witness:
  "\<exists>p1 p2. foldM (write_value demo_jni) demo_values demo_parcel = Inr p1 \<and>
     read_values demo_jni (map kind_of demo_values) (Parcel_nativeSetDataPosition 0 p1) = Inr (demo_values, p2)"
proof -
  have "\<exists>p1 p2. foldM (write_value demo_jni) demo_values demo_parcel = Inr p1 \<and>
     read_values demo_jni (map kind_of demo_values) (Parcel_nativeSetDataPosition (of_nat (ppos demo_parcel)) p1) = Inr (demo_values, p2) \<and>
     ppos p2 = ppos p1"
    by (rule parcel_roundtrip)
      (simp_all add: allocates_def demo_jni_def parcel_ok_def demo_parcel_def demo_values_def)
  then show ?thesis by (auto simp: demo_parcel_def)
qed



text \<open>when growing fails, \<^verbatim>\<open>nativeSetDataSize\<close> sets the size all the same, and a later
  read leaves the buffer.\<close>

theorem SetDataSize_oversize:
  "run_parcel (demo_jni\<lparr>alloc := (\<lambda>n. n \<le> 256)\<rparr>) [SetDataSize 1000, SetDataPosition 600, ReadInt]
     (Parcel_nativeCreate (demo_jni\<lparr>alloc := (\<lambda>n. n \<le> 256)\<rparr>)) = Inl Overrun"
  by code_simp

end
