(* ===== verification/Token_Table.thy ===== *)
theory Token_Table
  imports Shim_Base
begin

text \<open>
  The shim hands out 64-bit tokens for its graphics objects and keeps the objects in fixed
  arrays of slots; a slot whose token is 0 is free. This theory has the search functions that
  all these arrays share, the invariant of such an array, and the interface \<open>token_table\<close>
  that the users of a table rely on.
\<close>

section \<open>Slots\<close>

definition find_slot :: "('a \<Rightarrow> u64) \<Rightarrow> u64 \<Rightarrow> 'a list \<Rightarrow> nat option" where
  "find_slot tok token xs = (if token = 0 then None else first_index (\<lambda>x. tok x = token) xs)"

definition free_slot :: "('a \<Rightarrow> u64) \<Rightarrow> 'a list \<Rightarrow> nat option" where
  "free_slot tok xs = first_index (\<lambda>x. tok x = 0) xs"

definition lookup :: "('a \<Rightarrow> u64) \<Rightarrow> u64 \<Rightarrow> 'a list \<Rightarrow> 'a option" where
  "lookup tok token xs = map_option (\<lambda>i. xs ! i) (find_slot tok token xs)"

text \<open>Changing the object of a token, if there is one.\<close>

definition update :: "('a \<Rightarrow> u64) \<Rightarrow> u64 \<Rightarrow> ('a \<Rightarrow> 'a) \<Rightarrow> 'a list \<Rightarrow> 'a list" where
  "update tok token f xs = (case find_slot tok token xs of None \<Rightarrow> xs | Some i \<Rightarrow> xs[i := f (xs ! i)])"

text \<open>Tokens of used slots are distinct and were handed out already.\<close>

definition table_inv :: "('a \<Rightarrow> u64) \<Rightarrow> u64 \<Rightarrow> 'a list \<Rightarrow> bool" where
  "table_inv tok last_token xs \<longleftrightarrow>
     (\<forall>i < length xs. \<forall>j < length xs. tok (xs ! i) = tok (xs ! j) \<longrightarrow> tok (xs ! i) \<noteq> 0 \<longrightarrow> i = j) \<and>
     (\<forall>x \<in> set xs. tok x \<le> last_token)"

lemma lookup_null [simp]: "lookup tok 0 xs = None"
  by (simp add: lookup_def find_slot_def)

lemma find_slot_Some_iff:
  "table_inv tok n xs \<Longrightarrow> find_slot tok t xs = Some i \<longleftrightarrow> t \<noteq> 0 \<and> i < length xs \<and> tok (xs ! i) = t"
  by (auto simp: find_slot_def first_index_Some table_inv_def)
    (metis less_trans nat_neq_iff)+

lemma find_slot_None_iff: "find_slot tok t xs = None \<longleftrightarrow> t = 0 \<or> (\<forall>x \<in> set xs. tok x \<noteq> t)"
  by (simp add: find_slot_def first_index_None)

lemma first_index_map: "first_index P (map f xs) = first_index (\<lambda>x. P (f x)) xs"
  by (induction xs) simp_all

lemma find_slot_tokens: "map tok xs = map tok ys \<Longrightarrow> find_slot tok t xs = find_slot tok t ys"
  using first_index_map [of "\<lambda>k. k = t" tok xs] first_index_map [of "\<lambda>k. k = t" tok ys] by (simp add: find_slot_def)

lemma free_slot_Some: "free_slot tok xs = Some i \<Longrightarrow> i < length xs \<and> tok (xs ! i) = 0"
  by (simp add: free_slot_def first_index_Some)

lemma lookup_SomeD: "lookup tok t xs = Some x \<Longrightarrow> tok x = t \<and> x \<in> set xs \<and> t \<noteq> 0"
  by (auto simp: lookup_def find_slot_def first_index_Some split: if_splits)

lemma lookup_iff:
  assumes "table_inv tok n xs"
  shows "lookup tok t xs = Some x \<longleftrightarrow> t \<noteq> 0 \<and> (\<exists>i < length xs. xs ! i = x \<and> tok x = t)"
  using find_slot_Some_iff [OF assms, of t] by (auto simp: lookup_def)

lemma table_inv_replicate: "tok z = 0 \<Longrightarrow> table_inv tok n (replicate k z)"
  by (auto simp: table_inv_def)

section \<open>A new object in a free slot\<close>

lemma table_inv_put:
  assumes inv: "table_inv tok n xs" and "i < length xs" and new: "tok x = 0 \<or> n < tok x" and "n \<le> m" and "tok x \<le> m"
  shows "table_inv tok m (xs[i := x])"
proof -
  have old: "tok (xs ! j) \<noteq> tok x \<or> tok x = 0" if "j < length xs" for j
    using inv new that by (auto simp: table_inv_def dest!: nth_mem)
  have "k = j" if "k < length xs" "j < length xs" "tok (xs[i := x] ! k) = tok (xs[i := x] ! j)" "tok (xs[i := x] ! k) \<noteq> 0" for k j
  proof (cases "k = i \<or> j = i")
    case True
    then show ?thesis using that old [of j] old [of k] by (auto simp: nth_list_update split: if_splits)
  next
    case False
    then show ?thesis using that inv by (simp add: table_inv_def)
  qed
  moreover have "tok y \<le> m" if "y \<in> set (xs[i := x])" for y
  proof -
    have "y = x \<or> y \<in> set xs" using that set_update_subset_insert [of xs i x] by auto
    then show ?thesis using inv assms(4,5) unfolding table_inv_def by (metis order.trans)
  qed
  ultimately show ?thesis by (simp add: table_inv_def)
qed

lemma lookup_put:
  assumes "table_inv tok n xs" and "i < length xs" and "tok (xs ! i) = 0" and "n < tok x"
  shows "lookup tok t (xs[i := x]) = (if t = tok x then Some x else lookup tok t xs)"
proof -
  have inv: "table_inv tok (tok x) (xs[i := x])"
    using assms by (intro table_inv_put [where n = n]) auto
  have "tok x \<noteq> 0" using assms(4) by auto
  have new: "lookup tok (tok x) (xs[i := x]) = Some x"
    using assms(2) \<open>tok x \<noteq> 0\<close> by (subst lookup_iff [OF inv]) (auto intro!: exI [of _ i])
  have other: "lookup tok t (xs[i := x]) = Some y \<longleftrightarrow> lookup tok t xs = Some y" if "t \<noteq> tok x" for y
    using that assms(2,3) by (auto simp: lookup_iff [OF inv] lookup_iff [OF assms(1)] nth_list_update)
  show ?thesis
  proof (cases "t = tok x")
    case False
    then show ?thesis using other by (metis option.exhaust)
  qed (simp add: new)
qed

text \<open>A new object in the slot of another one.\<close>

lemma lookup_replace:
  assumes "table_inv tok n xs" and "i < length xs" and "n < tok x"
  shows "lookup tok t (xs[i := x]) = (if t = tok x then Some x else if t = tok (xs ! i) then None else lookup tok t xs)"
proof -
  have inv: "table_inv tok (tok x) (xs[i := x])" using assms by (intro table_inv_put [where n = n]) auto
  have nz: "tok x \<noteq> 0" using assms(3) by auto
  have uniq: "k = i" if "k < length xs" "tok (xs ! k) = tok (xs ! i)" "tok (xs ! i) \<noteq> 0" for k
    using that assms(1,2) by (auto simp: table_inv_def)
  have nth: "xs[i := x] ! k = (if k = i then x else xs ! k)" if "k < length xs" for k using that by simp
  have iff: "lookup tok t (xs[i := x]) = Some y \<longleftrightarrow> t \<noteq> 0 \<and> (\<exists>k < length xs. (if k = i then x else xs ! k) = y \<and> tok y = t)" for y
    unfolding lookup_iff [OF inv] length_list_update using nth by auto
  consider "t = tok x" | "t \<noteq> tok x" "t = tok (xs ! i)" | "t \<noteq> tok x" "t \<noteq> tok (xs ! i)" by blast
  then show ?thesis
  proof cases
    case 1
    have "lookup tok t (xs[i := x]) = Some x" unfolding iff using assms(2) nz 1 by auto
    then show ?thesis using 1 by simp
  next
    case 2
    have False if "lookup tok t (xs[i := x]) = Some y" for y
    proof -
      from that obtain k where k: "t \<noteq> 0" "k < length xs" "(if k = i then x else xs ! k) = y" "tok y = t" unfolding iff by blast
      then have "k \<noteq> i" using 2 by auto
      then show False using uniq [of k] k 2 by auto
    qed
    then show ?thesis using 2 by (cases "lookup tok t (xs[i := x])") auto
  next
    case 3
    have "lookup tok t (xs[i := x]) = Some y \<longleftrightarrow> lookup tok t xs = Some y" for y
      unfolding iff lookup_iff [OF assms(1)] using 3 by auto
    then show ?thesis using 3 by (cases "lookup tok t xs"; cases "lookup tok t (xs[i := x])") auto
  qed
qed

lemma lookup_fresh: "table_inv tok n xs \<Longrightarrow> n < t \<Longrightarrow> lookup tok t xs = None"
  using lookup_SomeD [of tok t xs] by (cases "lookup tok t xs") (force simp: table_inv_def)+

section \<open>Changing and releasing an object\<close>

lemma lookup_update:
  assumes "table_inv tok n xs" and "\<And>x. tok (f x) = tok x"
  shows "lookup tok u (update tok t f xs) = (if u = t then map_option f (lookup tok t xs) else lookup tok u xs)"
proof (cases "find_slot tok t xs")
  case (Some i)
  then have i: "t \<noteq> 0" "i < length xs" "tok (xs ! i) = t" using find_slot_Some_iff [OF assms(1)] by auto
  have toks: "tok (xs[i := f (xs ! i)] ! k) = tok (xs ! k)" if "k < length xs" for k
    using that by (cases "k = i") (simp_all add: assms(2))
  have same: "first_index (\<lambda>x. tok x = v) (xs[i := f (xs ! i)]) = first_index (\<lambda>x. tok x = v) xs" for v
  proof -
    have "first_index (\<lambda>x. tok x = v) (xs[i := f (xs ! i)]) = Some k \<longleftrightarrow> first_index (\<lambda>x. tok x = v) xs = Some k" for k
      using toks by (auto simp: first_index_Some)
    then show ?thesis by (metis option.exhaust)
  qed
  show ?thesis
  proof (cases "u = t")
    case True
    then show ?thesis using Some i same by (simp add: update_def lookup_def find_slot_def)
  next
    case False
    then have "k \<noteq> i" if "find_slot tok u xs = Some k" for k using that i find_slot_Some_iff [OF assms(1)] by auto
    then show ?thesis using False Some same
      by (cases "find_slot tok u xs") (auto simp: update_def lookup_def find_slot_def split: if_splits)
  qed
qed (auto simp: update_def lookup_def)

lemma table_inv_update:
  assumes "table_inv tok n xs" and "\<And>x. tok (f x) = tok x"
  shows "table_inv tok n (update tok t f xs)"
proof (cases "find_slot tok t xs")
  case (Some i)
  have toks: "tok (xs[i := f (xs ! i)] ! k) = tok (xs ! k)" if "k < length xs" for k
    using that by (cases "k = i") (simp_all add: assms(2))
  moreover have "tok y \<le> n" if "y \<in> set (xs[i := f (xs ! i)])" for y
  proof -
    obtain k where "k < length xs" "y = xs[i := f (xs ! i)] ! k" using \<open>y \<in> _\<close> by (auto simp: in_set_conv_nth)
    then show ?thesis using toks [of k] assms(1) by (simp add: table_inv_def)
  qed
  ultimately show ?thesis using assms(1) Some by (simp add: update_def table_inv_def)
qed (use assms(1) in \<open>simp add: update_def\<close>)

lemma length_update [simp]: "length (update tok t f xs) = length xs"
  by (simp add: update_def split: option.split)

lemma lookup_release:
  assumes "table_inv tok n xs" and "\<And>x. tok (z x) = 0"
  shows "lookup tok u (update tok t z xs) = (if u = t then None else lookup tok u xs)"
    "table_inv tok n (update tok t z xs)"
proof -
  show inv: "table_inv tok n (update tok t z xs)"
  proof (cases "find_slot tok t xs")
    case (Some i)
    then have "i < length xs" using find_slot_Some_iff [OF assms(1)] by auto
    then show ?thesis unfolding update_def Some option.case
      by (rule table_inv_put [OF assms(1)]) (simp_all add: assms(2))
  qed (use assms(1) in \<open>simp add: update_def\<close>)
  show "lookup tok u (update tok t z xs) = (if u = t then None else lookup tok u xs)"
  proof (cases "find_slot tok t xs")
    case None
    then show ?thesis by (auto simp: update_def lookup_def)
  next
    case (Some i)
    then have i: "t \<noteq> 0" "i < length xs" "tok (xs ! i) = t" using find_slot_Some_iff [OF assms(1)] by auto
    have "lookup tok u (xs[i := z (xs ! i)]) = Some y \<longleftrightarrow> u \<noteq> t \<and> lookup tok u xs = Some y" for y
    proof -
      have inv': "table_inv tok n (xs[i := z (xs ! i)])" using inv Some by (simp add: update_def)
      have uniq: "k = i" if "k < length xs" "tok (xs ! k) = t" for k using that i assms(1) by (auto simp: table_inv_def)
      show ?thesis unfolding lookup_iff [OF assms(1)] lookup_iff [OF inv']
      proof
        assume "u \<noteq> 0 \<and> (\<exists>k < length (xs[i := z (xs ! i)]). xs[i := z (xs ! i)] ! k = y \<and> tok y = u)"
        then obtain k where k: "u \<noteq> 0" "k < length xs" "xs[i := z (xs ! i)] ! k = y" "tok y = u" by auto
        then have "k \<noteq> i" using assms(2) by auto
        then show "u \<noteq> t \<and> u \<noteq> 0 \<and> (\<exists>k < length xs. xs ! k = y \<and> tok y = u)" using k uniq [of k] by auto
      next
        assume "u \<noteq> t \<and> u \<noteq> 0 \<and> (\<exists>k < length xs. xs ! k = y \<and> tok y = u)"
        then obtain k where k: "u \<noteq> t" "u \<noteq> 0" "k < length xs" "xs ! k = y" "tok y = u" by auto
        then have "k \<noteq> i" using i(3) by auto
        then show "u \<noteq> 0 \<and> (\<exists>k < length (xs[i := z (xs ! i)]). xs[i := z (xs ! i)] ! k = y \<and> tok y = u)"
          using k by (intro conjI exI [of _ k]) auto
      qed
    qed
    then show ?thesis using Some by (cases "u = t"; cases "lookup tok u xs") (auto simp: update_def)
  qed
qed

section \<open>A table as a map\<close>

text \<open>Changing the value of a key that a map has.\<close>

definition upd :: "'k \<Rightarrow> ('v \<Rightarrow> 'v) \<Rightarrow> ('k \<rightharpoonup> 'v) \<Rightarrow> 'k \<rightharpoonup> 'v" where
  "upd k f m = (case m k of None \<Rightarrow> m | Some v \<Rightarrow> m(k \<mapsto> f v))"

lemma upd_apply: "upd k f m u = (if u = k then map_option f (m k) else m u)"
  by (simp add: upd_def split: option.split)

lemma map_of_update:
  "table_inv tok n xs \<Longrightarrow> (\<And>x. tok (f x) = tok x) \<Longrightarrow>
     (\<lambda>u. lookup tok u (update tok t f xs)) = upd t f (\<lambda>u. lookup tok u xs)"
  by (rule ext) (simp add: lookup_update upd_apply)

lemma map_of_put:
  "table_inv tok n xs \<Longrightarrow> i < length xs \<Longrightarrow> tok (xs ! i) = 0 \<Longrightarrow> n < tok x \<Longrightarrow>
     (\<lambda>u. lookup tok u (xs[i := x])) = (\<lambda>u. lookup tok u xs)(tok x \<mapsto> x)"
  by (rule ext) (simp add: lookup_put)

lemma map_of_release:
  "table_inv tok n xs \<Longrightarrow> (\<And>x. tok (z x) = 0) \<Longrightarrow>
     (\<lambda>u. lookup tok u (update tok t z xs)) = (\<lambda>u. lookup tok u xs)(t := None)"
  by (rule ext) (simp add: lookup_release(1))

lemma dom_lookup: "table_inv tok n xs \<Longrightarrow> dom (\<lambda>t. lookup tok t xs) = (\<lambda>i. tok (xs ! i)) ` {i. i < length xs \<and> tok (xs ! i) \<noteq> 0}"
  by (auto simp: dom_def lookup_iff)

lemma card_dom_lookup: "table_inv tok n xs \<Longrightarrow> card (dom (\<lambda>t. lookup tok t xs)) = card {i. i < length xs \<and> tok (xs ! i) \<noteq> 0}"
  unfolding dom_lookup by (rule card_image) (auto simp: inj_on_def table_inv_def)

text \<open>There is a free slot exactly when fewer objects are registered than there are slots.\<close>

lemma free_slot_iff:
  assumes "table_inv tok n xs"
  shows "free_slot tok xs \<noteq> None \<longleftrightarrow> card (dom (\<lambda>t. lookup tok t xs)) < length xs"
proof -
  define U where "U = {i. i < length xs \<and> tok (xs ! i) \<noteq> 0}"
  have sub: "U \<subseteq> {..<length xs}" by (auto simp: U_def)
  have card: "card (dom (\<lambda>t. lookup tok t xs)) = card U" unfolding U_def by (rule card_dom_lookup [OF assms])
  have none: "free_slot tok xs = None \<longleftrightarrow> (\<forall>i < length xs. tok (xs ! i) \<noteq> 0)"
    by (simp add: free_slot_def first_index_None all_set_conv_all_nth)
  show ?thesis
  proof (cases "U = {..<length xs}")
    case True
    then have "free_slot tok xs = None" unfolding none by (auto simp: U_def)
    then show ?thesis using card True by simp
  next
    case False
    then have "free_slot tok xs \<noteq> None" unfolding none using sub by (auto simp: U_def)
    moreover have "card U < card {..<length xs}" using False sub by (intro psubset_card_mono) auto
    ultimately show ?thesis using card by simp
  qed
qed

section \<open>The interface\<close>

text \<open>
  What a user of a table relies on: a new object is found under the token returned for it, the
  token was not in use, and no other object changes. \<open>tokens_left\<close> counts the tokens that
  can still be handed out before the 64-bit counter wraps around.
\<close>

locale token_table =
  fixes fetch :: "'s \<Rightarrow> u64 \<Rightarrow> 'a option"
    and create :: "'p \<Rightarrow> 's \<Rightarrow> u64 option \<times> 's"
    and content :: "u64 \<Rightarrow> 'p \<Rightarrow> 'a"
    and valid :: "'s \<Rightarrow> bool"
    and tokens_left :: "'s \<Rightarrow> nat"
  assumes fetch_null: "fetch s 0 = None"
    and create_fetch: "valid s \<Longrightarrow> 0 < tokens_left s \<Longrightarrow> create p s = (Some t, s') \<Longrightarrow> fetch s' t = Some (content t p)"
    and create_fresh: "valid s \<Longrightarrow> 0 < tokens_left s \<Longrightarrow> create p s = (Some t, s') \<Longrightarrow> fetch s t = None"
    and create_other: "valid s \<Longrightarrow> 0 < tokens_left s \<Longrightarrow> create p s = (r, s') \<Longrightarrow> r \<noteq> Some u \<Longrightarrow> fetch s' u = fetch s u"
    and create_valid: "valid s \<Longrightarrow> 0 < tokens_left s \<Longrightarrow> create p s = (r, s') \<Longrightarrow> valid s'"
    and create_left: "create p s = (r, s') \<Longrightarrow> tokens_left s \<le> Suc (tokens_left s')"
begin

text \<open>Creating a list of objects one after another.\<close>

fun create_all :: "'p list \<Rightarrow> 's \<Rightarrow> u64 option list \<times> 's" where
  "create_all [] s = ([], s)"
| "create_all (p # ps) s = (case create p s of (r, s') \<Rightarrow> case create_all ps s' of (rs, s'') \<Rightarrow> (r # rs, s''))"

lemma create_all_keeps:
  "valid s \<Longrightarrow> length ps \<le> tokens_left s \<Longrightarrow> create_all ps s = (rs, s') \<Longrightarrow>
     fetch s t \<noteq> None \<Longrightarrow> fetch s' t = fetch s t \<and> Some t \<notin> set rs"
proof (induction ps arbitrary: s rs)
  case (Cons p ps)
  then obtain r s1 rs1 where c: "create p s = (r, s1)" "create_all ps s1 = (rs1, s')" "rs = r # rs1"
    by (auto split: prod.splits)
  have left: "0 < tokens_left s" "length ps \<le> tokens_left s1" using Cons.prems(2) create_left [OF c(1)] by auto
  have r: "r \<noteq> Some t" using create_fresh [OF Cons.prems(1) left(1), of p t s1] c(1) Cons.prems(4) by auto
  then have "fetch s1 t = fetch s t" using create_other [OF Cons.prems(1) left(1) c(1)] by simp
  then show ?case
    using Cons.IH [OF create_valid [OF Cons.prems(1) left(1) c(1)] left(2) c(2)] Cons.prems(4) r c(3) by auto
qed simp

text \<open>The tokens are different, and at the end each is the token of its object.\<close>

lemma create_all_found:
  "valid s \<Longrightarrow> length ps \<le> tokens_left s \<Longrightarrow> create_all ps s = (rs, s') \<Longrightarrow>
     list_all2 (\<lambda>p r. \<forall>t. r = Some t \<longrightarrow> fetch s' t = Some (content t p)) ps rs \<and>
     distinct (filter (\<lambda>r. r \<noteq> None) rs)"
proof (induction ps arbitrary: s rs)
  case (Cons p ps)
  then obtain r s1 rs1 where c: "create p s = (r, s1)" "create_all ps s1 = (rs1, s')" "rs = r # rs1"
    by (auto split: prod.splits)
  have left: "0 < tokens_left s" "length ps \<le> tokens_left s1" using Cons.prems(2) create_left [OF c(1)] by auto
  have v1: "valid s1" using create_valid [OF Cons.prems(1) left(1) c(1)] .
  have "fetch s' t = Some (content t p) \<and> Some t \<notin> set rs1" if "r = Some t" for t
    using create_all_keeps [OF v1 left(2) c(2), of t] create_fetch [OF Cons.prems(1) left(1), of p t s1] c(1) that by auto
  then show ?case using Cons.IH [OF v1 left(2) c(2)] c(3) by (cases r) auto
qed simp

end

text \<open>A table whose objects can be released again.\<close>

locale releasing_table = token_table fetch create content valid tokens_left
  for fetch :: "'s \<Rightarrow> u64 \<Rightarrow> 'a option" and create :: "'p \<Rightarrow> 's \<Rightarrow> u64 option \<times> 's"
    and content :: "u64 \<Rightarrow> 'p \<Rightarrow> 'a" and valid :: "'s \<Rightarrow> bool" and tokens_left :: "'s \<Rightarrow> nat" +
  fixes release :: "u64 \<Rightarrow> 's \<Rightarrow> 's"
  assumes release_fetch: "valid s \<Longrightarrow> fetch (release t s) u = (if u = t then None else fetch s u)"
    and release_valid: "valid s \<Longrightarrow> valid (release t s)"
    and release_left: "tokens_left (release t s) = tokens_left s"
begin

text \<open>Creating an object and releasing it leaves every object as it was.\<close>

lemma create_release:
  "valid s \<Longrightarrow> 0 < tokens_left s \<Longrightarrow> create p s = (Some t, s') \<Longrightarrow> fetch (release t s') = fetch s"
proof (rule ext)
  fix u
  assume "valid s" "0 < tokens_left s" "create p s = (Some t, s')"
  then show "fetch (release t s') u = fetch s u"
    using create_valid [of s p "Some t" s'] release_fetch [of s' t u] create_other [of s p "Some t" s' u] create_fresh [of s p t s']
    by auto
qed

end

text \<open>The counter of a table: 0x100 per token.\<close>

definition left_of :: "u64 \<Rightarrow> nat" where
  "left_of last_token = (2 ^ 64 - 1 - unat last_token) div 256"

lemma left_of_step:
  assumes "0 < left_of n"
  shows "n < n + 0x100" "left_of n = Suc (left_of (n + 0x100))"
proof -
  have lt: "unat n + 256 < 2 ^ 64" using assms unfolding left_of_def by (simp add: div_greater_zero_iff)
  then have u: "unat (n + 0x100) = unat n + 256" by (subst unat_add_lem [THEN iffD1]) simp_all
  then show "n < n + 0x100" by (simp add: word_less_nat_alt)
  have "2 ^ 64 - 1 - unat n = (2 ^ 64 - 1 - unat (n + 0x100)) + 256" using lt u by simp
  then show "left_of n = Suc (left_of (n + 0x100))" unfolding left_of_def by simp
qed

lemma left_of_step_le: "left_of n \<le> Suc (left_of (n + 0x100))"
  using left_of_step(2) [of n] by (cases "left_of n = 0") auto

end
