(* ===== verification/Gfx_Tables.thy ===== *)
theory Gfx_Tables
  imports Token_Table
begin

text \<open>
  The graphics objects of the ART shim and the tables that hold them: bitmaps, canvases, paints,
  colour filters and shaders, with the functions that find, allocate and release them.

  Fields of type \<^verbatim>\<open>jfloat\<close> are binary32 bit patterns. A pixel array is the list of its
  32-bit values, \<open>None\<close> for a null pointer. A released slot keeps the other fields of the
  object that was in it, as in the code, except for bitmaps, whose slot is zeroed. The functions
  return the slot number where the code returns a pointer to the slot.
\<close>

section \<open>State\<close>

type_synonym jint = u32
type_synonym jlong = u64
type_synonym jfloat = u32

record bitmap_state =
  b_token :: jlong
  b_width :: jint
  b_height :: jint
  bytes_per_pixel :: jint
  b_config :: jint
  pixels :: "u32 list option"

record canvas_stack_entry =
  e_tx :: jfloat
  e_ty :: jfloat
  e_sx :: jfloat
  e_sy :: jfloat
  e_clip_left :: int
  e_clip_top :: int
  e_clip_right :: int
  e_clip_bottom :: int

record canvas_state =
  c_token :: jlong
  bitmap_token :: jlong
  tx :: jfloat
  ty :: jfloat
  sx :: jfloat
  sy :: jfloat
  clip_left :: int
  clip_top :: int
  clip_right :: int
  clip_bottom :: int
  stack :: "canvas_stack_entry list" \<comment> \<open>the first \<^verbatim>\<open>stack_depth\<close> entries, oldest first\<close>

record filter_state =
  f_token :: jlong
  f_color :: jint
  f_mode :: jint

record paint_state =
  p_token :: jlong
  p_color :: jint
  color_filter :: jlong
  mask_filter :: jlong
  p_shader :: jlong
  text_size :: jfloat
  stroke_width :: jfloat
  stroke_miter :: jfloat
  p_style :: jint
  stroke_cap :: jint
  stroke_join :: jint

record shader_state =
  s_token :: jlong
  s_bitmap :: jlong

record gfx =
  bitmaps :: "bitmap_state list"
  canvases :: "canvas_state list"
  paints :: "paint_state list"
  filters :: "filter_state list"
  shaders :: "shader_state list"
  next_bitmap_token :: u64
  next_canvas_token :: u64
  next_paint_token :: u64
  next_filter_token :: u64
  next_shader_token :: u64
  next_mask_filter_token :: u64
  next_path_effect_token :: u64
  wrap_idx :: nat

text \<open>The bit patterns of \<^verbatim>\<open>1.0f\<close>, \<^verbatim>\<open>4.0f\<close> and \<^verbatim>\<open>16.0f\<close>.\<close>

abbreviation f1 :: jfloat where "f1 \<equiv> 0x3f800000"
abbreviation f4 :: jfloat where "f4 \<equiv> 0x40800000"
abbreviation f16 :: jfloat where "f16 \<equiv> 0x41800000"

section \<open>Zeroed slots and the initial state\<close>

definition zero_bitmap :: bitmap_state where
  "zero_bitmap = \<lparr>b_token = 0, b_width = 0, b_height = 0, bytes_per_pixel = 0, b_config = 0, pixels = None\<rparr>"

definition zero_canvas :: canvas_state where
  "zero_canvas = \<lparr>c_token = 0, bitmap_token = 0, tx = 0, ty = 0, sx = 0, sy = 0,
     clip_left = 0, clip_top = 0, clip_right = 0, clip_bottom = 0, stack = []\<rparr>"

definition zero_paint :: paint_state where
  "zero_paint = \<lparr>p_token = 0, p_color = 0, color_filter = 0, mask_filter = 0, p_shader = 0, text_size = 0,
     stroke_width = 0, stroke_miter = 0, p_style = 0, stroke_cap = 0, stroke_join = 0\<rparr>"

definition zero_filter :: filter_state where
  "zero_filter = \<lparr>f_token = 0, f_color = 0, f_mode = 0\<rparr>"

definition zero_shader :: shader_state where
  "zero_shader = \<lparr>s_token = 0, s_bitmap = 0\<rparr>"

text \<open>The static tables, with the number of slots of each as a parameter.\<close>

definition tables :: "nat \<Rightarrow> nat \<Rightarrow> nat \<Rightarrow> nat \<Rightarrow> nat \<Rightarrow> gfx" where
  "tables nb nc np nf ns =
     \<lparr>bitmaps = replicate nb zero_bitmap, canvases = replicate nc zero_canvas, paints = replicate np zero_paint,
      filters = replicate nf zero_filter, shaders = replicate ns zero_shader,
      next_bitmap_token = 0x40000000, next_canvas_token = 0x24000, next_paint_token = 0x1e000,
      next_filter_token = 0x30000, next_shader_token = 0x20000, next_mask_filter_token = 0x34000,
      next_path_effect_token = 0x38000, wrap_idx = 0\<rparr>"

definition initial_gfx :: gfx where
  "initial_gfx = tables 2048 512 8192 512 512"

section \<open>Finding\<close>

definition muplar_find_bitmap :: "jlong \<Rightarrow> gfx \<Rightarrow> nat option" where
  "muplar_find_bitmap token g = find_slot b_token token (bitmaps g)"

definition muplar_find_canvas :: "jlong \<Rightarrow> gfx \<Rightarrow> nat option" where
  "muplar_find_canvas token g = find_slot c_token token (canvases g)"

definition muplar_find_paint :: "jlong \<Rightarrow> gfx \<Rightarrow> nat option" where
  "muplar_find_paint token g = find_slot p_token token (paints g)"

definition muplar_find_filter :: "jlong \<Rightarrow> gfx \<Rightarrow> nat option" where
  "muplar_find_filter token g = find_slot f_token token (filters g)"

definition muplar_find_shader :: "jlong \<Rightarrow> gfx \<Rightarrow> nat option" where
  "muplar_find_shader token g = find_slot s_token token (shaders g)"

text \<open>The objects that the functions above find.\<close>

abbreviation bitmap_of :: "gfx \<Rightarrow> jlong \<Rightarrow> bitmap_state option" where
  "bitmap_of g t \<equiv> lookup b_token t (bitmaps g)"
abbreviation canvas_of :: "gfx \<Rightarrow> jlong \<Rightarrow> canvas_state option" where
  "canvas_of g t \<equiv> lookup c_token t (canvases g)"
abbreviation paint_of :: "gfx \<Rightarrow> jlong \<Rightarrow> paint_state option" where
  "paint_of g t \<equiv> lookup p_token t (paints g)"
abbreviation filter_of :: "gfx \<Rightarrow> jlong \<Rightarrow> filter_state option" where
  "filter_of g t \<equiv> lookup f_token t (filters g)"
abbreviation shader_of :: "gfx \<Rightarrow> jlong \<Rightarrow> shader_state option" where
  "shader_of g t \<equiv> lookup s_token t (shaders g)"

section \<open>Bitmaps\<close>

text \<open>The parameter \<open>al\<close> says whether an allocation of so many bytes succeeds.\<close>

definition new_bitmap :: "jlong \<Rightarrow> jint \<times> jint \<Rightarrow> bitmap_state" where
  "new_bitmap t wh =
     (let w = (if fst wh \<le>s 0 then 1 else fst wh); h = (if snd wh \<le>s 0 then 1 else snd wh) in
      \<lparr>b_token = t, b_width = w, b_height = h, bytes_per_pixel = 4, b_config = 5,
       pixels = Some (replicate (unat w * unat h) 0)\<rparr>)"

definition muplar_alloc_bitmap :: "(nat \<Rightarrow> bool) \<Rightarrow> jint \<times> jint \<Rightarrow> gfx \<Rightarrow> nat option \<times> gfx" where
  "muplar_alloc_bitmap al wh g =
     (let w = (if fst wh \<le>s 0 then 1 else fst wh); h = (if snd wh \<le>s 0 then 1 else snd wh);
          count = unat w * unat h in
      case free_slot b_token (bitmaps g) of
        None \<Rightarrow> (None, g)
      | Some i \<Rightarrow>
          if \<not> al (4 * count) then (None, g\<lparr>bitmaps := (bitmaps g)[i := (bitmaps g ! i)\<lparr>pixels := None\<rparr>]\<rparr>)
          else
            let t = next_bitmap_token g + 0x100 in
            (Some i, g\<lparr>next_bitmap_token := t, bitmaps := (bitmaps g)[i := new_bitmap t (w, h)]\<rparr>))"

definition muplar_release_bitmap :: "jlong \<Rightarrow> gfx \<Rightarrow> gfx" where
  "muplar_release_bitmap token g =
     (case muplar_find_bitmap token g of None \<Rightarrow> g
      | Some i \<Rightarrow> g\<lparr>bitmaps := (bitmaps g)[i := zero_bitmap]\<rparr>)"

section \<open>Canvases\<close>

definition muplar_canvas_reset :: "bitmap_state option \<Rightarrow> canvas_state \<Rightarrow> canvas_state" where
  "muplar_canvas_reset bitmap c =
     c\<lparr>tx := 0, ty := 0, sx := f1, sy := f1, clip_left := 0, clip_top := 0,
       clip_right := (case bitmap of None \<Rightarrow> 1080 | Some b \<Rightarrow> sint (b_width b)),
       clip_bottom := (case bitmap of None \<Rightarrow> 1920 | Some b \<Rightarrow> sint (b_height b)), stack := []\<rparr>"

definition muplar_adopt_canvas :: "jlong \<Rightarrow> jlong \<Rightarrow> gfx \<Rightarrow> nat option \<times> gfx" where
  "muplar_adopt_canvas token bmp g =
     (if token = 0 then (None, g)
      else case muplar_find_canvas token g of
        Some i \<Rightarrow> (Some i, g)
      | None \<Rightarrow>
          case free_slot c_token (canvases g) of
            None \<Rightarrow> (None, g)
          | Some i \<Rightarrow>
              (Some i, g\<lparr>canvases := (canvases g)[i :=
                muplar_canvas_reset (bitmap_of g bmp) ((canvases g ! i)\<lparr>c_token := token, bitmap_token := bmp\<rparr>)]\<rparr>))"

definition muplar_canvas_for_drawing :: "jlong \<Rightarrow> gfx \<Rightarrow> nat option" where
  "muplar_canvas_for_drawing token g = muplar_find_canvas token g"

definition muplar_alloc_canvas :: "jlong \<Rightarrow> gfx \<Rightarrow> nat \<times> gfx" where
  "muplar_alloc_canvas bmp g =
     (let t = next_canvas_token g + 0x100;
          (idx, w) = (case free_slot c_token (canvases g) of
             Some i \<Rightarrow> (i, wrap_idx g)
           | None \<Rightarrow> (wrap_idx g mod length (canvases g), wrap_idx g + 1)) in
      (idx, g\<lparr>next_canvas_token := t, wrap_idx := w,
        canvases := (canvases g)[idx :=
          muplar_canvas_reset (bitmap_of g bmp) ((canvases g ! idx)\<lparr>c_token := t, bitmap_token := bmp\<rparr>)]\<rparr>))"

definition muplar_canvas_bitmap :: "jlong \<Rightarrow> gfx \<Rightarrow> nat option" where
  "muplar_canvas_bitmap token g =
     (case muplar_canvas_for_drawing token g of None \<Rightarrow> None
      | Some i \<Rightarrow> muplar_find_bitmap (bitmap_token (canvases g ! i)) g)"

section \<open>Paints and colour filters\<close>

definition new_filter :: "jlong \<Rightarrow> jint \<times> jint \<Rightarrow> filter_state" where
  "new_filter t cm = \<lparr>f_token = t, f_color = fst cm, f_mode = snd cm\<rparr>"

definition muplar_alloc_filter :: "jint \<times> jint \<Rightarrow> gfx \<Rightarrow> nat option \<times> gfx" where
  "muplar_alloc_filter cm g =
     (case free_slot f_token (filters g) of
        None \<Rightarrow> (None, g)
      | Some i \<Rightarrow>
          let t = next_filter_token g + 0x100 in
          (Some i, g\<lparr>next_filter_token := t, filters := (filters g)[i := new_filter t cm]\<rparr>))"

definition new_paint :: "jlong \<Rightarrow> jint \<Rightarrow> paint_state" where
  "new_paint t color = \<lparr>p_token = t, p_color = color, color_filter = 0, mask_filter = 0, p_shader = 0, text_size = 0,
     stroke_width = 0, stroke_miter = f4, p_style = 0, stroke_cap = 0, stroke_join = 0\<rparr>"

definition muplar_alloc_paint :: "jint \<Rightarrow> gfx \<Rightarrow> nat option \<times> gfx" where
  "muplar_alloc_paint color g =
     (case free_slot p_token (paints g) of
        None \<Rightarrow> (None, g)
      | Some i \<Rightarrow>
          let t = next_paint_token g + 0x100 in
          (Some i, g\<lparr>next_paint_token := t, paints := (paints g)[i := new_paint t color]\<rparr>))"

definition muplar_paint_color :: "jlong \<Rightarrow> u32 \<Rightarrow> gfx \<Rightarrow> u32" where
  "muplar_paint_color token fallback g =
     (case paint_of g token of None \<Rightarrow> fallback
      | Some paint \<Rightarrow>
          if color_filter paint \<noteq> 0 then
            (case filter_of g (color_filter paint) of
               Some f \<Rightarrow>
                 if f_color f \<noteq> 0 then
                   let fc = f_color f; pa = alpha_of (p_color paint) in
                   if pa \<noteq> 0 \<and> pa \<noteq> 255 then
                     let fa = alpha_of fc; combined_a = (fa * pa) div 255 in
                     (fc AND 0x00ffffff) OR push_bit 24 combined_a
                   else fc
                 else p_color paint
             | None \<Rightarrow> p_color paint)
          else p_color paint)"

section \<open>The tables implement the interface\<close>

definition paints_ok :: "gfx \<Rightarrow> bool" where
  "paints_ok g = table_inv p_token (next_paint_token g) (paints g)"

definition filters_ok :: "gfx \<Rightarrow> bool" where
  "filters_ok g = table_inv f_token (next_filter_token g) (filters g)"

definition bitmaps_ok :: "gfx \<Rightarrow> bool" where
  "bitmaps_ok g = table_inv b_token (next_bitmap_token g) (bitmaps g)"

lemma tables_ok: "paints_ok (tables nb nc np nf ns)" "filters_ok (tables nb nc np nf ns)" "bitmaps_ok (tables nb nc np nf ns)"
  by (simp_all add: paints_ok_def filters_ok_def bitmaps_ok_def tables_def zero_paint_def zero_filter_def zero_bitmap_def
      table_inv_replicate)

text \<open>The token of the object that an allocation returns.\<close>

definition paint_create :: "jint \<Rightarrow> gfx \<Rightarrow> jlong option \<times> gfx" where
  "paint_create color g = (case muplar_alloc_paint color g of (r, g') \<Rightarrow> (map_option (\<lambda>i. p_token (paints g' ! i)) r, g'))"

definition filter_create :: "jint \<times> jint \<Rightarrow> gfx \<Rightarrow> jlong option \<times> gfx" where
  "filter_create cm g = (case muplar_alloc_filter cm g of (r, g') \<Rightarrow> (map_option (\<lambda>i. f_token (filters g' ! i)) r, g'))"

definition bitmap_create :: "(nat \<Rightarrow> bool) \<Rightarrow> jint \<times> jint \<Rightarrow> gfx \<Rightarrow> jlong option \<times> gfx" where
  "bitmap_create al wh g = (case muplar_alloc_bitmap al wh g of (r, g') \<Rightarrow> (map_option (\<lambda>i. b_token (bitmaps g' ! i)) r, g'))"

lemma token_new [simp]: "p_token (new_paint t c) = t" "f_token (new_filter t cm) = t" "b_token (new_bitmap t wh) = t"
  by (simp_all add: new_paint_def new_filter_def new_bitmap_def Let_def)

lemma new_bitmap_clamped: "new_bitmap t (if w \<le>s 0 then 1 else w, if h \<le>s 0 then 1 else h) = new_bitmap t (w, h)"
  by (simp add: new_bitmap_def)

lemma paint_create_cases:
  assumes "paint_create c g = (r, g')"
  obtains (full) "free_slot p_token (paints g) = None" "r = None" "g' = g"
  | (new) i t where "free_slot p_token (paints g) = Some i" "t = next_paint_token g + 0x100" "r = Some t"
      "g' = g\<lparr>next_paint_token := t, paints := (paints g)[i := new_paint t c]\<rparr>"
  using assms free_slot_Some [of p_token "paints g"]
  by (auto simp: paint_create_def muplar_alloc_paint_def Let_def split: option.splits)

lemma filter_create_cases:
  assumes "filter_create cm g = (r, g')"
  obtains (full) "free_slot f_token (filters g) = None" "r = None" "g' = g"
  | (new) i t where "free_slot f_token (filters g) = Some i" "t = next_filter_token g + 0x100" "r = Some t"
      "g' = g\<lparr>next_filter_token := t, filters := (filters g)[i := new_filter t cm]\<rparr>"
  using assms free_slot_Some [of f_token "filters g"]
  by (auto simp: filter_create_def muplar_alloc_filter_def Let_def split: option.splits)

lemma bitmap_create_cases:
  assumes "bitmap_create al wh g = (r, g')"
  obtains (full) "free_slot b_token (bitmaps g) = None" "r = None" "g' = g"
  | (no_memory) i where "free_slot b_token (bitmaps g) = Some i" "r = None"
      "g' = g\<lparr>bitmaps := (bitmaps g)[i := (bitmaps g ! i)\<lparr>pixels := None\<rparr>]\<rparr>"
  | (new) i t where "free_slot b_token (bitmaps g) = Some i" "t = next_bitmap_token g + 0x100" "r = Some t"
      "g' = g\<lparr>next_bitmap_token := t, bitmaps := (bitmaps g)[i := new_bitmap t wh]\<rparr>"
  using assms free_slot_Some [of b_token "bitmaps g"] new_bitmap_clamped [of _ "fst wh" "snd wh"]
  by (auto simp: bitmap_create_def muplar_alloc_bitmap_def Let_def split: option.splits if_splits)

text \<open>A free slot stays free for every lookup.\<close>

lemma lookup_free:
  assumes "table_inv tok n xs" and "i < length xs" and "tok (xs ! i) = 0" and "tok x = 0"
  shows "lookup tok t (xs[i := x]) = lookup tok t xs" "table_inv tok n (xs[i := x])"
proof -
  show inv: "table_inv tok n (xs[i := x])" using assms by (intro table_inv_put [OF assms(1,2)]) auto
  have nth: "xs[i := x] ! k = y \<and> tok y = t \<longleftrightarrow> xs ! k = y \<and> tok y = t" if "t \<noteq> 0" "k < length xs" for k y
    using that assms(2-4) by (cases "k = i") auto
  have "lookup tok t (xs[i := x]) = Some y \<longleftrightarrow> lookup tok t xs = Some y" for y
    unfolding lookup_iff [OF assms(1)] lookup_iff [OF inv] length_list_update using nth by blast
  then show "lookup tok t (xs[i := x]) = lookup tok t xs" by (metis option.exhaust)
qed

interpretation paint_table: token_table paint_of paint_create new_paint paints_ok "\<lambda>g. left_of (next_paint_token g)"
proof (unfold_locales, goal_cases)
  case (2 g c t g')
  from 2(3) show ?case
    by (cases rule: paint_create_cases)
      (use 2 left_of_step free_slot_Some [of p_token "paints g"] in \<open>auto simp: paints_ok_def lookup_put\<close>)
next
  case (3 g c t g')
  from 3(3) show ?case
    by (cases rule: paint_create_cases) (use 3 left_of_step in \<open>auto simp: paints_ok_def intro!: lookup_fresh\<close>)
next
  case (4 g c r g' u)
  from 4(3) show ?case
    by (cases rule: paint_create_cases)
      (use 4 left_of_step free_slot_Some [of p_token "paints g"] in \<open>auto simp: paints_ok_def lookup_put\<close>)
next
  case (5 g c r g')
  from 5(3) show ?case
    by (cases rule: paint_create_cases)
      (use 5 left_of_step [of "next_paint_token g"] free_slot_Some [of p_token "paints g"] in
        \<open>auto simp: paints_ok_def intro!: table_inv_put\<close>)
next
  case (6 c g r g')
  then show ?case by (cases rule: paint_create_cases) (use left_of_step_le in auto)
qed simp

interpretation filter_table: token_table filter_of filter_create new_filter filters_ok "\<lambda>g. left_of (next_filter_token g)"
proof (unfold_locales, goal_cases)
  case (2 g c t g')
  from 2(3) show ?case
    by (cases rule: filter_create_cases)
      (use 2 left_of_step free_slot_Some [of f_token "filters g"] in \<open>auto simp: filters_ok_def lookup_put\<close>)
next
  case (3 g c t g')
  from 3(3) show ?case
    by (cases rule: filter_create_cases) (use 3 left_of_step in \<open>auto simp: filters_ok_def intro!: lookup_fresh\<close>)
next
  case (4 g c r g' u)
  from 4(3) show ?case
    by (cases rule: filter_create_cases)
      (use 4 left_of_step free_slot_Some [of f_token "filters g"] in \<open>auto simp: filters_ok_def lookup_put\<close>)
next
  case (5 g c r g')
  from 5(3) show ?case
    by (cases rule: filter_create_cases)
      (use 5 left_of_step [of "next_filter_token g"] free_slot_Some [of f_token "filters g"] in
        \<open>auto simp: filters_ok_def intro!: table_inv_put\<close>)
next
  case (6 c g r g')
  then show ?case by (cases rule: filter_create_cases) (use left_of_step_le in auto)
qed simp

interpretation bitmap_table: token_table bitmap_of "bitmap_create al" new_bitmap bitmaps_ok "\<lambda>g. left_of (next_bitmap_token g)" for al
proof (unfold_locales, goal_cases)
  case (2 g c t g')
  from 2(3) show ?case
    by (cases rule: bitmap_create_cases)
      (use 2 left_of_step free_slot_Some [of b_token "bitmaps g"] in \<open>auto simp: bitmaps_ok_def lookup_put\<close>)
next
  case (3 g c t g')
  from 3(3) show ?case
    by (cases rule: bitmap_create_cases) (use 3 left_of_step in \<open>auto simp: bitmaps_ok_def intro!: lookup_fresh\<close>)
next
  case (4 g c r g' u)
  from 4(3) show ?case
    by (cases rule: bitmap_create_cases)
      (use 4 left_of_step free_slot_Some [of b_token "bitmaps g"] in \<open>auto simp: bitmaps_ok_def lookup_put lookup_free\<close>)
next
  case (5 g c r g')
  from 5(3) show ?case
    by (cases rule: bitmap_create_cases)
      (use 5 left_of_step [of "next_bitmap_token g"] free_slot_Some [of b_token "bitmaps g"] in
        \<open>auto simp: bitmaps_ok_def intro!: table_inv_put\<close>)
next
  case (6 c g r g')
  then show ?case by (cases rule: bitmap_create_cases) (use left_of_step_le in auto)
qed simp

lemma release_bitmap_eq: "bitmaps (muplar_release_bitmap t g) = update b_token t (\<lambda>_. zero_bitmap) (bitmaps g)"
  by (simp add: muplar_release_bitmap_def muplar_find_bitmap_def update_def split: option.split)

lemma release_bitmap_next [simp]: "next_bitmap_token (muplar_release_bitmap t g) = next_bitmap_token g"
  by (simp add: muplar_release_bitmap_def split: option.split)

interpretation bitmap_table: releasing_table bitmap_of "bitmap_create al" new_bitmap bitmaps_ok
  "\<lambda>g. left_of (next_bitmap_token g)" muplar_release_bitmap for al
  by unfold_locales
    (simp_all add: bitmaps_ok_def release_bitmap_eq lookup_release zero_bitmap_def)

end
