(* ===== verification/Paint.thy ===== *)
theory Paint
  imports Gfx_Tables
begin

text \<open>
  \<^verbatim>\<open>android.graphics.Paint\<close>, the colour filters, shaders, mask filters and path effects of
  the ART shim. The methods on paints refine an abstract specification: a map from tokens to
  paints that holds at most as many paints as the table has slots.
\<close>

section \<open>Paint methods\<close>

definition Paint_nInit :: "gfx \<Rightarrow> jlong \<times> gfx" where
  "Paint_nInit g =
     (case muplar_alloc_paint 0xff000000 g of
        (Some i, g') \<Rightarrow> (p_token (paints g' ! i), g')
      | (None, g') \<Rightarrow>
          let t = next_paint_token g' + 0x100 in (t, g'\<lparr>next_paint_token := t\<rparr>))"

text \<open>Copying the fields other than the token and, in \<^verbatim>\<open>nInitWithPaint\<close>, the colour.\<close>

definition copy_style :: "paint_state \<Rightarrow> paint_state \<Rightarrow> paint_state" where
  "copy_style src dst =
     dst\<lparr>color_filter := color_filter src, mask_filter := mask_filter src, p_shader := p_shader src,
         text_size := text_size src, stroke_width := stroke_width src, stroke_miter := stroke_miter src,
         p_style := p_style src, stroke_cap := stroke_cap src, stroke_join := stroke_join src\<rparr>"

definition Paint_nInitWithPaint :: "jlong \<Rightarrow> gfx \<Rightarrow> jlong \<times> gfx" where
  "Paint_nInitWithPaint paint g =
     (let src = paint_of g paint in
      case muplar_alloc_paint (case src of None \<Rightarrow> 0xff000000 | Some s \<Rightarrow> p_color s) g of
        (Some i, g') \<Rightarrow>
          (p_token (paints g' ! i),
           case src of None \<Rightarrow> g'
           | Some s \<Rightarrow> g'\<lparr>paints := (paints g')[i := copy_style s (paints g' ! i)]\<rparr>)
      | (None, g') \<Rightarrow> Paint_nInit g')"

text \<open>Changing the paint of a token, if there is one.\<close>

definition on_paint :: "jlong \<Rightarrow> (paint_state \<Rightarrow> paint_state) \<Rightarrow> gfx \<Rightarrow> gfx" where
  "on_paint t f g = g\<lparr>paints := update p_token t f (paints g)\<rparr>"

definition Paint_nSet :: "jlong \<Rightarrow> jlong \<Rightarrow> gfx \<Rightarrow> gfx" where
  "Paint_nSet dst src g =
     (case paint_of g src of None \<Rightarrow> g
      | Some s \<Rightarrow> on_paint dst (\<lambda>d. copy_style s (d\<lparr>p_color := p_color s\<rparr>)) g)"

definition muplar_paint_free :: "jlong \<Rightarrow> gfx \<Rightarrow> gfx" where
  "muplar_paint_free token g = on_paint token (\<lambda>p. p\<lparr>p_token := 0\<rparr>) g"

definition Paint_nSetTextSize :: "jlong \<Rightarrow> jfloat \<Rightarrow> gfx \<Rightarrow> gfx" where
  "Paint_nSetTextSize t sz g = on_paint t (\<lambda>p. p\<lparr>text_size := sz\<rparr>) g"

definition Paint_nGetTextSize :: "jlong \<Rightarrow> gfx \<Rightarrow> jfloat" where
  "Paint_nGetTextSize t g = (case paint_of g t of None \<Rightarrow> f16 | Some p \<Rightarrow> text_size p)"

definition Paint_nSetColor :: "jlong \<Rightarrow> jint \<Rightarrow> gfx \<Rightarrow> gfx" where
  "Paint_nSetColor t color g = on_paint t (\<lambda>p. p\<lparr>p_color := color\<rparr>) g"

definition Paint_nSetStrokeWidth :: "jlong \<Rightarrow> jfloat \<Rightarrow> gfx \<Rightarrow> gfx" where
  "Paint_nSetStrokeWidth t width g = on_paint t (\<lambda>p. p\<lparr>stroke_width := width\<rparr>) g"

definition Paint_nGetStrokeWidth :: "jlong \<Rightarrow> gfx \<Rightarrow> jfloat" where
  "Paint_nGetStrokeWidth t g = (case paint_of g t of None \<Rightarrow> 0 | Some p \<Rightarrow> stroke_width p)"

definition Paint_nSetStrokeMiter :: "jlong \<Rightarrow> jfloat \<Rightarrow> gfx \<Rightarrow> gfx" where
  "Paint_nSetStrokeMiter t miter g = on_paint t (\<lambda>p. p\<lparr>stroke_miter := miter\<rparr>) g"

definition Paint_nGetStrokeMiter :: "jlong \<Rightarrow> gfx \<Rightarrow> jfloat" where
  "Paint_nGetStrokeMiter t g = (case paint_of g t of None \<Rightarrow> f4 | Some p \<Rightarrow> stroke_miter p)"

definition Paint_nSetStrokeCap :: "jlong \<Rightarrow> jint \<Rightarrow> gfx \<Rightarrow> gfx" where
  "Paint_nSetStrokeCap t cap g = on_paint t (\<lambda>p. p\<lparr>stroke_cap := cap\<rparr>) g"

definition Paint_nGetStrokeCap :: "jlong \<Rightarrow> gfx \<Rightarrow> jint" where
  "Paint_nGetStrokeCap t g = (case paint_of g t of None \<Rightarrow> 0 | Some p \<Rightarrow> stroke_cap p)"

definition Paint_nSetStrokeJoin :: "jlong \<Rightarrow> jint \<Rightarrow> gfx \<Rightarrow> gfx" where
  "Paint_nSetStrokeJoin t join g = on_paint t (\<lambda>p. p\<lparr>stroke_join := join\<rparr>) g"

definition Paint_nGetStrokeJoin :: "jlong \<Rightarrow> gfx \<Rightarrow> jint" where
  "Paint_nGetStrokeJoin t g = (case paint_of g t of None \<Rightarrow> 0 | Some p \<Rightarrow> stroke_join p)"

definition Paint_nSetStyle :: "jlong \<Rightarrow> jint \<Rightarrow> gfx \<Rightarrow> gfx" where
  "Paint_nSetStyle t style g = on_paint t (\<lambda>p. p\<lparr>p_style := style\<rparr>) g"

definition Paint_nGetStyle :: "jlong \<Rightarrow> gfx \<Rightarrow> jint" where
  "Paint_nGetStyle t g = (case paint_of g t of None \<Rightarrow> 0 | Some p \<Rightarrow> p_style p)"

definition Paint_nSetShader :: "jlong \<Rightarrow> jlong \<Rightarrow> gfx \<Rightarrow> jlong \<times> gfx" where
  "Paint_nSetShader t shader g = (shader, on_paint t (\<lambda>p. p\<lparr>p_shader := shader\<rparr>) g)"

definition Paint_nSetColorFilter :: "jlong \<Rightarrow> jlong \<Rightarrow> gfx \<Rightarrow> jlong \<times> gfx" where
  "Paint_nSetColorFilter t filt g = (filt, on_paint t (\<lambda>p. p\<lparr>color_filter := filt\<rparr>) g)"

definition Paint_nSetMaskFilter :: "jlong \<Rightarrow> jlong \<Rightarrow> gfx \<Rightarrow> jlong \<times> gfx" where
  "Paint_nSetMaskFilter t mask_f g = (mask_f, on_paint t (\<lambda>p. p\<lparr>mask_filter := mask_f\<rparr>) g)"

definition with_alpha :: "jint \<Rightarrow> jint \<Rightarrow> jint" where
  "with_alpha color alpha = (color AND 0x00ffffff) OR push_bit 24 (alpha AND 0xff)"

definition Paint_nSetAlpha :: "jlong \<Rightarrow> jint \<Rightarrow> gfx \<Rightarrow> gfx" where
  "Paint_nSetAlpha t alpha g = on_paint t (\<lambda>p. p\<lparr>p_color := with_alpha (p_color p) alpha\<rparr>) g"

definition Paint_nReset :: "jlong \<Rightarrow> gfx \<Rightarrow> gfx" where
  "Paint_nReset t g = on_paint t (\<lambda>p. p\<lparr>p_color := 0, color_filter := 0, mask_filter := 0, p_shader := 0\<rparr>) g"

definition Paint_nSetColorLong :: "jlong \<Rightarrow> jlong \<Rightarrow> jlong \<Rightarrow> gfx \<Rightarrow> gfx" where
  "Paint_nSetColorLong t color_space color_long g = on_paint t (\<lambda>p. p\<lparr>p_color := ucast (drop_bit 32 color_long)\<rparr>) g"

section \<open>Filters, shaders and effects\<close>

definition BlendModeColorFilter_create :: "jint \<Rightarrow> jint \<Rightarrow> gfx \<Rightarrow> jlong \<times> gfx" where
  "BlendModeColorFilter_create color mode g =
     (case muplar_alloc_filter (color, mode) g of
        (Some i, g') \<Rightarrow> (f_token (filters g' ! i), g')
      | (None, g') \<Rightarrow>
          let t = next_filter_token g' + 0x100 in (t, g'\<lparr>next_filter_token := t\<rparr>))"

definition PorterDuffColorFilter_create :: "jint \<Rightarrow> jint \<Rightarrow> gfx \<Rightarrow> jlong \<times> gfx" where
  "PorterDuffColorFilter_create = BlendModeColorFilter_create"

definition LightingColorFilter_create :: "jint \<Rightarrow> jint \<Rightarrow> gfx \<Rightarrow> jlong \<times> gfx" where
  "LightingColorFilter_create mul add g =
     (let t = next_filter_token g + 0x100 in (t, g\<lparr>next_filter_token := t\<rparr>))"

definition ColorMatrixColorFilter_create :: "jfloat list \<Rightarrow> gfx \<Rightarrow> jlong \<times> gfx" where
  "ColorMatrixColorFilter_create array g =
     (let t = next_filter_token g + 0x100 in (t, g\<lparr>next_filter_token := t\<rparr>))"

text \<open>The gradients only take a token; their geometry, colours and positions are not kept.\<close>

definition RadialGradient_nativeCreate :: "gfx \<Rightarrow> jlong \<times> gfx" where
  "RadialGradient_nativeCreate g = (let t = next_shader_token g + 0x100 in (t, g\<lparr>next_shader_token := t\<rparr>))"

definition SweepGradient_nativeCreate :: "gfx \<Rightarrow> jlong \<times> gfx" where
  "SweepGradient_nativeCreate g = (let t = next_shader_token g + 0x100 in (t, g\<lparr>next_shader_token := t\<rparr>))"

definition LinearGradient_nativeCreate :: "gfx \<Rightarrow> jlong \<times> gfx" where
  "LinearGradient_nativeCreate g = (let t = next_shader_token g + 0x100 in (t, g\<lparr>next_shader_token := t\<rparr>))"

definition BitmapShader_nativeCreate :: "jlong \<Rightarrow> gfx \<Rightarrow> jlong \<times> gfx" where
  "BitmapShader_nativeCreate bitmap g =
     (let t = next_shader_token g + 0x100;
          slot = unat (t div 0x100) mod length (shaders g) in
      (t, g\<lparr>next_shader_token := t, shaders := (shaders g)[slot := \<lparr>s_token = t, s_bitmap = bitmap\<rparr>]\<rparr>))"

definition BlurMaskFilter_nativeConstructor :: "jfloat \<Rightarrow> jint \<Rightarrow> gfx \<Rightarrow> jlong \<times> gfx" where
  "BlurMaskFilter_nativeConstructor radius style g =
     (let t = next_mask_filter_token g + 0x100 in (t, g\<lparr>next_mask_filter_token := t\<rparr>))"

definition CornerPathEffect_nativeCreate :: "jfloat \<Rightarrow> gfx \<Rightarrow> jlong \<times> gfx" where
  "CornerPathEffect_nativeCreate radius g =
     (let t = next_path_effect_token g + 0x100 in (t, g\<lparr>next_path_effect_token := t\<rparr>))"

definition DashPathEffect_nativeCreate :: "jfloat list \<Rightarrow> jfloat \<Rightarrow> gfx \<Rightarrow> jlong \<times> gfx" where
  "DashPathEffect_nativeCreate intervals phase g =
     (let t = next_path_effect_token g + 0x100 in (t, g\<lparr>next_path_effect_token := t\<rparr>))"

section \<open>Calls on paints\<close>

datatype paint_call =
    Init | InitWithPaint jlong | Set jlong jlong | Free jlong
  | SetTextSize jlong jfloat | SetColor jlong jint | SetStrokeWidth jlong jfloat | SetStrokeMiter jlong jfloat
  | SetStrokeCap jlong jint | SetStrokeJoin jlong jint | SetStyle jlong jint
  | SetShader jlong jlong | SetColorFilter jlong jlong | SetMaskFilter jlong jlong
  | SetAlpha jlong jint | Reset jlong | SetColorLong jlong jlong jlong
  | GetTextSize jlong | GetStrokeWidth jlong | GetStrokeMiter jlong | GetStrokeCap jlong | GetStrokeJoin jlong | GetStyle jlong

text \<open>The value a call returns, 0 for a \<^verbatim>\<open>void\<close> method, and the state after it.\<close>

fun exec_paint :: "paint_call \<Rightarrow> gfx \<Rightarrow> jlong \<times> gfx" where
  "exec_paint Init g = Paint_nInit g"
| "exec_paint (InitWithPaint t) g = Paint_nInitWithPaint t g"
| "exec_paint (Set d s) g = (0, Paint_nSet d s g)"
| "exec_paint (Free t) g = (0, muplar_paint_free t g)"
| "exec_paint (SetTextSize t v) g = (0, Paint_nSetTextSize t v g)"
| "exec_paint (SetColor t v) g = (0, Paint_nSetColor t v g)"
| "exec_paint (SetStrokeWidth t v) g = (0, Paint_nSetStrokeWidth t v g)"
| "exec_paint (SetStrokeMiter t v) g = (0, Paint_nSetStrokeMiter t v g)"
| "exec_paint (SetStrokeCap t v) g = (0, Paint_nSetStrokeCap t v g)"
| "exec_paint (SetStrokeJoin t v) g = (0, Paint_nSetStrokeJoin t v g)"
| "exec_paint (SetStyle t v) g = (0, Paint_nSetStyle t v g)"
| "exec_paint (SetShader t v) g = Paint_nSetShader t v g"
| "exec_paint (SetColorFilter t v) g = Paint_nSetColorFilter t v g"
| "exec_paint (SetMaskFilter t v) g = Paint_nSetMaskFilter t v g"
| "exec_paint (SetAlpha t v) g = (0, Paint_nSetAlpha t v g)"
| "exec_paint (Reset t) g = (0, Paint_nReset t g)"
| "exec_paint (SetColorLong t s v) g = (0, Paint_nSetColorLong t s v g)"
| "exec_paint (GetTextSize t) g = (ucast (Paint_nGetTextSize t g), g)"
| "exec_paint (GetStrokeWidth t) g = (ucast (Paint_nGetStrokeWidth t g), g)"
| "exec_paint (GetStrokeMiter t) g = (ucast (Paint_nGetStrokeMiter t g), g)"
| "exec_paint (GetStrokeCap t) g = (ucast (Paint_nGetStrokeCap t g), g)"
| "exec_paint (GetStrokeJoin t) g = (ucast (Paint_nGetStrokeJoin t g), g)"
| "exec_paint (GetStyle t) g = (ucast (Paint_nGetStyle t g), g)"

fun run_paint :: "paint_call list \<Rightarrow> gfx \<Rightarrow> jlong list \<times> gfx" where
  "run_paint [] g = ([], g)"
| "run_paint (c # cs) g = (case exec_paint c g of (r, g') \<Rightarrow> case run_paint cs g' of (rs, g'') \<Rightarrow> (r # rs, g''))"

section \<open>The abstract specification\<close>

text \<open>
  The paints are a map from tokens to paints. A new paint gets a token that is not 0 and not in
  use; it is registered when fewer than \<open>N\<close> paints are. Setters change the field of the paint,
  if there is one, and getters return it or the default.
\<close>

definition copied :: "paint_state option \<Rightarrow> jlong \<Rightarrow> paint_state" where
  "copied src t = (case src of None \<Rightarrow> new_paint t 0xff000000 | Some s \<Rightarrow> s\<lparr>p_token := t\<rparr>)"

fun change :: "paint_call \<Rightarrow> (jlong \<rightharpoonup> paint_state) \<Rightarrow> (jlong \<times> (paint_state \<Rightarrow> paint_state)) option" where
  "change (Set d s) m = map_option (\<lambda>p. (d, \<lambda>q. p\<lparr>p_token := p_token q\<rparr>)) (m s)"
| "change (SetTextSize t v) m = Some (t, \<lambda>p. p\<lparr>text_size := v\<rparr>)"
| "change (SetColor t v) m = Some (t, \<lambda>p. p\<lparr>p_color := v\<rparr>)"
| "change (SetStrokeWidth t v) m = Some (t, \<lambda>p. p\<lparr>stroke_width := v\<rparr>)"
| "change (SetStrokeMiter t v) m = Some (t, \<lambda>p. p\<lparr>stroke_miter := v\<rparr>)"
| "change (SetStrokeCap t v) m = Some (t, \<lambda>p. p\<lparr>stroke_cap := v\<rparr>)"
| "change (SetStrokeJoin t v) m = Some (t, \<lambda>p. p\<lparr>stroke_join := v\<rparr>)"
| "change (SetStyle t v) m = Some (t, \<lambda>p. p\<lparr>p_style := v\<rparr>)"
| "change (SetShader t v) m = Some (t, \<lambda>p. p\<lparr>p_shader := v\<rparr>)"
| "change (SetColorFilter t v) m = Some (t, \<lambda>p. p\<lparr>color_filter := v\<rparr>)"
| "change (SetMaskFilter t v) m = Some (t, \<lambda>p. p\<lparr>mask_filter := v\<rparr>)"
| "change (SetAlpha t v) m = Some (t, \<lambda>p. p\<lparr>p_color := with_alpha (p_color p) v\<rparr>)"
| "change (Reset t) m = Some (t, \<lambda>p. p\<lparr>p_color := 0, color_filter := 0, mask_filter := 0, p_shader := 0\<rparr>)"
| "change (SetColorLong t s v) m = Some (t, \<lambda>p. p\<lparr>p_color := ucast (drop_bit 32 v)\<rparr>)"
| "change _ m = None"

fun result :: "paint_call \<Rightarrow> (jlong \<rightharpoonup> paint_state) \<Rightarrow> jlong" where
  "result (SetShader t v) m = v"
| "result (SetColorFilter t v) m = v"
| "result (SetMaskFilter t v) m = v"
| "result (GetTextSize t) m = ucast (case m t of None \<Rightarrow> f16 | Some p \<Rightarrow> text_size p)"
| "result (GetStrokeWidth t) m = ucast (case m t of None \<Rightarrow> 0 | Some p \<Rightarrow> stroke_width p)"
| "result (GetStrokeMiter t) m = ucast (case m t of None \<Rightarrow> f4 | Some p \<Rightarrow> stroke_miter p)"
| "result (GetStrokeCap t) m = ucast (case m t of None \<Rightarrow> 0 | Some p \<Rightarrow> stroke_cap p)"
| "result (GetStrokeJoin t) m = ucast (case m t of None \<Rightarrow> 0 | Some p \<Rightarrow> stroke_join p)"
| "result (GetStyle t) m = ucast (case m t of None \<Rightarrow> 0 | Some p \<Rightarrow> p_style p)"
| "result _ m = 0"

fun makes :: "paint_call \<Rightarrow> (jlong \<rightharpoonup> paint_state) \<Rightarrow> paint_state option option" where
  "makes Init m = Some None"
| "makes (InitWithPaint t) m = Some (m t)"
| "makes _ m = None"

inductive paint_spec :: "nat \<Rightarrow> (jlong \<rightharpoonup> paint_state) \<Rightarrow> paint_call \<Rightarrow> jlong \<Rightarrow> (jlong \<rightharpoonup> paint_state) \<Rightarrow> bool" for N where
  spec_new: "makes c m = Some src \<Longrightarrow> t \<noteq> 0 \<Longrightarrow> t \<notin> dom m \<Longrightarrow> card (dom m) < N \<Longrightarrow> paint_spec N m c t (m(t \<mapsto> copied src t))"
| spec_full: "makes c m = Some src \<Longrightarrow> t \<noteq> 0 \<Longrightarrow> t \<notin> dom m \<Longrightarrow> \<not> card (dom m) < N \<Longrightarrow> paint_spec N m c t m"
| spec_free: "paint_spec N m (Free t) 0 (m(t := None))"
| spec_change: "change c m = Some (t, f) \<Longrightarrow> paint_spec N m c (result c m) (upd t f m)"
| spec_read: "makes c m = None \<Longrightarrow> change c m = None \<Longrightarrow> \<forall>t. c \<noteq> Free t \<Longrightarrow> paint_spec N m c (result c m) m"

inductive paint_runs :: "nat \<Rightarrow> (jlong \<rightharpoonup> paint_state) \<Rightarrow> paint_call list \<Rightarrow> jlong list \<Rightarrow> (jlong \<rightharpoonup> paint_state) \<Rightarrow> bool" for N where
  runs_Nil: "paint_runs N m [] [] m"
| runs_Cons: "paint_spec N m c r m' \<Longrightarrow> paint_runs N m' cs rs m'' \<Longrightarrow> paint_runs N m (c # cs) (r # rs) m''"

section \<open>The methods refine the specification\<close>

definition paint_left :: "gfx \<Rightarrow> nat" where
  "paint_left g = left_of (next_paint_token g)"

text \<open>What a call keeps: the invariant, the number of slots, and all but one token.\<close>

definition paint_frame :: "gfx \<Rightarrow> gfx \<Rightarrow> bool" where
  "paint_frame g g' \<longleftrightarrow> paints_ok g' \<and> length (paints g') = length (paints g) \<and> paint_left g \<le> Suc (paint_left g')"

lemma on_paint_refines:
  assumes "paints_ok g" and "\<And>p. p_token (f p) = p_token p"
  shows "paint_of (on_paint t f g) = upd t f (paint_of g)" "paint_frame g (on_paint t f g)"
  using assms by (auto simp: on_paint_def paints_ok_def paint_frame_def paint_left_def map_of_update table_inv_update)

lemma free_refines:
  assumes "paints_ok g"
  shows "paint_of (muplar_paint_free t g) = (paint_of g)(t := None)" "paint_frame g (muplar_paint_free t g)"
  using assms
  by (auto simp: muplar_paint_free_def on_paint_def paints_ok_def paint_frame_def paint_left_def map_of_release lookup_release(2))

lemma copy_style_token: "copy_style s (d\<lparr>p_color := p_color s\<rparr>) = s\<lparr>p_token := p_token d\<rparr>"
  by (cases s; cases d) (simp add: copy_style_def)

lemma copy_style_new: "copy_style s (new_paint t (p_color s)) = s\<lparr>p_token := t\<rparr>"
  by (cases s) (simp add: copy_style_def new_paint_def)

text \<open>Both ways of making a paint: the new paint in a free slot, or only a token.\<close>

definition make_paint :: "paint_state option \<Rightarrow> gfx \<Rightarrow> jlong \<times> gfx" where
  "make_paint src g =
     (let t = next_paint_token g + 0x100 in
      (t, case free_slot p_token (paints g) of
            None \<Rightarrow> g\<lparr>next_paint_token := t\<rparr>
          | Some i \<Rightarrow> g\<lparr>next_paint_token := t, paints := (paints g)[i := copied src t]\<rparr>))"

lemma nInit_eq: "Paint_nInit g = make_paint None g"
  using free_slot_Some [of p_token "paints g"]
  by (auto simp: Paint_nInit_def muplar_alloc_paint_def make_paint_def copied_def Let_def split: option.split)

lemma nInitWithPaint_eq: "Paint_nInitWithPaint t g = make_paint (paint_of g t) g"
  using free_slot_Some [of p_token "paints g"]
  by (auto simp: Paint_nInitWithPaint_def nInit_eq muplar_alloc_paint_def make_paint_def copied_def Let_def copy_style_new
      split: option.split)

lemma make_paint_refines:
  assumes "paints_ok g" and "0 < paint_left g" and "make_paint src g = (t, g')" and "makes c (paint_of g) = Some src"
  shows "paint_spec (length (paints g)) (paint_of g) c t (paint_of g') \<and> paint_frame g g'"
proof -
  have inv: "table_inv p_token (next_paint_token g) (paints g)" using assms(1) by (simp add: paints_ok_def)
  have t: "t = next_paint_token g + 0x100" using assms(3) by (simp add: make_paint_def Let_def)
  have left: "next_paint_token g < t" "paint_left g = Suc (left_of t)"
    using left_of_step [of "next_paint_token g"] assms(2) t by (auto simp: paint_left_def)
  have t0: "t \<noteq> 0" using left(1) by auto
  have fresh: "t \<notin> dom (paint_of g)" using lookup_fresh [OF inv left(1)] by (simp add: domIff)
  have tok: "p_token (copied src t) = t" by (simp add: copied_def split: option.split)
  show ?thesis
  proof (cases "free_slot p_token (paints g)")
    case None
    then have g': "g' = g\<lparr>next_paint_token := t\<rparr>" using assms(3) t by (simp add: make_paint_def Let_def)
    have "\<not> card (dom (paint_of g)) < length (paints g)" using None free_slot_iff [OF inv] by simp
    then have "paint_spec (length (paints g)) (paint_of g) c t (paint_of g')"
      using spec_full [OF assms(4) t0 fresh] g' by simp
    moreover have "table_inv p_token t (paints g)"
      using inv left(1) unfolding table_inv_def by (meson less_imp_le order.trans)
    ultimately show ?thesis using left by (simp add: g' paint_frame_def paints_ok_def paint_left_def)
  next
    case (Some i)
    then have g': "g' = g\<lparr>next_paint_token := t, paints := (paints g)[i := copied src t]\<rparr>"
      using assms(3) t by (simp add: make_paint_def Let_def)
    have i: "i < length (paints g)" "p_token (paints g ! i) = 0" using free_slot_Some [OF Some] by auto
    have "card (dom (paint_of g)) < length (paints g)" using Some free_slot_iff [OF inv] by simp
    moreover have "paint_of g' = (paint_of g)(t \<mapsto> copied src t)"
      using map_of_put [OF inv i, of "copied src t"] tok left(1) by (simp add: g')
    ultimately have "paint_spec (length (paints g)) (paint_of g) c t (paint_of g')"
      using spec_new [OF assms(4) t0 fresh] by simp
    moreover have "table_inv p_token t ((paints g)[i := copied src t])"
      using inv i left(1) tok by (intro table_inv_put [where n = "next_paint_token g"]) auto
    ultimately show ?thesis using left by (simp add: g' paint_frame_def paints_ok_def paint_left_def)
  qed
qed

lemma change_refines:
  assumes "paints_ok g" and "change c (paint_of g) = Some (t, f)"
  shows "exec_paint c g = (result c (paint_of g), on_paint t f g)"
  using assms(2)
  by (cases c)
    (auto simp: Paint_nSet_def copy_style_token Paint_nSetTextSize_def Paint_nSetColor_def Paint_nSetStrokeWidth_def
      Paint_nSetStrokeMiter_def Paint_nSetStrokeCap_def Paint_nSetStrokeJoin_def Paint_nSetStyle_def Paint_nSetShader_def
      Paint_nSetColorFilter_def Paint_nSetMaskFilter_def Paint_nSetAlpha_def Paint_nReset_def Paint_nSetColorLong_def)

lemma change_token: "change c m = Some (t, f) \<Longrightarrow> p_token (f p) = p_token p"
  by (cases c) auto

lemma read_refines:
  "makes c (paint_of g) = None \<Longrightarrow> change c (paint_of g) = None \<Longrightarrow> \<forall>t. c \<noteq> Free t \<Longrightarrow> exec_paint c g = (result c (paint_of g), g)"
  by (cases c)
    (auto simp: Paint_nSet_def Paint_nGetTextSize_def Paint_nGetStrokeWidth_def Paint_nGetStrokeMiter_def
      Paint_nGetStrokeCap_def Paint_nGetStrokeJoin_def Paint_nGetStyle_def)

lemma exec_paint_refines:
  assumes "paints_ok g" and "0 < paint_left g" and "exec_paint c g = (r, g')"
  shows "paint_spec (length (paints g)) (paint_of g) c r (paint_of g') \<and> paint_frame g g'"
proof (cases "makes c (paint_of g)")
  case (Some src)
  then have "exec_paint c g = make_paint src g" by (cases c) (auto simp: nInit_eq nInitWithPaint_eq)
  then have "make_paint src g = (r, g')" using assms(3) by simp
  then show ?thesis by (rule make_paint_refines [OF assms(1,2) _ Some])
next
  case None
  show ?thesis
  proof (cases "change c (paint_of g)")
    case (Some tf)
    then obtain t f where tf: "change c (paint_of g) = Some (t, f)" by (cases tf) simp
    show ?thesis
      using change_refines [OF assms(1) tf] on_paint_refines [OF assms(1) change_token [OF tf]] spec_change [OF tf, of "length (paints g)"] assms(3)
      by simp
  next
    case none: None
    show ?thesis
    proof (cases "\<exists>t. c = Free t")
      case True
      then obtain t where "c = Free t" "r = 0" "g' = muplar_paint_free t g" using assms(3) by auto
      then show ?thesis using free_refines [OF assms(1), of t] spec_free [of "length (paints g)" "paint_of g" t] by simp
    next
      case False
      then show ?thesis using read_refines [OF None none] spec_read [OF None none] assms by (auto simp: paint_frame_def)
    qed
  qed
qed

interpretation paint_table: releasing_table paint_of paint_create new_paint paints_ok
  "\<lambda>g. left_of (next_paint_token g)" muplar_paint_free
  using free_refines
  by unfold_locales (auto simp: paint_frame_def muplar_paint_free_def on_paint_def fun_eq_iff)

text \<open>C17: the Paint methods refine the abstract specification: any sequence of calls returns
  what the specification allows, where the abstract state is the map from tokens to the paints
  of the table. New paints get tokens that are not in use, calls change only the paint they
  name, and no more paints are registered than the table has slots.\<close>

theorem paint_refinement:
  assumes "paints_ok g" and "length cs \<le> paint_left g" and "run_paint cs g = (rs, g')"
  shows "paint_runs (length (paints g)) (paint_of g) cs rs (paint_of g') \<and> paints_ok g'"
  using assms
proof (induction cs arbitrary: g rs)
  case Nil
  then show ?case by (auto intro: runs_Nil)
next
  case (Cons c cs)
  then obtain r g1 rs1 where e: "exec_paint c g = (r, g1)" "run_paint cs g1 = (rs1, g')" "rs = r # rs1"
    by (auto split: prod.splits)
  have step: "paint_spec (length (paints g)) (paint_of g) c r (paint_of g1)" "paint_frame g g1"
    using exec_paint_refines [OF Cons.prems(1) _ e(1)] Cons.prems(2) by auto
  then show ?case
    using Cons.IH [OF _ _ e(2)] Cons.prems(2) e(3) by (auto simp: paint_frame_def intro: runs_Cons)
qed

text \<open>Tables of four slots: a paint, a copy of it and a change of the copy.\<close>

definition demo_paint_calls :: "paint_call list" where
  "demo_paint_calls = [Init, SetColor 0x1e100 0x80ff0000, InitWithPaint 0x1e100, SetAlpha 0x1e200 0x40, Free 0x1e100, GetStrokeMiter 0x1e200]"

theorem paint_refinement_witness:
  "paint_runs 4 (paint_of (tables 4 4 4 4 4)) demo_paint_calls [0x1e100, 0, 0x1e200, 0, 0, 0x40800000]
     (paint_of (snd (run_paint demo_paint_calls (tables 4 4 4 4 4))))"
proof -
  define g where "g = tables 4 4 4 4 4"
  have "length demo_paint_calls \<le> paint_left g" by (simp add: g_def demo_paint_calls_def paint_left_def left_of_def tables_def)
  moreover have "run_paint demo_paint_calls g = ([0x1e100, 0, 0x1e200, 0, 0, 0x40800000], snd (run_paint demo_paint_calls g))"
    unfolding prod_eq_iff fst_conv snd_conv g_def by (rule conjI [OF _ refl]) code_simp
  moreover have "paints_ok g" "length (paints g) = 4" unfolding g_def by (rule tables_ok) (simp add: tables_def)
  ultimately have "paint_runs 4 (paint_of g) demo_paint_calls [0x1e100, 0, 0x1e200, 0, 0, 0x40800000] (paint_of (snd (run_paint demo_paint_calls g)))"
    using paint_refinement [of g demo_paint_calls "[0x1e100, 0, 0x1e200, 0, 0, 0x40800000]" "snd (run_paint demo_paint_calls g)"] by simp
  then show ?thesis unfolding g_def .
qed

section \<open>Colour filters\<close>

lemma BlendModeColorFilter_create_eq:
  assumes "filter_create (color, mode) g = (Some t, g')"
  shows "BlendModeColorFilter_create color mode g = (t, g')"
  using assms by (auto simp: BlendModeColorFilter_create_def filter_create_def split: prod.splits option.splits)

lemma combined_alpha: "a < 256 \<Longrightarrow> b < 256 \<Longrightarrow> unat ((a * b) div 255 :: u32) = unat a * unat b div 255 \<and> (a * b) div 255 < 256"
proof -
  assume "a < 256" "b < 256"
  then have ab: "unat a \<le> 255" "unat b \<le> 255" by (simp_all add: word_less_nat_alt)
  then have le: "unat a * unat b \<le> 255 * 255" by (rule mult_le_mono)
  then have "unat (a * b) = unat a * unat b" by (simp add: unat_word_ariths)
  then have "unat ((a * b) div 255 :: u32) = unat a * unat b div 255" by (simp add: unat_div)
  moreover have "unat a * unat b div 255 \<le> 255" using div_le_mono [OF le, of 255] by simp
  ultimately show ?thesis by (simp add: word_less_nat_alt)
qed

lemma filtered_color:
  assumes "paint_of g t = Some p" and "color_filter p = ft" and "filter_of g ft = Some f" and "f_color f \<noteq> 0"
  shows "muplar_paint_color t fallback g AND 0x00ffffff = f_color f AND 0x00ffffff"
    "unat (alpha_of (muplar_paint_color t fallback g)) =
       (if alpha_of (p_color p) = 0 \<or> alpha_of (p_color p) = 255 then unat (alpha_of (f_color f))
        else unat (alpha_of (f_color f)) * unat (alpha_of (p_color p)) div 255)"
proof -
  have "ft \<noteq> 0" using assms(3) by auto
  note a = combined_alpha [OF channel_less(1) channel_less(1), of "f_color f" "p_color p"]
  note r = replace_alpha [OF conjunct2 [OF a], of "f_color f"]
  show "muplar_paint_color t fallback g AND 0x00ffffff = f_color f AND 0x00ffffff"
    "unat (alpha_of (muplar_paint_color t fallback g)) =
       (if alpha_of (p_color p) = 0 \<or> alpha_of (p_color p) = 255 then unat (alpha_of (f_color f))
        else unat (alpha_of (f_color f)) * unat (alpha_of (p_color p)) div 255)"
    unfolding muplar_paint_color_def using assms \<open>ft \<noteq> 0\<close> r a by (simp_all add: Let_def)
qed

text \<open>a paint whose colour filter was just created draws in the filter's colour, with the
  alpha of the filter scaled by the alpha of the paint, rounded down, where the paint is neither
  opaque nor fully transparent (there the alpha is the filter's).\<close>

theorem color_filter_applies:
  assumes "filters_ok g" and "0 < left_of (next_filter_token g)" and "paints_ok g" and "paint_of g t = Some p"
    and "card (dom (filter_of g)) < length (filters g)" and "color \<noteq> 0"
    and "BlendModeColorFilter_create color mode g = (ft, g1)" and "Paint_nSetColorFilter t ft g1 = (r, g2)"
  shows "muplar_paint_color t fallback g2 AND 0x00ffffff = color AND 0x00ffffff \<and>
    unat (alpha_of (muplar_paint_color t fallback g2)) =
       (if alpha_of (p_color p) = 0 \<or> alpha_of (p_color p) = 255 then unat (alpha_of color)
        else unat (alpha_of color) * unat (alpha_of (p_color p)) div 255)"
proof -
  have "free_slot f_token (filters g) \<noteq> None" using assms(1,5) free_slot_iff unfolding filters_ok_def by metis
  then obtain t' g' where c: "filter_create (color, mode) g = (Some t', g')"
    by (cases "filter_create (color, mode) g"; cases "fst (filter_create (color, mode) g)")
      (auto elim: filter_create_cases)
  then have g1: "t' = ft" "g' = g1" using BlendModeColorFilter_create_eq [OF c] assms(7) by auto
  have f: "filter_of g1 ft = Some (new_filter ft (color, mode))"
    using filter_table.create_fetch [OF assms(1,2) c] g1 by simp
  have paints: "paints g1 = paints g" using c unfolding g1 by (cases rule: filter_create_cases) auto
  have g2: "g2 = on_paint t (\<lambda>p. p\<lparr>color_filter := ft\<rparr>) g1" using assms(8) by (auto simp: Paint_nSetColorFilter_def)
  have "table_inv p_token (next_paint_token g) (paints g)" using assms(3) by (simp add: paints_ok_def)
  then have "paint_of g2 t = Some (p\<lparr>color_filter := ft\<rparr>)"
    using assms(4) paints by (simp add: g2 on_paint_def lookup_update)
  moreover have "filter_of g2 ft = Some (new_filter ft (color, mode))" using f by (simp add: g2 on_paint_def)
  ultimately show ?thesis using filtered_color [of t g2 "p\<lparr>color_filter := ft\<rparr>" ft] assms(6) by (simp add: new_filter_def)
qed

definition demo_gfx :: gfx where
  "demo_gfx = (tables 2 2 2 2 2)\<lparr>next_paint_token := 0x1e100, paints := [new_paint 0x1e100 0x80112233, zero_paint]\<rparr>"

theorem color_filter_applies_witness:
  "muplar_paint_color 0x1e100 0 (snd (Paint_nSetColorFilter 0x1e100 0x30100 (snd (BlendModeColorFilter_create 0xffa0b0c0 5 demo_gfx))))
     AND 0x00ffffff = 0xffa0b0c0 AND 0x00ffffff"
proof -
  have f: "filters_ok demo_gfx" using tables_ok(2) by (simp add: demo_gfx_def filters_ok_def)
  have "table_inv p_token 0x1e100 ((replicate 2 zero_paint)[0 := new_paint 0x1e100 0x80112233])"
    by (rule table_inv_put [OF table_inv_replicate, where n = 0]) (simp_all add: zero_paint_def)
  then have p: "paints_ok demo_gfx" by (simp add: paints_ok_def demo_gfx_def numeral_2_eq_2)
  have l: "0 < left_of (next_filter_token demo_gfx)" by (simp add: demo_gfx_def tables_def left_of_def)
  have t: "paint_of demo_gfx 0x1e100 = Some (new_paint 0x1e100 0x80112233)" by code_simp
  have "free_slot f_token (filters demo_gfx) \<noteq> None" by code_simp
  then have c: "card (dom (filter_of demo_gfx)) < length (filters demo_gfx)"
    using free_slot_iff [OF f [unfolded filters_ok_def]] by blast
  have b: "BlendModeColorFilter_create 0xffa0b0c0 5 demo_gfx = (0x30100, snd (BlendModeColorFilter_create 0xffa0b0c0 5 demo_gfx))"
    unfolding prod_eq_iff fst_conv snd_conv by (rule conjI [OF _ refl]) code_simp
  show ?thesis
    by (rule conjunct1 [OF color_filter_applies [OF f l p t c _ b, where r = "0x30100"]])
      (simp, unfold Paint_nSetColorFilter_def, simp only: snd_conv)
qed

section \<open>Bitmap shaders\<close>

datatype shader_call = BitmapShader jlong | RadialGradient | SweepGradient | LinearGradient

fun exec_shader :: "shader_call \<Rightarrow> gfx \<Rightarrow> jlong \<times> gfx" where
  "exec_shader (BitmapShader b) g = BitmapShader_nativeCreate b g"
| "exec_shader RadialGradient g = RadialGradient_nativeCreate g"
| "exec_shader SweepGradient g = SweepGradient_nativeCreate g"
| "exec_shader LinearGradient g = LinearGradient_nativeCreate g"

fun run_shaders :: "shader_call list \<Rightarrow> gfx \<Rightarrow> gfx" where
  "run_shaders [] g = g"
| "run_shaders (c # cs) g = run_shaders cs (snd (exec_shader c g))"

text \<open>The slot of a token, and the invariant: every shader is in the slot of its token.\<close>

definition slot_of :: "gfx \<Rightarrow> jlong \<Rightarrow> nat" where
  "slot_of g t = unat (t div 0x100) mod length (shaders g)"

definition shader_ring :: "gfx \<Rightarrow> bool" where
  "shader_ring g \<longleftrightarrow> shaders g \<noteq> [] \<and>
     (\<forall>i < length (shaders g). s_token (shaders g ! i) \<noteq> 0 \<longrightarrow> slot_of g (s_token (shaders g ! i)) = i)"

lemma exec_shader_frame:
  assumes "shader_ring g" and "exec_shader c g = (t, g')"
  shows "shader_ring g'" "t = next_shader_token g + 0x100" "next_shader_token g' = t" "length (shaders g') = length (shaders g)"
    "i \<noteq> slot_of g t \<Longrightarrow> shaders g' ! i = shaders g ! i"
proof -
  show t: "t = next_shader_token g + 0x100" "next_shader_token g' = t" "length (shaders g') = length (shaders g)"
    using assms(2) by (cases c; auto simp: BitmapShader_nativeCreate_def RadialGradient_nativeCreate_def
        SweepGradient_nativeCreate_def LinearGradient_nativeCreate_def Let_def)+
  have upd: "shaders g' = shaders g \<or> (\<exists>b. shaders g' = (shaders g)[slot_of g t := \<lparr>s_token = t, s_bitmap = b\<rparr>])"
    using assms(2) by (cases c) (auto simp: BitmapShader_nativeCreate_def RadialGradient_nativeCreate_def
        SweepGradient_nativeCreate_def LinearGradient_nativeCreate_def Let_def slot_of_def)
  then show "i \<noteq> slot_of g t \<Longrightarrow> shaders g' ! i = shaders g ! i" by auto
  have s: "slot_of g' u = slot_of g u" for u using t(3) by (simp add: slot_of_def)
  have "slot_of g' (s_token (shaders g' ! i)) = i" if "i < length (shaders g)" "s_token (shaders g' ! i) \<noteq> 0" for i
    using that upd assms(1) unfolding s shader_ring_def by (cases "i = slot_of g t") auto
  moreover have "shaders g' \<noteq> []" using t(3) assms(1) by (auto simp: shader_ring_def)
  ultimately show "shader_ring g'" using t(3) by (simp add: shader_ring_def)
qed

lemma find_in_ring:
  assumes "shader_ring g" and "t \<noteq> 0" and "shaders g ! slot_of g t = x" and "s_token x = t"
  shows "shader_of g t = Some x"
proof -
  have lt: "slot_of g t < length (shaders g)" using assms(1) by (simp add: shader_ring_def slot_of_def)
  have "first_index (\<lambda>x. s_token x = t) (shaders g) = Some (slot_of g t)"
    unfolding first_index_Some
  proof (intro conjI allI impI notI)
    fix j
    assume "j < slot_of g t" "s_token (shaders g ! j) = t"
    moreover then have "slot_of g t = j" using assms(1,2) lt unfolding shader_ring_def by (metis order.strict_trans)
    ultimately show False by simp
  qed (use assms lt in auto)
  then show ?thesis using assms by (simp add: lookup_def find_slot_def)
qed

lemma token_number:
  assumes "k \<le> left_of t"
  shows "unat ((t + of_nat k * 0x100) div 0x100) = unat (t div 0x100) + k" "k > 0 \<Longrightarrow> t + of_nat k * 0x100 \<noteq> 0"
proof -
  have "256 * k \<le> 2 ^ 64 - 1 - unat t" using mult_le_mono2 [OF assms, of 256] unfolding left_of_def
    by (meson order.trans times_div_less_eq_dividend)
  then have lt: "unat t + 256 * k < 2 ^ 64" using unat64_less [of t] by linarith
  then have u: "unat (t + of_nat k * 0x100) = unat t + 256 * k"
    by (simp add: unat_word_ariths unat_of_nat take_bit_eq_mod mod_simps mult.commute)
  then show "unat ((t + of_nat k * 0x100) div 0x100) = unat (t div 0x100) + k" by (simp add: unat_div)
  show "k > 0 \<Longrightarrow> t + of_nat k * 0x100 \<noteq> 0" using u by (metis add_is_0 mult_is_0 neq0_conv unat_0 zero_neq_numeral)
qed

lemma ring_keeps:
  assumes "shader_ring g" and "t + of_nat k * 0x100 = next_shader_token g" and "k + length cs < length (shaders g)"
    and "k + length cs \<le> left_of t" and "shaders g ! slot_of g t = x"
  shows "shader_ring (run_shaders cs g) \<and> slot_of (run_shaders cs g) t = slot_of g t \<and> shaders (run_shaders cs g) ! slot_of g t = x"
  using assms
proof (induction cs arbitrary: g k)
  case (Cons c cs)
  obtain u g' where e: "exec_shader c g = (u, g')" by (cases "exec_shader c g")
  note f = exec_shader_frame [OF Cons.prems(1) e]
  have u: "u = t + of_nat (Suc k) * 0x100" using f(2) Cons.prems(2) by (simp add: algebra_simps)
  have "unat (u div 0x100) = unat (t div 0x100) + Suc k" using token_number(1) [of "Suc k" t] Cons.prems(4) u by simp
  then have "slot_of g u \<noteq> slot_of g t"
    using Cons.prems(3) unfolding slot_of_def by (metis add_diff_cancel_left' le_add1 length_Cons mod_eq_dvd_iff_nat nat_dvd_not_less zero_less_Suc add_Suc_right add_lessD1 add_Suc)
  then have "shaders g' ! slot_of g t = x" using f(5) [of "slot_of g t"] Cons.prems(5) by simp
  moreover have s: "slot_of g' t = slot_of g t" using f(4) by (simp add: slot_of_def)
  ultimately have "shader_ring (run_shaders cs g') \<and> slot_of (run_shaders cs g') t = slot_of g' t \<and> shaders (run_shaders cs g') ! slot_of g' t = x"
    using Cons.prems f u by (intro Cons.IH [of g' "Suc k"]) simp_all
  then show ?case using e s by simp
qed simp

text \<open>a bitmap shader is found under its token, with its bitmap, until as many further
  shaders of any kind have been created as the table has slots (512).\<close>

theorem recent_shader_found:
  assumes "shader_ring g" and "BitmapShader_nativeCreate bitmap g = (t, g1)"
    and "length cs < length (shaders g)" and "Suc (length cs) \<le> left_of (next_shader_token g)"
  shows "shader_of (run_shaders cs g1) t = Some \<lparr>s_token = t, s_bitmap = bitmap\<rparr>"
proof -
  have e: "exec_shader (BitmapShader bitmap) g = (t, g1)" using assms(2) by simp
  note f = exec_shader_frame [OF assms(1) e]
  have left: "0 < left_of (next_shader_token g)" using assms(4) by simp
  have "slot_of g t < length (shaders g)" using assms(1) by (simp add: shader_ring_def slot_of_def)
  then have at: "shaders g1 ! slot_of g1 t = \<lparr>s_token = t, s_bitmap = bitmap\<rparr>"
    using assms(2) f(4) by (auto simp: BitmapShader_nativeCreate_def Let_def slot_of_def)
  have "shader_ring (run_shaders cs g1) \<and> slot_of (run_shaders cs g1) t = slot_of g1 t \<and>
    shaders (run_shaders cs g1) ! slot_of g1 t = \<lparr>s_token = t, s_bitmap = bitmap\<rparr>"
    by (rule ring_keeps [where k = 0]) (use f at assms left_of_step(2) [OF left] in auto)
  moreover have "t \<noteq> 0" using left_of_step(1) [OF left] f(2) by auto
  ultimately show ?thesis by (intro find_in_ring) auto
qed

theorem recent_shader_found_witness:
  "shader_of (run_shaders [RadialGradient, BitmapShader 7, LinearGradient] (snd (BitmapShader_nativeCreate 5 (tables 0 0 0 0 4)))) 0x20100
     = Some \<lparr>s_token = 0x20100, s_bitmap = 5\<rparr>"
proof (rule recent_shader_found)
  show "shader_ring (tables 0 0 0 0 4)" by (simp add: shader_ring_def tables_def zero_shader_def)
  show "Suc (length [RadialGradient, BitmapShader 7, LinearGradient]) \<le> left_of (next_shader_token (tables 0 0 0 0 4))"
    by (simp add: tables_def left_of_def)
qed (simp_all add: tables_def BitmapShader_nativeCreate_def Let_def)

end
