(* ===== verification/Float32.thy ===== *)
theory Float32
  imports Complex_Main Muplar_Base
begin

text \<open>
  The C type \<^verbatim>\<open>float\<close> of the target: IEEE 754 binary32 in round-to-nearest-even mode, each
  operation rounded on its own (no contraction to fused multiply-add). A value is its 32-bit
  pattern. The operations decode the pattern to sign, integer mantissa and exponent, compute
  exactly and round once.
\<close>

section \<open>Decoding\<close>

datatype fval = Nan | Inf bool | Fin bool int int \<comment> \<open>\<open>Fin s m e\<close>: \<open>m * 2 ^ e\<close>, negative when \<open>s\<close>\<close>

definition decode :: "u32 \<Rightarrow> fval" where
  "decode w =
     (let s = bit w 31; e = uint (drop_bit 23 w AND 0xff); f = uint (w AND 0x7fffff) in
      if e = 255 then (if f = 0 then Inf s else Nan)
      else if e = 0 then Fin s f (- 149)
      else Fin s (f + 2 ^ 23) (e - 150))"

section \<open>Rounding\<close>

function bit_length :: "int \<Rightarrow> int" where
  "bit_length n = (if n \<le> 0 then 0 else 1 + bit_length (n div 2))"
  by pat_completeness auto
termination
  by (relation "measure nat") auto

declare bit_length.simps [simp del]

text \<open>\<open>m / 2 ^ k\<close> rounded to the nearest integer, ties to even.\<close>

definition round_shift :: "int \<Rightarrow> nat \<Rightarrow> int" where
  "round_shift m k =
     (if k = 0 then m
      else let d = m div 2 ^ k; r = m mod 2 ^ k; h = 2 ^ (k - 1) in
           if h < r \<or> (r = h \<and> odd d) then d + 1 else d)"

definition pack :: "bool \<Rightarrow> int \<Rightarrow> u32" where
  "pack s n = (if s then 0x80000000 else 0) OR of_int n"

definition round32 :: "bool \<Rightarrow> int \<Rightarrow> int \<Rightarrow> u32" where
  "round32 s m e =
     (if m = 0 then pack s 0
      else
        let q = max (e + bit_length m - 24) (- 149);
            m1 = (if q \<le> e then m * 2 ^ nat (e - q) else round_shift m (nat (q - e)));
            (m2, q2) = (if m1 = 2 ^ 24 then (2 ^ 23, q + 1) else (m1, q)) in
        if 104 < q2 then pack s (255 * 2 ^ 23)
        else if m2 < 2 ^ 23 then pack s m2
        else pack s ((q2 + 150) * 2 ^ 23 + (m2 - 2 ^ 23)))"

abbreviation nan32 :: u32 where "nan32 \<equiv> 0x7fc00000"

section \<open>Arithmetic\<close>

definition signed_int :: "bool \<Rightarrow> int \<Rightarrow> int" where
  "signed_int s m = (if s then - m else m)"

definition fadd :: "u32 \<Rightarrow> u32 \<Rightarrow> u32" where
  "fadd x y =
     (case (decode x, decode y) of
        (Fin s m e, Fin s' m' e') \<Rightarrow>
          let q = min e e';
              v = signed_int s m * 2 ^ nat (e - q) + signed_int s' m' * 2 ^ nat (e' - q) in
          if v = 0 then pack (s \<and> s') 0 else round32 (v < 0) \<bar>v\<bar> q
      | (Nan, _) \<Rightarrow> nan32
      | (_, Nan) \<Rightarrow> nan32
      | (Inf s, Inf s') \<Rightarrow> if s = s' then x else nan32
      | (Inf s, _) \<Rightarrow> x
      | (_, Inf s') \<Rightarrow> y)"

definition fneg :: "u32 \<Rightarrow> u32" where
  "fneg x = x XOR 0x80000000"

definition fsub :: "u32 \<Rightarrow> u32 \<Rightarrow> u32" where
  "fsub x y = fadd x (fneg y)"

definition fmul :: "u32 \<Rightarrow> u32 \<Rightarrow> u32" where
  "fmul x y =
     (case (decode x, decode y) of
        (Fin s m e, Fin s' m' e') \<Rightarrow> round32 (s \<noteq> s') (m * m') (e + e')
      | (Nan, _) \<Rightarrow> nan32
      | (_, Nan) \<Rightarrow> nan32
      | (Inf s, Inf s') \<Rightarrow> pack (s \<noteq> s') (255 * 2 ^ 23)
      | (Inf s, Fin s' m' e') \<Rightarrow> if m' = 0 then nan32 else pack (s \<noteq> s') (255 * 2 ^ 23)
      | (Fin s m e, Inf s') \<Rightarrow> if m = 0 then nan32 else pack (s \<noteq> s') (255 * 2 ^ 23))"

text \<open>The quotient to at least 27 bits, with the lowest bit set when the division is not exact.\<close>

definition fdiv :: "u32 \<Rightarrow> u32 \<Rightarrow> u32" where
  "fdiv x y =
     (case (decode x, decode y) of
        (Fin s m e, Fin s' m' e') \<Rightarrow>
          if m' = 0 then (if m = 0 then nan32 else pack (s \<noteq> s') (255 * 2 ^ 23))
          else let n = m * 2 ^ 50 in
               round32 (s \<noteq> s') (2 * (n div m') + (if n mod m' = 0 then 0 else 1)) (e - e' - 51)
      | (Nan, _) \<Rightarrow> nan32
      | (_, Nan) \<Rightarrow> nan32
      | (Inf s, Inf s') \<Rightarrow> nan32
      | (Inf s, Fin s' m' e') \<Rightarrow> pack (s \<noteq> s') (255 * 2 ^ 23)
      | (Fin s m e, Inf s') \<Rightarrow> pack (s \<noteq> s') 0)"

text \<open>Integer square roots, and \<^verbatim>\<open>sqrtf\<close> with a sticky bit as in division; \<^verbatim>\<open>fabsf\<close>.\<close>

function isqrt :: "int \<Rightarrow> int" where
  "isqrt n = (if n \<le> 0 then 0 else let r = 2 * isqrt (n div 4) in if (r + 1) * (r + 1) \<le> n then r + 1 else r)"
  by pat_completeness auto
termination
  by (relation "measure nat") auto

declare isqrt.simps [simp del]

definition fsqrt :: "u32 \<Rightarrow> u32" where
  "fsqrt x =
     (case decode x of
        Nan \<Rightarrow> nan32
      | Inf s \<Rightarrow> if s then nan32 else x
      | Fin s m e \<Rightarrow>
          if m = 0 then x
          else if s then nan32
          else let m1 = (if even e then m else 2 * m); e1 = (if even e then e else e - 1);
                   n = m1 * 2 ^ 60; r = isqrt n in
               round32 False (2 * r + (if r * r = n then 0 else 1)) ((e1 - 60) div 2 - 1))"

definition fabs32 :: "u32 \<Rightarrow> u32" where
  "fabs32 x = x AND 0x7fffffff"

section \<open>Comparison and conversion\<close>

fun fval_less :: "fval \<Rightarrow> fval \<Rightarrow> bool" where
  "fval_less Nan _ = False"
| "fval_less _ Nan = False"
| "fval_less (Inf s) (Inf s') = (s \<and> \<not> s')"
| "fval_less (Inf s) (Fin _ _ _) = s"
| "fval_less (Fin _ _ _) (Inf s') = (\<not> s')"
| "fval_less (Fin s m e) (Fin s' m' e') =
     (let q = min e e' in signed_int s m * 2 ^ nat (e - q) < signed_int s' m' * 2 ^ nat (e' - q))"

definition is_nan :: "u32 \<Rightarrow> bool" where
  "is_nan x = (decode x = Nan)"

definition flt :: "u32 \<Rightarrow> u32 \<Rightarrow> bool" where
  "flt x y = fval_less (decode x) (decode y)"

definition fle :: "u32 \<Rightarrow> u32 \<Rightarrow> bool" where
  "fle x y \<longleftrightarrow> \<not> is_nan x \<and> \<not> is_nan y \<and> \<not> flt y x"

definition feq :: "u32 \<Rightarrow> u32 \<Rightarrow> bool" where
  "feq x y \<longleftrightarrow> fle x y \<and> fle y x"

text \<open>\<^verbatim>\<open>(float) i\<close>, and \<^verbatim>\<open>(int) x\<close>, which C leaves undefined outside the range of \<^verbatim>\<open>int\<close>.\<close>

definition of_int32 :: "int \<Rightarrow> u32" where
  "of_int32 i = round32 (i < 0) \<bar>i\<bar> 0"

definition to_int32 :: "u32 \<Rightarrow> fault + int" where
  "to_int32 x =
     (case decode x of
        Fin s m e \<Rightarrow>
          let i = signed_int s (if 0 \<le> e then m * 2 ^ nat e else m div 2 ^ nat (- e)) in
          if - (2 ^ 31) \<le> i \<and> i < 2 ^ 31 then Inr i else Inl Undefined
      | _ \<Rightarrow> Inl Undefined)"

section \<open>The values\<close>

text \<open>The real number of a finite value.\<close>

fun fin_value :: "fval \<Rightarrow> real" where
  "fin_value (Fin s m e) = of_int (signed_int s m) * 2 powi e"
| "fin_value _ = 0"

definition is_fin :: "u32 \<Rightarrow> bool" where
  "is_fin x \<longleftrightarrow> (\<exists>s m e. decode x = Fin s m e)"

definition real_of :: "u32 \<Rightarrow> real" where
  "real_of x = fin_value (decode x)"

lemma scale_exponent:
  assumes "q \<le> e"
  shows "of_int (a * 2 ^ nat (e - q)) * (2 powi q :: real) = of_int a * 2 powi e"
proof -
  have "(2 :: real) ^ nat (e - q) = 2 powi (e - q)" using assms by (simp add: power_int_def)
  then show ?thesis by (simp add: power_int_diff)
qed

lemma flt_real:
  assumes "is_fin x" and "is_fin y"
  shows "flt x y \<longleftrightarrow> real_of x < real_of y"
proof -
  obtain s m e s' m' e' where d: "decode x = Fin s m e" "decode y = Fin s' m' e'" using assms by (auto simp: is_fin_def)
  define q where "q = min e e'"
  have "flt x y \<longleftrightarrow> of_int (signed_int s m * 2 ^ nat (e - q)) < (of_int (signed_int s' m' * 2 ^ nat (e' - q)) :: real)"
    unfolding of_int_less_iff flt_def d by (simp add: q_def Let_def)
  also have "\<dots> \<longleftrightarrow> of_int (signed_int s m * 2 ^ nat (e - q)) * (2 powi q) < (of_int (signed_int s' m' * 2 ^ nat (e' - q)) * 2 powi q :: real)"
    by (rule mult_less_cancel_right_pos [symmetric]) simp
  also have "\<dots> \<longleftrightarrow> real_of x < real_of y"
    unfolding real_of_def d fin_value.simps
    by (subst scale_exponent, simp add: q_def, subst scale_exponent, simp_all add: q_def)
  finally show ?thesis .
qed

lemma fle_real: "is_fin x \<Longrightarrow> is_fin y \<Longrightarrow> fle x y \<longleftrightarrow> real_of x \<le> real_of y"
  using flt_real [of y x] by (auto simp: fle_def is_nan_def is_fin_def)

section \<open>Integers are exact up to 24 bits\<close>

lemma bit_length_bounds: "0 < m \<Longrightarrow> 0 < bit_length m \<and> 2 ^ nat (bit_length m - 1) \<le> m \<and> m < 2 ^ nat (bit_length m)"
proof (induction m rule: bit_length.induct)
  case (1 m)
  show ?case
  proof (cases "m = 1")
    case True
    then show ?thesis by (simp add: bit_length.simps)
  next
    case False
    then have "0 < m div 2" using 1(2) by auto
    then have ih: "0 < bit_length (m div 2)" "2 ^ nat (bit_length (m div 2) - 1) \<le> m div 2" "m div 2 < 2 ^ nat (bit_length (m div 2))"
      using 1 by auto
    have b: "bit_length m = 1 + bit_length (m div 2)" using 1(2) by (subst bit_length.simps) simp
    have "nat (bit_length m - 1) = Suc (nat (bit_length (m div 2) - 1))" "nat (bit_length m) = Suc (nat (bit_length (m div 2)))"
      using b ih(1) by auto
    then have "(2 :: int) ^ nat (bit_length m - 1) = 2 * 2 ^ nat (bit_length (m div 2) - 1)" "(2 :: int) ^ nat (bit_length m) = 2 * 2 ^ nat (bit_length (m div 2))"
      by simp_all
    moreover have "m = 2 * (m div 2) + m mod 2" "0 \<le> m mod 2" "m mod 2 < 2" by simp_all
    ultimately show ?thesis using b ih by linarith
  qed
qed

lemma decode_pack:
  assumes "0 \<le> n" and "n < 2 ^ 31"
  shows "decode (pack s n) =
    (let e = n div 2 ^ 23; f = n mod 2 ^ 23 in
     if e = 255 then (if f = 0 then Inf s else Nan) else if e = 0 then Fin s f (- 149) else Fin s (f + 2 ^ 23) (e - 150))"
proof -
  define w :: u32 where "w = of_int n"
  have u: "uint w = n" using assms by (simp add: w_def take_bit_eq_mod uint_word_of_int)
  have self: "take_bit 31 n = n" using assms by (simp add: take_bit_int_eq_self)
  have lim: "k < 31" if "bit n k" for k using that bit_take_bit_iff [of 31 n k] unfolding self by blast
  have "bit w k \<longleftrightarrow> k < 32 \<and> bit n k" for k by (simp add: w_def bit_word_of_int_iff)
  then have hi: "bit w k \<longleftrightarrow> k < 31 \<and> bit n k" for k using lim [of k] by fastforce
  have m8: "(0xff :: u32) = mask 8" and m23: "(0x7fffff :: u32) = mask 23" by (simp_all add: mask_eq_exp_minus_1)
  define p where "p = pack s n"
  have top: "bit (0x80000000 :: u32) k \<longleftrightarrow> k = 31" for k
    using bit_push_bit_iff [of 31 "1 :: u32" k] by (auto simp: bit_simps)
  have bits: "bit p k \<longleftrightarrow> (s \<and> k = 31) \<or> bit w k" for k
    unfolding p_def pack_def w_def [symmetric]
    by (cases s) (simp_all only: if_True if_False bit_or_iff or.left_neutral top simp_thms)
  have b: "bit p 31 = s" by (simp add: bits hi)
  have "drop_bit 23 p AND 0xff = drop_bit 23 w"
    unfolding m8 by (rule bit_word_eqI) (auto simp: bit_and_iff bit_drop_bit_eq bit_mask_iff bits hi)
  then have e: "uint (drop_bit 23 p AND 0xff) = n div 2 ^ 23"
    by (simp add: drop_bit_eq_div uint_div u)
  have "p AND 0x7fffff = w AND mask 23"
    unfolding m23 by (rule bit_word_eqI) (auto simp: bit_and_iff bit_mask_iff bits)
  then have f: "uint (p AND 0x7fffff) = n mod 2 ^ 23"
    by (simp add: uint_mod u take_bit_eq_mod flip: take_bit_eq_mask)
  show ?thesis unfolding decode_def p_def [symmetric] b e f by simp
qed

lemma div_mod_offset:
  fixes r d :: int
  assumes "0 \<le> r" and "r < d"
  shows "(c * d + r) div d = c" "(c * d + r) mod d = r"
  using assms by auto

lemma of_int32_decode:
  assumes "\<bar>i\<bar> < 2 ^ 24"
  obtains k where "decode (of_int32 i) = Fin (i < 0) (\<bar>i\<bar> * 2 ^ k) (- int k)"
proof (cases "i = 0")
  case True
  then have "decode (of_int32 i) = Fin (i < 0) (\<bar>i\<bar> * 2 ^ 149) (- int 149)"
    using decode_pack [of 0 False] by (simp add: of_int32_def round32_def Let_def)
  then show ?thesis by (rule that)
next
  case False
  define m where "m = \<bar>i\<bar>"
  define b where "b = bit_length m"
  have m: "0 < m" "m < 2 ^ 24" using False assms by (auto simp: m_def)
  note bl = bit_length_bounds [OF m(1), folded b_def]
  have b24: "b \<le> 24"
  proof (rule ccontr)
    assume "\<not> b \<le> 24"
    then have "(2 :: int) ^ 24 \<le> 2 ^ nat (b - 1)" by (intro power_increasing) auto
    then show False using bl m(2) by linarith
  qed
  define k where "k = nat (24 - b)"
  have k: "b = 24 - int k" "k < 24" using b24 bl by (auto simp: k_def)
  define m1 where "m1 = m * 2 ^ k"
  have "(2 :: int) ^ 23 = 2 ^ nat (b - 1) * 2 ^ k" "(2 :: int) ^ 24 = 2 ^ nat b * 2 ^ k"
    using k by (simp_all add: power_add [symmetric] nat_diff_distrib)
  then have m1: "2 ^ 23 \<le> m1" "m1 < 2 ^ 24" using bl unfolding m1_def by (metis mult_right_mono zero_le_numeral zero_le_power, metis mult_strict_right_mono zero_less_numeral zero_less_power)
  have eq: "of_int32 i = pack (i < 0) ((150 - int k) * 2 ^ 23 + (m1 - 2 ^ 23))"
    using m m1 k b24 unfolding of_int32_def round32_def m_def [symmetric] b_def [symmetric] Let_def
    by (simp add: m1_def)
  have n: "((150 - int k) * 2 ^ 23 + (m1 - 2 ^ 23)) div 2 ^ 23 = 150 - int k" "((150 - int k) * 2 ^ 23 + (m1 - 2 ^ 23)) mod 2 ^ 23 = m1 - 2 ^ 23"
    by (rule div_mod_offset(1), use m1 in simp, use m1 in simp, rule div_mod_offset(2), use m1 in simp, use m1 in simp)
  have "decode (of_int32 i) = Fin (i < 0) m1 (- int k)"
    unfolding eq using decode_pack [of "(150 - int k) * 2 ^ 23 + (m1 - 2 ^ 23)" "i < 0"] n m1 k(2) by (simp add: Let_def)
  then show ?thesis using that unfolding m1_def m_def by blast
qed

lemma of_int32_exact:
  assumes "\<bar>i\<bar> < 2 ^ 24"
  shows "is_fin (of_int32 i) \<and> real_of (of_int32 i) = of_int i"
proof -
  obtain k where "decode (of_int32 i) = Fin (i < 0) (\<bar>i\<bar> * 2 ^ k) (- int k)" using of_int32_decode [OF assms] .
  then show ?thesis by (auto simp: is_fin_def real_of_def signed_int_def power_int_minus)
qed

text \<open>Rounding depends on the value only, so small sums of small integers are exact.\<close>

lemma bit_length_double: "0 < m \<Longrightarrow> bit_length (2 * m) = bit_length m + 1"
  by (subst bit_length.simps) simp

lemma bit_length_shift: "0 < m \<Longrightarrow> bit_length (m * 2 ^ j) = bit_length m + int j"
proof (induction j)
  case (Suc j)
  then show ?case using bit_length_double [of "m * 2 ^ j"] by (simp add: mult.left_commute)
qed simp

lemma round_shift_scale: "round_shift (m * 2 ^ j) (k + j) = round_shift m k"
proof (cases "k = 0")
  case False
  have p: "(0 :: int) < 2 ^ j" by simp
  have d: "m * 2 ^ j div 2 ^ (k + j) = m div 2 ^ k" "m * 2 ^ j mod 2 ^ (k + j) = (m mod 2 ^ k) * 2 ^ j"
    by (simp_all add: power_add mult_mod_left)
  have h: "(2 :: int) ^ (k + j - 1) = 2 ^ (k - 1) * 2 ^ j" using False by (simp add: power_add [symmetric])
  show ?thesis using False unfolding round_shift_def Let_def d h by simp
qed (simp add: round_shift_def mult_div_mod_eq Let_def)

lemma round32_scale:
  assumes "0 < m"
  shows "round32 s (m * 2 ^ j) (e - int j) = round32 s m e"
proof -
  define q where "q = max (e + bit_length m - 24) (- 149)"
  have q: "max (e - int j + bit_length (m * 2 ^ j) - 24) (- 149) = q" using assms by (simp add: q_def bit_length_shift)
  have "(if q \<le> e - int j then m * 2 ^ j * 2 ^ nat (e - int j - q) else round_shift (m * 2 ^ j) (nat (q - (e - int j)))) =
    (if q \<le> e then m * 2 ^ nat (e - q) else round_shift m (nat (q - e)))"
  proof -
    consider "q \<le> e - int j" | "e - int j < q" "q \<le> e" | "e < q" by linarith
    then show ?thesis
    proof cases
      case 1
      then have "nat (e - q) = j + nat (e - int j - q)" by auto
      then show ?thesis using 1 by (simp add: power_add mult.assoc)
    next
      case 2
      define k where "k = nat (q - (e - int j))"
      have j: "j = k + nat (e - q)" using 2 by (auto simp: k_def)
      have "round_shift (m * 2 ^ j) k = m * 2 ^ nat (e - q)"
        using round_shift_scale [of "m * 2 ^ nat (e - q)" k 0] by (simp add: j power_add mult.assoc mult.left_commute round_shift_def)
      then show ?thesis using 2 by (simp add: k_def)
    next
      case 3
      then have "nat (q - (e - int j)) = nat (q - e) + j" by auto
      then show ?thesis using 3 round_shift_scale by simp
    qed
  qed
  then show ?thesis using assms unfolding round32_def q q_def [symmetric] by simp
qed

lemma fadd_of_int32:
  assumes "0 \<le> a" and "0 \<le> b" and "a + b < 2 ^ 24"
  shows "fadd (of_int32 a) (of_int32 b) = of_int32 (a + b)"
proof -
  obtain k where k: "decode (of_int32 a) = Fin False (a * 2 ^ k) (- int k)" using of_int32_decode [of a] assms by auto
  obtain l where l: "decode (of_int32 b) = Fin False (b * 2 ^ l) (- int l)" using of_int32_decode [of b] assms by auto
  define n where "n = max k l"
  have q: "min (- int k) (- int l) = - int n" by (simp add: n_def)
  have n: "k + (n - k) = n" "l + (n - l) = n" "nat (int n - int k) = n - k" "nat (int n - int l) = n - l" by (auto simp: n_def)
  have v: "a * 2 ^ k * 2 ^ (n - k) + b * 2 ^ l * 2 ^ (n - l) = (a + b) * 2 ^ n"
    unfolding mult.assoc power_add [symmetric] n by (simp add: distrib_right)
  have "fadd (of_int32 a) (of_int32 b) = (if (a + b) * 2 ^ n = 0 then pack False 0 else round32 False ((a + b) * 2 ^ n) (0 - int n))"
    using assms unfolding fadd_def k l prod.case fval.case Let_def q by (simp add: signed_int_def n v mult_less_0_iff)
  also have "\<dots> = of_int32 (a + b)"
    using assms round32_scale [of "a + b" False n 0] by (cases "a + b = 0") (auto simp: of_int32_def round32_def)
  finally show ?thesis .
qed

text \<open>\<^verbatim>\<open>(int) x\<close> rounds towards zero.\<close>

lemma decode_mantissa: "decode x = Fin s m e \<Longrightarrow> 0 \<le> m"
  by (auto simp: decode_def Let_def split: if_splits)

lemma trunc_real:
  assumes "decode x = Fin s m e"
  shows "\<bar>of_int (signed_int s (if 0 \<le> e then m * 2 ^ nat e else m div 2 ^ nat (- e))) :: real\<bar> \<le> \<bar>real_of x\<bar>"
    "\<bar>real_of x\<bar> < \<bar>of_int (signed_int s (if 0 \<le> e then m * 2 ^ nat e else m div 2 ^ nat (- e)))\<bar> + 1"
    "0 \<le> real_of x \<longleftrightarrow> \<not> s \<or> m = 0"
proof -
  note m = decode_mantissa [OF assms]
  define t where "t = (if 0 \<le> e then m * 2 ^ nat e else m div 2 ^ nat (- e))"
  define v :: real where "v = of_int m * 2 powi e"
  have r: "\<bar>real_of x\<bar> = v" "real_of x = (if s then - v else v)" using m by (auto simp: real_of_def assms v_def signed_int_def abs_mult)
  have t0: "0 \<le> t" using m by (simp add: t_def pos_imp_zdiv_nonneg_iff)
  have t: "of_int t \<le> v \<and> v < of_int t + 1"
  proof (cases "0 \<le> e")
    case True
    then have "of_int t = v" by (simp add: t_def v_def power_int_def)
    then show ?thesis by simp
  next
    case False
    define k where "k = nat (- e)"
    have "v = of_int m / of_int (2 ^ k)" using False by (simp add: v_def power_int_def k_def field_simps)
    then have "t = \<lfloor>v\<rfloor>" using False by (simp add: t_def k_def floor_divide_of_int_eq del: of_int_power)
    then show ?thesis by linarith
  qed
  have v0: "0 \<le> v" "v = 0 \<longleftrightarrow> m = 0" using m by (auto simp: v_def)
  show "\<bar>of_int (signed_int s (if 0 \<le> e then m * 2 ^ nat e else m div 2 ^ nat (- e))) :: real\<bar> \<le> \<bar>real_of x\<bar>"
    "\<bar>real_of x\<bar> < \<bar>of_int (signed_int s (if 0 \<le> e then m * 2 ^ nat e else m div 2 ^ nat (- e)))\<bar> + 1"
    unfolding t_def [symmetric] r(1) using t t0 by (auto simp: signed_int_def)
  show "0 \<le> real_of x \<longleftrightarrow> \<not> s \<or> m = 0" using r(2) v0 by auto
qed

section \<open>Small products\<close>

text \<open>Rounding a small value and converting it to an integer.\<close>

lemma round_shift_le:
  assumes "0 \<le> m" and "m < 2 ^ (24 + k)"
  shows "0 \<le> round_shift m k \<and> round_shift m k \<le> 2 ^ 24"
proof -
  have "\<not> 2 ^ 24 \<le> m div 2 ^ k"
  proof
    assume "2 ^ 24 \<le> m div 2 ^ k"
    then have "2 ^ 24 * 2 ^ k \<le> (m div 2 ^ k) * 2 ^ k" by (intro mult_right_mono) auto
    also have "\<dots> \<le> m" using div_mult_mod_eq [of m "2 ^ k"] pos_mod_sign [of "2 ^ k" m, OF zero_less_power [OF zero_less_numeral]] by linarith
    finally show False using assms(2) by (simp add: power_add)
  qed
  then have "m div 2 ^ k < 2 ^ 24" by simp
  moreover have "0 \<le> m div 2 ^ k" using assms(1) by (simp add: pos_imp_zdiv_nonneg_iff)
  ultimately show ?thesis using assms by (auto simp: round_shift_def Let_def)
qed

lemma round32_normal:
  assumes "0 < m"
  obtains m2 q2 where "0 \<le> m2" and "m2 < 2 ^ 24" and "- 149 \<le> q2" and "q2 \<le> max (e + bit_length m - 23) (- 148)"
    and "round32 s m e = (if 104 < q2 then pack s (255 * 2 ^ 23) else if m2 < 2 ^ 23 then pack s m2 else pack s ((q2 + 150) * 2 ^ 23 + (m2 - 2 ^ 23)))"
proof -
  define b where "b = bit_length m"
  have b: "m < 2 ^ nat b" "0 < b" using bit_length_bounds [OF assms] by (auto simp: b_def)
  define q where "q = max (e + b - 24) (- 149)"
  define m1 where "m1 = (if q \<le> e then m * 2 ^ nat (e - q) else round_shift m (nat (q - e)))"
  have m1: "0 \<le> m1 \<and> m1 \<le> 2 ^ 24"
  proof (cases "q \<le> e")
    case True
    have "m * 2 ^ nat (e - q) \<le> 2 ^ nat b * 2 ^ nat (e - q)" using b(1) by (intro mult_right_mono) auto
    also have "\<dots> = 2 ^ nat (b + e - q)" using True b(2) by (simp add: power_add [symmetric] nat_add_distrib [symmetric] algebra_simps)
    also have "\<dots> \<le> 2 ^ 24" by (intro power_increasing) (auto simp: q_def)
    finally show ?thesis using True assms by (simp add: m1_def)
  next
    case False
    have "nat b \<le> 24 + nat (q - e)" using False by (auto simp: q_def)
    then have "(2 :: int) ^ nat b \<le> 2 ^ (24 + nat (q - e))" by (intro power_increasing) auto
    then have "m < 2 ^ (24 + nat (q - e))" using b(1) by linarith
    then show ?thesis using round_shift_le [of m "nat (q - e)"] assms False by (simp add: m1_def)
  qed
  have eq: "round32 s m e = (case (if m1 = 2 ^ 24 then (2 ^ 23, q + 1) else (m1, q)) of (m2, q2) \<Rightarrow>
      if 104 < q2 then pack s (255 * 2 ^ 23) else if m2 < 2 ^ 23 then pack s m2 else pack s ((q2 + 150) * 2 ^ 23 + (m2 - 2 ^ 23)))"
    using assms unfolding round32_def b_def [symmetric] q_def [symmetric] m1_def [symmetric] Let_def by simp
  show ?thesis
  proof (cases "m1 = 2 ^ 24")
    case True
    then show ?thesis using eq by (intro that [of "2 ^ 23" "q + 1"]) (auto simp: q_def b_def)
  next
    case False
    then show ?thesis using eq m1 by (intro that [of m1 q]) (auto simp: q_def b_def)
  qed
qed

lemma decode_packed:
  assumes "0 \<le> m" and "m < 2 ^ 24" and "- 149 \<le> q" and "q \<le> 104"
  shows "\<exists>e. e \<le> q \<and> decode (if m < 2 ^ 23 then pack s m else pack s ((q + 150) * 2 ^ 23 + (m - 2 ^ 23))) = Fin s m e"
proof (cases "m < 2 ^ 23")
  case True
  then show ?thesis using decode_pack [of m s] assms by (simp add: Let_def)
next
  case False
  have n: "((q + 150) * 2 ^ 23 + (m - 2 ^ 23)) div 2 ^ 23 = q + 150" "((q + 150) * 2 ^ 23 + (m - 2 ^ 23)) mod 2 ^ 23 = m - 2 ^ 23"
    using False assms(2) by (intro div_mod_offset; simp)+
  show ?thesis using decode_pack [of "(q + 150) * 2 ^ 23 + (m - 2 ^ 23)" s] n False assms by (simp add: Let_def)
qed

lemma decode_pack_inf: "decode (pack s (255 * 2 ^ 23)) = Inf s"
  using decode_pack [of "255 * 2 ^ 23" s] by (simp add: Let_def)

lemma round32_not_nan: "0 \<le> m \<Longrightarrow> decode (round32 s m e) \<noteq> Nan"
proof (cases "m = 0")
  case True
  then show ?thesis using decode_pack [of 0 s] by (simp add: round32_def Let_def)
next
  case False
  assume "0 \<le> m"
  with False have "0 < m" by simp
  then obtain m2 q2 where n: "0 \<le> m2" "m2 < 2 ^ 24" "- 149 \<le> q2"
    "round32 s m e = (if 104 < q2 then pack s (255 * 2 ^ 23) else if m2 < 2 ^ 23 then pack s m2 else pack s ((q2 + 150) * 2 ^ 23 + (m2 - 2 ^ 23)))"
    by (rule round32_normal) blast
  show ?thesis
  proof (cases "104 < q2")
    case True
    then show ?thesis unfolding n(4) by (simp only: if_True decode_pack_inf fval.distinct not_False_eq_True)
  next
    case False
    then show ?thesis using decode_packed [OF n(1-3), of s] unfolding n(4) by auto
  qed
qed

lemma to_int32_round32:
  assumes "0 \<le> m" and "m \<noteq> 0 \<Longrightarrow> e + bit_length m \<le> 23"
  shows "\<exists>i. to_int32 (round32 s m e) = Inr i"
proof (cases "m = 0")
  case True
  then show ?thesis using decode_pack [of 0 s] by (simp add: round32_def to_int32_def signed_int_def)
next
  case False
  with assms have "0 < m" "e + bit_length m \<le> 23" by auto
  from this(1) obtain m2 q2 where n: "0 \<le> m2" "m2 < 2 ^ 24" "- 149 \<le> q2" "q2 \<le> max (e + bit_length m - 23) (- 148)"
    "round32 s m e = (if 104 < q2 then pack s (255 * 2 ^ 23) else if m2 < 2 ^ 23 then pack s m2 else pack s ((q2 + 150) * 2 ^ 23 + (m2 - 2 ^ 23)))"
    by (rule round32_normal) blast
  have q2: "q2 \<le> 0" using n(4) \<open>e + bit_length m \<le> 23\<close> by simp
  obtain e' where "decode (round32 s m e) = Fin s m2 e'" "e' \<le> 0"
    using decode_packed [OF n(1-3), of s] q2 unfolding n(5) by auto
  moreover have "m2 div 2 ^ nat (- e') \<le> m2" "0 \<le> m2 div 2 ^ nat (- e')" using n(1) zdiv_mono2 [of m2 1 "2 ^ nat (- e')"] by (simp_all add: pos_imp_zdiv_nonneg_iff)
  ultimately show ?thesis using n(2) by (auto simp: to_int32_def signed_int_def Let_def)
qed

lemma product_to_int32:
  assumes "0 \<le> a" and "a < 256" and "is_fin x" and "0 \<le> real_of x" and "real_of x \<le> 1"
  shows "\<exists>i. to_int32 (fmul (of_int32 a) x) = Inr i"
proof -
  obtain k where k: "decode (of_int32 a) = Fin False (a * 2 ^ k) (- int k)" using of_int32_decode [of a] assms by auto
  obtain s m e where x: "decode x = Fin s m e" using assms(3) by (auto simp: is_fin_def)
  have m: "0 \<le> m" using decode_mantissa [OF x] .
  have v: "of_int m * (2 powi e :: real) \<le> 1"
  proof (cases s)
    case True
    then have "of_int m * (2 powi e :: real) \<le> 0" using assms(4) by (simp add: real_of_def x signed_int_def)
    then show ?thesis by linarith
  qed (use assms(5) in \<open>simp add: real_of_def x signed_int_def\<close>)
  have "e - int k + bit_length (a * 2 ^ k * m) \<le> 23" if nz: "a * 2 ^ k * m \<noteq> 0"
  proof -
    define n where "n = a * 2 ^ k * m"
    define b where "b = bit_length n"
    have "0 \<le> n" using m assms(1) by (simp add: n_def)
    with nz have n: "0 < n" unfolding n_def by linarith
    have b: "0 < b" "2 ^ nat (b - 1) \<le> n" using bit_length_bounds [OF n] by (auto simp: b_def)
    have "(2 :: real) powi (b - 1) = of_int (2 ^ nat (b - 1))" using b(1) by (simp add: power_int_def)
    also have "\<dots> \<le> of_int n" using b(2) by (simp only: of_int_le_iff)
    finally have "2 powi (b - 1) * (2 powi (e - int k) :: real) \<le> of_int n * 2 powi (e - int k)" by (rule mult_right_mono) simp
    also have "\<dots> = of_int a * (of_int m * 2 powi e)" by (simp add: n_def power_int_diff)
    also have "\<dots> \<le> 256 * 1"
    proof (rule mult_mono)
      show "(of_int a :: real) \<le> 256" using assms(2) by linarith
    qed (use v m in simp_all)
    finally have "(2 :: real) powi (b - 1 + (e - int k)) \<le> 2 powi 8" by (simp add: power_int_add)
    then have "b - 1 + (e - int k) \<le> 8" using power_int_le_imp_le_exp [of "2 :: real" "b - 1 + (e - int k)" 8] by linarith
    then show ?thesis by (simp add: b_def n_def)
  qed
  then show ?thesis
    using to_int32_round32 [of "a * 2 ^ k * m" "e - int k" s] assms(1) m by (simp add: fmul_def k x)
qed

text \<open>The difference of numbers is a number unless they are equal infinities.\<close>

lemma decode_fneg: "decode (fneg x) = (case decode x of Nan \<Rightarrow> Nan | Inf s \<Rightarrow> Inf (\<not> s) | Fin s m e \<Rightarrow> Fin (\<not> s) m e)"
proof -
  have top: "bit (0x80000000 :: u32) k \<longleftrightarrow> k = 31" for k
    using bit_push_bit_iff [of 31 "1 :: u32" k] by (auto simp: bit_simps)
  have m: "(0xff :: u32) = mask 8" "(0x7fffff :: u32) = mask 23" by (simp_all add: mask_eq_exp_minus_1)
  have bits: "bit (fneg x) k \<longleftrightarrow> bit x k \<noteq> (k = 31)" for k by (simp only: fneg_def bit_xor_iff top)
  then have "bit (fneg x) 31 \<longleftrightarrow> \<not> bit x 31" by simp
  moreover have "drop_bit 23 (fneg x) AND 0xff = drop_bit 23 x AND 0xff"
    unfolding m by (rule bit_word_eqI) (auto simp: bits bit_and_iff bit_drop_bit_eq bit_mask_iff)
  moreover have "fneg x AND 0x7fffff = x AND 0x7fffff"
    unfolding m by (rule bit_word_eqI) (auto simp: bits bit_and_iff bit_mask_iff)
  ultimately show ?thesis by (simp add: decode_def Let_def)
qed

lemma fsub_not_nan:
  assumes "decode x \<noteq> Nan" and "decode y \<noteq> Nan" and "\<And>s. decode x = Inf s \<Longrightarrow> decode y \<noteq> Inf s"
  shows "decode (fsub x y) \<noteq> Nan"
proof (cases "decode x")
  case (Fin s m e)
  show ?thesis
  proof (cases "decode y")
    case (Fin s' m' e')
    then show ?thesis using \<open>decode x = Fin s m e\<close> round32_not_nan decode_pack [of 0 "s \<and> \<not> s'"]
      by (auto simp: fsub_def fadd_def decode_fneg Let_def)
  qed (use Fin assms(2) in \<open>auto simp: fsub_def fadd_def decode_fneg\<close>)
qed (use assms in \<open>auto simp: fsub_def fadd_def decode_fneg split: fval.splits\<close>)

end
