(* ===== verification/Pixels.thy ===== *)
theory Pixels
  imports Gfx_Tables Float32
begin

text \<open>
  The drawing primitives of the ART shim on a bitmap's pixel array: conversion of coordinates,
  filled rectangles and circles, the test for mostly black bitmaps. Coordinates are the C
  \<^verbatim>\<open>int\<close>s; an access outside the array is the fault \<open>Overrun\<close>.
\<close>

section \<open>Pixel arrays\<close>

definition put_px :: "u32 list \<Rightarrow> int \<Rightarrow> u32 \<Rightarrow> fault + u32 list" where
  "put_px ps i v = (if 0 \<le> i \<and> i < int (length ps) then Inr (ps[nat i := v]) else Inl Overrun)"

definition get_px :: "u32 list \<Rightarrow> int \<Rightarrow> fault + u32" where
  "get_px ps i = (if 0 \<le> i \<and> i < int (length ps) then Inr (ps ! nat i) else Inl Overrun)"

text \<open>Read, change and write one pixel.\<close>

definition mod_px :: "(u32 \<Rightarrow> u32) \<Rightarrow> u32 list \<Rightarrow> int \<Rightarrow> fault + u32 list" where
  "mod_px f ps i = rbind (get_px ps i) (\<lambda>v. put_px ps i (f v))"

lemma put_px_mod: "put_px ps i c = mod_px (\<lambda>_. c) ps i"
  by (simp add: mod_px_def put_px_def get_px_def)

lemma mod_px_nat: "i < length ps \<Longrightarrow> mod_px f ps (int i) = Inr (ps[i := f (ps ! i)])"
  by (simp add: mod_px_def put_px_def get_px_def)

abbreviation bw :: "bitmap_state \<Rightarrow> int" where "bw b \<equiv> sint (b_width b)"
abbreviation bh :: "bitmap_state \<Rightarrow> int" where "bh b \<equiv> sint (b_height b)"

definition bitmap_ok :: "bitmap_state \<Rightarrow> bool" where
  "bitmap_ok b \<longleftrightarrow> 0 < bw b \<and> 0 < bh b \<and> (\<exists>ps. pixels b = Some ps \<and> int (length ps) = bw b * bh b)"

text \<open>The pixel at a position of a bitmap.\<close>

definition pixel :: "bitmap_state \<Rightarrow> int \<Rightarrow> int \<Rightarrow> u32" where
  "pixel b x y = the (pixels b) ! nat (y * bw b + x)"

section \<open>Operations\<close>

definition muplar_floor_to_int :: "jfloat \<Rightarrow> fault + int" where
  "muplar_floor_to_int v =
     (if is_nan v then Inr 0
      else if fle v 0xc9742400 then Inr (- 1000000)
      else if fle 0x49742400 v then Inr 1000000
      else rbind (to_int32 v) (\<lambda>i. Inr (if flt v (of_int32 i) then i - 1 else i)))"

definition muplar_ceil_to_int :: "jfloat \<Rightarrow> fault + int" where
  "muplar_ceil_to_int v =
     (if is_nan v then Inr 0
      else if fle v 0xc9742400 then Inr (- 1000000)
      else if fle 0x49742400 v then Inr 1000000
      else rbind (to_int32 v) (\<lambda>i. Inr (if flt (of_int32 i) v then i + 1 else i)))"

text \<open>The pixel of a translucent colour over \<open>dst\<close>.\<close>

definition blend_over :: "u32 \<Rightarrow> u32 \<Rightarrow> u32" where
  "blend_over color dst =
     (let alpha = alpha_of color; inv_a = 255 - alpha in
      argb 0xff ((red_of color * alpha + red_of dst * inv_a) div 255)
        ((green_of color * alpha + green_of dst * inv_a) div 255)
        ((blue_of color * alpha + blue_of dst * inv_a) div 255))"

definition muplar_fill_rect :: "int \<Rightarrow> int \<Rightarrow> int \<Rightarrow> int \<Rightarrow> u32 \<Rightarrow> bitmap_state \<Rightarrow> fault + bitmap_state" where
  "muplar_fill_rect l t r bo color b =
     (case pixels b of None \<Rightarrow> Inr b
      | Some ps \<Rightarrow>
          let left = (if l < 0 then 0 else l); top = (if t < 0 then 0 else t);
              right = (if bw b < r then bw b else r); bottom = (if bh b < bo then bh b else bo);
              alpha = alpha_of color in
          if right \<le> left \<or> bottom \<le> top then Inr b
          else if alpha = 0 then Inr b
          else if alpha = 255 then
            rbind (foldM (\<lambda>y. foldM (\<lambda>x ps. put_px ps (y * bw b + x) color) [left..right - 1]) [top..bottom - 1] ps)
              (\<lambda>ps'. Inr (b\<lparr>pixels := Some ps'\<rparr>))
          else
            rbind (foldM (\<lambda>y. foldM (\<lambda>x ps. mod_px (blend_over color) ps (y * bw b + x)) [left..right - 1]) [top..bottom - 1] ps)
              (\<lambda>ps'. Inr (b\<lparr>pixels := Some ps'\<rparr>)))"

text \<open>The centre of the pixel is inside the circle; \<^verbatim>\<open>0x3f000000\<close> is \<^verbatim>\<open>0.5f\<close>.\<close>

definition in_circle :: "jfloat \<Rightarrow> jfloat \<Rightarrow> jfloat \<Rightarrow> int \<Rightarrow> int \<Rightarrow> bool" where
  "in_circle cx cy r2 x y =
     (let dx = fsub (fadd (of_int32 x) 0x3f000000) cx; dy = fsub (fadd (of_int32 y) 0x3f000000) cy in
      fle (fadd (fmul dx dx) (fmul dy dy)) r2)"

definition muplar_fill_circle :: "jfloat \<Rightarrow> jfloat \<Rightarrow> jfloat \<Rightarrow> u32 \<Rightarrow> bitmap_state \<Rightarrow> fault + bitmap_state" where
  "muplar_fill_circle cx cy radius color b =
     rbind (muplar_floor_to_int (fsub cx radius)) (\<lambda>l.
     rbind (muplar_floor_to_int (fsub cy radius)) (\<lambda>t.
     rbind (muplar_ceil_to_int (fadd cx radius)) (\<lambda>r.
     rbind (muplar_ceil_to_int (fadd cy radius)) (\<lambda>bo.
       let r2 = fmul radius radius in
       if fle radius 0 then Inr b
       else
         let left = (if l < 0 then 0 else l); top = (if t < 0 then 0 else t);
             right = (if bw b < r then bw b else r); bottom = (if bh b < bo then bh b else bo) in
         case pixels b of
           None \<Rightarrow> if right \<le> left \<or> bottom \<le> top then Inr b else Inl (Segv 0)
         | Some ps \<Rightarrow>
             rbind (foldM (\<lambda>y. foldM (\<lambda>x ps. if in_circle cx cy r2 x y then put_px ps (y * bw b + x) color else Inr ps)
                 [left..right - 1]) [top..bottom - 1] ps)
               (\<lambda>ps'. Inr (b\<lparr>pixels := Some ps'\<rparr>))))))"

text \<open>The values of a loop variable \<^verbatim>\<open>for (i = a; i < b; i += s)\<close> of type \<^verbatim>\<open>int\<close>, whose
  overflow is undefined.\<close>

function loop_values :: "int \<Rightarrow> int \<Rightarrow> int \<Rightarrow> fault + int list" where
  "loop_values a b s =
     (if a < b \<and> 0 < s then
        if a + s < 2 ^ 31 then rbind (loop_values (a + s) b s) (\<lambda>is. Inr (a # is)) else Inl Undefined
      else Inr [])"
  by pat_completeness auto
termination
  by (relation "measure (\<lambda>(a, b, s). nat (b - a))") auto

declare loop_values.simps [simp del]

text \<open>A sampled pixel over the grey level 238 counts as black when all channels are below 8.\<close>

definition is_black :: "u32 \<Rightarrow> bool" where
  "is_black c =
     (let a = alpha_of c;
          over = (\<lambda>v. if a < 255 then ((v * a + 238 * (255 - a)) div 255) AND 0xff else v) in
      over (red_of c) < 8 \<and> over (green_of c) < 8 \<and> over (blue_of c) < 8)"

definition muplar_bitmap_mostly_black :: "bitmap_state \<Rightarrow> fault + bool" where
  "muplar_bitmap_mostly_black b =
     (case pixels b of None \<Rightarrow> Inr True
      | Some ps \<Rightarrow>
          if bw b \<le> 0 \<or> bh b \<le> 0 then Inr True
          else
            let step_x = max 1 (bw b div 8); step_y = max 1 (bh b div 8) in
            rbind (loop_values (bh b div 8) (bh b) step_y) (\<lambda>ys.
            rbind (loop_values (bw b div 8) (bw b) step_x) (\<lambda>xs.
            rbind (foldM (\<lambda>y. foldM (\<lambda>x (sampled, black).
                rbind (get_px ps (y * bw b + x)) (\<lambda>c. Inr (sampled + 1, if is_black c then black + 1 else black))) xs) ys (0, 0))
              (\<lambda>(sampled, black :: int). Inr (0 < sampled \<and> 60 < black * 100 div (sampled :: int))))))"

section \<open>Coordinates\<close>

lemma million: "is_fin 0x49742400" "real_of 0x49742400 = 1000000" "is_fin 0xc9742400" "real_of 0xc9742400 = - 1000000"
proof -
  have "of_int32 1000000 = 0x49742400" "of_int32 (- 1000000) = 0xc9742400" by code_simp+
  then show "is_fin 0x49742400" "real_of 0x49742400 = 1000000" "is_fin 0xc9742400" "real_of 0xc9742400 = - 1000000"
    using of_int32_exact [of 1000000] of_int32_exact [of "- 1000000"] by simp_all
qed

lemma to_int32_small:
  assumes "is_fin v" and "\<bar>real_of v\<bar> < 1000000"
  obtains i where "to_int32 v = Inr i" and "\<bar>i\<bar> < 1000000" and "\<bar>of_int i\<bar> \<le> \<bar>real_of v\<bar>" and "\<bar>real_of v\<bar> < \<bar>of_int i\<bar> + 1"
    and "0 \<le> real_of v \<Longrightarrow> 0 \<le> i" and "real_of v < 0 \<Longrightarrow> i \<le> 0"
proof -
  obtain s m e where d: "decode v = Fin s m e" using assms(1) by (auto simp: is_fin_def)
  define i where "i = signed_int s (if 0 \<le> e then m * 2 ^ nat e else m div 2 ^ nat (- e))"
  note tr = trunc_real [OF d, folded i_def]
  have lt: "\<bar>i\<bar> < 1000000"
  proof -
    have "\<bar>of_int i :: real\<bar> < 1000000" using tr(1) assms(2) by linarith
    then show ?thesis by linarith
  qed
  moreover have "- (2 ^ 31) \<le> i \<and> i < 2 ^ 31" using lt by auto
  then have "to_int32 v = Inr i" by (simp add: to_int32_def d Let_def i_def [symmetric])
  moreover have "0 \<le> i" if "0 \<le> real_of v"
    using tr(3) that decode_mantissa [OF d] by (auto simp: i_def signed_int_def pos_imp_zdiv_nonneg_iff)
  moreover have "i \<le> 0" if "real_of v < 0"
    using tr(3) that decode_mantissa [OF d] by (auto simp: i_def signed_int_def pos_imp_zdiv_nonneg_iff)
  ultimately show ?thesis using that tr(1,2) by blast
qed

lemma fin_not_nan: "is_fin v \<Longrightarrow> \<not> is_nan v"
  by (auto simp: is_fin_def is_nan_def)

lemma floor_to_int_fin:
  assumes "is_fin v"
  shows "muplar_floor_to_int v = Inr (max (- 1000000) (min 1000000 \<lfloor>real_of v\<rfloor>))"
proof -
  consider "real_of v \<le> - 1000000" | "1000000 \<le> real_of v" | "\<bar>real_of v\<bar> < 1000000" by linarith
  then show ?thesis
  proof cases
    case 1
    then have "\<lfloor>real_of v\<rfloor> \<le> - 1000000" by linarith
    then show ?thesis using 1 fle_real [OF assms million(3)] million(4) fin_not_nan [OF assms] by (simp add: muplar_floor_to_int_def)
  next
    case 2
    then have "1000000 \<le> \<lfloor>real_of v\<rfloor>" by linarith
    moreover have "\<not> real_of v \<le> - 1000000" using 2 by linarith
    ultimately show ?thesis
      using 2 fle_real [OF assms million(3)] fle_real [OF million(1) assms] million(2,4) fin_not_nan [OF assms]
      by (simp add: muplar_floor_to_int_def)
  next
    case 3
    obtain i where i: "to_int32 v = Inr i" "\<bar>i\<bar> < 1000000" "\<bar>of_int i\<bar> \<le> \<bar>real_of v\<bar>" "\<bar>real_of v\<bar> < \<bar>of_int i\<bar> + 1"
      "0 \<le> real_of v \<Longrightarrow> 0 \<le> i" "real_of v < 0 \<Longrightarrow> i \<le> 0" using to_int32_small [OF assms 3] by blast
    note ex = of_int32_exact [of i]
    have fl: "flt v (of_int32 i) \<longleftrightarrow> real_of v < of_int i" using flt_real [OF assms, of "of_int32 i"] ex i(2) by simp
    have "\<lfloor>real_of v\<rfloor> = (if real_of v < of_int i then i - 1 else i)"
      using i(3-6) by (cases "real_of v < 0") (auto simp: floor_eq_iff)
    moreover have "\<not> real_of v \<le> - 1000000" "\<not> 1000000 \<le> real_of v" using 3 by linarith+
    ultimately show ?thesis
      using fle_real [OF assms million(3)] fle_real [OF million(1) assms] million(2,4) fin_not_nan [OF assms] i(1,2) fl
      by (auto simp: muplar_floor_to_int_def)
  qed
qed

lemma ceil_to_int_fin:
  assumes "is_fin v"
  shows "muplar_ceil_to_int v = Inr (max (- 1000000) (min 1000000 \<lceil>real_of v\<rceil>))"
proof -
  consider "real_of v \<le> - 1000000" | "1000000 \<le> real_of v" | "\<bar>real_of v\<bar> < 1000000" by linarith
  then show ?thesis
  proof cases
    case 1
    then have "\<lceil>real_of v\<rceil> \<le> - 1000000" by linarith
    then show ?thesis using 1 fle_real [OF assms million(3)] million(4) fin_not_nan [OF assms] by (simp add: muplar_ceil_to_int_def)
  next
    case 2
    then have "1000000 \<le> \<lceil>real_of v\<rceil>" by linarith
    moreover have "\<not> real_of v \<le> - 1000000" using 2 by linarith
    ultimately show ?thesis
      using 2 fle_real [OF assms million(3)] fle_real [OF million(1) assms] million(2,4) fin_not_nan [OF assms]
      by (simp add: muplar_ceil_to_int_def)
  next
    case 3
    obtain i where i: "to_int32 v = Inr i" "\<bar>i\<bar> < 1000000" "\<bar>of_int i\<bar> \<le> \<bar>real_of v\<bar>" "\<bar>real_of v\<bar> < \<bar>of_int i\<bar> + 1"
      "0 \<le> real_of v \<Longrightarrow> 0 \<le> i" "real_of v < 0 \<Longrightarrow> i \<le> 0" using to_int32_small [OF assms 3] by blast
    note ex = of_int32_exact [of i]
    have fl: "flt (of_int32 i) v \<longleftrightarrow> of_int i < real_of v" using flt_real [of "of_int32 i" v] assms ex i(2) by simp
    have "\<lceil>real_of v\<rceil> = (if of_int i < real_of v then i + 1 else i)"
      using i(3-6) by (cases "real_of v < 0") (auto simp: ceiling_eq_iff)
    moreover have "\<not> real_of v \<le> - 1000000" "\<not> 1000000 \<le> real_of v" using 3 by linarith+
    ultimately show ?thesis
      using fle_real [OF assms million(3)] fle_real [OF million(1) assms] million(2,4) fin_not_nan [OF assms] i(1,2) fl
      by (auto simp: muplar_ceil_to_int_def)
  qed
qed

text \<open>NaN gives 0 and the infinities are clamped.\<close>

definition clamped :: "(real \<Rightarrow> int) \<Rightarrow> jfloat \<Rightarrow> int" where
  "clamped f v = (case decode v of Nan \<Rightarrow> 0 | Inf s \<Rightarrow> if s then - 1000000 else 1000000
      | Fin s m e \<Rightarrow> max (- 1000000) (min 1000000 (f (fin_value (Fin s m e)))))"

lemma to_int_inf:
  assumes "decode v = Inf s"
  shows "muplar_floor_to_int v = Inr (if s then - 1000000 else 1000000)" "muplar_ceil_to_int v = Inr (if s then - 1000000 else 1000000)"
proof -
  obtain a b c a' b' c' where "decode 0xc9742400 = Fin a b c" "decode 0x49742400 = Fin a' b' c'"
    using million by (auto simp: is_fin_def)
  then show "muplar_floor_to_int v = Inr (if s then - 1000000 else 1000000)" "muplar_ceil_to_int v = Inr (if s then - 1000000 else 1000000)"
    using assms by (auto simp: muplar_floor_to_int_def muplar_ceil_to_int_def is_nan_def fle_def flt_def)
qed

lemma floor_to_int_eq: "muplar_floor_to_int v = Inr (clamped floor v)"
proof (cases "decode v")
  case (Fin s m e)
  then show ?thesis using floor_to_int_fin [of v] by (auto simp: clamped_def is_fin_def real_of_def)
qed (simp_all add: to_int_inf clamped_def, simp add: muplar_floor_to_int_def is_nan_def)

lemma ceil_to_int_eq: "muplar_ceil_to_int v = Inr (clamped ceiling v)"
proof (cases "decode v")
  case (Fin s m e)
  then show ?thesis using ceil_to_int_fin [of v] by (auto simp: clamped_def is_fin_def real_of_def)
qed (simp_all add: to_int_inf clamped_def, simp add: muplar_ceil_to_int_def is_nan_def)

text \<open>\<^verbatim>\<open>muplar_floor_to_int\<close> and \<^verbatim>\<open>muplar_ceil_to_int\<close> return the floor and the
  ceiling of every float, clamped to plus and minus a million, 0 for NaN, and never convert a
  float outside the range of \<^verbatim>\<open>int\<close>.\<close>

theorem floor_ceil_correct:
  "muplar_floor_to_int v = Inr (clamped floor v) \<and> muplar_ceil_to_int v = Inr (clamped ceiling v)"
  by (simp add: floor_to_int_eq ceil_to_int_eq)

section \<open>Loops over pixels\<close>

lemma foldM_product: "foldM (\<lambda>y. foldM (\<lambda>x. g y x) xs) ys s = foldM (\<lambda>(y, x). g y x) (List.product ys xs) s"
proof (induction ys arbitrary: s)
  case (Cons y ys)
  have "foldM (\<lambda>(y, x). g y x) (map (Pair y) xs) s = foldM (g y) xs s" for s
    by (induction xs arbitrary: s) (simp_all add: rbind_def split: sum.split)
  then show ?case using Cons by (simp add: foldM_append fun_eq_iff [of "foldM _ _"] cong: rbind_cong)
qed simp

text \<open>Changing the pixels of distinct positions inside the array.\<close>

lemma mod_all:
  assumes "distinct is" and "\<forall>i \<in> set is. i < length ps"
  shows "\<exists>ps'. foldM (\<lambda>i ps. mod_px f ps (int i)) is ps = Inr ps' \<and> length ps' = length ps \<and>
    (\<forall>j. ps' ! j = (if j \<in> set is then f (ps ! j) else ps ! j))"
  using assms
proof (induction "is" arbitrary: ps)
  case (Cons i "is")
  let ?ps = "ps[i := f (ps ! i)]"
  obtain ps' where ps': "foldM (\<lambda>i ps. mod_px f ps (int i)) is ?ps = Inr ps'" "length ps' = length ps"
    "\<forall>j. ps' ! j = (if j \<in> set is then f (?ps ! j) else ?ps ! j)"
    using Cons.IH [of ?ps] Cons.prems by auto
  have "ps' ! j = (if j \<in> set (i # is) then f (ps ! j) else ps ! j)" for j
    using ps'(3) Cons.prems by (cases "j = i") auto
  then show ?case using ps' Cons.prems mod_px_nat [of i ps f] by simp
qed simp

text \<open>A loop over a rectangle inside the bitmap that changes the pixels that satisfy a test.\<close>

lemma grid_loop:
  fixes l r t bo w h :: int
  assumes "0 \<le> l" and "r \<le> w" and "0 \<le> t" and "bo \<le> h" and "int (length ps) = w * h"
  shows "\<exists>ps'. foldM (\<lambda>y. foldM (\<lambda>x ps. if P x y then mod_px f ps (y * w + x) else Inr ps) [l..r - 1]) [t..bo - 1] ps = Inr ps' \<and>
    length ps' = length ps \<and>
    (\<forall>x y. 0 \<le> x \<and> x < w \<and> 0 \<le> y \<and> y < h \<longrightarrow> ps' ! nat (y * w + x) =
       (if l \<le> x \<and> x < r \<and> t \<le> y \<and> y < bo \<and> P x y then f (ps ! nat (y * w + x)) else ps ! nat (y * w + x)))"
proof -
  let ?g = "\<lambda>(y, x). nat (y * w + x)"
  let ?is = "filter (\<lambda>(y, x). P x y) (List.product [t..bo - 1] [l..r - 1])"
  have idx: "y * w + x = y' * w + x' \<longleftrightarrow> y = y' \<and> x = x'" if "0 \<le> x" "x < w" "0 \<le> x'" "x' < w" for x y x' y' :: int
    using div_mod_offset [of x w y] div_mod_offset [of x' w y'] that by metis
  have ran: "0 \<le> y * w + x" "y * w + x < w * h" if "0 \<le> x" "x < w" "0 \<le> y" "y < h" for x y
  proof -
    have "(y + 1) * w \<le> h * w" using that by (intro mult_right_mono) auto
    then show "y * w + x < w * h" using that by (simp add: algebra_simps)
  qed (use that in simp)
  have inj: "inj_on ?g (set ?is)"
    using assms ran idx by (auto simp: inj_on_def eq_nat_nat_iff)
  have dist: "distinct (map ?g ?is)" unfolding distinct_map using inj by (auto intro!: distinct_filter distinct_product)
  have lt: "\<forall>i \<in> set (map ?g ?is). i < length ps" using assms ran by (auto simp: nat_less_iff)
  have skip: "foldM (\<lambda>(y, x) ps. if P x y then mod_px f ps (y * w + x) else Inr ps) ls qs =
      foldM (\<lambda>i ps. mod_px f ps (int i)) (map ?g (filter (\<lambda>(y, x). P x y) ls)) qs"
    if "\<forall>(y, x) \<in> set ls. 0 \<le> y * w + x" for ls qs
    using that by (induction ls arbitrary: qs) (auto cong: rbind_cong)
  have pos: "\<forall>(y, x) \<in> set (List.product [t..bo - 1] [l..r - 1]). 0 \<le> y * w + x" using assms ran by auto
  obtain ps' where ps': "foldM (\<lambda>i ps. mod_px f ps (int i)) (map ?g ?is) ps = Inr ps'" "length ps' = length ps"
    "\<forall>j. ps' ! j = (if j \<in> set (map ?g ?is) then f (ps ! j) else ps ! j)"
    using mod_all [OF dist lt] by blast
  have mem: "nat (y * w + x) \<in> set (map ?g ?is) \<longleftrightarrow> l \<le> x \<and> x < r \<and> t \<le> y \<and> y < bo \<and> P x y"
    if "0 \<le> x" "x < w" "0 \<le> y" "y < h" for x y
    using that assms ran idx by (auto simp: eq_nat_nat_iff image_iff) (metis+)?
  show ?thesis
    using ps' mem skip [OF pos] by (intro exI [of _ ps']) (simp add: foldM_product)
qed

section \<open>Filled shapes\<close>

text \<open>Two bitmaps of the same shape whose pixels are related by \<open>f\<close>.\<close>

definition repainted :: "bitmap_state \<Rightarrow> bitmap_state \<Rightarrow> (int \<Rightarrow> int \<Rightarrow> u32 \<Rightarrow> u32) \<Rightarrow> bool" where
  "repainted b b' f \<longleftrightarrow> bitmap_ok b' \<and> b' = b\<lparr>pixels := pixels b'\<rparr> \<and>
     (\<forall>x y. 0 \<le> x \<and> x < bw b \<and> 0 \<le> y \<and> y < bh b \<longrightarrow> pixel b' x y = f x y (pixel b x y))"

lemma repainted_same:
  "bitmap_ok b \<Longrightarrow> (\<And>x y. 0 \<le> x \<Longrightarrow> x < bw b \<Longrightarrow> 0 \<le> y \<Longrightarrow> y < bh b \<Longrightarrow> f x y (pixel b x y) = pixel b x y) \<Longrightarrow> repainted b b f"
  by (simp add: repainted_def)

lemma repainted_cong:
  "(\<And>x y v. 0 \<le> x \<Longrightarrow> x < bw b \<Longrightarrow> 0 \<le> y \<Longrightarrow> y < bh b \<Longrightarrow> f x y v = g x y v) \<Longrightarrow> repainted b b' f \<Longrightarrow> repainted b b' g"
  by (simp add: repainted_def)

lemma grid_repaint:
  assumes "bitmap_ok b" and "pixels b = Some ps" and "0 \<le> l" and "r \<le> bw b" and "0 \<le> t" and "bo \<le> bh b"
  shows "\<exists>b'. rbind (foldM (\<lambda>y. foldM (\<lambda>x ps. if P x y then mod_px f ps (y * bw b + x) else Inr ps) [l..r - 1]) [t..bo - 1] ps)
      (\<lambda>ps'. Inr (b\<lparr>pixels := Some ps'\<rparr>)) = Inr b' \<and>
    repainted b b' (\<lambda>x y v. if l \<le> x \<and> x < r \<and> t \<le> y \<and> y < bo \<and> P x y then f v else v)"
proof -
  have len: "int (length ps) = bw b * bh b" using assms(1,2) by (auto simp: bitmap_ok_def)
  obtain ps' where ps': "foldM (\<lambda>y. foldM (\<lambda>x ps. if P x y then mod_px f ps (y * bw b + x) else Inr ps) [l..r - 1]) [t..bo - 1] ps = Inr ps'"
    "length ps' = length ps" "\<forall>x y. 0 \<le> x \<and> x < bw b \<and> 0 \<le> y \<and> y < bh b \<longrightarrow> ps' ! nat (y * bw b + x) =
       (if l \<le> x \<and> x < r \<and> t \<le> y \<and> y < bo \<and> P x y then f (ps ! nat (y * bw b + x)) else ps ! nat (y * bw b + x))"
    using grid_loop [OF assms(3-6) len, of P f] by blast
  moreover have "bitmap_ok (b\<lparr>pixels := Some ps'\<rparr>)" using assms(1) len ps'(2) by (simp add: bitmap_ok_def)
  ultimately show ?thesis using assms(2) by (simp add: repainted_def pixel_def)
qed

text \<open>The same loop over a rectangle clipped to the bitmap.\<close>

definition lo :: "int \<Rightarrow> int" where "lo l = (if l < 0 then 0 else l)"
definition hi :: "int \<Rightarrow> int \<Rightarrow> int" where "hi m r = (if m < r then m else r)"

definition repaint :: "bitmap_state \<Rightarrow> u32 list \<Rightarrow> (int \<Rightarrow> int \<Rightarrow> bool) \<Rightarrow> (u32 \<Rightarrow> u32) \<Rightarrow> int \<Rightarrow> int \<Rightarrow> int \<Rightarrow> int \<Rightarrow> fault + bitmap_state" where
  "repaint b ps P f l t r bo =
     rbind (foldM (\<lambda>y. foldM (\<lambda>x ps. if P x y then mod_px f ps (y * bw b + x) else Inr ps) [l..r - 1]) [t..bo - 1] ps)
      (\<lambda>ps'. Inr (b\<lparr>pixels := Some ps'\<rparr>))"

lemma clip_repaint:
  assumes "bitmap_ok b" and "pixels b = Some ps"
  shows "\<exists>b'. repaint b ps P f (lo l) (lo t) (hi (bw b) r) (hi (bh b) bo) = Inr b' \<and>
    repainted b b' (\<lambda>x y v. if l \<le> x \<and> x < r \<and> t \<le> y \<and> y < bo \<and> P x y then f v else v)"
proof -
  have "0 \<le> lo l" "hi (bw b) r \<le> bw b" "0 \<le> lo t" "hi (bh b) bo \<le> bh b" by (simp_all add: lo_def hi_def)
  from grid_repaint [OF assms this, of P f]
  obtain b' where b': "repaint b ps P f (lo l) (lo t) (hi (bw b) r) (hi (bh b) bo) = Inr b'"
    "repainted b b' (\<lambda>x y v. if lo l \<le> x \<and> x < hi (bw b) r \<and> lo t \<le> y \<and> y < hi (bh b) bo \<and> P x y then f v else v)"
    unfolding repaint_def by blast
  have "lo l \<le> x \<and> x < hi (bw b) r \<and> lo t \<le> y \<and> y < hi (bh b) bo \<longleftrightarrow> l \<le> x \<and> x < r \<and> t \<le> y \<and> y < bo"
    if "0 \<le> x" "x < bw b" "0 \<le> y" "y < bh b" for x y using that by (auto simp: lo_def hi_def)
  then have "repainted b b' (\<lambda>x y v. if l \<le> x \<and> x < r \<and> t \<le> y \<and> y < bo \<and> P x y then f v else v)"
    by (intro repainted_cong [OF _ b'(2)]) auto
  then show ?thesis using b'(1) by blast
qed

lemma foldM_empty: "foldM (\<lambda>y. foldM (g y) []) ys s = Inr s"
  by (induction ys arbitrary: s) simp_all

lemma repaint_empty: "pixels b = Some ps \<Longrightarrow> r \<le> l \<or> bo \<le> t \<Longrightarrow> repaint b ps P f l t r bo = Inr b"
  using foldM_empty [of "\<lambda>y x ps. if P x y then mod_px f ps (y * bw b + x) else Inr ps" "[t..bo - 1]" ps]
  by (auto simp: repaint_def)

lemma fill_rect_eq:
  assumes "pixels b = Some ps" and "alpha_of color \<noteq> 0"
  shows "muplar_fill_rect l t r bo color b =
    repaint b ps (\<lambda>_ _. True) (\<lambda>v. if alpha_of color = 255 then color else blend_over color v) (lo l) (lo t) (hi (bw b) r) (hi (bh b) bo)"
proof (cases "hi (bw b) r \<le> lo l \<or> hi (bh b) bo \<le> lo t")
  case True
  then show ?thesis
    using repaint_empty [OF assms(1) True] unfolding muplar_fill_rect_def Let_def lo_def hi_def
    by (simp only: assms(1) option.case if_True)
next
  case False
  then show ?thesis
    using assms(2) unfolding muplar_fill_rect_def repaint_def put_px_mod Let_def lo_def hi_def
    by (cases "alpha_of color = 255") (simp_all only: assms(1) option.case if_True if_False simp_thms)
qed

lemma fill_rect_repaints:
  assumes "bitmap_ok b"
  shows "\<exists>b'. muplar_fill_rect l t r bo color b = Inr b' \<and>
    repainted b b' (\<lambda>x y v.
      if l \<le> x \<and> x < r \<and> t \<le> y \<and> y < bo \<and> alpha_of color \<noteq> 0
      then (if alpha_of color = 255 then color else blend_over color v) else v)"
proof -
  obtain ps where ps: "pixels b = Some ps" using assms by (auto simp: bitmap_ok_def)
  show ?thesis
  proof (cases "alpha_of color = 0")
    case True
    then show ?thesis using repainted_same [OF assms] by (auto simp: muplar_fill_rect_def ps Let_def)
  next
    case False
    then show ?thesis
      using clip_repaint [OF assms ps, of "\<lambda>_ _. True" "\<lambda>v. if alpha_of color = 255 then color else blend_over color v" l t r bo]
      unfolding fill_rect_eq [OF ps False] by simp
  qed
qed

text \<open>C18: a filled rectangle never writes outside the pixel array and changes exactly the pixels
  of the rectangle that lie in the bitmap: an opaque colour replaces them, a translucent one is
  blended over them, a fully transparent one leaves them.\<close>

theorem fill_rect_correct:
  assumes "bitmap_ok b"
  shows "\<exists>b'. muplar_fill_rect l t r bo color b = Inr b' \<and>
    repainted b b' (\<lambda>x y v.
      if l \<le> x \<and> x < r \<and> t \<le> y \<and> y < bo \<and> alpha_of color \<noteq> 0
      then (if alpha_of color = 255 then color else blend_over color v) else v)"
  using assms by (rule fill_rect_repaints)

definition demo_bitmap :: bitmap_state where
  "demo_bitmap = new_bitmap 0x40000100 (3, 2)"

lemma demo_bitmap_dims: "b_width demo_bitmap = 3" "b_height demo_bitmap = 2"
  by code_simp+

lemma demo_bitmap_ok: "bitmap_ok demo_bitmap"
  by (simp add: bitmap_ok_def demo_bitmap_def new_bitmap_def Let_def word_sle_def)

theorem fill_rect_correct_witness:
  "\<exists>b'. muplar_fill_rect (- 4) 1 2 9 0x80ff0000 demo_bitmap = Inr b' \<and>
    repainted demo_bitmap b' (\<lambda>x y v.
      if - 4 \<le> x \<and> x < 2 \<and> 1 \<le> y \<and> y < 9 \<and> alpha_of 0x80ff0000 \<noteq> 0
      then (if alpha_of 0x80ff0000 = 255 then 0x80ff0000 else blend_over 0x80ff0000 v) else v)"
  by (rule fill_rect_correct [OF demo_bitmap_ok])

lemma channel_mix:
  assumes "s < 256" and "d < 256" and "a < 256"
  shows "unat ((s * a + d * (255 - a)) div 255 :: u32) = (unat s * unat a + unat d * (255 - unat a)) div 255"
proof -
  have b: "unat s \<le> 255" "unat d \<le> 255" "unat a \<le> 255" using assms by (simp_all add: word_less_nat_alt)
  then have "unat s * unat a \<le> 255 * 255" "unat d * (255 - unat a) \<le> 255 * 255" by (intro mult_le_mono; simp)+
  moreover have "unat (255 - a) = 255 - unat a" using b by (simp add: unat_sub word_le_nat_alt)
  ultimately have "unat (s * a + d * (255 - a)) = unat s * unat a + unat d * (255 - unat a)"
    by (simp add: unat_word_ariths)
  then show ?thesis by (simp add: unat_div)
qed

lemma mix_between:
  fixes s d a :: nat
  assumes "a \<le> 255"
  shows "min s d \<le> (s * a + d * (255 - a)) div 255" "(s * a + d * (255 - a)) div 255 \<le> max s d"
proof -
  have "min s d * 255 = min s d * a + min s d * (255 - a)" using assms by (simp flip: distrib_left)
  also have "\<dots> \<le> s * a + d * (255 - a)" by (intro add_mono mult_right_mono) auto
  finally show "min s d \<le> (s * a + d * (255 - a)) div 255" by (simp add: less_eq_div_iff_mult_less_eq)
  have "s * a + d * (255 - a) \<le> max s d * a + max s d * (255 - a)" by (intro add_mono mult_right_mono) auto
  also have "\<dots> = max s d * 255" using assms by (simp flip: distrib_left)
  finally show "(s * a + d * (255 - a)) div 255 \<le> max s d" by (metis div_le_mono nonzero_mult_div_cancel_right zero_neq_numeral)
qed

lemma blended_channel:
  assumes "s < 256" and "d < 256" and "a < 256"
  shows "min (unat s) (unat d) \<le> unat ((s * a + d * (255 - a)) div 255 :: u32)"
    "unat ((s * a + d * (255 - a)) div 255 :: u32) \<le> max (unat s) (unat d)"
    "(s * a + d * (255 - a)) div 255 < (256 :: u32)"
proof -
  have b: "unat s \<le> 255" "unat d \<le> 255" "unat a \<le> 255" using assms by (simp_all add: word_less_nat_alt)
  show lo: "min (unat s) (unat d) \<le> unat ((s * a + d * (255 - a)) div 255 :: u32)"
    and hi: "unat ((s * a + d * (255 - a)) div 255 :: u32) \<le> max (unat s) (unat d)"
    unfolding channel_mix [OF assms] using mix_between [OF b(3)] by blast+
  show "(s * a + d * (255 - a)) div 255 < (256 :: u32)" unfolding word_less_nat_alt using hi b by simp
qed

text \<open>C19: blending a translucent colour over a pixel gives an opaque pixel each of whose colour
  channels lies between that of the colour and that of the pixel; no intermediate value wraps
  around in 32 bits.\<close>

theorem blend_over_between:
  "alpha_of (blend_over color dst) = 255 \<and>
   (\<forall>ch \<in> {red_of, green_of, blue_of}.
      unat (ch (blend_over color dst)) =
        (unat (ch color) * unat (alpha_of color) + unat (ch dst) * (255 - unat (alpha_of color))) div 255 \<and>
      min (unat (ch color)) (unat (ch dst)) \<le> unat (ch (blend_over color dst)) \<and>
      unat (ch (blend_over color dst)) \<le> max (unat (ch color)) (unat (ch dst)))"
proof -
  have "unat (alpha_of color) \<le> 255" using channel_less(1) [of color] by (simp add: word_less_nat_alt)
  note m = mix_between [OF this]
  show ?thesis using m by (simp add: blend_over_def Let_def channel_argb blended_channel channel_mix)
qed

theorem blend_over_between_witness:
  "min (unat (red_of 0x80ff0000)) (unat (red_of 0xff00ff00)) \<le> unat (red_of (blend_over 0x80ff0000 0xff00ff00))"
  using blend_over_between [of "0x80ff0000" "0xff00ff00"] by blast

lemma fill_circle_repaints:
  assumes "bitmap_ok b" and "\<not> fle radius 0"
  shows "\<exists>b'. muplar_fill_circle cx cy radius color b = Inr b' \<and>
    repainted b b' (\<lambda>x y v.
      if clamped floor (fsub cx radius) \<le> x \<and> x < clamped ceiling (fadd cx radius) \<and>
         clamped floor (fsub cy radius) \<le> y \<and> y < clamped ceiling (fadd cy radius) \<and>
         in_circle cx cy (fmul radius radius) x y
      then color else v)"
proof -
  obtain ps where ps: "pixels b = Some ps" using assms by (auto simp: bitmap_ok_def)
  have "muplar_fill_circle cx cy radius color b =
    repaint b ps (in_circle cx cy (fmul radius radius)) (\<lambda>_. color)
      (lo (clamped floor (fsub cx radius))) (lo (clamped floor (fsub cy radius)))
      (hi (bw b) (clamped ceiling (fadd cx radius))) (hi (bh b) (clamped ceiling (fadd cy radius)))"
    unfolding muplar_fill_circle_def repaint_def floor_to_int_eq ceil_to_int_eq put_px_mod ps lo_def hi_def
    using assms(2) by (simp only: Let_def option.case if_False rbind_Inr)
  then show ?thesis using clip_repaint [OF assms(1) ps] by simp
qed

text \<open>C20: a filled circle writes inside the pixel array only, and sets to the colour exactly the
  pixels of the bitmap in the circle's bounding box whose centre passes the distance test.\<close>

theorem fill_circle_correct:
  assumes "bitmap_ok b" and "\<not> fle radius 0"
  shows "\<exists>b'. muplar_fill_circle cx cy radius color b = Inr b' \<and>
    repainted b b' (\<lambda>x y v.
      if clamped floor (fsub cx radius) \<le> x \<and> x < clamped ceiling (fadd cx radius) \<and>
         clamped floor (fsub cy radius) \<le> y \<and> y < clamped ceiling (fadd cy radius) \<and>
         in_circle cx cy (fmul radius radius) x y
      then color else v)"
  using assms by (rule fill_circle_repaints)

theorem fill_circle_correct_witness:
  "\<exists>b'. muplar_fill_circle 0x3f800000 0x3f800000 0x3f800000 7 demo_bitmap = Inr b' \<and>
    repainted demo_bitmap b' (\<lambda>x y v.
      if clamped floor (fsub 0x3f800000 0x3f800000) \<le> x \<and> x < clamped ceiling (fadd 0x3f800000 0x3f800000) \<and>
         clamped floor (fsub 0x3f800000 0x3f800000) \<le> y \<and> y < clamped ceiling (fadd 0x3f800000 0x3f800000) \<and>
         in_circle 0x3f800000 0x3f800000 (fmul 0x3f800000 0x3f800000) x y
      then 7 else v)"
  by (rule fill_circle_correct [OF demo_bitmap_ok]) code_simp

section \<open>Mostly black bitmaps\<close>

lemma loop_values_ok:
  "0 < s \<Longrightarrow> b + s < 2 ^ 31 \<Longrightarrow> \<exists>is. loop_values a b s = Inr is \<and> (\<forall>i \<in> set is. a \<le> i \<and> i < b) \<and> (a < b \<longrightarrow> is \<noteq> [])"
proof (induction a b s rule: loop_values.induct)
  case (1 a b s)
  show ?case
  proof (cases "a < b")
    case True
    then obtain "is" where "loop_values (a + s) b s = Inr is" "\<forall>i \<in> set is. a + s \<le> i \<and> i < b" using 1 by auto
    then show ?thesis using True 1(2,3) by (subst loop_values.simps) force
  next
    case False
    then show ?thesis by (subst loop_values.simps) simp
  qed
qed

lemma foldM_count:
  fixes n k :: int
  assumes "\<forall>i \<in> set is. \<forall>n k. f i (n, k) = Inr (n + 1, if D i then k + 1 else k)"
  shows "foldM f is (n, k) = Inr (n + int (length is), k + int (length (filter D is)))"
  using assms by (induction "is" arbitrary: n k) auto

text \<open>The positions sampled and the result in terms of the pixels there.\<close>

lemma mostly_black_samples:
  assumes "bitmap_ok b" and "bw b \<le> 2 ^ 30" and "bh b \<le> 2 ^ 30"
  obtains ss where "ss \<noteq> []" and "\<forall>(y, x) \<in> set ss. 0 \<le> x \<and> x < bw b \<and> 0 \<le> y \<and> y < bh b"
    and "muplar_bitmap_mostly_black b =
      Inr (60 < int (length (filter (\<lambda>(y, x). is_black (pixel b x y)) ss)) * 100 div int (length ss))"
proof -
  obtain ps where ps: "pixels b = Some ps" "int (length ps) = bw b * bh b" and pos: "0 < bw b" "0 < bh b"
    using assms(1) by (auto simp: bitmap_ok_def)
  have div8: "n div 8 < n" "0 \<le> n div 8" "n + max 1 (n div 8) < 2 ^ 31" "0 < max 1 (n div 8)" if "0 < n" "n \<le> 2 ^ 30" for n :: int using that by auto
  obtain ys where ys: "loop_values (bh b div 8) (bh b) (max 1 (bh b div 8)) = Inr ys" "\<forall>i \<in> set ys. bh b div 8 \<le> i \<and> i < bh b" "ys \<noteq> []"
    using loop_values_ok [of "max 1 (bh b div 8)" "bh b" "bh b div 8"] div8 [OF pos(2) assms(3)] by auto
  obtain xs where xs: "loop_values (bw b div 8) (bw b) (max 1 (bw b div 8)) = Inr xs" "\<forall>i \<in> set xs. bw b div 8 \<le> i \<and> i < bw b" "xs \<noteq> []"
    using loop_values_ok [of "max 1 (bw b div 8)" "bw b" "bw b div 8"] div8 [OF pos(1) assms(2)] by auto
  let ?ss = "List.product ys xs"
  let ?f = "\<lambda>y x (sampled, black). rbind (get_px ps (y * bw b + x)) (\<lambda>c. Inr (sampled + 1 :: int, if is_black c then black + 1 else black :: int))"
  have in_range: "0 \<le> x \<and> x < bw b \<and> 0 \<le> y \<and> y < bh b" if "(y, x) \<in> set ?ss" for y x
    using that xs(2) ys(2) div8(2) pos by force
  have get: "get_px ps (y * bw b + x) = Inr (pixel b x y)" if "(y, x) \<in> set ?ss" for y x
  proof -
    note r = in_range [OF that]
    have "(y + 1) * bw b \<le> bh b * bw b" using r pos by (intro mult_right_mono) auto
    then have "0 \<le> y * bw b + x \<and> y * bw b + x < int (length ps)" using r pos ps(2) by (simp add: algebra_simps)
    then show ?thesis by (simp add: get_px_def pixel_def ps)
  qed
  have "foldM (\<lambda>y. foldM (?f y) xs) ys (0, 0) = Inr (0 + int (length ?ss), 0 + int (length (filter (\<lambda>(y, x). is_black (pixel b x y)) ?ss)))"
    unfolding foldM_product by (rule foldM_count) (auto simp: get)
  then have "muplar_bitmap_mostly_black b = Inr (0 < int (length ?ss) \<and> 60 < int (length (filter (\<lambda>(y, x). is_black (pixel b x y)) ?ss)) * 100 div int (length ?ss))"
    using pos unfolding muplar_bitmap_mostly_black_def Let_def by (simp add: ps ys(1) xs(1))
  moreover have "?ss \<noteq> []" using xs(3) ys(3) by (metis length_0_conv length_product mult_is_0)
  then have "0 < int (length ?ss)" by (simp del: length_product)
  ultimately show ?thesis using \<open>?ss \<noteq> []\<close> in_range by (intro that [of ?ss]) (auto simp del: length_product)
qed

text \<open>The test for mostly black bitmaps samples only pixels of the bitmap, answers yes when
  all pixels are black and no when none is (for bitmaps up to 2^30 pixels wide and high).\<close>

theorem mostly_black_correct:
  assumes "bitmap_ok b" and "bw b \<le> 2 ^ 30" and "bh b \<le> 2 ^ 30"
    and "\<forall>x y. 0 \<le> x \<and> x < bw b \<and> 0 \<le> y \<and> y < bh b \<longrightarrow> is_black (pixel b x y) = dark"
  shows "muplar_bitmap_mostly_black b = Inr dark"
proof -
  obtain ss where ss: "ss \<noteq> []" "\<forall>(y, x) \<in> set ss. 0 \<le> x \<and> x < bw b \<and> 0 \<le> y \<and> y < bh b"
    "muplar_bitmap_mostly_black b = Inr (60 < int (length (filter (\<lambda>(y, x). is_black (pixel b x y)) ss)) * 100 div int (length ss))"
    using mostly_black_samples [OF assms(1-3)] by blast
  have "filter (\<lambda>(y, x). is_black (pixel b x y)) ss = (if dark then ss else [])"
    using ss(2) assms(4) by (auto simp: filter_id_conv filter_empty_conv)
  then show ?thesis using ss(1,3) by simp
qed

theorem mostly_black_correct_witness:
  "muplar_bitmap_mostly_black (demo_bitmap\<lparr>pixels := Some (replicate 6 0xff000000)\<rparr>) = Inr True"
  by (rule mostly_black_correct)
    (auto simp: bitmap_ok_def demo_bitmap_dims pixel_def nat_less_iff is_black_def channel_defs)

end
