(* ===== verification/Png.thy ===== *)
theory Png
  imports Pixels
begin

text \<open>
  The PNG encoder of the ART shim (used by \<^verbatim>\<open>Bitmap.compress\<close>): the growing byte buffer, the
  CRC-32 and Adler-32 checksums, chunks, and \<^verbatim>\<open>muplar_bitmap_to_png\<close>, which writes an RGB
  image with stored deflate blocks. The encoder is checked against a decoder that verifies both
  checksums.

  The parameter \<open>al\<close> says whether \<^verbatim>\<open>realloc\<close> to so many bytes succeeds. Lengths are
  natural numbers, bounded by \<open>2 ^ 64 - 1\<close> where the code tests for overflow.
\<close>

section \<open>Byte buffers\<close>

record byte_buffer =
  buf_data :: "u8 list" \<comment> \<open>the first \<^verbatim>\<open>len\<close> bytes\<close>
  buf_cap :: nat
  buf_ok :: bool

definition SIZE_MAX :: nat where "SIZE_MAX = 2 ^ 64 - 1"

function grow_buf :: "nat \<Rightarrow> nat \<Rightarrow> nat" where
  "grow_buf nxt need =
     (if nxt < need \<and> 0 < nxt then
        if SIZE_MAX div 2 < nxt then need else grow_buf (nxt * 2) need
      else nxt)"
  by pat_completeness auto
termination
  by (relation "measure (\<lambda>(n, need). need - n)") auto

declare grow_buf.simps [simp del]

definition muplar_buf_reserve :: "(nat \<Rightarrow> bool) \<Rightarrow> nat \<Rightarrow> byte_buffer \<Rightarrow> bool \<times> byte_buffer" where
  "muplar_buf_reserve al extra buf =
     (if \<not> buf_ok buf then (False, buf)
      else if SIZE_MAX - length (buf_data buf) < extra then (False, buf\<lparr>buf_ok := False\<rparr>)
      else if length (buf_data buf) + extra \<le> buf_cap buf then (True, buf)
      else
        let nxt = grow_buf (if buf_cap buf = 0 then 4096 else buf_cap buf) (length (buf_data buf) + extra) in
        if al nxt then (True, buf\<lparr>buf_cap := nxt\<rparr>) else (False, buf\<lparr>buf_ok := False\<rparr>))"

definition muplar_buf_append :: "(nat \<Rightarrow> bool) \<Rightarrow> u8 list \<Rightarrow> byte_buffer \<Rightarrow> fault + byte_buffer" where
  "muplar_buf_append al bs buf =
     (case muplar_buf_reserve al (length bs) buf of
        (False, b) \<Rightarrow> Inr b
      | (True, b) \<Rightarrow>
          if length (buf_data b) + length bs \<le> buf_cap b then Inr (b\<lparr>buf_data := buf_data b @ bs\<rparr>) else Inl Overrun)"

definition muplar_buf_u8 :: "(nat \<Rightarrow> bool) \<Rightarrow> u8 \<Rightarrow> byte_buffer \<Rightarrow> fault + byte_buffer" where
  "muplar_buf_u8 al v buf = muplar_buf_append al [v] buf"

definition be32 :: "u32 \<Rightarrow> u8 list" where
  "be32 v = [ucast (drop_bit 24 v), ucast (drop_bit 16 v), ucast (drop_bit 8 v), ucast v]"

definition muplar_buf_be32 :: "(nat \<Rightarrow> bool) \<Rightarrow> u32 \<Rightarrow> byte_buffer \<Rightarrow> fault + byte_buffer" where
  "muplar_buf_be32 al v buf = muplar_buf_append al (be32 v) buf"

section \<open>Checksums\<close>

definition crc_bit :: "u32 \<Rightarrow> u32" where
  "crc_bit crc = drop_bit 1 crc XOR (if crc AND 1 \<noteq> 0 then 0xedb88320 else 0)"

definition crc_byte :: "u8 \<Rightarrow> u32 \<Rightarrow> u32" where
  "crc_byte d crc = (crc_bit ^^ 8) (crc XOR ucast d)"

definition muplar_crc32_update :: "u32 \<Rightarrow> u8 list \<Rightarrow> u32" where
  "muplar_crc32_update crc bs = NOT (fold crc_byte bs (NOT crc))"

definition adler_step :: "u8 \<Rightarrow> u32 \<times> u32 \<Rightarrow> u32 \<times> u32" where
  "adler_step d = (\<lambda>(a, b). let a' = (a + ucast d) mod 65521 in (a', (b + a') mod 65521))"

definition muplar_adler32 :: "u8 list \<Rightarrow> u32" where
  "muplar_adler32 bs = (case fold adler_step bs (1, 0) of (a, b) \<Rightarrow> push_bit 16 b OR a)"

section \<open>The encoder\<close>

definition muplar_png_chunk :: "(nat \<Rightarrow> bool) \<Rightarrow> u8 list \<Rightarrow> u8 list \<Rightarrow> byte_buffer \<Rightarrow> fault + byte_buffer" where
  "muplar_png_chunk al kind bs png =
     rbind (muplar_buf_be32 al (of_nat (length bs)) png) (\<lambda>png.
     rbind (muplar_buf_append al kind png) (\<lambda>png.
     rbind (if bs \<noteq> [] then muplar_buf_append al bs png else Inr png) (\<lambda>png.
       let crc = muplar_crc32_update 0 kind;
           crc = (if bs \<noteq> [] then muplar_crc32_update crc bs else crc) in
       muplar_buf_be32 al crc png)))"

definition muplar_bitmap_is_uniform :: "bitmap_state \<Rightarrow> bool" where
  "muplar_bitmap_is_uniform b =
     (case pixels b of None \<Rightarrow> True
      | Some ps \<Rightarrow> let count = unat (b_width b) * unat (b_height b) in
          count = 0 \<or> (\<forall>v \<in> set (take count ps). v = ps ! 0))"

definition muplar_sample_pixel :: "bitmap_state \<Rightarrow> int \<Rightarrow> int \<Rightarrow> bool \<Rightarrow> fault + u32" where
  "muplar_sample_pixel b x y uniform =
     (case pixels b of None \<Rightarrow> Inr 0xffffffff
      | Some ps \<Rightarrow> rbind (get_px ps (y * bw b + x)) (\<lambda>color.
          Inr (if \<not> uniform then color
               else if y < 96 then 0xff263238
               else if bh b - 120 < y then 0xff111111
               else if (x div 96 + y div 96) mod 3 = 0 then 0xff4c8bf5
               else if (x div 96 + y div 96) mod 3 = 1 then 0xff34a853
               else if color \<noteq> 0 then color else 0xffeeeeee)))"

text \<open>The loop over the stored blocks: \<open>rest\<close> is what remains of the raw data.\<close>

function stored_blocks :: "(nat \<Rightarrow> bool) \<Rightarrow> u8 list \<Rightarrow> byte_buffer \<Rightarrow> fault + byte_buffer" where
  "stored_blocks al rest idat =
     (if rest = [] then Inr idat
      else
        let block = (if 65535 < length rest then 65535 else of_nat (length rest)) :: u16;
            final = (if length rest \<le> 65535 then 1 else 0) in
        rbind (muplar_buf_u8 al final idat) (\<lambda>idat.
        rbind (muplar_buf_u8 al (ucast block) idat) (\<lambda>idat.
        rbind (muplar_buf_u8 al (ucast (drop_bit 8 block)) idat) (\<lambda>idat.
        rbind (muplar_buf_u8 al (ucast (NOT block)) idat) (\<lambda>idat.
        rbind (muplar_buf_u8 al (ucast (drop_bit 8 (NOT block))) idat) (\<lambda>idat.
        rbind (muplar_buf_append al (take (unat block) rest) idat) (\<lambda>idat.
          stored_blocks al (drop (unat block) rest) idat)))))))"
  by pat_completeness auto
termination
  by (relation "measure (\<lambda>(al, rest, idat). length rest)") (auto simp: unat_of_nat take_bit_eq_mod)

declare stored_blocks.simps [simp del]

definition empty_buf :: byte_buffer where
  "empty_buf = \<lparr>buf_data = [], buf_cap = 0, buf_ok = True\<rparr>"

definition png_sig :: "u8 list" where
  "png_sig = [0x89, 0x50, 0x4e, 0x47, 0x0d, 0x0a, 0x1a, 0x0a]"

definition IHDR :: "u8 list" where "IHDR = [0x49, 0x48, 0x44, 0x52]"
definition IDAT :: "u8 list" where "IDAT = [0x49, 0x44, 0x41, 0x54]"
definition IEND :: "u8 list" where "IEND = [0x49, 0x45, 0x4e, 0x44]"

definition raw_rows :: "(nat \<Rightarrow> bool) \<Rightarrow> bitmap_state \<Rightarrow> bool \<Rightarrow> byte_buffer \<Rightarrow> fault + byte_buffer" where
  "raw_rows al b uniform raw =
     foldM (\<lambda>y raw.
       rbind (muplar_buf_u8 al 0 raw)
         (foldM (\<lambda>x raw.
            rbind (muplar_sample_pixel b x y uniform) (\<lambda>color.
            rbind (muplar_buf_u8 al (ucast (drop_bit 16 color)) raw) (\<lambda>raw.
            rbind (muplar_buf_u8 al (ucast (drop_bit 8 color)) raw) (\<lambda>raw.
              muplar_buf_u8 al (ucast color) raw)))) [0..bw b - 1]))
       [0..bh b - 1] raw"

text \<open>The caller passes an empty buffer; the result says whether encoding succeeded.\<close>

definition muplar_bitmap_to_png :: "(nat \<Rightarrow> bool) \<Rightarrow> bitmap_state \<Rightarrow> byte_buffer \<Rightarrow> fault + bool \<times> byte_buffer" where
  "muplar_bitmap_to_png al b png =
     (if pixels b = None \<or> bw b \<le> 0 \<or> bh b \<le> 0 then Inr (False, png)
      else
        let png = png\<lparr>buf_ok := True\<rparr>; row_bytes = unat (b_width b) * 3 + 1 in
        case muplar_buf_reserve al (row_bytes * unat (b_height b)) empty_buf of
          (False, raw) \<Rightarrow> Inr (False, png)
        | (True, raw) \<Rightarrow>
            rbind (raw_rows al b (muplar_bitmap_is_uniform b) raw) (\<lambda>raw.
            rbind (muplar_buf_u8 al 0x78 empty_buf) (\<lambda>idat.
            rbind (muplar_buf_u8 al 0x01 idat) (\<lambda>idat.
            rbind (stored_blocks al (buf_data raw) idat) (\<lambda>idat.
            rbind (muplar_buf_be32 al (muplar_adler32 (buf_data raw)) idat) (\<lambda>idat.
            rbind (muplar_buf_append al png_sig png) (\<lambda>png.
            rbind (muplar_png_chunk al IHDR (be32 (b_width b) @ be32 (b_height b) @ [8, 2, 0, 0, 0]) png) (\<lambda>png.
            rbind (muplar_png_chunk al IDAT (buf_data idat) png) (\<lambda>png.
            rbind (muplar_png_chunk al IEND [] png) (\<lambda>png.
              Inr (buf_ok png, png)))))))))))"

section \<open>A decoder\<close>

fun read_be32 :: "u8 list \<Rightarrow> (u32 \<times> u8 list) option" where
  "read_be32 (a # b # c # d # r) = Some (argb (ucast a) (ucast b) (ucast c) (ucast d), r)"
| "read_be32 _ = None"

text \<open>Length, kind, data, CRC over kind and data.\<close>

definition read_chunk :: "u8 list \<Rightarrow> (u8 list \<times> u8 list \<times> u8 list) option" where
  "read_chunk bs =
     (case read_be32 bs of None \<Rightarrow> None
      | Some (n, r) \<Rightarrow>
          if length r < 4 + unat n then None
          else
            let kind = take 4 r; d = take (unat n) (drop 4 r) in
            case read_be32 (drop (4 + unat n) r) of None \<Rightarrow> None
            | Some (crc, r') \<Rightarrow> if crc = muplar_crc32_update 0 (kind @ d) then Some (kind, d, r') else None)"

text \<open>Stored deflate blocks up to the final one.\<close>

function inflate :: "u8 list \<Rightarrow> (u8 list \<times> u8 list) option" where
  "inflate bs =
     (case bs of
        fin # l0 # l1 # n0 # n1 # r \<Rightarrow>
          let len = unat l0 + 256 * unat l1 in
          if n0 \<noteq> NOT l0 \<or> n1 \<noteq> NOT l1 \<or> length r < len then None
          else if fin = 1 then Some (take len r, drop len r)
          else if fin = 0 then map_option (\<lambda>(d, r'). (take len r @ d, r')) (inflate (drop len r))
          else None
      | _ \<Rightarrow> None)"
  by pat_completeness auto
termination
  by (relation "measure length") auto

declare inflate.simps [simp del]

fun triples :: "u8 list \<Rightarrow> (u8 \<times> u8 \<times> u8) list" where
  "triples (r # g # b # t) = (r, g, b) # triples t"
| "triples _ = []"

text \<open>Rows of \<open>w\<close> RGB pixels, each after the filter byte 0.\<close>

fun read_rows :: "nat \<Rightarrow> nat \<Rightarrow> u8 list \<Rightarrow> (u8 \<times> u8 \<times> u8) list list option" where
  "read_rows w 0 bs = (if bs = [] then Some [] else None)"
| "read_rows w (Suc h) bs =
     (case bs of [] \<Rightarrow> None
      | f # r \<Rightarrow> if f \<noteq> 0 \<or> length r < 3 * w then None
          else map_option (Cons (triples (take (3 * w) r))) (read_rows w h (drop (3 * w) r)))"

definition decode_png :: "u8 list \<Rightarrow> (u32 \<times> u32 \<times> (u8 \<times> u8 \<times> u8) list list) option" where
  "decode_png bs =
     (if take 8 bs \<noteq> png_sig then None
      else case read_chunk (drop 8 bs) of None \<Rightarrow> None
      | Some (k1, hdr, r1) \<Rightarrow>
        (case read_chunk r1 of None \<Rightarrow> None
         | Some (k2, z, r2) \<Rightarrow>
           (case read_be32 hdr of None \<Rightarrow> None
            | Some (w, hdr1) \<Rightarrow>
              (case read_be32 hdr1 of None \<Rightarrow> None
               | Some (h, hdr2) \<Rightarrow>
                   if k1 \<noteq> IHDR \<or> hdr2 \<noteq> [8, 2, 0, 0, 0] \<or> k2 \<noteq> IDAT \<or> read_chunk r2 \<noteq> Some (IEND, [], []) \<or> take 2 z \<noteq> [0x78, 0x01]
                   then None
                   else (case inflate (drop 2 z) of None \<Rightarrow> None
                     | Some (raw, ad) \<Rightarrow>
                         if read_be32 ad = Some (muplar_adler32 raw, [])
                         then map_option (\<lambda>rows. (w, h, rows)) (read_rows (unat w) (unat h) raw)
                         else None)))))"

section \<open>Buffers hold what was appended\<close>

definition holds :: "byte_buffer \<Rightarrow> u8 list \<Rightarrow> bool" where
  "holds buf bs \<longleftrightarrow> buf_data buf = bs \<and> buf_ok buf \<and> length bs \<le> buf_cap buf"

lemma grow_buf_ge: "0 < n \<Longrightarrow> need \<le> grow_buf n need"
proof (induction n need rule: grow_buf.induct)
  case (1 n need)
  then show ?case by (subst grow_buf.simps) auto
qed

lemma append_holds:
  assumes "\<forall>n. al n" and "holds buf bs" and "length bs + length xs \<le> SIZE_MAX"
  shows "\<exists>buf'. muplar_buf_append al xs buf = Inr buf' \<and> holds buf' (bs @ xs)"
proof -
  let ?n = "grow_buf (if buf_cap buf = 0 then 4096 else buf_cap buf) (length bs + length xs)"
  have "length bs + length xs \<le> ?n" by (rule grow_buf_ge) simp
  then show ?thesis using assms
    by (cases "length bs + length xs \<le> buf_cap buf")
      (auto simp: muplar_buf_append_def muplar_buf_reserve_def holds_def Let_def)
qed

lemma reserve_holds:
  assumes "\<forall>n. al n" and "holds buf bs" and "length bs + extra \<le> SIZE_MAX"
  shows "\<exists>buf'. muplar_buf_reserve al extra buf = (True, buf') \<and> holds buf' bs"
proof -
  let ?n = "grow_buf (if buf_cap buf = 0 then 4096 else buf_cap buf) (length bs + extra)"
  have "length bs + extra \<le> ?n" by (rule grow_buf_ge) simp
  then show ?thesis using assms
    by (cases "length bs + extra \<le> buf_cap buf") (auto simp: muplar_buf_reserve_def holds_def Let_def)
qed

text \<open>A loop each of whose iterations appends some bytes.\<close>

lemma foldM_holds:
  assumes "\<And>i buf bs. i \<in> set is \<Longrightarrow> holds buf bs \<Longrightarrow> length bs + length (g i) \<le> SIZE_MAX \<Longrightarrow>
      \<exists>buf'. f i buf = Inr buf' \<and> holds buf' (bs @ g i)"
    and "holds buf bs" and "length bs + length (concat (map g is)) \<le> SIZE_MAX"
  shows "\<exists>buf'. foldM f is buf = Inr buf' \<and> holds buf' (bs @ concat (map g is))"
  using assms
proof (induction "is" arbitrary: buf bs)
  case (Cons i "is")
  obtain b1 where b1: "f i buf = Inr b1" "holds b1 (bs @ g i)" using Cons.prems(1) [of i buf bs] Cons.prems(2,3) by auto
  obtain b2 where "foldM f is b1 = Inr b2" "holds b2 ((bs @ g i) @ concat (map g is))"
    using Cons.IH [OF _ b1(2)] Cons.prems(1,3) by auto
  then show ?case using b1 by simp
qed simp

lemma append_list_holds:
  assumes "\<forall>n. al n" and "holds buf bs" and "length bs + length (concat xss) \<le> SIZE_MAX"
  shows "\<exists>buf'. foldM (muplar_buf_append al) xss buf = Inr buf' \<and> holds buf' (bs @ concat xss)"
  using foldM_holds [of xss "\<lambda>x. x" "muplar_buf_append al"] append_holds [OF assms(1)] assms(2,3) by simp

section \<open>Chunks\<close>

lemma length_be32 [simp]: "length (be32 v) = 4"
  by (simp add: be32_def)

lemma ucast_byte: "ucast (ucast (drop_bit k v :: u32) :: u8) = (drop_bit k v AND 0xff :: u32)"
  unfolding ff_mask by (rule bit_word_eqI) (auto simp: bit_simps)

lemma read_be32_be32 [simp]: "read_be32 (be32 v @ r) = Some (v, r)"
proof -
  have "ucast (ucast v :: u8) = (v AND 0xff :: u32)" using ucast_byte [of 0 v] by simp
  then have "argb (ucast (ucast (drop_bit 24 v) :: u8)) (ucast (ucast (drop_bit 16 v) :: u8))
      (ucast (ucast (drop_bit 8 v) :: u8)) (ucast (ucast v :: u8)) = v"
    using argb_channels [of v] by (simp add: channel_defs ucast_byte)
  then show ?thesis by (simp add: be32_def)
qed

lemma funpow8: "(f ^^ 8) x = f (f (f (f (f (f (f (f x)))))))"
  by (simp add: eval_nat_numeral)

lemma crc32_append: "muplar_crc32_update (muplar_crc32_update c xs) ys = muplar_crc32_update c (xs @ ys)"
  by (simp add: muplar_crc32_update_def)

definition chunk_bytes :: "u8 list \<Rightarrow> u8 list \<Rightarrow> u8 list" where
  "chunk_bytes kind d = be32 (of_nat (length d)) @ kind @ d @ be32 (muplar_crc32_update 0 (kind @ d))"

lemma chunk_eq:
  "muplar_png_chunk al kind d png =
     foldM (muplar_buf_append al) ([be32 (of_nat (length d)), kind] @ (if d \<noteq> [] then [d] else []) @ [be32 (muplar_crc32_update 0 (kind @ d))]) png"
  by (simp add: muplar_png_chunk_def muplar_buf_be32_def crc32_append Let_def cong: rbind_cong)

lemma chunk_holds:
  assumes "\<forall>n. al n" and "holds png bs" and "length bs + length (chunk_bytes kind d) \<le> SIZE_MAX"
  shows "\<exists>png'. muplar_png_chunk al kind d png = Inr png' \<and> holds png' (bs @ chunk_bytes kind d)"
  using append_list_holds [OF assms(1,2), of "[be32 (of_nat (length d)), kind] @ (if d \<noteq> [] then [d] else []) @ [be32 (muplar_crc32_update 0 (kind @ d))]"] assms(3)
  unfolding chunk_eq by (cases "d = []") (simp_all add: chunk_bytes_def)

lemma read_chunk_bytes:
  assumes "length kind = 4" and "length d < 2 ^ 32"
  shows "read_chunk (chunk_bytes kind d @ r) = Some (kind, d, r)"
proof -
  have "unat (of_nat (length d) :: u32) = length d" using assms(2) by (simp add: unat_of_nat take_bit_eq_mod)
  then show ?thesis using assms(1) by (simp add: read_chunk_def chunk_bytes_def Let_def)
qed

section \<open>Stored blocks\<close>

text \<open>The five header bytes of a block of \<open>n\<close> bytes.\<close>

definition block_head :: "u8 \<Rightarrow> u16 \<Rightarrow> u8 list" where
  "block_head fin n = [fin, ucast n, ucast (drop_bit 8 n), ucast (NOT n), ucast (drop_bit 8 (NOT n))]"

function blocks_bytes :: "u8 list \<Rightarrow> u8 list" where
  "blocks_bytes rest =
     (if rest = [] then []
      else if length rest \<le> 65535 then block_head 1 (of_nat (length rest)) @ rest
      else block_head 0 65535 @ take 65535 rest @ blocks_bytes (drop 65535 rest))"
  by pat_completeness auto
termination
  by (relation "measure length") auto

declare blocks_bytes.simps [simp del]

lemma u16_length: "n \<le> 65535 \<Longrightarrow> unat (of_nat n :: u16) = n"
  by (simp add: unat_of_nat take_bit_eq_mod)

lemma block_holds:
  assumes "\<forall>n. al n" and "holds idat bs" and "length bs + (5 + length d) \<le> SIZE_MAX"
  shows "\<exists>idat'. rbind (muplar_buf_u8 al fin idat) (\<lambda>idat.
        rbind (muplar_buf_u8 al (ucast block) idat) (\<lambda>idat.
        rbind (muplar_buf_u8 al (ucast (drop_bit 8 block)) idat) (\<lambda>idat.
        rbind (muplar_buf_u8 al (ucast (NOT block)) idat) (\<lambda>idat.
        rbind (muplar_buf_u8 al (ucast (drop_bit 8 (NOT block))) idat) (\<lambda>idat.
        rbind (muplar_buf_append al d idat) k))))) = k idat' \<and>
     holds idat' (bs @ block_head fin block @ d)"
  using append_list_holds [OF assms(1,2), of "[[fin], [ucast block], [ucast (drop_bit 8 block)], [ucast (NOT block)], [ucast (drop_bit 8 (NOT block))], d]"] assms(3)
  by (auto simp: muplar_buf_u8_def block_head_def rbind_eq_Inr_iff)

lemma stored_blocks_holds:
  assumes "\<forall>n. al n"
  shows "holds idat bs \<Longrightarrow> length bs + length (blocks_bytes rest) \<le> SIZE_MAX \<Longrightarrow>
    \<exists>idat'. stored_blocks al rest idat = Inr idat' \<and> holds idat' (bs @ blocks_bytes rest)"
proof (induction rest arbitrary: idat bs rule: blocks_bytes.induct)
  case (1 rest)
  consider "rest = []" | (last) "rest \<noteq> []" "length rest \<le> 65535" | (more) "65535 < length rest" by fastforce
  then show ?case
  proof cases
    case last
    then have bb: "blocks_bytes rest = block_head 1 (of_nat (length rest)) @ rest" by (subst blocks_bytes.simps) simp
    let ?n = "of_nat (length rest) :: u16"
    have n: "unat ?n = length rest" by (rule u16_length [OF last(2)])
    have nil: "stored_blocks al [] x = Inr x" for x by (subst stored_blocks.simps) simp
    have len: "length bs + (5 + length rest) \<le> SIZE_MAX" using 1(3) unfolding bb by (simp add: block_head_def)
    obtain i1 where i1: "stored_blocks al rest idat = stored_blocks al [] i1" "holds i1 (bs @ block_head 1 ?n @ rest)"
      using block_holds [OF assms 1(2) len, of 1 ?n "stored_blocks al []"] last n stored_blocks.simps [of al rest idat]
      by (auto simp: Let_def)
    then show ?thesis unfolding bb nil by simp
  next
    case more
    then have bb: "blocks_bytes rest = block_head 0 65535 @ take 65535 rest @ blocks_bytes (drop 65535 rest)"
      by (subst blocks_bytes.simps) auto
    have ne: "rest \<noteq> []" using more by auto
    let ?k = "\<lambda>idat. stored_blocks al (drop 65535 rest) idat"
    have len: "length bs + (5 + length (take 65535 rest)) \<le> SIZE_MAX"
      using 1(3) unfolding bb by (simp add: block_head_def)
    obtain i1 where i1: "stored_blocks al rest idat = ?k i1" "holds i1 (bs @ block_head 0 65535 @ take 65535 rest)"
      using block_holds [OF assms 1(2) len, of 0 65535 ?k] more ne stored_blocks.simps [of al rest idat] by (auto simp: Let_def)
    obtain i2 where "?k i1 = Inr i2" "holds i2 ((bs @ block_head 0 65535 @ take 65535 rest) @ blocks_bytes (drop 65535 rest))"
      using 1(1) [OF ne _ i1(2)] more 1(3) unfolding bb by (auto simp: add.assoc)
    then show ?thesis using i1(1) unfolding bb by simp
  qed (use 1(2) in \<open>simp add: stored_blocks.simps [of al "[]"] blocks_bytes.simps [of "[]"]\<close>)
qed

lemma word16_bytes: "unat (ucast n :: u8) + 256 * unat (ucast (drop_bit 8 n) :: u8) = unat (n :: u16)"
proof -
  have "unat (ucast n :: u8) = unat n mod 256" by (simp add: unsigned_ucast_eq take_bit_eq_mod)
  moreover have "unat (ucast (drop_bit 8 n) :: u8) = unat n div 256"
    using unsigned_less [of n, where ?'a = nat] by (simp add: unsigned_ucast_eq take_bit_eq_mod drop_bit_eq_div unat_div)
  ultimately show ?thesis by simp
qed

lemma not_byte: "ucast (NOT n :: u16) = (NOT (ucast n) :: u8)" "ucast (drop_bit 8 (NOT n) :: u16) = (NOT (ucast (drop_bit 8 n)) :: u8)"
  by (rule bit_word_eqI, simp add: bit_simps)+

lemma inflate_block:
  assumes "length d = unat n"
  shows "inflate (block_head 1 n @ d @ r) = Some (d, r)"
    "inflate (block_head 0 n @ d @ r) = map_option (\<lambda>(e, r'). (d @ e, r')) (inflate r)"
  by (subst inflate.simps, simp add: block_head_def word16_bytes not_byte assms Let_def)+

lemma inflate_blocks: "rest \<noteq> [] \<Longrightarrow> inflate (blocks_bytes rest @ r) = Some (rest, r)"
proof (induction rest rule: blocks_bytes.induct)
  case (1 rest)
  show ?case
  proof (cases "length rest \<le> 65535")
    case True
    then show ?thesis using 1(2) inflate_block(1) [of rest "of_nat (length rest)" r] u16_length [OF True]
      by (subst blocks_bytes.simps) simp
  next
    case False
    then have "inflate (blocks_bytes (drop 65535 rest) @ r) = Some (drop 65535 rest, r)" using 1 by simp
    then show ?thesis using False 1(2) inflate_block(2) [of "take 65535 rest" 65535 "blocks_bytes (drop 65535 rest) @ r"]
      by (subst blocks_bytes.simps) simp
  qed
qed

section \<open>Rows\<close>

definition rgb :: "u32 \<Rightarrow> u8 \<times> u8 \<times> u8" where
  "rgb c = (ucast (drop_bit 16 c), ucast (drop_bit 8 c), ucast c)"

definition rgb_bytes :: "u32 \<Rightarrow> u8 list" where
  "rgb_bytes c = [ucast (drop_bit 16 c), ucast (drop_bit 8 c), ucast c]"

definition row_of :: "(int \<Rightarrow> u32) \<Rightarrow> int \<Rightarrow> u8 list" where
  "row_of f w = 0 # concat (map (\<lambda>x. rgb_bytes (f x)) [0..w - 1])"

lemma length_concat_rgb: "length (concat (map (\<lambda>x. rgb_bytes (f x)) xs)) = 3 * length xs"
  by (induction xs) (simp_all add: rgb_bytes_def)

lemma triples_concat: "triples (concat (map (\<lambda>x. rgb_bytes (f x)) xs)) = map (\<lambda>x. rgb (f x)) xs"
  by (induction xs) (simp_all add: rgb_bytes_def rgb_def)

lemma length_row_of: "length (row_of f w) = 3 * nat w + 1"
  by (simp add: row_of_def length_concat_rgb)

lemma read_rows_concat:
  "read_rows (nat w) (length ys) (concat (map (\<lambda>y. row_of (f y) w) ys)) = Some (map (\<lambda>y. map (\<lambda>x. rgb (f y x)) [0..w - 1]) ys)"
proof (induction ys)
  case (Cons y ys)
  have "length (concat (map (\<lambda>x. rgb_bytes (f y x)) [0..w - 1])) = 3 * nat w" by (simp add: length_concat_rgb)
  then show ?case using Cons by (simp add: row_of_def triples_concat)
qed simp

section \<open>The whole image\<close>

definition sampled :: "bitmap_state \<Rightarrow> bool \<Rightarrow> int \<Rightarrow> int \<Rightarrow> u32" where
  "sampled b u x y = (case muplar_sample_pixel b x y u of Inl _ \<Rightarrow> 0 | Inr c \<Rightarrow> c)"

lemma sample_ok:
  assumes "bitmap_ok b" and "0 \<le> x" "x < bw b" "0 \<le> y" "y < bh b"
  shows "muplar_sample_pixel b x y u = Inr (sampled b u x y)" "sampled b False x y = pixel b x y"
proof -
  obtain ps where ps: "pixels b = Some ps" "int (length ps) = bw b * bh b" using assms(1) by (auto simp: bitmap_ok_def)
  have "(y + 1) * bw b \<le> bh b * bw b" using assms by (intro mult_right_mono) auto
  then have "0 \<le> y * bw b + x \<and> y * bw b + x < int (length ps)" using assms ps(2) by (simp add: algebra_simps)
  then have "get_px ps (y * bw b + x) = Inr (pixel b x y)" by (simp add: get_px_def pixel_def ps)
  then show "muplar_sample_pixel b x y u = Inr (sampled b u x y)" "sampled b False x y = pixel b x y"
    by (simp_all add: sampled_def muplar_sample_pixel_def ps(1))
qed

definition image_bytes :: "bitmap_state \<Rightarrow> bool \<Rightarrow> u8 list" where
  "image_bytes b u = concat (map (\<lambda>y. row_of (\<lambda>x. sampled b u x y) (bw b)) [0..bh b - 1])"

lemma length_image_bytes: "length (image_bytes b u) = nat (bh b) * (3 * nat (bw b) + 1)"
  by (simp add: image_bytes_def length_concat o_def length_row_of sum_list_triv)

lemma pixel_holds:
  assumes "\<forall>n. al n" and "bitmap_ok b" and "x \<in> set [0..bw b - 1]" and "y \<in> set [0..bh b - 1]"
    and "holds raw bs" and "length bs + length (rgb_bytes (sampled b u x y)) \<le> SIZE_MAX"
  shows "\<exists>raw'. rbind (muplar_sample_pixel b x y u) (\<lambda>color.
            rbind (muplar_buf_u8 al (ucast (drop_bit 16 color)) raw) (\<lambda>raw.
            rbind (muplar_buf_u8 al (ucast (drop_bit 8 color)) raw) (\<lambda>raw.
              muplar_buf_u8 al (ucast color) raw))) = Inr raw' \<and> holds raw' (bs @ rgb_bytes (sampled b u x y))"
proof -
  let ?c = "sampled b u x y"
  have s: "muplar_sample_pixel b x y u = Inr ?c" using sample_ok(1) [OF assms(2)] assms(3,4) by auto
  show ?thesis
    using append_list_holds [OF assms(1,5), of "[[ucast (drop_bit 16 ?c)], [ucast (drop_bit 8 ?c)], [ucast ?c]]"] assms(6)
    by (auto simp: s muplar_buf_u8_def rgb_bytes_def rbind_eq_Inr_iff)
qed

lemma row_holds:
  assumes "\<forall>n. al n" and "bitmap_ok b" and "y \<in> set [0..bh b - 1]"
    and "holds raw bs" and "length bs + length (row_of (\<lambda>x. sampled b u x y) (bw b)) \<le> SIZE_MAX"
  shows "\<exists>raw'. rbind (muplar_buf_u8 al 0 raw) (foldM (\<lambda>x raw.
            rbind (muplar_sample_pixel b x y u) (\<lambda>color.
            rbind (muplar_buf_u8 al (ucast (drop_bit 16 color)) raw) (\<lambda>raw.
            rbind (muplar_buf_u8 al (ucast (drop_bit 8 color)) raw) (\<lambda>raw.
              muplar_buf_u8 al (ucast color) raw)))) [0..bw b - 1]) = Inr raw' \<and>
     holds raw' (bs @ row_of (\<lambda>x. sampled b u x y) (bw b))"
proof -
  obtain r1 where r1: "muplar_buf_u8 al 0 raw = Inr r1" "holds r1 (bs @ [0])"
    using append_holds [OF assms(1,4), of "[0]"] assms(5) by (auto simp: muplar_buf_u8_def row_of_def)
  show ?thesis
    using foldM_holds [where g = "\<lambda>x. rgb_bytes (sampled b u x y)", OF pixel_holds [OF assms(1,2) _ assms(3)] r1(2), of "[0..bw b - 1]"] assms(5)
    by (simp add: r1(1) row_of_def)
qed

lemma raw_rows_holds:
  assumes "\<forall>n. al n" and "bitmap_ok b" and "holds raw []" and "length (image_bytes b u) \<le> SIZE_MAX"
  shows "\<exists>raw'. raw_rows al b u raw = Inr raw' \<and> holds raw' (image_bytes b u)"
  using foldM_holds [where g = "\<lambda>y. row_of (\<lambda>x. sampled b u x y) (bw b)", OF row_holds [OF assms(1,2)] assms(3), of "[0..bh b - 1]"] assms(4)
  unfolding raw_rows_def image_bytes_def by simp

lemma length_blocks: "length (blocks_bytes rest) \<le> length rest + 5 * (length rest div 65535 + 1)"
proof (induction rest rule: blocks_bytes.induct)
  case (1 rest)
  show ?case
  proof (cases "65535 < length rest")
    case True
    then obtain k where k: "length rest = 65535 + k" by (metis less_imp_add_positive)
    then have "length rest div 65535 = Suc (k div 65535)" by simp
    then show ?thesis using 1 True k by (subst blocks_bytes.simps) (auto simp: block_head_def)
  next
    case False
    then show ?thesis by (subst blocks_bytes.simps) (auto simp: block_head_def)
  qed
qed

definition zlib_bytes :: "u8 list \<Rightarrow> u8 list" where
  "zlib_bytes raw = [0x78, 0x01] @ blocks_bytes raw @ be32 (muplar_adler32 raw)"

definition png_bytes :: "u32 \<Rightarrow> u32 \<Rightarrow> u8 list \<Rightarrow> u8 list" where
  "png_bytes w h raw = png_sig @ chunk_bytes IHDR (be32 w @ be32 h @ [8, 2, 0, 0, 0]) @ chunk_bytes IDAT (zlib_bytes raw) @ chunk_bytes IEND []"

lemma kinds [simp]: "length IHDR = 4" "length IDAT = 4" "length IEND = 4" "length png_sig = 8"
  by (simp_all add: IHDR_def IDAT_def IEND_def png_sig_def)

lemma decode_png_bytes:
  assumes "raw \<noteq> []" and "length (zlib_bytes raw) < 2 ^ 32" and "read_rows (unat w) (unat h) raw = Some rows"
  shows "decode_png (png_bytes w h raw) = Some (w, h, rows)"
proof -
  note rc = read_chunk_bytes
  have "read_chunk (chunk_bytes IEND []) = Some (IEND, [], [])" using rc [of IEND "[]" "[]"] by simp
  moreover have "inflate (drop 2 (zlib_bytes raw)) = Some (raw, be32 (muplar_adler32 raw))"
    using inflate_blocks [OF assms(1)] by (simp add: zlib_bytes_def)
  moreover have "read_be32 (be32 (muplar_adler32 raw)) = Some (muplar_adler32 raw, [])" using read_be32_be32 [of _ "[]"] by simp
  moreover have "take 2 (zlib_bytes raw) = [0x78, 0x01]" by (simp add: zlib_bytes_def numeral_2_eq_2)
  ultimately show ?thesis using assms(2,3) unfolding decode_png_def png_bytes_def by (simp add: rc)
qed

lemma to_png_bytes:
  assumes "bitmap_ok b" and "\<forall>n. al n" and "bh b * (3 * bw b + 1) \<le> 2 ^ 31"
  defines "raw \<equiv> image_bytes b (muplar_bitmap_is_uniform b)"
  shows "length (zlib_bytes raw) < 2 ^ 32"
    "\<exists>png. muplar_bitmap_to_png al b \<lparr>buf_data = [], buf_cap = 0, buf_ok = k\<rparr> = Inr (True, png) \<and>
       buf_data png = png_bytes (b_width b) (b_height b) raw"
proof -
  have pos: "0 < bw b" "0 < bh b" "pixels b \<noteq> None" using assms(1) by (auto simp: bitmap_ok_def)
  have "int (nat (bh b) * (3 * nat (bw b) + 1)) = bh b * (3 * bw b + 1)" using pos by (simp add: algebra_simps)
  then have "int (length raw) \<le> int (2 ^ 31)" using assms(3) unfolding raw_def length_image_bytes by simp
  then have len: "length raw \<le> 2 ^ 31" by (simp only: of_nat_le_iff)
  have "length raw div 65535 \<le> 2 ^ 31 div 65535" using len by (rule div_le_mono)
  then show small: "length (zlib_bytes raw) < 2 ^ 32" using length_blocks [of raw] len by (simp add: zlib_bytes_def)
  have max: "2 ^ 40 \<le> SIZE_MAX" by (simp add: SIZE_MAX_def)
  have cnt: "(unat (b_width b) * 3 + 1) * unat (b_height b) = length raw"
    using unat_pos_sint [OF pos(1)] unat_pos_sint [OF pos(2)] unfolding raw_def length_image_bytes by (simp add: algebra_simps)
  have e: "holds empty_buf []" by (simp add: holds_def empty_buf_def)
  obtain raw0 where raw0: "muplar_buf_reserve al (length raw) empty_buf = (True, raw0)" "holds raw0 []"
    using reserve_holds [OF assms(2) e, of "length raw"] len max by auto
  obtain raw1 where raw1: "raw_rows al b (muplar_bitmap_is_uniform b) raw0 = Inr raw1" "holds raw1 raw"
    using raw_rows_holds [OF assms(2,1) raw0(2), of "muplar_bitmap_is_uniform b"] len max unfolding raw_def by auto
  obtain i1 where i1: "muplar_buf_u8 al 0x78 empty_buf = Inr i1" "holds i1 [0x78]"
    using append_holds [OF assms(2) e, of "[0x78]"] max by (auto simp: muplar_buf_u8_def)
  obtain i2 where i2: "muplar_buf_u8 al 0x01 i1 = Inr i2" "holds i2 [0x78, 0x01]"
    using append_holds [OF assms(2) i1(2), of "[0x01]"] max by (auto simp: muplar_buf_u8_def)
  obtain i3 where i3: "stored_blocks al raw i2 = Inr i3" "holds i3 ([0x78, 0x01] @ blocks_bytes raw)"
    using stored_blocks_holds [OF assms(2) i2(2), of raw] small max by (auto simp: zlib_bytes_def)
  obtain i4 where i4: "muplar_buf_be32 al (muplar_adler32 raw) i3 = Inr i4" "holds i4 (zlib_bytes raw)"
    using append_holds [OF assms(2) i3(2), of "be32 (muplar_adler32 raw)"] small max by (auto simp: muplar_buf_be32_def zlib_bytes_def)
  have e': "holds \<lparr>buf_data = [], buf_cap = 0, buf_ok = True\<rparr> []" by (simp add: holds_def)
  obtain p1 where p1: "muplar_buf_append al png_sig \<lparr>buf_data = [], buf_cap = 0, buf_ok = True\<rparr> = Inr p1" "holds p1 png_sig"
    using append_holds [OF assms(2) e', of png_sig] max by auto
  let ?hdr = "be32 (b_width b) @ be32 (b_height b) @ [8, 2, 0, 0, 0]"
  obtain p2 where p2: "muplar_png_chunk al IHDR ?hdr p1 = Inr p2" "holds p2 (png_sig @ chunk_bytes IHDR ?hdr)"
    using chunk_holds [OF assms(2) p1(2), of IHDR ?hdr] max by (auto simp: chunk_bytes_def)
  obtain p3 where p3: "muplar_png_chunk al IDAT (zlib_bytes raw) p2 = Inr p3"
      "holds p3 ((png_sig @ chunk_bytes IHDR ?hdr) @ chunk_bytes IDAT (zlib_bytes raw))"
    using chunk_holds [OF assms(2) p2(2), of IDAT "zlib_bytes raw"] max small by (auto simp: chunk_bytes_def)
  obtain p4 where p4: "muplar_png_chunk al IEND [] p3 = Inr p4"
      "holds p4 (((png_sig @ chunk_bytes IHDR ?hdr) @ chunk_bytes IDAT (zlib_bytes raw)) @ chunk_bytes IEND [])"
    using chunk_holds [OF assms(2) p3(2), of IEND "[]"] max small by (auto simp: chunk_bytes_def)
  have "buf_data raw1 = raw" "buf_data i4 = zlib_bytes raw" "buf_ok p4" using raw1(2) i4(2) p4(2) by (auto simp: holds_def)
  then have "muplar_bitmap_to_png al b \<lparr>buf_data = [], buf_cap = 0, buf_ok = k\<rparr> = Inr (True, p4)"
    using pos cnt raw0(1) raw1(1) i1(1) i2(1) i3(1) i4(1) p1(1) p2(1) p3(1) p4(1)
    by (simp add: muplar_bitmap_to_png_def Let_def)
  moreover have "buf_data p4 = png_bytes (b_width b) (b_height b) raw" using p4(2) by (simp add: holds_def png_bytes_def)
  ultimately show "\<exists>png. muplar_bitmap_to_png al b \<lparr>buf_data = [], buf_cap = 0, buf_ok = k\<rparr> = Inr (True, png) \<and>
       buf_data png = png_bytes (b_width b) (b_height b) raw" by blast
qed

lemma png_decodes:
  assumes "bitmap_ok b" and "\<forall>n. al n" and "bh b * (3 * bw b + 1) \<le> 2 ^ 31"
  shows "\<exists>png. muplar_bitmap_to_png al b \<lparr>buf_data = [], buf_cap = 0, buf_ok = k\<rparr> = Inr (True, png) \<and>
    decode_png (buf_data png) =
      Some (b_width b, b_height b,
        map (\<lambda>y. map (\<lambda>x. rgb (sampled b (muplar_bitmap_is_uniform b) x y)) [0..bw b - 1]) [0..bh b - 1])"
proof -
  define raw where "raw = image_bytes b (muplar_bitmap_is_uniform b)"
  note tp = to_png_bytes(1) [OF assms] to_png_bytes(2) [OF assms, where k = k]
  have pos: "0 < bw b" "0 < bh b" using assms(1) by (auto simp: bitmap_ok_def)
  have "length raw \<noteq> 0" using pos unfolding raw_def length_image_bytes by simp
  then have ne: "raw \<noteq> []" by auto
  have "read_rows (nat (bw b)) (length [0..bh b - 1]) raw =
      Some (map (\<lambda>y. map (\<lambda>x. rgb (sampled b (muplar_bitmap_is_uniform b) x y)) [0..bw b - 1]) [0..bh b - 1])"
    unfolding raw_def image_bytes_def by (rule read_rows_concat)
  then have "read_rows (unat (b_width b)) (unat (b_height b)) raw =
      Some (map (\<lambda>y. map (\<lambda>x. rgb (sampled b (muplar_bitmap_is_uniform b) x y)) [0..bw b - 1]) [0..bh b - 1])"
    using unat_pos_sint [OF pos(1)] unat_pos_sint [OF pos(2)] by simp
  then show ?thesis using decode_png_bytes [OF ne, of "b_width b" "b_height b"] tp unfolding raw_def by auto
qed

text \<open>C21: a bitmap that is not of a single colour is encoded, when memory suffices, to a PNG file
  that a decoder, verifying every CRC and the Adler checksum, reads back as the bitmap's size
  and the red, green and blue channels of all its pixels.\<close>

theorem png_roundtrip:
  assumes "bitmap_ok b" and "\<not> muplar_bitmap_is_uniform b" and "\<forall>n. al n" and "bh b * (3 * bw b + 1) \<le> 2 ^ 31"
  shows "\<exists>png. muplar_bitmap_to_png al b \<lparr>buf_data = [], buf_cap = 0, buf_ok = k\<rparr> = Inr (True, png) \<and>
    decode_png (buf_data png) =
      Some (b_width b, b_height b, map (\<lambda>y. map (\<lambda>x. rgb (pixel b x y)) [0..bw b - 1]) [0..bh b - 1])"
proof -
  have eq: "map (\<lambda>y. map (\<lambda>x. rgb (sampled b False x y)) [0..bw b - 1]) [0..bh b - 1] =
      map (\<lambda>y. map (\<lambda>x. rgb (pixel b x y)) [0..bw b - 1]) [0..bh b - 1]"
    using sample_ok(2) [OF assms(1)] by (intro map_cong refl) auto
  have u: "muplar_bitmap_is_uniform b = False" using assms(2) by simp
  show ?thesis using png_decodes [OF assms(1,3,4), of k] unfolding u eq .
qed

definition demo_image :: bitmap_state where
  "demo_image = demo_bitmap\<lparr>pixels := Some [0xffff0000, 0xff00ff00, 0xff0000ff, 0, 1, 2]\<rparr>"

theorem png_roundtrip_witness:
  "\<exists>png. muplar_bitmap_to_png (\<lambda>_. True) demo_image \<lparr>buf_data = [], buf_cap = 0, buf_ok = False\<rparr> = Inr (True, png) \<and>
    decode_png (buf_data png) =
      Some (b_width demo_image, b_height demo_image,
        map (\<lambda>y. map (\<lambda>x. rgb (pixel demo_image x y)) [0..bw demo_image - 1]) [0..bh demo_image - 1])"
proof (rule png_roundtrip)
  show "bitmap_ok demo_image" by (simp add: bitmap_ok_def demo_image_def demo_bitmap_dims)
  show "\<not> muplar_bitmap_is_uniform demo_image" by code_simp
qed (simp_all add: demo_image_def demo_bitmap_dims)

text \<open>C22: a bitmap of a single colour is not encoded as it is: the first 96 rows of the PNG are
  the colour 0x263238, whatever the bitmap's colour.\<close>

theorem png_uniform_replaced:
  assumes "bitmap_ok b" and "muplar_bitmap_is_uniform b" and "\<forall>n. al n" and "bh b * (3 * bw b + 1) \<le> 2 ^ 31"
  shows "\<exists>png rows. muplar_bitmap_to_png al b \<lparr>buf_data = [], buf_cap = 0, buf_ok = k\<rparr> = Inr (True, png) \<and>
    decode_png (buf_data png) = Some (b_width b, b_height b, rows) \<and>
    (\<forall>y < nat (bh b). y < 96 \<longrightarrow> rows ! y = replicate (nat (bw b)) (0x26, 0x32, 0x38))"
proof -
  obtain ps where ps: "pixels b = Some ps" using assms(1) by (auto simp: bitmap_ok_def)
  have "sampled b True x y = 0xff263238" if "0 \<le> x" "x < bw b" "0 \<le> y" "y < bh b" "y < 96" for x y
    using sample_ok(1) [OF assms(1) that(1-4), of True] that(5) by (auto simp: muplar_sample_pixel_def ps rbind_eq_Inr_iff)
  moreover have "rgb 0xff263238 = (0x26, 0x32, 0x38)" by (simp add: rgb_def)
  ultimately have row: "map (\<lambda>x. rgb (sampled b True x (int y))) [0..bw b - 1] = replicate (nat (bw b)) (0x26, 0x32, 0x38)"
    if "y < nat (bh b)" "y < 96" for y
    using that by (intro nth_equalityI) auto
  show ?thesis using png_decodes [OF assms(1,3,4), of k] assms(2) row by auto
qed

theorem png_uniform_replaced_witness:
  "\<exists>png rows. muplar_bitmap_to_png (\<lambda>_. True) demo_bitmap \<lparr>buf_data = [], buf_cap = 0, buf_ok = False\<rparr> = Inr (True, png) \<and>
    decode_png (buf_data png) = Some (b_width demo_bitmap, b_height demo_bitmap, rows) \<and>
    (\<forall>y < nat (bh demo_bitmap). y < 96 \<longrightarrow> rows ! y = replicate (nat (bw demo_bitmap)) (0x26, 0x32, 0x38))"
proof (rule png_uniform_replaced)
  show "muplar_bitmap_is_uniform demo_bitmap" by code_simp
qed (simp_all add: demo_bitmap_ok demo_bitmap_dims)

section \<open>Checksums\<close>

text \<open>The sums of Adler-32 without reduction: the bytes, and the bytes each weighted by its
  distance from the end.\<close>

fun weighted :: "u8 list \<Rightarrow> nat" where
  "weighted [] = 0"
| "weighted (d # ds) = Suc (length ds) * unat d + weighted ds"

lemma of_nat_mod32: "x < 2 ^ 32 \<Longrightarrow> (of_nat x :: u32) mod 65521 = of_nat (x mod 65521)"
  by (simp add: word_unat_eq_iff unat_mod unat_of_nat take_bit_eq_mod)

lemma mod_accumulate:
  fixes b c n w m :: nat
  shows "((b + c mod m) mod m + n * (c mod m) + w) mod m = (b + c + n * c + w) mod m"
proof -
  have "((b + c mod m) mod m) mod m = (b + c) mod m" by (simp add: mod_simps)
  moreover have "(n * (c mod m)) mod m = (n * c) mod m" by (rule mod_mult_right_eq)
  ultimately show ?thesis by (intro mod_add_cong) simp_all
qed

lemma adler_fold:
  "a < 65521 \<Longrightarrow> b < 65521 \<Longrightarrow> fold adler_step ds (of_nat a, of_nat b) =
     (of_nat ((a + sum_list (map unat ds)) mod 65521), of_nat ((b + length ds * a + weighted ds) mod 65521))"
proof (induction ds arbitrary: a b)
  case (Cons d ds)
  let ?a = "(a + unat d) mod 65521" and ?b = "(b + (a + unat d) mod 65521) mod 65521"
  have d: "unat d < 256" using unsigned_less [of d, where ?'a = nat] by simp
  have "of_nat a + ucast d = (of_nat (a + unat d) :: u32)" by simp
  then have sa: "(of_nat a + ucast d) mod 65521 = (of_nat ?a :: u32)" using d Cons.prems of_nat_mod32 [of "a + unat d"] by simp
  have "?a < 65521" by simp
  then have sb: "(of_nat b + of_nat ?a) mod 65521 = (of_nat ?b :: u32)" using of_nat_mod32 [of "b + ?a"] Cons.prems by simp
  have "adler_step d (of_nat a, of_nat b) = (of_nat ?a, of_nat ?b)" by (simp only: adler_step_def prod.case Let_def sa sb)
  then have "fold adler_step (d # ds) (of_nat a, of_nat b) =
      (of_nat ((?a + sum_list (map unat ds)) mod 65521), of_nat ((?b + length ds * ?a + weighted ds) mod 65521))"
    using Cons.IH [of ?a ?b] by simp
  moreover have "(?a + sum_list (map unat ds)) mod 65521 = (a + sum_list (map unat (d # ds))) mod 65521"
    by (simp add: mod_add_left_eq add.assoc)
  moreover have "(?b + length ds * ?a + weighted ds) mod 65521 = (b + length (d # ds) * a + weighted (d # ds)) mod 65521"
  proof -
    have "b + (a + unat d) + length ds * (a + unat d) + weighted ds = b + length (d # ds) * a + weighted (d # ds)"
      by (simp add: algebra_simps)
    then show ?thesis unfolding mod_accumulate by (rule arg_cong)
  qed
  ultimately show ?case by simp
qed simp

text \<open>the Adler-32 routine, which reduces modulo 65521 after every byte, computes the
  checksum as RFC 1950 defines it: one plus the sum of the bytes in the lower half, and the
  length plus the sum of the bytes weighted by their distance from the end in the upper half,
  both modulo 65521. No step wraps around.\<close>

theorem adler32_closed_form:
  "muplar_adler32 ds =
     push_bit 16 (of_nat ((length ds + weighted ds) mod 65521)) OR of_nat ((1 + sum_list (map unat ds)) mod 65521)"
  using adler_fold [of 1 0 ds] by (simp add: muplar_adler32_def)

text \<open>The CRC of a concatenation is the CRC of the second part continued from that of the
  first, as the chunks use it, and the CRC of the digits 1 to 9 is the check value of CRC-32
  (ISO-HDLC), 0xCBF43926.\<close>

theorem crc32_correct:
  "muplar_crc32_update (muplar_crc32_update c xs) ys = muplar_crc32_update c (xs @ ys) \<and>
   muplar_crc32_update 0 [0x31, 0x32, 0x33, 0x34, 0x35, 0x36, 0x37, 0x38, 0x39] = 0xCBF43926"
proof
  show "muplar_crc32_update (muplar_crc32_update c xs) ys = muplar_crc32_update c (xs @ ys)" by (rule crc32_append)
  show "muplar_crc32_update 0 [0x31, 0x32, 0x33, 0x34, 0x35, 0x36, 0x37, 0x38, 0x39] = 0xCBF43926"
    by (simp add: muplar_crc32_update_def crc_byte_def funpow8 crc_bit_def)
qed

end
