(* ===== verification/Canvas.thy ===== *)
theory Canvas
  imports Pixels
begin

text \<open>
  \<^verbatim>\<open>android.graphics.Canvas\<close> of the ART shim without the drawing methods: creation, the
  transform (a scale and a translation in single precision), the clip rectangle and the stack
  of saved states. Methods on a token without a canvas return their default.
\<close>

section \<open>Methods\<close>

abbreviation stack_limit :: nat where "stack_limit \<equiv> 512"

definition on_canvas :: "jlong \<Rightarrow> (canvas_state \<Rightarrow> canvas_state) \<Rightarrow> gfx \<Rightarrow> gfx" where
  "on_canvas t f g = g\<lparr>canvases := update c_token t f (canvases g)\<rparr>"

definition Canvas_nInitRaster :: "jlong \<Rightarrow> gfx \<Rightarrow> jlong \<times> gfx" where
  "Canvas_nInitRaster bitmap g = (case muplar_alloc_canvas bitmap g of (i, g') \<Rightarrow> (c_token (canvases g' ! i), g'))"

definition saved :: "canvas_state \<Rightarrow> canvas_stack_entry" where
  "saved c = \<lparr>e_tx = tx c, e_ty = ty c, e_sx = sx c, e_sy = sy c, e_clip_left = clip_left c, e_clip_top = clip_top c,
     e_clip_right = clip_right c, e_clip_bottom = clip_bottom c\<rparr>"

definition push_state :: "canvas_state \<Rightarrow> canvas_state" where
  "push_state c = (if length (stack c) < stack_limit then c\<lparr>stack := stack c @ [saved c]\<rparr> else c)"

definition pop_state :: "canvas_state \<Rightarrow> canvas_state" where
  "pop_state c =
     (let e = last (stack c) in
      c\<lparr>tx := e_tx e, ty := e_ty e, sx := e_sx e, sy := e_sy e, clip_left := e_clip_left e, clip_top := e_clip_top e,
        clip_right := e_clip_right e, clip_bottom := e_clip_bottom e, stack := butlast (stack c)\<rparr>)"

definition Canvas_nSave :: "jlong \<Rightarrow> jint \<Rightarrow> gfx \<Rightarrow> jint \<times> gfx" where
  "Canvas_nSave canvas flags g =
     (case canvas_of g canvas of None \<Rightarrow> (1, g)
      | Some c \<Rightarrow> (of_nat (length (stack (push_state c))), on_canvas canvas push_state g))"

definition Canvas_nRestore :: "jlong \<Rightarrow> gfx \<Rightarrow> bool \<times> gfx" where
  "Canvas_nRestore canvas g = (True, on_canvas canvas (\<lambda>c. if stack c \<noteq> [] then pop_state c else c) g)"

text \<open>\<^verbatim>\<open>while (depth >= save_count && depth > 0)\<close> pop.\<close>

function restore_to :: "int \<Rightarrow> canvas_state \<Rightarrow> canvas_state" where
  "restore_to save_count c =
     (if save_count \<le> int (length (stack c)) \<and> 0 < length (stack c) then restore_to save_count (pop_state c) else c)"
  by pat_completeness auto
termination
  by (relation "measure (\<lambda>(n, c). length (stack c))") (auto simp: pop_state_def Let_def)

declare restore_to.simps [simp del]

definition Canvas_nRestoreToCount :: "jlong \<Rightarrow> jint \<Rightarrow> gfx \<Rightarrow> gfx" where
  "Canvas_nRestoreToCount canvas save_count g = on_canvas canvas (restore_to (sint save_count)) g"

definition Canvas_nGetSaveCount :: "jlong \<Rightarrow> gfx \<Rightarrow> jint" where
  "Canvas_nGetSaveCount canvas g = (case canvas_of g canvas of None \<Rightarrow> 1 | Some c \<Rightarrow> of_nat (length (stack c)) + 1)"

text \<open>The transform of a point.\<close>

definition map_x :: "canvas_state \<Rightarrow> jfloat \<Rightarrow> jfloat" where "map_x c v = fadd (fmul v (sx c)) (tx c)"
definition map_y :: "canvas_state \<Rightarrow> jfloat \<Rightarrow> jfloat" where "map_y c v = fadd (fmul v (sy c)) (ty c)"

definition clip_to :: "int \<Rightarrow> int \<Rightarrow> int \<Rightarrow> int \<Rightarrow> canvas_state \<Rightarrow> canvas_state" where
  "clip_to l t r b c =
     c\<lparr>clip_left := (if clip_left c < l then l else clip_left c), clip_top := (if clip_top c < t then t else clip_top c),
       clip_right := (if r < clip_right c then r else clip_right c), clip_bottom := (if b < clip_bottom c then b else clip_bottom c)\<rparr>"

definition Canvas_nClipRect :: "jlong \<Rightarrow> jfloat \<Rightarrow> jfloat \<Rightarrow> jfloat \<Rightarrow> jfloat \<Rightarrow> jint \<Rightarrow> gfx \<Rightarrow> fault + bool \<times> gfx" where
  "Canvas_nClipRect canvas left tp right bottom op g =
     (case canvas_of g canvas of None \<Rightarrow> Inr (True, g)
      | Some c \<Rightarrow>
          rbind (muplar_floor_to_int (map_x c left)) (\<lambda>l.
          rbind (muplar_floor_to_int (map_y c tp)) (\<lambda>t.
          rbind (muplar_ceil_to_int (map_x c right)) (\<lambda>r.
          rbind (muplar_ceil_to_int (map_y c bottom)) (\<lambda>b.
            let c' = clip_to l t r b c in
            Inr (clip_left c' < clip_right c' \<and> clip_top c' < clip_bottom c', on_canvas canvas (clip_to l t r b) g))))))"

text \<open>The bounds written to the \<^verbatim>\<open>Rect\<close>: left, top, right, bottom.\<close>

definition Canvas_nGetClipBounds :: "jlong \<Rightarrow> gfx \<Rightarrow> fault + int \<times> int \<times> int \<times> int" where
  "Canvas_nGetClipBounds canvas g =
     (case canvas_of g canvas of None \<Rightarrow> Inr (0, 0, 1080, 1920)
      | Some c \<Rightarrow>
          let s = (if feq (sx c) 0 then f1 else sx c); s' = (if feq (sy c) 0 then f1 else sy c) in
          rbind (muplar_floor_to_int (fdiv (fsub (of_int32 (clip_left c)) (tx c)) s)) (\<lambda>l.
          rbind (muplar_floor_to_int (fdiv (fsub (of_int32 (clip_top c)) (ty c)) s')) (\<lambda>t.
          rbind (muplar_ceil_to_int (fdiv (fsub (of_int32 (clip_right c)) (tx c)) s)) (\<lambda>r.
          rbind (muplar_ceil_to_int (fdiv (fsub (of_int32 (clip_bottom c)) (ty c)) s')) (\<lambda>b.
            Inr (l, t, r, b))))))"

definition Canvas_nGetWidth :: "jlong \<Rightarrow> gfx \<Rightarrow> int" where
  "Canvas_nGetWidth canvas g =
     (case muplar_canvas_bitmap canvas g of None \<Rightarrow> 1080
      | Some i \<Rightarrow> if 0 < bw (bitmaps g ! i) then bw (bitmaps g ! i) else 1080)"

definition Canvas_nGetHeight :: "jlong \<Rightarrow> gfx \<Rightarrow> int" where
  "Canvas_nGetHeight canvas g =
     (case muplar_canvas_bitmap canvas g of None \<Rightarrow> 1920
      | Some i \<Rightarrow> if 0 < bh (bitmaps g ! i) then bh (bitmaps g ! i) else 1920)"

definition Canvas_nSetBitmap :: "jlong \<Rightarrow> jlong \<Rightarrow> gfx \<Rightarrow> gfx" where
  "Canvas_nSetBitmap canvas bitmap g =
     on_canvas canvas (\<lambda>c. muplar_canvas_reset (bitmap_of g bitmap) (c\<lparr>bitmap_token := bitmap\<rparr>)) g"

definition Canvas_nSaveLayer :: "jlong \<Rightarrow> jfloat \<Rightarrow> jfloat \<Rightarrow> jfloat \<Rightarrow> jfloat \<Rightarrow> jlong \<Rightarrow> gfx \<Rightarrow> fault + jint \<times> gfx" where
  "Canvas_nSaveLayer canvas l t r b paint g =
     (case Canvas_nSave canvas 0 g of (count, g1) \<Rightarrow>
        if flt l r \<and> flt t b then rbind (Canvas_nClipRect canvas l t r b 0 g1) (\<lambda>(_, g2). Inr (count, g2))
        else Inr (count, g1))"

definition Canvas_nSaveLayerAlpha :: "jlong \<Rightarrow> jfloat \<Rightarrow> jfloat \<Rightarrow> jfloat \<Rightarrow> jfloat \<Rightarrow> jint \<Rightarrow> gfx \<Rightarrow> fault + jint \<times> gfx" where
  "Canvas_nSaveLayerAlpha canvas l t r b alpha g =
     (case Canvas_nSave canvas 0 g of (count, g1) \<Rightarrow>
        if flt l r \<and> flt t b then rbind (Canvas_nClipRect canvas l t r b 0 g1) (\<lambda>(_, g2). Inr (count, g2))
        else Inr (count, g1))"

definition Canvas_nSaveUnclippedLayer :: "jlong \<Rightarrow> gfx \<Rightarrow> jint \<times> gfx" where
  "Canvas_nSaveUnclippedLayer canvas g = Canvas_nSave canvas 0 g"

definition Canvas_nRestoreUnclippedLayer :: "jlong \<Rightarrow> jint \<Rightarrow> jlong \<Rightarrow> gfx \<Rightarrow> gfx" where
  "Canvas_nRestoreUnclippedLayer canvas save_count paint g = Canvas_nRestoreToCount canvas save_count g"

definition Canvas_nSetMatrix :: "jlong \<Rightarrow> jlong \<Rightarrow> gfx \<Rightarrow> gfx" where
  "Canvas_nSetMatrix canvas matrix g = on_canvas canvas (\<lambda>c. c\<lparr>tx := 0, ty := 0, sx := f1, sy := f1\<rparr>) g"

definition Canvas_nTranslate :: "jlong \<Rightarrow> jfloat \<Rightarrow> jfloat \<Rightarrow> gfx \<Rightarrow> gfx" where
  "Canvas_nTranslate canvas dx dy g =
     on_canvas canvas (\<lambda>c. c\<lparr>tx := fadd (tx c) (fmul dx (sx c)), ty := fadd (ty c) (fmul dy (sy c))\<rparr>) g"

definition Canvas_nScale :: "jlong \<Rightarrow> jfloat \<Rightarrow> jfloat \<Rightarrow> gfx \<Rightarrow> gfx" where
  "Canvas_nScale canvas x y g = on_canvas canvas (\<lambda>c. c\<lparr>sx := fmul (sx c) x, sy := fmul (sy c) y\<rparr>) g"

definition RecordingCanvas_nCreateDisplayListCanvas :: "gfx \<Rightarrow> jlong \<times> gfx" where
  "RecordingCanvas_nCreateDisplayListCanvas g = (case muplar_alloc_canvas 0 g of (i, g') \<Rightarrow> (c_token (canvases g' ! i), g'))"

definition RecordingCanvas_nResetDisplayListCanvas :: "jlong \<Rightarrow> jlong \<Rightarrow> jint \<Rightarrow> jint \<Rightarrow> gfx \<Rightarrow> gfx" where
  "RecordingCanvas_nResetDisplayListCanvas canvas node width height g =
     on_canvas canvas (\<lambda>c.
       let c1 = muplar_canvas_reset None (c\<lparr>bitmap_token := 0\<rparr>) in
       if 0 <s width \<and> 0 <s height then c1\<lparr>clip_right := sint width, clip_bottom := sint height\<rparr> else c1) g"

section \<open>Sequences of calls\<close>

datatype canvas_call =
    Save | SaveLayer jfloat jfloat jfloat jfloat | Restore | Translate jfloat jfloat | Scale jfloat jfloat
  | SetMatrix jlong | ClipRect jfloat jfloat jfloat jfloat

fun exec_canvas :: "jlong \<Rightarrow> canvas_call \<Rightarrow> gfx \<Rightarrow> fault + gfx" where
  "exec_canvas t Save g = Inr (snd (Canvas_nSave t 0 g))"
| "exec_canvas t (SaveLayer l tp r b) g = rbind (Canvas_nSaveLayer t l tp r b 0 g) (\<lambda>(_, g'). Inr g')"
| "exec_canvas t Restore g = Inr (snd (Canvas_nRestore t g))"
| "exec_canvas t (Translate dx dy) g = Inr (Canvas_nTranslate t dx dy g)"
| "exec_canvas t (Scale x y) g = Inr (Canvas_nScale t x y g)"
| "exec_canvas t (SetMatrix m) g = Inr (Canvas_nSetMatrix t m g)"
| "exec_canvas t (ClipRect l tp r b) g = rbind (Canvas_nClipRect t l tp r b 0 g) (\<lambda>(_, g'). Inr g')"

text \<open>A sequence that restores no more states than it saves, at every point, and never has more
  than 512 saved: \<open>n\<close> states are below, \<open>k\<close> were saved by the calls so far.\<close>

fun keeps_level :: "nat \<Rightarrow> nat \<Rightarrow> canvas_call list \<Rightarrow> bool" where
  "keeps_level n k [] = True"
| "keeps_level n k (c # cs) =
     (case c of
        Save \<Rightarrow> n + k < stack_limit \<and> keeps_level n (Suc k) cs
      | SaveLayer _ _ _ _ \<Rightarrow> n + k < stack_limit \<and> keeps_level n (Suc k) cs
      | Restore \<Rightarrow> 0 < k \<and> keeps_level n (k - 1) cs
      | _ \<Rightarrow> keeps_level n k cs)"

section \<open>What a call does to its canvas\<close>

definition canvases_ok :: "gfx \<Rightarrow> bool" where
  "canvases_ok g = table_inv c_token (next_canvas_token g) (canvases g)"

lemma canvas_of_on_canvas:
  assumes "canvases_ok g" and "\<And>c. c_token (f c) = c_token c"
  shows "canvas_of (on_canvas t f g) u = (if u = t then map_option f (canvas_of g t) else canvas_of g u)" "canvases_ok (on_canvas t f g)"
  using assms by (simp_all add: on_canvas_def canvases_ok_def lookup_update table_inv_update)

definition clip_call :: "jfloat \<Rightarrow> jfloat \<Rightarrow> jfloat \<Rightarrow> jfloat \<Rightarrow> canvas_state \<Rightarrow> canvas_state" where
  "clip_call l t r b c =
     clip_to (clamped floor (map_x c l)) (clamped floor (map_y c t)) (clamped ceiling (map_x c r)) (clamped ceiling (map_y c b)) c"

fun canvas_step :: "canvas_call \<Rightarrow> canvas_state \<Rightarrow> canvas_state" where
  "canvas_step Save c = push_state c"
| "canvas_step (SaveLayer l t r b) c = (if flt l r \<and> flt t b then clip_call l t r b (push_state c) else push_state c)"
| "canvas_step Restore c = (if stack c \<noteq> [] then pop_state c else c)"
| "canvas_step (Translate dx dy) c = c\<lparr>tx := fadd (tx c) (fmul dx (sx c)), ty := fadd (ty c) (fmul dy (sy c))\<rparr>"
| "canvas_step (Scale x y) c = c\<lparr>sx := fmul (sx c) x, sy := fmul (sy c) y\<rparr>"
| "canvas_step (SetMatrix m) c = c\<lparr>tx := 0, ty := 0, sx := f1, sy := f1\<rparr>"
| "canvas_step (ClipRect l t r b) c = clip_call l t r b c"

lemma token_kept [simp]: "c_token (push_state c) = c_token c" "c_token (pop_state c) = c_token c" "c_token (clip_to l t r b c) = c_token c"
  "c_token (clip_call l' t' r' b' c) = c_token c"
  by (simp_all add: push_state_def pop_state_def clip_to_def clip_call_def Let_def)

lemma clip_rect_eq:
  assumes "canvases_ok g" and "canvas_of g t = Some c"
  shows "\<exists>ok g'. Canvas_nClipRect t l tp r b op g = Inr (ok, g') \<and> canvases_ok g' \<and> canvas_of g' t = Some (clip_call l tp r b c) \<and>
    ok = (clip_left (clip_call l tp r b c) < clip_right (clip_call l tp r b c) \<and> clip_top (clip_call l tp r b c) < clip_bottom (clip_call l tp r b c)) \<and>
    (\<forall>u. u \<noteq> t \<longrightarrow> canvas_of g' u = canvas_of g u)"
  using assms by (simp add: Canvas_nClipRect_def floor_to_int_eq ceil_to_int_eq Let_def clip_call_def canvas_of_on_canvas)

lemma exec_canvas_step:
  assumes "canvases_ok g" and "canvas_of g t = Some c"
  shows "\<exists>g'. exec_canvas t call g = Inr g' \<and> canvases_ok g' \<and> canvas_of g' t = Some (canvas_step call c)"
proof (cases call)
  case (SaveLayer l tp r b)
  let ?g = "on_canvas t push_state g"
  have s: "canvases_ok ?g" "canvas_of ?g t = Some (push_state c)" using assms by (simp_all add: canvas_of_on_canvas)
  show ?thesis using clip_rect_eq [OF s, of l tp r b 0] s assms SaveLayer
    by (auto simp: Canvas_nSaveLayer_def Canvas_nSave_def)
next
  case (ClipRect l tp r b)
  then show ?thesis using clip_rect_eq [OF assms, of l tp r b 0] by auto
qed (use assms in \<open>auto simp: Canvas_nSave_def Canvas_nRestore_def Canvas_nTranslate_def Canvas_nScale_def Canvas_nSetMatrix_def canvas_of_on_canvas\<close>)

section \<open>Saving and restoring\<close>

text \<open>The canvas as it was when it was saved, with the states below.\<close>

definition saved_below :: "canvas_state \<Rightarrow> nat \<Rightarrow> canvas_state \<Rightarrow> bool" where
  "saved_below c0 k c \<longleftrightarrow> length (stack c) = Suc (length (stack c0)) + k \<and>
     take (Suc (length (stack c0))) (stack c) = stack c0 @ [saved c0] \<and>
     c_token c = c_token c0 \<and> bitmap_token c = bitmap_token c0"

lemma saved_below_push: "saved_below c0 k c \<Longrightarrow> length (stack c) < stack_limit \<Longrightarrow> saved_below c0 (Suc k) (push_state c)"
  by (simp add: saved_below_def push_state_def)

lemma saved_below_pop: "saved_below c0 (Suc k) c \<Longrightarrow> saved_below c0 k (pop_state c)"
  by (auto simp: saved_below_def pop_state_def Let_def take_butlast)

lemma saved_below_clip: "saved_below c0 k (clip_call l t r b c) = saved_below c0 k c"
  by (simp add: saved_below_def clip_call_def clip_to_def)

lemma keeps_level_step:
  assumes "saved_below c0 k c" and "keeps_level (Suc (length (stack c0))) k (call # cs)"
  shows "\<exists>k'. saved_below c0 k' (canvas_step call c) \<and> keeps_level (Suc (length (stack c0))) k' cs"
proof (cases call)
  case Restore
  then obtain j where j: "k = Suc j" using assms(2) by (cases k) auto
  have "stack c \<noteq> []" using assms(1) by (auto simp: saved_below_def)
  then show ?thesis using assms saved_below_pop [of c0 j c] Restore j by (intro exI [of _ j]) auto
next
  case Save
  then show ?thesis using assms saved_below_push [OF assms(1)] by (intro exI [of _ "Suc k"]) (auto simp: saved_below_def)
next
  case (SaveLayer l t r b)
  then show ?thesis using assms saved_below_push [OF assms(1)]
    by (intro exI [of _ "Suc k"]) (auto simp: saved_below_clip saved_below_def [of c0 k])
qed (use assms in \<open>auto simp: saved_below_clip, auto simp: saved_below_def\<close>)

lemma pop_saved: "saved_below c0 0 c \<Longrightarrow> pop_state c = c0"
proof -
  assume s: "saved_below c0 0 c"
  then have "length (stack c) = Suc (length (stack c0))" "take (Suc (length (stack c0))) (stack c) = stack c0 @ [saved c0]"
    by (auto simp: saved_below_def)
  then have "stack c = stack c0 @ [saved c0]" by (metis order_refl take_all)
  then show ?thesis using s by (cases c0) (simp add: pop_state_def saved_def saved_below_def Let_def)
qed

lemma restore_saved: "saved_below c0 k c \<Longrightarrow> restore_to (int (Suc (length (stack c0)))) c = c0"
proof (induction k arbitrary: c)
  case 0
  then have "restore_to (int (Suc (length (stack c0)))) c = restore_to (int (Suc (length (stack c0)))) c0"
    using pop_saved [OF 0] by (subst restore_to.simps) (simp add: saved_below_def)
  then show ?case by (simp add: restore_to.simps [of _ c0])
next
  case (Suc k)
  have "restore_to (int (Suc (length (stack c0)))) c = restore_to (int (Suc (length (stack c0)))) (pop_state c)"
    using Suc.prems by (subst restore_to.simps) (simp add: saved_below_def)
  then show ?case using Suc.IH [OF saved_below_pop [OF Suc.prems]] by simp
qed

lemma run_keeps_level:
  assumes "canvases_ok g" and "canvas_of g t = Some c" and "saved_below c0 k c" and "keeps_level (Suc (length (stack c0))) k cs"
  shows "\<exists>g' c' k'. foldM (exec_canvas t) cs g = Inr g' \<and> canvases_ok g' \<and> canvas_of g' t = Some c' \<and> saved_below c0 k' c'"
  using assms
proof (induction cs arbitrary: g c k)
  case (Cons call cs)
  obtain g1 where g1: "exec_canvas t call g = Inr g1" "canvases_ok g1" "canvas_of g1 t = Some (canvas_step call c)"
    using exec_canvas_step [OF Cons.prems(1,2)] by blast
  obtain k' where "saved_below c0 k' (canvas_step call c)" "keeps_level (Suc (length (stack c0))) k' cs"
    using keeps_level_step [OF Cons.prems(3,4)] by blast
  then show ?case using Cons.IH [OF g1(2,3)] g1(1) by simp
qed auto

text \<open>C23: after saving a canvas and any sequence of transforms, clips, saves and matching
  restores, restoring to the count that \<^verbatim>\<open>nSave\<close> returned gives back exactly the canvas that
  was saved: transform, clip and the states below it (as long as no more than 512 states are
  saved).\<close>

theorem canvas_save_restore:
  assumes "canvases_ok g" and "canvas_of g t = Some c" and "length (stack c) < stack_limit"
    and "Canvas_nSave t flags g = (count, g1)" and "keeps_level (Suc (length (stack c))) 0 cs"
  shows "\<exists>g2. foldM (exec_canvas t) cs g1 = Inr g2 \<and> canvas_of (Canvas_nRestoreToCount t count g2) t = Some c"
proof -
  have g1: "canvases_ok g1" "canvas_of g1 t = Some (push_state c)" "count = of_nat (Suc (length (stack c)))"
    using assms(1-4) by (auto simp: Canvas_nSave_def canvas_of_on_canvas push_state_def)
  have "saved_below c 0 (push_state c)" using assms(3) by (simp add: saved_below_def push_state_def)
  from run_keeps_level [OF g1(1,2) this assms(5)]
  obtain g2 c2 k2 where g2: "foldM (exec_canvas t) cs g1 = Inr g2" "canvases_ok g2" "canvas_of g2 t = Some c2" "saved_below c k2 c2"
    by blast
  have "sint count = int (Suc (length (stack c)))" unfolding g1(3) by (rule sint_small) (use assms(3) in simp)
  moreover have "c_token (restore_to n d) = c_token d" for n d
    by (induction n d rule: restore_to.induct) (subst restore_to.simps, simp)
  ultimately show ?thesis
    using g2 restore_saved [OF g2(4)] by (simp add: Canvas_nRestoreToCount_def canvas_of_on_canvas)
qed

theorem canvas_save_restore_witness:
  "\<exists>g2. foldM (exec_canvas 0x24100) [Translate 0x3f800000 0x40000000, Save, ClipRect 0 0 0x40400000 0x40400000, Restore]
      (snd (Canvas_nSave 0x24100 0 (snd (Canvas_nInitRaster 0 (tables 0 2 0 0 0))))) = Inr g2 \<and>
    canvas_of (Canvas_nRestoreToCount 0x24100 1 g2) 0x24100 = canvas_of (snd (Canvas_nInitRaster 0 (tables 0 2 0 0 0))) 0x24100"
proof -
  define g where "g = snd (Canvas_nInitRaster 0 (tables 0 2 0 0 0))"
  have "table_inv c_token 0x24100 ((replicate 2 zero_canvas)[0 := canvases g ! 0])"
    by (rule table_inv_put [OF table_inv_replicate, where n = 0]) (simp_all add: zero_canvas_def, unfold g_def, code_simp+)
  moreover have "(replicate 2 zero_canvas)[0 := canvases g ! 0] = canvases g" unfolding g_def by code_simp
  moreover have "next_canvas_token g = 0x24100" unfolding g_def by code_simp
  ultimately have ok: "canvases_ok g" by (simp add: canvases_ok_def)
  obtain c where c: "canvas_of g 0x24100 = Some c" "length (stack c) = 0"
  proof -
    have "canvas_of g 0x24100 = Some (canvases g ! 0)" "length (stack (canvases g ! 0)) = 0" unfolding g_def by code_simp+
    then show ?thesis using that by blast
  qed
  have "Canvas_nSave 0x24100 0 g = (1, snd (Canvas_nSave 0x24100 0 g))" using c by (simp add: Canvas_nSave_def push_state_def)
  from canvas_save_restore [OF ok c(1) _ this, of "[Translate 0x3f800000 0x40000000, Save, ClipRect 0 0 0x40400000 0x40400000, Restore]"]
  show ?thesis using c by (simp add: g_def)
qed

lemma nonempty_rect:
  fixes l r t b :: int
  shows "(l < r \<and> t < b) = (\<exists>x y. l \<le> x \<and> x < r \<and> t \<le> y \<and> y < b)"
proof
  assume "l < r \<and> t < b"
  then show "\<exists>x y. l \<le> x \<and> x < r \<and> t \<le> y \<and> y < b" by (intro exI [of _ l] exI [of _ t]) simp
qed auto

lemma in_both:
  fixes l l' r r' t t' b b' :: int
  shows "(max l l' \<le> x \<and> x < min r r' \<and> max t t' \<le> y \<and> y < min b b') \<longleftrightarrow>
    (l \<le> x \<and> x < r \<and> t \<le> y \<and> y < b) \<and> (l' \<le> x \<and> x < r' \<and> t' \<le> y \<and> y < b')"
  by auto

lemma clip_call_bounds:
  "clip_left (clip_call l t r b c) = max (clip_left c) (clamped floor (map_x c l))"
  "clip_top (clip_call l t r b c) = max (clip_top c) (clamped floor (map_y c t))"
  "clip_right (clip_call l t r b c) = min (clip_right c) (clamped ceiling (map_x c r))"
  "clip_bottom (clip_call l t r b c) = min (clip_bottom c) (clamped ceiling (map_y c b))"
  by (simp_all add: clip_call_def clip_to_def max_def min_def)

text \<open>clipping intersects the clip with the transformed rectangle, rounded outwards: the
  new clip contains a point exactly when the old clip and the rectangle do. The result says
  whether the clip is not empty; bitmap, transform and saved states stay, and so do all other
  canvases.\<close>

theorem canvas_clip_intersects:
  assumes "canvases_ok g" and "canvas_of g t = Some c"
  shows "\<exists>ok g' c'. Canvas_nClipRect t l tp r b op g = Inr (ok, g') \<and> canvas_of g' t = Some c' \<and>
    (\<forall>x y. (clip_left c' \<le> x \<and> x < clip_right c' \<and> clip_top c' \<le> y \<and> y < clip_bottom c') \<longleftrightarrow>
       (clip_left c \<le> x \<and> x < clip_right c \<and> clip_top c \<le> y \<and> y < clip_bottom c) \<and>
       (clamped floor (map_x c l) \<le> x \<and> x < clamped ceiling (map_x c r) \<and> clamped floor (map_y c tp) \<le> y \<and> y < clamped ceiling (map_y c b))) \<and>
    (ok \<longleftrightarrow> (\<exists>x y. clip_left c' \<le> x \<and> x < clip_right c' \<and> clip_top c' \<le> y \<and> y < clip_bottom c')) \<and>
    c' = c\<lparr>clip_left := clip_left c', clip_top := clip_top c', clip_right := clip_right c', clip_bottom := clip_bottom c'\<rparr> \<and>
    (\<forall>u. u \<noteq> t \<longrightarrow> canvas_of g' u = canvas_of g u)"
proof -
  obtain ok g' where g': "Canvas_nClipRect t l tp r b op g = Inr (ok, g')" "canvas_of g' t = Some (clip_call l tp r b c)"
    "ok = (clip_left (clip_call l tp r b c) < clip_right (clip_call l tp r b c) \<and> clip_top (clip_call l tp r b c) < clip_bottom (clip_call l tp r b c))"
    "\<forall>u. u \<noteq> t \<longrightarrow> canvas_of g' u = canvas_of g u" using clip_rect_eq [OF assms, of l tp r b op] by (elim exE conjE)
  let ?c = "clip_call l tp r b c"
  show ?thesis
  proof (intro exI conjI)
    show "Canvas_nClipRect t l tp r b op g = Inr (ok, g')" "canvas_of g' t = Some ?c" "\<forall>u. u \<noteq> t \<longrightarrow> canvas_of g' u = canvas_of g u"
      by (fact g')+
    show "ok \<longleftrightarrow> (\<exists>x y. clip_left ?c \<le> x \<and> x < clip_right ?c \<and> clip_top ?c \<le> y \<and> y < clip_bottom ?c)"
      unfolding g'(3) by (rule nonempty_rect)
    show "?c = c\<lparr>clip_left := clip_left ?c, clip_top := clip_top ?c, clip_right := clip_right ?c, clip_bottom := clip_bottom ?c\<rparr>"
      by (simp add: clip_call_def clip_to_def)
  qed (unfold clip_call_bounds, intro allI, rule in_both)
qed

theorem canvas_clip_intersects_witness:
  "\<exists>g c ok g'. canvas_of g 5 = Some c \<and> Canvas_nClipRect 5 0 0 f4 f4 0 g = Inr (ok, g') \<and> (\<forall>u. u \<noteq> 5 \<longrightarrow> canvas_of g' u = canvas_of g u)"
proof -
  define c where "c = muplar_canvas_reset None (zero_canvas\<lparr>c_token := 5\<rparr>)"
  define g where "g = (tables 0 1 0 0 0)\<lparr>canvases := [c]\<rparr>"
  have tok: "c_token c = 5" by (simp add: c_def muplar_canvas_reset_def)
  have "canvases_ok g" "canvas_of g 5 = Some c"
    by (simp_all add: g_def canvases_ok_def table_inv_def tables_def lookup_def find_slot_def tok)
  from canvas_clip_intersects [OF this, of 0 0 f4 f4 0] show ?thesis using \<open>canvas_of g 5 = Some c\<close> by blast
qed

section \<open>A full table\<close>

text \<open>creating a canvas always succeeds, but when all slots are in use it takes the slot of
  another live canvas, whose token is unknown from then on.\<close>

theorem canvas_table_overwrites:
  assumes "canvases_ok g" and "0 < left_of (next_canvas_token g)" and "canvases g \<noteq> []"
    and "free_slot c_token (canvases g) = None" and "Canvas_nInitRaster bmp g = (t, g')"
  defines "victim \<equiv> c_token (canvases g ! (wrap_idx g mod length (canvases g)))"
  shows "canvas_of g victim \<noteq> None \<and> canvas_of g' victim = None \<and> canvas_of g' t \<noteq> None \<and>
    (\<forall>u. u \<noteq> t \<and> u \<noteq> victim \<longrightarrow> canvas_of g' u = canvas_of g u)"
proof -
  have inv: "table_inv c_token (next_canvas_token g) (canvases g)" using assms(1) by (simp add: canvases_ok_def)
  let ?i = "wrap_idx g mod length (canvases g)"
  define new where "new = muplar_canvas_reset (bitmap_of g bmp) ((canvases g ! ?i)\<lparr>c_token := next_canvas_token g + 0x100, bitmap_token := bmp\<rparr>)"
  have i: "?i < length (canvases g)" using assms(3) by simp
  have tok: "c_token new = next_canvas_token g + 0x100" by (simp add: new_def muplar_canvas_reset_def)
  have g': "canvases g' = (canvases g)[?i := new]" "t = c_token new"
    using assms(4,5) i by (auto simp: Canvas_nInitRaster_def muplar_alloc_canvas_def Let_def new_def)
  have "\<forall>c \<in> set (canvases g). c_token c \<noteq> 0" using assms(4) by (simp add: free_slot_def first_index_None)
  then have nz: "victim \<noteq> 0" using i by (simp add: victim_def)
  then have old: "canvas_of g victim = Some (canvases g ! ?i)" using i by (auto simp: lookup_iff [OF inv] victim_def)
  then have "victim \<noteq> t" using lookup_fresh [OF inv] left_of_step(1) [OF assms(2)] g'(2) tok by auto
  then show ?thesis
    using old lookup_replace [OF inv i, of new] left_of_step(1) [OF assms(2)] tok
    unfolding g' victim_def by auto
qed

theorem canvas_table_overwrites_witness:
  "\<exists>g victim. canvas_of g victim \<noteq> None \<and> canvas_of (snd (Canvas_nInitRaster 7 g)) victim = None"
proof -
  define c where "c = zero_canvas\<lparr>c_token := 5\<rparr>"
  define g where "g = (tables 0 1 0 0 0)\<lparr>canvases := [c]\<rparr>"
  have "canvases_ok g" "0 < left_of (next_canvas_token g)" "canvases g \<noteq> []" "free_slot c_token (canvases g) = None"
    by (simp_all add: g_def c_def canvases_ok_def table_inv_def tables_def left_of_def free_slot_def)
  from canvas_table_overwrites [OF this, of 7 "fst (Canvas_nInitRaster 7 g)" "snd (Canvas_nInitRaster 7 g)"]
  show ?thesis by auto
qed

end
