(* ===== verification/Draw_Base.thy ===== *)
theory Draw_Base
  imports Canvas
begin

text \<open>
  What the drawing methods share: the bitmap a canvas draws into, the update of that bitmap, and
  pixel loops that stay inside a region. \<open>paints_in R b f\<close> says that \<open>f\<close>, run on a pixel
  array of the size of \<open>b\<close>, does not fail, keeps the size and changes no pixel outside \<open>R\<close>.
\<close>

section \<open>The target of a drawing method\<close>

text \<open>The canvas of a token and the slot of its bitmap, if both exist.\<close>

definition draw_target :: "jlong \<Rightarrow> gfx \<Rightarrow> (canvas_state \<times> nat) option" where
  "draw_target canvas g =
     (case canvas_of g canvas of None \<Rightarrow> None
      | Some c \<Rightarrow> map_option (Pair c) (muplar_find_bitmap (bitmap_token c) g))"

definition on_bitmap :: "nat \<Rightarrow> (bitmap_state \<Rightarrow> fault + bitmap_state) \<Rightarrow> gfx \<Rightarrow> fault + gfx" where
  "on_bitmap i f g = rbind (f (bitmaps g ! i)) (\<lambda>b. Inr (g\<lparr>bitmaps := (bitmaps g)[i := b]\<rparr>))"

section \<open>Loops that stay in a region\<close>

definition in_bitmap :: "bitmap_state \<Rightarrow> int \<Rightarrow> int \<Rightarrow> bool" where
  "in_bitmap b x y \<longleftrightarrow> 0 \<le> x \<and> x < bw b \<and> 0 \<le> y \<and> y < bh b"

definition sized :: "bitmap_state \<Rightarrow> u32 list \<Rightarrow> bool" where
  "sized b ps \<longleftrightarrow> int (length ps) = bw b * bh b"

definition paints_in :: "(int \<Rightarrow> int \<Rightarrow> bool) \<Rightarrow> bitmap_state \<Rightarrow> (u32 list \<Rightarrow> fault + u32 list) \<Rightarrow> bool" where
  "paints_in R b f \<longleftrightarrow> (\<forall>ps. sized b ps \<longrightarrow> (\<exists>ps'. f ps = Inr ps' \<and> sized b ps' \<and>
     (\<forall>x y. in_bitmap b x y \<and> \<not> R x y \<longrightarrow> ps' ! nat (y * bw b + x) = ps ! nat (y * bw b + x))))"

lemma paints_inI:
  assumes "\<And>ps. sized b ps \<Longrightarrow> \<exists>ps'. f ps = Inr ps' \<and> sized b ps' \<and>
     (\<forall>x y. in_bitmap b x y \<and> \<not> R x y \<longrightarrow> ps' ! nat (y * bw b + x) = ps ! nat (y * bw b + x))"
  shows "paints_in R b f"
  using assms by (simp add: paints_in_def)

lemma paints_inE:
  assumes "paints_in R b f" and "sized b ps"
  obtains ps' where "f ps = Inr ps'" and "sized b ps'"
    and "\<And>x y. in_bitmap b x y \<Longrightarrow> \<not> R x y \<Longrightarrow> ps' ! nat (y * bw b + x) = ps ! nat (y * bw b + x)"
  using assms unfolding paints_in_def by blast

lemma index_range:
  assumes "sized b ps" and "in_bitmap b x y"
  shows "0 \<le> y * bw b + x" "y * bw b + x < int (length ps)"
proof -
  have "(y + 1) * bw b \<le> bh b * bw b" using assms(2) by (intro mult_right_mono) (auto simp: in_bitmap_def)
  then show "y * bw b + x < int (length ps)" using assms by (simp add: sized_def in_bitmap_def algebra_simps)
qed (use assms in \<open>simp add: in_bitmap_def\<close>)

lemma index_inj:
  assumes "in_bitmap b x y" and "in_bitmap b x' y'"
  shows "nat (y * bw b + x) = nat (y' * bw b + x') \<longleftrightarrow> x = x' \<and> y = y'"
proof -
  have "nat (y * bw b + x) = nat (y' * bw b + x') \<longleftrightarrow> y * bw b + x = y' * bw b + x'"
    using assms by (simp add: in_bitmap_def eq_nat_nat_iff)
  also have "\<dots> \<longleftrightarrow> x = x' \<and> y = y'"
    using assms div_mod_offset [of x "bw b" y] div_mod_offset [of x' "bw b" y'] unfolding in_bitmap_def by metis
  finally show ?thesis .
qed

lemma paints_in_skip [intro!]: "paints_in R b Inr"
  by (simp add: paints_in_def)

lemma paints_in_mod:
  assumes "in_bitmap b x y" and "R x y"
  shows "paints_in R b (\<lambda>ps. mod_px F ps (y * bw b + x))"
proof (rule paints_inI)
  fix ps
  assume ps: "sized b ps"
  note r = index_range [OF ps assms(1)]
  have "ps[nat (y * bw b + x) := v] ! nat (y' * bw b + x') = ps ! nat (y' * bw b + x')" if "in_bitmap b x' y'" "\<not> R x' y'" for x' y' v
    using that assms index_inj [OF that(1) assms(1)] by (intro nth_list_update_neq) auto
  then show "\<exists>ps'. mod_px F ps (y * bw b + x) = Inr ps' \<and> sized b ps' \<and>
      (\<forall>x y. in_bitmap b x y \<and> \<not> R x y \<longrightarrow> ps' ! nat (y * bw b + x) = ps ! nat (y * bw b + x))"
    using r ps by (simp add: mod_px_def get_px_def put_px_def sized_def)
qed

lemma paints_in_bind:
  assumes "paints_in R b f" and "paints_in R b g"
  shows "paints_in R b (\<lambda>ps. rbind (f ps) g)"
proof (rule paints_inI)
  fix ps
  assume "sized b ps"
  with assms(1) obtain ps1 where 1: "f ps = Inr ps1" "sized b ps1"
    "\<And>x y. in_bitmap b x y \<Longrightarrow> \<not> R x y \<Longrightarrow> ps1 ! nat (y * bw b + x) = ps ! nat (y * bw b + x)" by (rule paints_inE) blast
  from assms(2) 1(2) obtain ps2 where "g ps1 = Inr ps2" "sized b ps2"
    "\<And>x y. in_bitmap b x y \<Longrightarrow> \<not> R x y \<Longrightarrow> ps2 ! nat (y * bw b + x) = ps1 ! nat (y * bw b + x)" by (rule paints_inE) blast
  with 1 show "\<exists>ps'. rbind (f ps) g = Inr ps' \<and> sized b ps' \<and>
      (\<forall>x y. in_bitmap b x y \<and> \<not> R x y \<longrightarrow> ps' ! nat (y * bw b + x) = ps ! nat (y * bw b + x))" by simp
qed

lemma paints_in_foldM: "(\<And>k. k \<in> set ks \<Longrightarrow> paints_in R b (f k)) \<Longrightarrow> paints_in R b (foldM f ks)"
proof (induction ks)
  case (Cons k ks)
  have "paints_in R b (\<lambda>ps. rbind (f k ps) (foldM f ks))" using Cons by (intro paints_in_bind) auto
  then show ?case by (simp add: paints_in_def)
qed (simp add: paints_in_def)

lemma paints_in_mono: "paints_in R b f \<Longrightarrow> (\<And>x y. in_bitmap b x y \<Longrightarrow> R x y \<Longrightarrow> S x y) \<Longrightarrow> paints_in S b f"
  unfolding paints_in_def by meson

section \<open>Drawing into the clip\<close>

definition in_clip :: "canvas_state \<Rightarrow> int \<Rightarrow> int \<Rightarrow> bool" where
  "in_clip c x y \<longleftrightarrow> clip_left c \<le> x \<and> x < clip_right c \<and> clip_top c \<le> y \<and> y < clip_bottom c"

text \<open>\<open>g'\<close> differs from \<open>g\<close> at most in pixels of slot \<open>i\<close> inside the clip.\<close>

definition drawn_in :: "canvas_state \<Rightarrow> nat \<Rightarrow> gfx \<Rightarrow> gfx \<Rightarrow> bool" where
  "drawn_in c i g g' \<longleftrightarrow> (\<exists>b'. g' = g\<lparr>bitmaps := (bitmaps g)[i := b']\<rparr> \<and> bitmap_ok b' \<and>
     b' = (bitmaps g ! i)\<lparr>pixels := pixels b'\<rparr> \<and>
     (\<forall>x y. in_bitmap b' x y \<and> \<not> in_clip c x y \<longrightarrow> pixel b' x y = pixel (bitmaps g ! i) x y))"

lemma drawn_in_refl: "bitmap_ok (bitmaps g ! i) \<Longrightarrow> drawn_in c i g g"
  unfolding drawn_in_def by (intro exI [of _ "bitmaps g ! i"]) simp

lemma drawn_in_trans:
  assumes "drawn_in c i g g'" and "drawn_in c i g' g''" and "i < length (bitmaps g)"
  shows "drawn_in c i g g''"
proof -
  obtain b' where b': "g' = g\<lparr>bitmaps := (bitmaps g)[i := b']\<rparr>" "b' = (bitmaps g ! i)\<lparr>pixels := pixels b'\<rparr>"
    "\<forall>x y. in_bitmap b' x y \<and> \<not> in_clip c x y \<longrightarrow> pixel b' x y = pixel (bitmaps g ! i) x y"
    using assms(1) unfolding drawn_in_def by blast
  obtain b'' where b'': "g'' = g'\<lparr>bitmaps := (bitmaps g')[i := b'']\<rparr>" "bitmap_ok b''" "b'' = b'\<lparr>pixels := pixels b''\<rparr>"
    "\<forall>x y. in_bitmap b'' x y \<and> \<not> in_clip c x y \<longrightarrow> pixel b'' x y = pixel b' x y"
    using assms(2,3) b'(1) unfolding drawn_in_def by auto
  have dims: "b_width b'' = b_width b'" "b_height b'' = b_height b'" by (subst b''(3), simp)+
  have "g'' = g\<lparr>bitmaps := (bitmaps g)[i := b'']\<rparr>" using b'(1) b''(1) by simp
  moreover have "b'' = (bitmaps g ! i)\<lparr>pixels := pixels b''\<rparr>" using b'(2) b''(3) by (metis bitmap_state.update_convs(6) bitmap_state.surjective)
  moreover have "\<forall>x y. in_bitmap b'' x y \<and> \<not> in_clip c x y \<longrightarrow> pixel b'' x y = pixel (bitmaps g ! i) x y"
    using b'(3) b''(4) by (simp add: in_bitmap_def dims)
  ultimately show ?thesis using b''(2) unfolding drawn_in_def by blast
qed

lemma paints_drawn:
  assumes "paints_in (in_clip c) (bitmaps g ! i) f" and "bitmap_ok (bitmaps g ! i)" and "pixels (bitmaps g ! i) = Some ps"
  shows "\<exists>g'. rbind (f ps) (\<lambda>ps'. Inr (g\<lparr>bitmaps := (bitmaps g)[i := (bitmaps g ! i)\<lparr>pixels := Some ps'\<rparr>]\<rparr>)) = Inr g' \<and> drawn_in c i g g'"
proof -
  let ?b = "bitmaps g ! i"
  have "sized ?b ps" using assms(2,3) by (auto simp: bitmap_ok_def sized_def)
  with assms(1) obtain ps' where ps': "f ps = Inr ps'" "sized ?b ps'"
    "\<And>x y. in_bitmap ?b x y \<Longrightarrow> \<not> in_clip c x y \<Longrightarrow> ps' ! nat (y * bw ?b + x) = ps ! nat (y * bw ?b + x)" by (rule paints_inE) blast
  have "bitmap_ok (?b\<lparr>pixels := Some ps'\<rparr>)" using assms(2) ps'(2) by (simp add: bitmap_ok_def sized_def)
  then have "drawn_in c i g (g\<lparr>bitmaps := (bitmaps g)[i := ?b\<lparr>pixels := Some ps'\<rparr>]\<rparr>)"
    unfolding drawn_in_def
    by (intro exI [of _ "?b\<lparr>pixels := Some ps'\<rparr>"]) (simp add: ps'(3) pixel_def in_bitmap_def assms(3))
  then show ?thesis using ps'(1) by simp
qed

lemma repainted_drawn:
  assumes "repainted (bitmaps g ! i) b' f" and "\<And>x y v. \<not> in_clip c x y \<Longrightarrow> f x y v = v"
  shows "drawn_in c i g (g\<lparr>bitmaps := (bitmaps g)[i := b']\<rparr>)"
proof -
  have r: "bitmap_ok b'" "b' = (bitmaps g ! i)\<lparr>pixels := pixels b'\<rparr>"
    "\<And>x y. in_bitmap (bitmaps g ! i) x y \<Longrightarrow> pixel b' x y = f x y (pixel (bitmaps g ! i) x y)"
    using assms(1) by (auto simp: repainted_def in_bitmap_def)
  have dims: "b_width b' = b_width (bitmaps g ! i)" "b_height b' = b_height (bitmaps g ! i)" by (subst r(2), simp)+
  show ?thesis unfolding drawn_in_def using r assms(2) dims by (intro exI [of _ b']) (auto simp: in_bitmap_def)
qed

end
