(* ===== verification/Blit.thy ===== *)
theory Blit
  imports Pixels
begin

text \<open>
  \<^verbatim>\<open>muplar_blit_bitmap\<close>: drawing a source rectangle of one bitmap into a rectangle of another,
  scaled by nearest neighbour, clipped, tinted by the paint's colour filter, faded by the
  paint's alpha and optionally masked by a rounded square. Source and target may be the same
  bitmap; the loop then reads what it wrote. The counters that only feed a debug message are
  left out.
\<close>

section \<open>Operations\<close>

text \<open>The rounded square: the centre, the half sizes and the corner radius, in single precision;
  the constants are the patterns of 0.5, 0.495 and 0.22.\<close>

record squircle =
  q_cx :: jfloat
  q_cy :: jfloat
  q_hw :: jfloat
  q_hh :: jfloat
  q_r :: jfloat

definition squircle_of :: "int \<Rightarrow> int \<Rightarrow> int \<Rightarrow> int \<Rightarrow> squircle" where
  "squircle_of dst_x dst_y dst_w dst_h =
     (let w = of_int32 dst_w; h = of_int32 dst_h in
      \<lparr>q_cx = fadd (of_int32 dst_x) (fmul w 0x3f000000), q_cy = fadd (of_int32 dst_y) (fmul h 0x3f000000),
       q_hw = fmul w 0x3efd70a4, q_hh = fmul h 0x3efd70a4, q_r = fmul (if flt w h then w else h) 0x3e6147ae\<rparr>)"

definition q_ox :: "squircle \<Rightarrow> int \<Rightarrow> jfloat" where
  "q_ox q px = fabs32 (fsub (fadd (of_int32 px) 0x3f000000) (q_cx q))"

definition q_oy :: "squircle \<Rightarrow> int \<Rightarrow> jfloat" where
  "q_oy q py = fabs32 (fsub (fadd (of_int32 py) 0x3f000000) (q_cy q))"

definition q_corner :: "squircle \<Rightarrow> int \<Rightarrow> int \<Rightarrow> bool" where
  "q_corner q px py \<longleftrightarrow> flt (fsub (q_hw q) (q_r q)) (q_ox q px) \<and> flt (fsub (q_hh q) (q_r q)) (q_oy q py)"

definition q_dist :: "squircle \<Rightarrow> int \<Rightarrow> int \<Rightarrow> jfloat" where
  "q_dist q px py =
     (let cdx = fsub (q_ox q px) (fsub (q_hw q) (q_r q)); cdy = fsub (q_oy q py) (fsub (q_hh q) (q_r q)) in
      fsqrt (fadd (fmul cdx cdx) (fmul cdy cdy)))"

definition squircle_skips :: "squircle \<Rightarrow> int \<Rightarrow> int \<Rightarrow> bool" where
  "squircle_skips q px py \<longleftrightarrow>
     fle (q_hw q) (q_ox q px) \<or> fle (q_hh q) (q_oy q py) \<or> (q_corner q px py \<and> fle (q_r q) (q_dist q px py))"

definition squircle_alpha :: "squircle \<Rightarrow> int \<Rightarrow> int \<Rightarrow> u32 \<Rightarrow> fault + u32" where
  "squircle_alpha q px py alpha =
     (if q_corner q px py \<and> flt (fsub (q_r q) f1) (q_dist q px py) then
        let m = fsub (q_r q) (q_dist q px py);
            m = (if flt m 0 then 0 else m);
            m = (if flt f1 m then f1 else m) in
        rbind (to_int32 (fmul (of_int32 (uint alpha)) m)) (\<lambda>i. Inr (of_int i AND 0xff))
      else Inr alpha)"

text \<open>The tint of the paint: colour and alpha of its filter, and its own alpha.\<close>

definition blit_filter :: "gfx \<Rightarrow> jlong \<Rightarrow> filter_state option" where
  "blit_filter g paint =
     (case paint_of g paint of None \<Rightarrow> None
      | Some p \<Rightarrow> if color_filter p \<noteq> 0 then filter_of g (color_filter p) else None)"

definition blit_paint_alpha :: "gfx \<Rightarrow> jlong \<Rightarrow> u32" where
  "blit_paint_alpha g paint =
     (case paint_of g paint of None \<Rightarrow> 255 | Some p \<Rightarrow> if p_color p \<noteq> 0 then alpha_of (p_color p) else 255)"

definition tinted :: "filter_state option \<Rightarrow> u32 \<Rightarrow> u32 \<Rightarrow> u32 \<Rightarrow> u32 \<times> u32" where
  "tinted f paint_a src_color alpha =
     (let alpha = (if paint_a < 255 then ((alpha * paint_a) div 255) AND 0xff else alpha) in
      case f of
        Some ff \<Rightarrow>
          if f_color ff \<noteq> 0 then
            let alpha = ((alpha * alpha_of (f_color ff)) div 255) AND 0xff in
            (push_bit 24 alpha OR (f_color ff AND 0x00ffffff), alpha)
          else if paint_a < 255 then (push_bit 24 alpha OR (src_color AND 0x00ffffff), alpha)
          else (src_color, alpha)
      | None \<Rightarrow>
          if paint_a < 255 then (push_bit 24 alpha OR (src_color AND 0x00ffffff), alpha)
          else (src_color, alpha))"

definition blend_alpha :: "u32 \<Rightarrow> u32 \<Rightarrow> u32 \<Rightarrow> u32" where
  "blend_alpha alpha src dst =
     argb 0xff ((red_of src * alpha + red_of dst * (255 - alpha)) div 255)
       ((green_of src * alpha + green_of dst * (255 - alpha)) div 255)
       ((blue_of src * alpha + blue_of dst * (255 - alpha)) div 255)"

definition composed :: "u32 \<times> u32 \<Rightarrow> u32 \<Rightarrow> u32" where
  "composed ca dst = (if snd ca = 255 then fst ca else blend_alpha (snd ca) (fst ca) dst)"

text \<open>One target pixel: \<open>rd\<close> reads the source array, which is the target array when they
  are the same bitmap.\<close>

definition blit_px ::
  "(u32 list \<Rightarrow> u32 list) \<Rightarrow> int \<Rightarrow> int \<Rightarrow> int \<Rightarrow> squircle option \<Rightarrow> filter_state option \<Rightarrow> u32 \<Rightarrow> int \<Rightarrow> int \<Rightarrow> int \<Rightarrow> u32 list \<Rightarrow> fault + u32 list" where
  "blit_px rd src_width sx0 sy0 msk f paint_a px py di ps =
     (if sx0 < 0 \<or> src_width \<le> sx0 then Inr ps
      else rbind (get_px (rd ps) (sy0 * src_width + sx0)) (\<lambda>src_color.
        let alpha = alpha_of src_color in
        if alpha = 0 then Inr ps
        else rbind (case msk of None \<Rightarrow> Inr alpha | Some q \<Rightarrow> squircle_alpha q px py alpha) (\<lambda>alpha.
          if alpha = 0 then Inr ps
          else mod_px (composed (tinted f paint_a src_color alpha)) ps di)))"

definition muplar_blit_bitmap ::
  "nat \<Rightarrow> nat \<Rightarrow> int \<times> int \<times> int \<times> int \<Rightarrow> int \<times> int \<times> int \<times> int \<Rightarrow> int \<times> int \<times> int \<times> int \<Rightarrow> jlong \<Rightarrow> bool \<Rightarrow> gfx \<Rightarrow> fault + gfx" where
  "muplar_blit_bitmap di si = (\<lambda>(dst_x, dst_y, dst_w, dst_h) (src_x, src_y, src_w, src_h) (cl, ct, cr, cb) paint mask_squircle g.
     let dst = bitmaps g ! di; src = bitmaps g ! si; f = blit_filter g paint; paint_a = blit_paint_alpha g paint in
     case (pixels dst, pixels src) of
       (Some dps, Some sps) \<Rightarrow>
         if dst_w \<le> 0 \<or> dst_h \<le> 0 \<or> src_w \<le> 0 \<or> src_h \<le> 0 then Inr g
         else
           let q = squircle_of dst_x dst_y dst_w dst_h; msk = (if mask_squircle then Some q else None);
               rd = (\<lambda>ps. if si = di then ps else sps) in
           rbind (foldM (\<lambda>y ps.
               rbind (iadd dst_y y) (\<lambda>py.
               if py < ct \<or> cb \<le> py \<or> py < 0 \<or> bh dst \<le> py then Inr ps
               else rbind (iadd src_y ((y * src_h) div dst_h)) (\<lambda>sy0.
               if sy0 < 0 \<or> bh src \<le> sy0 then Inr ps
               else foldM (\<lambda>x ps.
                   rbind (iadd dst_x x) (\<lambda>px.
                   if px < cl \<or> cr \<le> px \<or> px < 0 \<or> bw dst \<le> px then Inr ps
                   else if mask_squircle \<and> squircle_skips q px py then Inr ps
                   else rbind (iadd src_x ((x * src_w) div dst_w)) (\<lambda>sx0.
                     blit_px rd (bw src) sx0 sy0 msk f paint_a px py (py * bw dst + px) ps)))
                 [0..dst_w - 1] ps)))
             [0..dst_h - 1] dps)
             (\<lambda>ps'. Inr (g\<lparr>bitmaps := (bitmaps g)[di := dst\<lparr>pixels := Some ps'\<rparr>]\<rparr>))
     | _ \<Rightarrow> Inr g)"

section \<open>Correctness\<close>

text \<open>A loop that changes pixels at distinct positions, each by its own function.\<close>

lemma scatter:
  assumes "distinct ks" and "inj_on idx {k \<in> set ks. C k}" and "\<forall>k \<in> set ks. C k \<longrightarrow> idx k < length ps"
  shows "\<exists>ps'. foldM (\<lambda>k ps. if C k then mod_px (F k) ps (int (idx k)) else Inr ps) ks ps = Inr ps' \<and> length ps' = length ps \<and>
    (\<forall>k \<in> set ks. C k \<longrightarrow> ps' ! idx k = F k (ps ! idx k)) \<and> (\<forall>j. (\<forall>k \<in> set ks. C k \<longrightarrow> idx k \<noteq> j) \<longrightarrow> ps' ! j = ps ! j)"
  using assms
proof (induction ks arbitrary: ps)
  case (Cons k ks)
  have inj: "inj_on idx {k \<in> set ks. C k}" using Cons.prems(2) by (rule inj_on_subset) auto
  show ?case
  proof (cases "C k")
    case False
    then show ?thesis using Cons.IH [OF _ inj, of ps] Cons.prems by simp
  next
    case True
    let ?ps = "ps[idx k := F k (ps ! idx k)]"
    have lt: "idx k < length ps" using Cons.prems(3) True by simp
    obtain ps' where ps': "foldM (\<lambda>k ps. if C k then mod_px (F k) ps (int (idx k)) else Inr ps) ks ?ps = Inr ps'" "length ps' = length ps"
      "\<forall>k \<in> set ks. C k \<longrightarrow> ps' ! idx k = F k (?ps ! idx k)" "\<forall>j. (\<forall>k \<in> set ks. C k \<longrightarrow> idx k \<noteq> j) \<longrightarrow> ps' ! j = ?ps ! j"
      using Cons.IH [OF _ inj, of ?ps] Cons.prems by auto
    have ne: "idx k' \<noteq> idx k" if "k' \<in> set ks" "C k'" for k'
      using that True Cons.prems(1,2) by (auto simp: inj_on_def)
    have "ps' ! idx k = F k (ps ! idx k)" using ps'(4) ne lt by auto
    moreover have "ps' ! idx k' = F k' (ps ! idx k')" if "k' \<in> set ks" "C k'" for k' using ps'(3) that ne [OF that] by simp
    moreover have "ps' ! j = ps ! j" if "\<forall>k' \<in> set (k # ks). C k' \<longrightarrow> idx k' \<noteq> j" for j
      using ps'(4) that True by simp
    ultimately show ?thesis using ps'(1,2) True mod_px_nat [OF lt, of "F k"] by auto
  qed
qed simp

lemma foldM_skip: "(\<And>x. x \<in> set xs \<Longrightarrow> \<not> C x) \<Longrightarrow> foldM (\<lambda>x s. if C x then h x s else Inr s) xs s = Inr s"
  by (induction xs arbitrary: s) auto

text \<open>The source position of a target offset, and what happens to a target pixel.\<close>

definition src_at :: "int \<Rightarrow> int \<Rightarrow> int \<Rightarrow> int \<Rightarrow> int" where
  "src_at s0 n m k = s0 + (k * n) div m"

lemma src_at_range:
  fixes k m n :: int
  assumes "0 \<le> k" and "k < m" and "0 < n"
  shows "0 \<le> (k * n) div m" "(k * n) div m < n"
proof -
  show "0 \<le> (k * n) div m" using assms by (simp add: pos_imp_zdiv_nonneg_iff)
  have "((k * n) div m) * m \<le> k * n" using assms by (metis mult.commute pos_mod_sign minus_mult_div_eq_mod diff_ge_0_iff_ge order_le_less_trans)
  also have "\<dots> < n * m" using assms by (simp add: mult.commute)
  finally show "(k * n) div m < n" using assms by (simp add: mult_less_cancel_right)
qed

lemma get_pixel:
  assumes "bitmap_ok b" and "pixels b = Some ps" and "0 \<le> x" "x < bw b" "0 \<le> y" "y < bh b"
  shows "get_px ps (y * bw b + x) = Inr (pixel b x y)" "nat (y * bw b + x) < length ps"
proof -
  have "(y + 1) * bw b \<le> bh b * bw b" using assms by (intro mult_right_mono) auto
  then have "0 \<le> y * bw b + x \<and> y * bw b + x < int (length ps)" using assms by (auto simp: bitmap_ok_def algebra_simps)
  then show "get_px ps (y * bw b + x) = Inr (pixel b x y)" "nat (y * bw b + x) < length ps"
    by (simp_all add: get_px_def pixel_def assms(2) nat_less_iff)
qed

lemma blit_px_eq:
  assumes "bitmap_ok src" and "pixels src = Some sps" and "0 \<le> sy0" "sy0 < bh src"
  shows "blit_px (\<lambda>_. sps) (bw src) sx0 sy0 None f pa px py di ps =
    (if 0 \<le> sx0 \<and> sx0 < bw src \<and> alpha_of (pixel src sx0 sy0) \<noteq> 0
     then mod_px (composed (tinted f pa (pixel src sx0 sy0) (alpha_of (pixel src sx0 sy0)))) ps di else Inr ps)"
  using get_pixel(1) [OF assms(1,2) _ _ assms(3,4), of sx0] by (auto simp: blit_px_def Let_def)

lemma blit_loop:
  fixes dst_x dst_y dst_w dst_h src_x src_y src_w src_h cl ct cr cb :: int
  assumes dst: "bitmap_ok dst" "pixels dst = Some dps" and src: "bitmap_ok src" "pixels src = Some sps"
    and size: "0 < dst_w" "0 < dst_h" "0 < src_w" "0 < src_h"
    and lims: "- (2 ^ 31) \<le> dst_x" "dst_x + dst_w \<le> 2 ^ 31" "- (2 ^ 31) \<le> dst_y" "dst_y + dst_h \<le> 2 ^ 31"
      "- (2 ^ 31) \<le> src_x" "src_x + src_w \<le> 2 ^ 31" "- (2 ^ 31) \<le> src_y" "src_y + src_h \<le> 2 ^ 31"
  defines "sxp \<equiv> src_at src_x src_w dst_w" and "syp \<equiv> src_at src_y src_h dst_h"
  shows "\<exists>ps'. foldM (\<lambda>y ps.
               rbind (iadd dst_y y) (\<lambda>py.
               if py < ct \<or> cb \<le> py \<or> py < 0 \<or> bh dst \<le> py then Inr ps
               else rbind (iadd src_y ((y * src_h) div dst_h)) (\<lambda>sy0.
               if sy0 < 0 \<or> bh src \<le> sy0 then Inr ps
               else foldM (\<lambda>x ps.
                   rbind (iadd dst_x x) (\<lambda>px.
                   if px < cl \<or> cr \<le> px \<or> px < 0 \<or> bw dst \<le> px then Inr ps
                   else rbind (iadd src_x ((x * src_w) div dst_w)) (\<lambda>sx0.
                     blit_px (\<lambda>_. sps) (bw src) sx0 sy0 None f pa px py (py * bw dst + px) ps)))
                 [0..dst_w - 1] ps)))
             [0..dst_h - 1] dps = Inr ps' \<and>
     repainted dst (dst\<lparr>pixels := Some ps'\<rparr>) (\<lambda>x y v.
       let sx0 = sxp (x - dst_x); sy0 = syp (y - dst_y); c = pixel src sx0 sy0 in
       if dst_x \<le> x \<and> x < dst_x + dst_w \<and> dst_y \<le> y \<and> y < dst_y + dst_h \<and> cl \<le> x \<and> x < cr \<and> ct \<le> y \<and> y < cb \<and>
          0 \<le> sx0 \<and> sx0 < bw src \<and> 0 \<le> sy0 \<and> sy0 < bh src \<and> alpha_of c \<noteq> 0
       then composed (tinted f pa c (alpha_of c)) v else v)"
    (is "\<exists>ps'. foldM ?rows _ _ = _ \<and> _")
proof -
  define C where "C = (\<lambda>(y, x). ct \<le> dst_y + y \<and> dst_y + y < cb \<and> 0 \<le> dst_y + y \<and> dst_y + y < bh dst \<and> 0 \<le> syp y \<and> syp y < bh src \<and>
    cl \<le> dst_x + x \<and> dst_x + x < cr \<and> 0 \<le> dst_x + x \<and> dst_x + x < bw dst \<and> 0 \<le> sxp x \<and> sxp x < bw src \<and> alpha_of (pixel src (sxp x) (syp y)) \<noteq> 0)"
  define F where "F = (\<lambda>(y, x). composed (tinted f pa (pixel src (sxp x) (syp y)) (alpha_of (pixel src (sxp x) (syp y)))))"
  define idx where "idx = (\<lambda>(y, x). nat ((dst_y + y) * bw dst + (dst_x + x)))"
  let ?ks = "List.product [0..dst_h - 1] [0..dst_w - 1]"
  have row: "?rows y ps = foldM (\<lambda>x ps. if C (y, x) then mod_px (F (y, x)) ps (int (idx (y, x))) else Inr ps) [0..dst_w - 1] ps"
    if "y \<in> set [0..dst_h - 1]" for y ps
  proof -
    have y: "0 \<le> y" "y < dst_h" using that by auto
    have py: "iadd dst_y y = Inr (dst_y + y)" using y lims by (simp add: iadd_def)
    have sy: "iadd src_y ((y * src_h) div dst_h) = Inr (syp y)"
      using src_at_range [OF y size(4)] lims by (simp add: iadd_def syp_def src_at_def)
    show ?thesis
    proof (cases "ct \<le> dst_y + y \<and> dst_y + y < cb \<and> 0 \<le> dst_y + y \<and> dst_y + y < bh dst \<and> 0 \<le> syp y \<and> syp y < bh src")
      case False
      then have "foldM (\<lambda>x ps. if C (y, x) then mod_px (F (y, x)) ps (int (idx (y, x))) else Inr ps) [0..dst_w - 1] ps = Inr ps"
        by (intro foldM_skip) (auto simp: C_def)
      then show ?thesis using False by (auto simp: py sy)
    next
      case True
      have px: "rbind (iadd dst_x x) (\<lambda>px. if px < cl \<or> cr \<le> px \<or> px < 0 \<or> bw dst \<le> px then Inr qs
          else rbind (iadd src_x ((x * src_w) div dst_w)) (\<lambda>sx0.
            blit_px (\<lambda>_. sps) (bw src) sx0 (syp y) None f pa px (dst_y + y) ((dst_y + y) * bw dst + px) qs)) =
          (if C (y, x) then mod_px (F (y, x)) qs (int (idx (y, x))) else Inr qs)" if "x \<in> set [0..dst_w - 1]" for x qs
      proof -
        have x: "0 \<le> x" "x < dst_w" using that by auto
        have "iadd dst_x x = Inr (dst_x + x)" using x lims by (simp add: iadd_def)
        moreover have "iadd src_x ((x * src_w) div dst_w) = Inr (sxp x)"
          using src_at_range [OF x size(3)] lims by (simp add: iadd_def sxp_def src_at_def)
        moreover have "int (idx (y, x)) = (dst_y + y) * bw dst + (dst_x + x)" if "0 \<le> dst_x + x"
          using that True dst(1) by (simp add: idx_def bitmap_ok_def)
        ultimately show ?thesis using True by (auto simp: blit_px_eq [OF src] C_def F_def)
      qed
      show ?thesis using True px by (auto simp: py sy intro!: foldM_cong)
    qed
  qed
  have "foldM ?rows [0..dst_h - 1] dps =
      foldM (\<lambda>y. foldM (\<lambda>x ps. if C (y, x) then mod_px (F (y, x)) ps (int (idx (y, x))) else Inr ps) [0..dst_w - 1]) [0..dst_h - 1] dps"
    by (rule foldM_cong [OF refl refl row])
  also have "\<dots> = foldM (\<lambda>k ps. if C k then mod_px (F k) ps (int (idx k)) else Inr ps) ?ks dps"
    unfolding foldM_product by (intro foldM_cong) auto
  finally have loop: "foldM ?rows [0..dst_h - 1] dps = foldM (\<lambda>k ps. if C k then mod_px (F k) ps (int (idx k)) else Inr ps) ?ks dps" .
  have w: "0 < bw dst" using dst(1) by (simp add: bitmap_ok_def)
  have idx_eq: "idx k = nat (y * bw dst + x) \<longleftrightarrow> k = (y - dst_y, x - dst_x)" if "C k" "0 \<le> x" "x < bw dst" "0 \<le> y" for k x y
  proof -
    obtain u v where k: "k = (u, v)" by (cases k)
    have r: "0 \<le> dst_y + u" "0 \<le> dst_x + v" "dst_x + v < bw dst" using that(1) by (auto simp: C_def k)
    have "idx k = nat (y * bw dst + x) \<longleftrightarrow> (dst_y + u) * bw dst + (dst_x + v) = y * bw dst + x"
      using r that w by (simp add: idx_def k eq_nat_nat_iff)
    also have "\<dots> \<longleftrightarrow> dst_y + u = y \<and> dst_x + v = x"
      using div_mod_offset [of "dst_x + v" "bw dst" "dst_y + u"] div_mod_offset [of x "bw dst" y] r that by metis
    finally show ?thesis by (auto simp: k)
  qed
  have inj: "inj_on idx {k \<in> set ?ks. C k}"
  proof (rule inj_onI)
    fix j k
    assume jk: "j \<in> {k \<in> set ?ks. C k}" "k \<in> {k \<in> set ?ks. C k}" "idx j = idx k"
    obtain u v where k: "k = (u, v)" by (cases k)
    have "idx k = nat ((dst_y + u) * bw dst + (dst_x + v))" by (simp add: idx_def k)
    then show "j = k" using idx_eq [of j "dst_x + v" "dst_y + u"] jk by (auto simp: k C_def)
  qed
  have lt: "\<forall>k \<in> set ?ks. C k \<longrightarrow> idx k < length dps" using get_pixel(2) [OF dst] by (auto simp: C_def idx_def)
  obtain ps' where ps': "foldM ?rows [0..dst_h - 1] dps = Inr ps'" "length ps' = length dps"
    "\<forall>k \<in> set ?ks. C k \<longrightarrow> ps' ! idx k = F k (dps ! idx k)" "\<forall>j. (\<forall>k \<in> set ?ks. C k \<longrightarrow> idx k \<noteq> j) \<longrightarrow> ps' ! j = dps ! j"
    using scatter [OF _ inj lt, of F] unfolding loop by (auto simp: distinct_product)
  have px: "ps' ! nat (y * bw dst + x) = (if (y - dst_y, x - dst_x) \<in> set ?ks \<and> C (y - dst_y, x - dst_x)
      then F (y - dst_y, x - dst_x) (dps ! nat (y * bw dst + x)) else dps ! nat (y * bw dst + x))"
    if "0 \<le> x" "x < bw dst" "0 \<le> y" for x y
  proof (cases "(y - dst_y, x - dst_x) \<in> set ?ks \<and> C (y - dst_y, x - dst_x)")
    case True
    moreover have "idx (y - dst_y, x - dst_x) = nat (y * bw dst + x)" by (simp add: idx_def)
    ultimately show ?thesis using ps'(3) by metis
  next
    case False
    then have "\<forall>k \<in> set ?ks. C k \<longrightarrow> idx k \<noteq> nat (y * bw dst + x)" using idx_eq that by blast
    then show ?thesis using False ps'(4) by metis
  qed
  have "repainted dst (dst\<lparr>pixels := Some ps'\<rparr>) (\<lambda>x y v.
       let sx0 = sxp (x - dst_x); sy0 = syp (y - dst_y); c = pixel src sx0 sy0 in
       if dst_x \<le> x \<and> x < dst_x + dst_w \<and> dst_y \<le> y \<and> y < dst_y + dst_h \<and> cl \<le> x \<and> x < cr \<and> ct \<le> y \<and> y < cb \<and>
          0 \<le> sx0 \<and> sx0 < bw src \<and> 0 \<le> sy0 \<and> sy0 < bh src \<and> alpha_of c \<noteq> 0
       then composed (tinted f pa c (alpha_of c)) v else v)"
    unfolding repainted_def
  proof (intro conjI allI impI, goal_cases)
    case 1
    show ?case using dst ps'(2) by (simp add: bitmap_ok_def)
  next
    case (3 x y)
    have "(y - dst_y, x - dst_x) \<in> set ?ks \<and> C (y - dst_y, x - dst_x) \<longleftrightarrow>
       dst_x \<le> x \<and> x < dst_x + dst_w \<and> dst_y \<le> y \<and> y < dst_y + dst_h \<and> cl \<le> x \<and> x < cr \<and> ct \<le> y \<and> y < cb \<and>
          0 \<le> sxp (x - dst_x) \<and> sxp (x - dst_x) < bw src \<and> 0 \<le> syp (y - dst_y) \<and> syp (y - dst_y) < bh src \<and>
          alpha_of (pixel src (sxp (x - dst_x)) (syp (y - dst_y))) \<noteq> 0"
      using 3 by (auto simp: C_def)
    then show ?case using px [of x y] 3 by (simp add: pixel_def [of dst] pixel_def [of "dst\<lparr>pixels := Some ps'\<rparr>"] dst(2) F_def Let_def)
  qed simp
  then show ?thesis using ps'(1) by blast
qed


definition demo_pair :: gfx where
  "demo_pair = (tables 2 0 0 0 0)\<lparr>bitmaps := [demo_bitmap, (new_bitmap 0x40000200 (2, 2))\<lparr>pixels := Some [0xff000001, 0, 0x80000003, 0xff000004]\<rparr>]\<rparr>"


end
