(* ===== verification/Text.thy ===== *)
theory Text
  imports Draw_Base Blit Font
begin

text \<open>
  Text of the ART shim: drawing with the bitmap font (\<^verbatim>\<open>muplar_draw_text\<close> and the
  \<^verbatim>\<open>nDrawText\<close> methods of \<^verbatim>\<open>BaseCanvas\<close>) and measuring (methods of \<^verbatim>\<open>Paint\<close>).

  \<^verbatim>\<open>char\<close> is unsigned on the target. A Java array or string is the list of its elements,
  \<open>None\<close> for null; the field \<open>get_chars\<close> of the JNI parameter says whether the VM hands
  out the elements. The counter of drawn texts only feeds a debug message and is left out.
\<close>

section \<open>Drawing\<close>

definition font_index :: "u8 \<Rightarrow> int" where
  "font_index ch =
     (if MUPLAR_FONT_FIRST_CHAR \<le> uint ch \<and> uint ch \<le> MUPLAR_FONT_LAST_CHAR then uint ch - MUPLAR_FONT_FIRST_CHAR
      else 63 - MUPLAR_FONT_FIRST_CHAR)"

text \<open>The text colour with coverage \<open>a\<close> over a pixel.\<close>

definition text_blend :: "u32 \<times> u32 \<times> u32 \<Rightarrow> u32 \<Rightarrow> u32 \<Rightarrow> u32" where
  "text_blend rgb a dp =
     (case rgb of (tr, tg, tb) \<Rightarrow>
        argb (a + (alpha_of dp * (255 - a)) div 255) ((tr * a + red_of dp * (255 - a)) div 255)
          ((tg * a + green_of dp * (255 - a)) div 255) ((tb * a + blue_of dp * (255 - a)) div 255))"

definition draw_glyph ::
  "canvas_state \<Rightarrow> bitmap_state \<Rightarrow> u32 \<times> u32 \<times> u32 \<Rightarrow> u32 \<Rightarrow> u8 list \<Rightarrow> int \<Rightarrow> int \<Rightarrow> u32 list \<Rightarrow> fault + u32 list" where
  "draw_glyph c dst rgb base_alpha glyph gx gy ps =
     foldM (\<lambda>r ps.
       rbind (iadd gy r) (\<lambda>py.
       if py < clip_top c \<or> clip_bottom c \<le> py \<or> py < 0 \<or> bh dst \<le> py then Inr ps
       else foldM (\<lambda>col ps.
           rbind (iadd gx col) (\<lambda>px.
           if px < clip_left c \<or> clip_right c \<le> px \<or> px < 0 \<or> bw dst \<le> px then Inr ps
           else rbind (array_at glyph (r * MUPLAR_FONT_W + col)) (\<lambda>ga.
             if ga = 0 then Inr ps
             else mod_px (text_blend rgb ((ucast ga * base_alpha) div 255)) ps (py * bw dst + px))))
         [0..MUPLAR_FONT_W - 1] ps))
       [0..MUPLAR_FONT_H - 1] ps"

text \<open>One character; \<^verbatim>\<open>0x41300000\<close> is \<^verbatim>\<open>11.0f\<close>, the row of the baseline.\<close>

definition draw_char ::
  "canvas_state \<Rightarrow> bitmap_state \<Rightarrow> u32 \<times> u32 \<times> u32 \<Rightarrow> u32 \<Rightarrow> jfloat \<Rightarrow> u8 \<Rightarrow> jfloat \<times> u32 list \<Rightarrow> fault + jfloat \<times> u32 list" where
  "draw_char c dst rgb base_alpha y ch st =
     (case st of (cur_x, ps) \<Rightarrow>
        if ch = 13 \<or> ch = 10 then Inr st
        else
          rbind (array_at muplar_font_advances (font_index ch)) (\<lambda>adv.
          rbind (array_at muplar_font_alpha (font_index ch)) (\<lambda>glyph.
          rbind (muplar_floor_to_int (map_x c cur_x)) (\<lambda>gx.
          rbind (muplar_floor_to_int (map_y c (fsub y 0x41300000))) (\<lambda>gy.
          rbind (draw_glyph c dst rgb base_alpha glyph gx gy ps) (\<lambda>ps'.
            Inr (fadd cur_x (of_int32 (uint adv)), ps')))))))"

definition muplar_draw_text :: "jlong \<Rightarrow> u8 list \<Rightarrow> jfloat \<Rightarrow> jfloat \<Rightarrow> jlong \<Rightarrow> gfx \<Rightarrow> fault + gfx" where
  "muplar_draw_text canvas text x y paint g =
     (case draw_target canvas g of None \<Rightarrow> Inr g
      | Some (c, i) \<Rightarrow>
          let dst = bitmaps g ! i; text_color = muplar_paint_color paint 0xff000000 g in
          case pixels dst of None \<Rightarrow> Inr g
          | Some ps \<Rightarrow>
              if text = [] then Inr g
              else
                let (text, rgb) = (if text = lit ''null'' then (lit ''Search apps...'', (128, 128, 128))
                                   else (text, (red_of text_color, green_of text_color, blue_of text_color)));
                    base_alpha = (if alpha_of text_color = 0 then 255 else alpha_of text_color) in
                rbind (foldM (draw_char c dst rgb base_alpha y) text (x, ps))
                  (\<lambda>(_, ps'). Inr (g\<lparr>bitmaps := (bitmaps g)[i := dst\<lparr>pixels := Some ps'\<rparr>]\<rparr>)))"

text \<open>The characters of a buffer on the stack: at most 510, reduced to seven bits.\<close>

definition text_buf :: "u16 list \<Rightarrow> int \<Rightarrow> int \<Rightarrow> fault + u8 list" where
  "text_buf chars start len =
     (let n = (if len < 510 then len else 510) in
      rbind (peek chars (nat start) (nat n)) (\<lambda>cs. Inr (map (\<lambda>u. ucast (u AND 0x7f)) cs)))"

definition BaseCanvas_nDrawTextString ::
  "jni \<Rightarrow> jlong \<Rightarrow> jstring \<Rightarrow> jint \<Rightarrow> jint \<Rightarrow> jfloat \<Rightarrow> jfloat \<Rightarrow> jint \<Rightarrow> jlong \<Rightarrow> gfx \<Rightarrow> fault + gfx" where
  "BaseCanvas_nDrawTextString j canvas text start end x y bidi_flags paint g =
     (let len = (case text of None \<Rightarrow> 0 | Some cs \<Rightarrow> int (length cs));
          s = (if sint start < 0 then 0 else sint start);
          e = (if sint end < s \<or> len < sint end then len else sint end) in
      if e - s \<le> 0 \<or> \<not> get_chars j then Inr g
      else rbind (text_buf (the text) s (e - s)) (\<lambda>buf. muplar_draw_text canvas buf x y paint g))"

definition BaseCanvas_nDrawTextChars ::
  "jni \<Rightarrow> jlong \<Rightarrow> u16 list option \<Rightarrow> jint \<Rightarrow> jint \<Rightarrow> jfloat \<Rightarrow> jfloat \<Rightarrow> jint \<Rightarrow> jlong \<Rightarrow> gfx \<Rightarrow> fault + gfx" where
  "BaseCanvas_nDrawTextChars j canvas text index count x y bidi_flags paint g =
     (case text of None \<Rightarrow> Inr g
      | Some cs \<Rightarrow>
          if sint count \<le> 0 \<or> sint index < 0 \<or> int (length cs) \<le> sint index then Inr g
          else
            let n = (if int (length cs) - sint index < sint count then int (length cs) - sint index else sint count) in
            if n \<le> 0 \<or> \<not> get_chars j then Inr g
            else rbind (text_buf cs (sint index) n) (\<lambda>buf. muplar_draw_text canvas buf x y paint g))"

definition BaseCanvas_nDrawTextRunString ::
  "jni \<Rightarrow> jlong \<Rightarrow> jstring \<Rightarrow> jint \<Rightarrow> jint \<Rightarrow> jfloat \<Rightarrow> jfloat \<Rightarrow> jlong \<Rightarrow> gfx \<Rightarrow> fault + gfx" where
  "BaseCanvas_nDrawTextRunString j canvas text start end x y paint g =
     BaseCanvas_nDrawTextString j canvas text start end x y 0 paint g"

definition BaseCanvas_nDrawTextRunChars ::
  "jni \<Rightarrow> jlong \<Rightarrow> u16 list option \<Rightarrow> jint \<Rightarrow> jint \<Rightarrow> jfloat \<Rightarrow> jfloat \<Rightarrow> jlong \<Rightarrow> gfx \<Rightarrow> fault + gfx" where
  "BaseCanvas_nDrawTextRunChars j canvas text index count x y paint g =
     BaseCanvas_nDrawTextChars j canvas text index count x y 0 paint g"

definition glyph_char :: "jint \<Rightarrow> u8" where
  "glyph_char gid = (if 32 \<le> sint gid \<and> sint gid \<le> 126 then ucast gid else 32)"

definition BaseCanvas_nDrawGlyphs ::
  "jni \<Rightarrow> jlong \<Rightarrow> jint list option \<Rightarrow> jfloat list option \<Rightarrow> jint \<Rightarrow> jint \<Rightarrow> jint \<Rightarrow> jlong \<Rightarrow> gfx \<Rightarrow> fault + gfx" where
  "BaseCanvas_nDrawGlyphs j canvas glyph_ids positions glyph_offset position_offset glyph_count paint g =
     (case (positions, glyph_ids) of
        (Some pos, Some gids) \<Rightarrow>
          if sint glyph_count \<le> 0 \<or> sint position_offset < 0 then Inr g
          else rbind (iadd (sint position_offset) 1) (\<lambda>po1.
            if int (length pos) \<le> po1 \<or> sint glyph_offset < 0 \<or> int (length gids) \<le> sint glyph_offset \<or> \<not> get_chars j then Inr g
            else
              let n = (if sint glyph_count < 250 then sint glyph_count else 250);
                  n = (if int (length gids) - sint glyph_offset < n then int (length gids) - sint glyph_offset else n) in
              rbind (peek gids (nat (sint glyph_offset)) (nat n)) (\<lambda>ids.
              rbind (array_at pos (sint position_offset)) (\<lambda>first_x.
              rbind (array_at pos po1) (\<lambda>first_y.
                muplar_draw_text canvas (map glyph_char ids) first_x first_y paint g))))
      | _ \<Rightarrow> Inr g)"

section \<open>Measuring\<close>

text \<open>The advance of a character of the text, a blank when there is none at this place.\<close>

definition char_advance :: "u16 list option \<Rightarrow> int \<Rightarrow> int \<Rightarrow> fault + jfloat" where
  "char_advance chars index i =
     rbind (case chars of None \<Rightarrow> Inr 32
       | Some cs \<Rightarrow> rbind (iadd index i) (\<lambda>k. Inr (if 0 \<le> k \<and> k < int (length cs) then ucast (cs ! nat k AND 0x7f) else 32)))
       (\<lambda>ch. rbind (array_at muplar_font_advances (font_index ch)) (\<lambda>adv. Inr (of_int32 (uint adv))))"

text \<open>The total width and the new contents of the array of advances; \<open>local_adv\<close> holds 256 floats.\<close>

definition text_advances ::
  "u16 list option \<Rightarrow> int \<Rightarrow> int \<Rightarrow> jfloat list option \<Rightarrow> int \<Rightarrow> fault + jfloat \<times> jfloat list option" where
  "text_advances chars index count advances advances_index =
     (let writable = (case advances of None \<Rightarrow> 0
            | Some a \<Rightarrow>
                if 0 \<le> advances_index \<and> advances_index < int (length a)
                then min (if count < int (length a) - advances_index then count else int (length a) - advances_index) 256
                else 0) in
      rbind (foldM (\<lambda>i (total, local_adv).
          rbind (char_advance chars index i) (\<lambda>adv.
            Inr (fadd total adv, if i < writable then local_adv @ [adv] else local_adv)))
        [0..count - 1] (0, []))
        (\<lambda>(total, local_adv).
          if 0 < writable then rbind (poke (the advances) (nat advances_index) local_adv) (\<lambda>a. Inr (total, Some a))
          else Inr (total, advances)))"

definition Paint_nGetTextAdvances ::
  "jni \<Rightarrow> u16 list option \<Rightarrow> jint \<Rightarrow> jint \<Rightarrow> jfloat list option \<Rightarrow> jint \<Rightarrow> fault + jfloat \<times> jfloat list option" where
  "Paint_nGetTextAdvances j text index count advances advances_index =
     (if sint count \<le> 0 then Inr (0, advances)
      else text_advances (if get_chars j then text else None) (sint index) (sint count) advances (sint advances_index))"

definition Paint_nGetTextAdvancesString ::
  "jni \<Rightarrow> jstring \<Rightarrow> jint \<Rightarrow> jint \<Rightarrow> jfloat list option \<Rightarrow> jint \<Rightarrow> fault + jfloat \<times> jfloat list option" where
  "Paint_nGetTextAdvancesString j text index count advances advances_index =
     (if sint count \<le> 0 \<or> text = None then Inr (0, advances)
      else text_advances (if get_chars j then text else None) (sint index) (sint count) advances (sint advances_index))"

text \<open>\<open>end > start ? end - start : 0\<close>, where the difference may overflow.\<close>

definition run_count :: "jint \<Rightarrow> jint \<Rightarrow> fault + int" where
  "run_count start end = (if sint start < sint end then iadd (sint end) (- sint start) else Inr 0)"

text \<open>The advance, the array of advances and the bounds left, top, right, bottom. The parameter
  \<open>alloc\<close> says whether the temporary array could be allocated.\<close>

definition Paint_nGetRunCharacterAdvance ::
  "jni \<Rightarrow> jint \<Rightarrow> jint \<Rightarrow> jfloat list option \<Rightarrow> jint \<Rightarrow> fault + jfloat \<times> jfloat list option \<times> (jfloat \<times> jfloat \<times> jfloat \<times> jfloat)" where
  "Paint_nGetRunCharacterAdvance j start end advances advances_index =
     rbind (run_count start end) (\<lambda>count.
       let width = fmul (of_int32 count) f16;
           bounds = (0, 0xc1c00000, if flt 0 width then width else f1, 0x41000000) in
       case advances of None \<Rightarrow> Inr (width, None, bounds)
       | Some a \<Rightarrow>
           if 0 \<le> sint advances_index \<and> sint advances_index < int (length a) then
             let writable = (if int (length a) - sint advances_index < count then int (length a) - sint advances_index else count) in
             if alloc j (4 * nat writable)
             then rbind (poke a (nat (sint advances_index)) (replicate (nat writable) f16)) (\<lambda>a'. Inr (width, Some a', bounds))
             else Inr (width, Some a, bounds)
           else Inr (width, Some a, bounds))"

definition Paint_nGetRunAdvance :: "jint \<Rightarrow> jint \<Rightarrow> jint \<Rightarrow> fault + jfloat" where
  "Paint_nGetRunAdvance start end offset =
     rbind (if sint start < sint offset then iadd (sint offset) (- sint start) else run_count start end)
       (\<lambda>count. Inr (fmul (of_int32 count) f16))"

text \<open>The number of characters that fit and the array with the measured width.\<close>

definition Paint_nBreakTextChars ::
  "jint \<Rightarrow> jfloat \<Rightarrow> jfloat list option \<Rightarrow> fault + int \<times> jfloat list option" where
  "Paint_nBreakTextChars count max_width measured_width =
     (if sint count \<le> 0 \<or> fle max_width 0 then Inr (0, measured_width)
      else rbind (to_int32 (fdiv max_width f16)) (\<lambda>fit.
        let fit = (if sint count < fit then sint count else fit); fit = (if fit < 0 then 0 else fit) in
        Inr (fit, map_option (\<lambda>a. if a = [] then a else a[0 := fmul (of_int32 fit) f16]) measured_width)))"

definition Paint_nBreakTextString :: "jstring \<Rightarrow> jfloat \<Rightarrow> jfloat list option \<Rightarrow> fault + int \<times> jfloat list option" where
  "Paint_nBreakTextString text max_width measured_width =
     Paint_nBreakTextChars (case text of None \<Rightarrow> 0 | Some cs \<Rightarrow> of_nat (length cs)) max_width measured_width"

section \<open>Table accesses\<close>

lemma font_index_range: "0 \<le> font_index ch" "font_index ch < 95"
  by (auto simp: font_index_def font_dims)

lemma advances_bounded: "list_all (\<lambda>a. uint a \<le> 13) muplar_font_advances"
  by (simp add: muplar_font_advances_def)

text \<open>The advance of a character as a number.\<close>

definition advance_of :: "u8 \<Rightarrow> int" where
  "advance_of ch = uint (muplar_font_advances ! nat (font_index ch))"

lemma advance_range: "0 \<le> advance_of ch" "advance_of ch \<le> 13"
  using advances_bounded font_index_range [of ch] by (auto simp: advance_of_def list_all_length length_advances)

lemma font_lookup:
  "array_at muplar_font_advances (font_index ch) = Inr (muplar_font_advances ! nat (font_index ch))"
  "\<exists>glyph. array_at muplar_font_alpha (font_index ch) = Inr glyph \<and> length glyph = 256"
  using font_index_range [of ch] length_glyph [of "muplar_font_alpha ! nat (font_index ch)"]
  by (simp_all add: array_at_def length_advances length_font)

section \<open>Text stays in the clip\<close>

lemma clamped_range: "\<bar>clamped f v\<bar> \<le> 1000000"
  by (auto simp: clamped_def max_def min_def split: fval.split)

lemma glyph_paints_in:
  assumes "length glyph = 256" and "\<bar>gx\<bar> \<le> 1000000" and "\<bar>gy\<bar> \<le> 1000000"
  shows "paints_in (in_clip c) dst (draw_glyph c dst rgb base_alpha glyph gx gy)"
  unfolding draw_glyph_def
proof (rule paints_in_foldM)
  fix r
  assume "r \<in> set [0..MUPLAR_FONT_H - 1]"
  then have r: "0 \<le> r" "r < 16" by (auto simp: font_dims)
  have py: "iadd gy r = Inr (gy + r)" using r assms(3) by (auto simp: iadd_def)
  have "paints_in (in_clip c) dst (\<lambda>ps. rbind (iadd gx col) (\<lambda>px.
           if px < clip_left c \<or> clip_right c \<le> px \<or> px < 0 \<or> bw dst \<le> px then Inr ps
           else rbind (array_at glyph (r * MUPLAR_FONT_W + col)) (\<lambda>ga. if ga = 0 then Inr ps
             else mod_px (text_blend rgb ((ucast ga * base_alpha) div 255)) ps ((gy + r) * bw dst + px))))"
    if row: "clip_top c \<le> gy + r" "gy + r < clip_bottom c" "0 \<le> gy + r" "gy + r < bh dst" and "col \<in> set [0..MUPLAR_FONT_W - 1]" for col
  proof -
    have col: "0 \<le> col" "col < 16" using that(5) by (auto simp: font_dims)
    have px: "iadd gx col = Inr (gx + col)" using col assms(2) by (auto simp: iadd_def)
    have ga: "array_at glyph (r * MUPLAR_FONT_W + col) = Inr (glyph ! nat (r * MUPLAR_FONT_W + col))"
      using r col assms(1) by (simp add: array_at_def font_dims)
    show ?thesis
    proof (cases "(gx + col < clip_left c \<or> clip_right c \<le> gx + col \<or> gx + col < 0 \<or> bw dst \<le> gx + col) \<or>
        glyph ! nat (r * MUPLAR_FONT_W + col) = 0")
      case True
      then show ?thesis using paints_in_skip [of "in_clip c" dst] by (auto simp: px ga cong del: if_weak_cong)
    next
      case False
      then show ?thesis
        using row by (simp add: px ga) (intro paints_in_mod; simp add: in_bitmap_def in_clip_def)
    qed
  qed
  then show "paints_in (in_clip c) dst (\<lambda>ps. rbind (iadd gy r) (\<lambda>py.
       if py < clip_top c \<or> clip_bottom c \<le> py \<or> py < 0 \<or> bh dst \<le> py then Inr ps
       else foldM (\<lambda>col ps.
           rbind (iadd gx col) (\<lambda>px.
           if px < clip_left c \<or> clip_right c \<le> px \<or> px < 0 \<or> bw dst \<le> px then Inr ps
           else rbind (array_at glyph (r * MUPLAR_FONT_W + col)) (\<lambda>ga.
             if ga = 0 then Inr ps
             else mod_px (text_blend rgb ((ucast ga * base_alpha) div 255)) ps (py * bw dst + px))))
         [0..MUPLAR_FONT_W - 1] ps))"
    unfolding py rbind_Inr
    by (cases "gy + r < clip_top c \<or> clip_bottom c \<le> gy + r \<or> gy + r < 0 \<or> bh dst \<le> gy + r")
      (simp_all only: if_True if_False paints_in_skip, intro paints_in_foldM, auto)
qed

lemma text_paints_in:
  "paints_in (in_clip c) dst (\<lambda>ps. rbind (foldM (draw_char c dst rgb base_alpha y) text (x, ps)) (\<lambda>(_, ps'). Inr ps'))"
proof (induction "text" arbitrary: x)
  case (Cons ch "text")
  show ?case
  proof (cases "ch = 13 \<or> ch = 10")
    case True
    then show ?thesis using Cons [of x] by (auto simp: draw_char_def)
  next
    case False
    obtain glyph where glyph: "array_at muplar_font_alpha (font_index ch) = Inr glyph" "length glyph = 256" using font_lookup(2) by blast
    have "paints_in (in_clip c) dst (\<lambda>ps. rbind (draw_glyph c dst rgb base_alpha glyph
        (clamped floor (map_x c x)) (clamped floor (map_y c (fsub y 0x41300000))) ps)
        (\<lambda>ps. rbind (foldM (draw_char c dst rgb base_alpha y) text (fadd x (of_int32 (advance_of ch)), ps)) (\<lambda>(_, ps'). Inr ps')))"
      by (intro paints_in_bind glyph_paints_in clamped_range glyph Cons)
    moreover have "draw_char c dst rgb base_alpha y ch (x, ps) = rbind (draw_glyph c dst rgb base_alpha glyph
        (clamped floor (map_x c x)) (clamped floor (map_y c (fsub y 0x41300000))) ps) (\<lambda>ps'. Inr (fadd x (of_int32 (advance_of ch)), ps'))" for ps
      using False by (simp add: draw_char_def font_lookup(1) glyph floor_to_int_eq advance_of_def)
    ultimately show ?thesis by (simp add: rbind_assoc)
  qed
qed (use paints_in_skip in simp)

section \<open>Measured widths are exact\<close>

text \<open>The character that is measured at place \<open>k\<close> of a run.\<close>

definition text_char :: "u16 list \<Rightarrow> int \<Rightarrow> nat \<Rightarrow> u8" where
  "text_char cs index k =
     (if 0 \<le> index + int k \<and> index + int k < int (length cs) then ucast (cs ! nat (index + int k) AND 0x7f) else 32)"

lemma char_advance_eq:
  assumes "- (2 ^ 31) \<le> index" and "index + int k < 2 ^ 31"
  shows "char_advance (Some cs) index (int k) = Inr (of_int32 (advance_of (text_char cs index k)))"
  using assms by (simp add: char_advance_def iadd_def text_char_def font_lookup(1) advance_of_def)

lemma upto_snoc: "[0..int (Suc n) - 1] = [0..int n - 1] @ [int n]"
  using upto_rec2 [of 0 "int n"] by simp

lemma advances_loop:
  assumes "\<And>k. k < n \<Longrightarrow> char_advance chars index (int k) = Inr (of_int32 (a k))" and "\<And>k. 0 \<le> a k \<and> a k \<le> 13" and "n \<le> 2 ^ 20"
  shows "foldM (\<lambda>i (total, local_adv). rbind (char_advance chars index i) (\<lambda>adv.
            Inr (fadd total adv, if i < int w then local_adv @ [adv] else local_adv))) [0..int n - 1] (0, []) =
    Inr (of_int32 (\<Sum>k<n. a k), map (\<lambda>k. of_int32 (a k)) [0..<min n w])"
  using assms(1,3)
proof (induction n)
  case 0
  have "of_int32 0 = 0" by code_simp
  then show ?case by simp
next
  case (Suc n)
  have "(\<Sum>k<n. a k) \<le> (\<Sum>k<n. 13)" by (intro sum_mono) (use assms(2) in blast)
  also have "\<dots> \<le> 13 * 2 ^ 20" using Suc.prems(2) by simp
  finally have "(\<Sum>k<n. a k) + a n < 2 ^ 24" using assms(2) [of n] by simp
  then have add: "fadd (of_int32 (\<Sum>k<n. a k)) (of_int32 (a n)) = of_int32 (\<Sum>k<Suc n. a k)"
    using fadd_of_int32 [of "\<Sum>k<n. a k" "a n"] assms(2) by (simp add: sum_nonneg)
  have loc: "map (\<lambda>k. of_int32 (a k)) [0..<min (Suc n) w] =
      (if n < w then map (\<lambda>k. of_int32 (a k)) [0..<min n w] @ [of_int32 (a n)] else map (\<lambda>k. of_int32 (a k)) [0..<min n w])"
    by (cases "n < w") (simp_all add: min_def)
  show ?case
    using Suc.IH Suc.prems unfolding upto_snoc foldM_append add loc by (simp add: add)
qed

text \<open>The array of advances after the call: \<open>m\<close> entries from \<open>off\<close> on are replaced.\<close>

definition advances_written :: "jfloat list \<Rightarrow> int \<Rightarrow> int \<Rightarrow> (nat \<Rightarrow> int) \<Rightarrow> jfloat list" where
  "advances_written arr off count a =
     (let m = (if 0 \<le> off \<and> off < int (length arr) then min (min count (int (length arr) - off)) 256 else 0) in
      map (\<lambda>p. if off \<le> int p \<and> int p < off + m then of_int32 (a (p - nat off)) else arr ! p) [0..<length arr])"

lemma poke_map:
  assumes "off + n \<le> length arr"
  shows "poke arr off (map f [0..<n]) = Inr (map (\<lambda>p. if off \<le> p \<and> p < off + n then f (p - off) else arr ! p) [0..<length arr])"
proof -
  obtain arr' where arr': "poke arr off (map f [0..<n]) = Inr arr'"
    using assms poke_succeeds_iff [of arr off "map f [0..<n]"] by auto
  have "arr' = map (\<lambda>p. if off \<le> p \<and> p < off + n then f (p - off) else arr ! p) [0..<length arr]"
    by (rule nth_equalityI) (auto simp: poke_length [OF arr'] nth_poke [OF arr'])
  then show ?thesis using arr' by simp
qed

lemma text_advances_eq:
  assumes "0 < count" and "count \<le> 2 ^ 20" and "- (2 ^ 31) \<le> index" and "index + count \<le> 2 ^ 31"
  shows "text_advances (Some cs) index count advances ai =
    Inr (of_int32 (\<Sum>k<nat count. advance_of (text_char cs index k)),
      map_option (\<lambda>arr. advances_written arr ai count (\<lambda>k. advance_of (text_char cs index k))) advances)"
proof -
  define a where "a k = advance_of (text_char cs index k)" for k
  define m where "m = (case advances of None \<Rightarrow> 0 | Some arr \<Rightarrow>
     if 0 \<le> ai \<and> ai < int (length arr) then min (if count < int (length arr) - ai then count else int (length arr) - ai) 256 else 0)"
  have m: "0 \<le> m" "m \<le> count" using assms(1) by (auto simp: m_def split: option.split)
  have "char_advance (Some cs) index (int k) = Inr (of_int32 (a k))" if "k < nat count" for k
    unfolding a_def using that assms by (intro char_advance_eq) auto
  then have "foldM (\<lambda>i (total, local_adv). rbind (char_advance (Some cs) index i) (\<lambda>adv.
            Inr (fadd total adv, if i < int (nat m) then local_adv @ [adv] else local_adv))) [0..int (nat count) - 1] (0, []) =
    Inr (of_int32 (\<Sum>k<nat count. a k), map (\<lambda>k. of_int32 (a k)) [0..<min (nat count) (nat m)])"
    by (rule advances_loop) (use assms advance_range in \<open>auto simp: a_def\<close>)
  then have loop: "foldM (\<lambda>i (total, local_adv). rbind (char_advance (Some cs) index i) (\<lambda>adv.
            Inr (fadd total adv, if i < m then local_adv @ [adv] else local_adv))) [0..count - 1] (0, []) =
    Inr (of_int32 (\<Sum>k<nat count. a k), map (\<lambda>k. of_int32 (a k)) [0..<nat m])"
    using m assms(1) by (simp add: min_absorb2)
  have eq: "text_advances (Some cs) index count advances ai =
      (if 0 < m then rbind (poke (the advances) (nat ai) (map (\<lambda>k. of_int32 (a k)) [0..<nat m])) (\<lambda>arr. Inr (of_int32 (\<Sum>k<nat count. a k), Some arr))
       else Inr (of_int32 (\<Sum>k<nat count. a k), advances))"
    unfolding text_advances_def m_def [symmetric] Let_def loop by simp
  show ?thesis
  proof (cases advances)
    case None
    then show ?thesis using eq by (simp add: m_def a_def)
  next
    case (Some arr)
    define m' where "m' = (if 0 \<le> ai \<and> ai < int (length arr) then min (min count (int (length arr) - ai)) 256 else 0)"
    have m': "m = m'" by (auto simp: m_def m'_def Some min_def)
    have w: "advances_written arr ai count a =
        map (\<lambda>p. if ai \<le> int p \<and> int p < ai + m then of_int32 (a (p - nat ai)) else arr ! p) [0..<length arr]"
      unfolding advances_written_def Let_def m' m'_def ..
    show ?thesis
    proof (cases "0 < m")
      case True
      then have ai: "0 \<le> ai" "ai + m \<le> int (length arr)" unfolding m' by (auto simp: m'_def split: if_splits)
      have "advances_written arr ai count a = map (\<lambda>p. if nat ai \<le> p \<and> p < nat ai + nat m then of_int32 (a (p - nat ai)) else arr ! p) [0..<length arr]"
        unfolding w using ai(1) True by (intro map_cong) auto
      moreover have "nat ai + nat m \<le> length arr" using ai True by linarith
      ultimately show ?thesis using True poke_map [of "nat ai" "nat m" arr "\<lambda>k. of_int32 (a k)"] using eq unfolding Some a_def [symmetric] by simp
    next
      case False
      then have "advances_written arr ai count a = arr" unfolding w by (intro nth_equalityI) auto
      then show ?thesis using False using eq unfolding Some a_def [symmetric] by simp
    qed
  qed
qed

text \<open>C25: measuring a run of text (of up to 2^20 characters) reads only the font table and the
  text, and returns exactly the sum of the advances of its characters: no single-precision
  addition rounds. The advances array receives the advance of each character, as far as it and
  the buffer of 256 reach, and nothing else of it changes. Characters outside of the text
  count as blanks.\<close>

theorem text_advances_exact:
  assumes "get_chars j" and "0 < sint count" and "sint count \<le> 2 ^ 20" and "sint index + sint count \<le> 2 ^ 31"
  shows "\<exists>total. Paint_nGetTextAdvances j (Some cs) index count advances ai =
      Inr (total, map_option (\<lambda>arr. advances_written arr (sint ai) (sint count) (\<lambda>k. advance_of (text_char cs (sint index) k))) advances) \<and>
    Paint_nGetTextAdvancesString j (Some cs) index count advances ai = Paint_nGetTextAdvances j (Some cs) index count advances ai \<and>
    is_fin total \<and> real_of total = of_int (\<Sum>k<nat (sint count). advance_of (text_char cs (sint index) k))"
proof -
  define w where "w = (\<Sum>k<nat (sint count). advance_of (text_char cs (sint index) k))"
  have "w \<le> (\<Sum>k<nat (sint count). 13)" unfolding w_def by (intro sum_mono advance_range)
  also have "\<dots> \<le> 13 * 2 ^ 20" using assms(3) by simp
  finally have "w \<le> 13 * 2 ^ 20" .
  moreover have "0 \<le> w" unfolding w_def by (intro sum_nonneg advance_range)
  ultimately have "\<bar>w\<bar> < 2 ^ 24" by simp
  moreover have "- (2 ^ 31) \<le> sint index" using sint_greater_eq [of index] by simp
  ultimately show ?thesis
    using text_advances_eq [of "sint count" "sint index" cs advances "sint ai"] assms(1-4) of_int32_exact [of w]
    by (simp add: Paint_nGetTextAdvances_def Paint_nGetTextAdvancesString_def flip: w_def)
qed

theorem text_advances_exact_witness:
  "\<exists>total. Paint_nGetTextAdvances \<lparr>alloc = \<lambda>_. True, get_chars = True, to_utf = map ucast, from_utf = map ucast\<rparr> (Some [65, 10, 126]) 0 4 (Some [1, 2, 3]) 1 =
      Inr (total, Some [1, of_int32 9, of_int32 8]) \<and> is_fin total \<and> real_of total = 30"
proof -
  have a: "(\<Sum>k<4. advance_of (text_char [65, 10, 126] 0 k)) = 30" "advances_written [1, 2, 3] 1 4 (\<lambda>k. advance_of (text_char [65, 10, 126] 0 k)) = [1, of_int32 9, of_int32 8]"
    by code_simp+
  show ?thesis
    using text_advances_exact [of "\<lparr>alloc = \<lambda>_. True, get_chars = True, to_utf = map ucast, from_utf = map ucast\<rparr>" 4 0 "[65, 10, 126]" "Some [1, 2, 3]" 1] a
    by auto
qed

end
