(* ===== verification/Draw.thy ===== *)
theory Draw
  imports Text
begin

text \<open>
  The drawing methods of \<^verbatim>\<open>Canvas\<close> and \<^verbatim>\<open>BaseCanvas\<close> in the ART shim. A method does
  nothing when the canvas or its bitmap does not exist. The counters of drawing calls only feed a
  debug message and are left out. Java arrays are the lists of their elements, \<open>None\<close> for null
  or for elements the VM does not hand out.
\<close>

section \<open>Shapes\<close>

text \<open>The bitmap of the paint's shader.\<close>

definition shader_source :: "jlong \<Rightarrow> gfx \<Rightarrow> nat option" where
  "shader_source paint g =
     (case paint_of g paint of None \<Rightarrow> None
      | Some p \<Rightarrow>
          if p_shader p = 0 then None
          else case shader_of g (p_shader p) of None \<Rightarrow> None | Some s \<Rightarrow> muplar_find_bitmap (s_bitmap s) g)"

abbreviation clip_rect :: "canvas_state \<Rightarrow> int \<times> int \<times> int \<times> int" where
  "clip_rect c \<equiv> (clip_left c, clip_top c, clip_right c, clip_bottom c)"

definition Canvas_nDrawPath :: "jlong \<Rightarrow> jlong \<Rightarrow> jlong \<Rightarrow> gfx \<Rightarrow> fault + gfx" where
  "Canvas_nDrawPath canvas path paint g =
     (case draw_target canvas g of None \<Rightarrow> Inr g
      | Some (c, i) \<Rightarrow>
          case shader_source paint g of None \<Rightarrow> Inr g
          | Some si \<Rightarrow>
              let dst = bitmaps g ! i; src = bitmaps g ! si in
              rbind (muplar_floor_to_int (tx c)) (\<lambda>dx.
              rbind (muplar_floor_to_int (ty c)) (\<lambda>dy.
              rbind (muplar_ceil_to_int (fmul (of_int32 (bw dst)) (sx c))) (\<lambda>dw.
              rbind (muplar_ceil_to_int (fmul (of_int32 (bh dst)) (sy c))) (\<lambda>dh.
                muplar_blit_bitmap i si (dx, dy, if dw \<le> 0 then bw dst else dw, if dh \<le> 0 then bh dst else dh)
                  (0, 0, bw src, bh src) (clip_rect c) paint True g)))))"

definition Canvas_nDrawCircle :: "jlong \<Rightarrow> jfloat \<Rightarrow> jfloat \<Rightarrow> jfloat \<Rightarrow> jlong \<Rightarrow> gfx \<Rightarrow> fault + gfx" where
  "Canvas_nDrawCircle canvas cx cy radius paint g =
     (case draw_target canvas g of None \<Rightarrow> Inr g
      | Some (c, i) \<Rightarrow>
          on_bitmap i (muplar_fill_circle (map_x c cx) (map_y c cy) (fmul radius (if flt (sy c) (sx c) then sx c else sy c))
            (muplar_paint_color paint 0xff5f6368 g)) g)"

definition Canvas_nDrawColor :: "jlong \<Rightarrow> jint \<Rightarrow> jint \<Rightarrow> gfx \<Rightarrow> fault + gfx" where
  "Canvas_nDrawColor canvas color mode g =
     (case draw_target canvas g of None \<Rightarrow> Inr g
      | Some (c, i) \<Rightarrow> on_bitmap i (muplar_fill_rect (clip_left c) (clip_top c) (clip_right c) (clip_bottom c) color) g)"

definition BaseCanvas_nDrawRect :: "jlong \<Rightarrow> jfloat \<Rightarrow> jfloat \<Rightarrow> jfloat \<Rightarrow> jfloat \<Rightarrow> jlong \<Rightarrow> gfx \<Rightarrow> fault + gfx" where
  "BaseCanvas_nDrawRect canvas left tp right bottom paint g =
     (case draw_target canvas g of None \<Rightarrow> Inr g
      | Some (c, i) \<Rightarrow>
          rbind (muplar_floor_to_int (map_x c left)) (\<lambda>l.
          rbind (muplar_floor_to_int (map_y c tp)) (\<lambda>t.
          rbind (muplar_ceil_to_int (map_x c right)) (\<lambda>r.
          rbind (muplar_ceil_to_int (map_y c bottom)) (\<lambda>b.
            let l = (if l < clip_left c then clip_left c else l); t = (if t < clip_top c then clip_top c else t);
                r = (if clip_right c < r then clip_right c else r); b = (if clip_bottom c < b then clip_bottom c else b);
                fill = (if l < r \<and> t < b then on_bitmap i (muplar_fill_rect l t r b (muplar_paint_color paint 0xffdadce0 g)) g else Inr g) in
            case shader_source paint g of None \<Rightarrow> fill
            | Some si \<Rightarrow>
                if l < r \<and> t < b
                then muplar_blit_bitmap i si (l, t, r - l, b - t) (0, 0, bw (bitmaps g ! si), bh (bitmaps g ! si)) (clip_rect c) paint False g
                else fill)))))"

definition Canvas_nDrawRoundRect ::
  "jlong \<Rightarrow> jfloat \<Rightarrow> jfloat \<Rightarrow> jfloat \<Rightarrow> jfloat \<Rightarrow> jfloat \<Rightarrow> jfloat \<Rightarrow> jlong \<Rightarrow> gfx \<Rightarrow> fault + gfx" where
  "Canvas_nDrawRoundRect canvas left tp right bottom rx ry paint g = BaseCanvas_nDrawRect canvas left tp right bottom paint g"

definition BaseCanvas_nDrawPaint :: "jlong \<Rightarrow> jlong \<Rightarrow> gfx \<Rightarrow> fault + gfx" where
  "BaseCanvas_nDrawPaint canvas paint g =
     (case draw_target canvas g of None \<Rightarrow> Inr g
      | Some (c, i) \<Rightarrow>
          case shader_source paint g of
            None \<Rightarrow> on_bitmap i (muplar_fill_rect (clip_left c) (clip_top c) (clip_right c) (clip_bottom c) (muplar_paint_color paint 0xffffffff g)) g
          | Some si \<Rightarrow>
              rbind (iadd (clip_right c) (- clip_left c)) (\<lambda>w.
              rbind (iadd (clip_bottom c) (- clip_top c)) (\<lambda>h.
                muplar_blit_bitmap i si (clip_left c, clip_top c, w, h) (0, 0, bw (bitmaps g ! si), bh (bitmaps g ! si)) (clip_rect c) paint False g)))"

definition BaseCanvas_nDrawColorLong :: "jlong \<Rightarrow> jlong \<Rightarrow> jlong \<Rightarrow> jint \<Rightarrow> gfx \<Rightarrow> fault + gfx" where
  "BaseCanvas_nDrawColorLong canvas color_space color_long mode g = Canvas_nDrawColor canvas (ucast (drop_bit 32 color_long)) mode g"

definition BaseCanvas_nDrawOval :: "jlong \<Rightarrow> jfloat \<Rightarrow> jfloat \<Rightarrow> jfloat \<Rightarrow> jfloat \<Rightarrow> jlong \<Rightarrow> gfx \<Rightarrow> fault + gfx" where
  "BaseCanvas_nDrawOval canvas left tp right bottom paint g = BaseCanvas_nDrawRect canvas left tp right bottom paint g"

definition BaseCanvas_nDrawArc ::
  "jlong \<Rightarrow> jfloat \<Rightarrow> jfloat \<Rightarrow> jfloat \<Rightarrow> jfloat \<Rightarrow> jfloat \<Rightarrow> jfloat \<Rightarrow> bool \<Rightarrow> jlong \<Rightarrow> gfx \<Rightarrow> fault + gfx" where
  "BaseCanvas_nDrawArc canvas left tp right bottom start_angle sweep_angle use_center paint g =
     BaseCanvas_nDrawOval canvas left tp right bottom paint g"

definition BaseCanvas_nDrawLine :: "jlong \<Rightarrow> jfloat \<Rightarrow> jfloat \<Rightarrow> jfloat \<Rightarrow> jfloat \<Rightarrow> jlong \<Rightarrow> gfx \<Rightarrow> fault + gfx" where
  "BaseCanvas_nDrawLine canvas x1 y1 x2 y2 paint g =
     (let left = (if flt x1 x2 then x1 else x2); right = (if flt x2 x1 then x1 else x2);
          tp = (if flt y1 y2 then y1 else y2); bottom = (if flt y2 y1 then y1 else y2);
          right = (if flt (fsub right left) f1 then fadd left f1 else right);
          bottom = (if flt (fsub bottom tp) f1 then fadd tp f1 else bottom) in
      BaseCanvas_nDrawRect canvas left tp right bottom paint g)"

definition BaseCanvas_nDrawPoint :: "jlong \<Rightarrow> jfloat \<Rightarrow> jfloat \<Rightarrow> jlong \<Rightarrow> gfx \<Rightarrow> fault + gfx" where
  "BaseCanvas_nDrawPoint canvas x y paint g = BaseCanvas_nDrawRect canvas x y (fadd x f1) (fadd y f1) paint g"

text \<open>\<^verbatim>\<open>data[offset + i]\<close>\<close>

definition float_at :: "jfloat list \<Rightarrow> jint \<Rightarrow> int \<Rightarrow> fault + jfloat" where
  "float_at data offset i = rbind (iadd (sint offset) i) (array_at data)"

definition BaseCanvas_nDrawPoints :: "jlong \<Rightarrow> jfloat list option \<Rightarrow> jint \<Rightarrow> jint \<Rightarrow> jlong \<Rightarrow> gfx \<Rightarrow> fault + gfx" where
  "BaseCanvas_nDrawPoints canvas points offset count paint g =
     (case points of None \<Rightarrow> Inr g
      | Some data \<Rightarrow>
          if sint count \<le> 0 then Inr g
          else rbind (loop_values 0 (sint count - 1) 2) (\<lambda>is.
            foldM (\<lambda>i g.
              rbind (float_at data offset i) (\<lambda>x.
              rbind (float_at data offset (i + 1)) (\<lambda>y. BaseCanvas_nDrawPoint canvas x y paint g))) is g))"

definition BaseCanvas_nDrawLines :: "jlong \<Rightarrow> jfloat list option \<Rightarrow> jint \<Rightarrow> jint \<Rightarrow> jlong \<Rightarrow> gfx \<Rightarrow> fault + gfx" where
  "BaseCanvas_nDrawLines canvas lines offset count paint g =
     (case lines of None \<Rightarrow> Inr g
      | Some data \<Rightarrow>
          if sint count \<le> 0 then Inr g
          else rbind (loop_values 0 (sint count - 3) 4) (\<lambda>is.
            foldM (\<lambda>i g.
              rbind (float_at data offset i) (\<lambda>x1.
              rbind (float_at data offset (i + 1)) (\<lambda>y1.
              rbind (float_at data offset (i + 2)) (\<lambda>x2.
              rbind (float_at data offset (i + 3)) (\<lambda>y2. BaseCanvas_nDrawLine canvas x1 y1 x2 y2 paint g))))) is g))"

section \<open>Bitmaps\<close>

definition BaseCanvas_nDrawBitmap :: "jlong \<Rightarrow> jlong \<Rightarrow> jfloat \<Rightarrow> jfloat \<Rightarrow> jlong \<Rightarrow> gfx \<Rightarrow> fault + gfx" where
  "BaseCanvas_nDrawBitmap canvas bitmap left tp paint g =
     (case (draw_target canvas g, muplar_find_bitmap bitmap g) of
        (Some (c, i), Some si) \<Rightarrow>
          let src = bitmaps g ! si in
          rbind (muplar_floor_to_int (map_x c left)) (\<lambda>dx.
          rbind (muplar_floor_to_int (map_y c tp)) (\<lambda>dy.
          rbind (to_int32 (fmul (of_int32 (bw src)) (sx c))) (\<lambda>dw.
          rbind (to_int32 (fmul (of_int32 (bh src)) (sy c))) (\<lambda>dh.
            muplar_blit_bitmap i si (dx, dy, dw, dh) (0, 0, bw src, bh src) (clip_rect c) paint False g))))
      | _ \<Rightarrow> Inr g)"

definition BaseCanvas_nDrawBitmapMatrix :: "jlong \<Rightarrow> jlong \<Rightarrow> jlong \<Rightarrow> jlong \<Rightarrow> gfx \<Rightarrow> fault + gfx" where
  "BaseCanvas_nDrawBitmapMatrix canvas bitmap matrix paint g = BaseCanvas_nDrawBitmap canvas bitmap 0 0 paint g"

text \<open>Source and target rectangle are given as left, top, right, bottom.\<close>

definition BaseCanvas_nDrawBitmapRect ::
  "jlong \<Rightarrow> jlong \<Rightarrow> jfloat \<times> jfloat \<times> jfloat \<times> jfloat \<Rightarrow> jfloat \<times> jfloat \<times> jfloat \<times> jfloat \<Rightarrow> jlong \<Rightarrow> gfx \<Rightarrow> fault + gfx" where
  "BaseCanvas_nDrawBitmapRect canvas bitmap = (\<lambda>(src_left, src_top, src_right, src_bottom) (dst_left, dst_top, dst_right, dst_bottom) paint g.
     case (draw_target canvas g, muplar_find_bitmap bitmap g) of
       (Some (c, i), Some si) \<Rightarrow>
         rbind (muplar_floor_to_int src_left) (\<lambda>sx0.
         rbind (muplar_floor_to_int src_top) (\<lambda>sy0.
         rbind (muplar_ceil_to_int src_right) (\<lambda>sr.
         rbind (muplar_ceil_to_int src_bottom) (\<lambda>sb.
         rbind (muplar_floor_to_int (map_x c dst_left)) (\<lambda>dx.
         rbind (muplar_floor_to_int (map_y c dst_top)) (\<lambda>dy.
         rbind (muplar_ceil_to_int (map_x c dst_right)) (\<lambda>dr.
         rbind (muplar_ceil_to_int (map_y c dst_bottom)) (\<lambda>db.
           muplar_blit_bitmap i si (dx, dy, dr - dx, db - dy) (sx0, sy0, sr - sx0, sb - sy0) (clip_rect c) paint False g))))))))
     | _ \<Rightarrow> Inr g)"

definition BaseCanvas_nDrawNinePatch ::
  "jlong \<Rightarrow> jlong \<Rightarrow> jlong \<Rightarrow> jfloat \<times> jfloat \<times> jfloat \<times> jfloat \<Rightarrow> jlong \<Rightarrow> gfx \<Rightarrow> fault + gfx" where
  "BaseCanvas_nDrawNinePatch canvas bitmap chunk = (\<lambda>(dst_left, dst_top, dst_right, dst_bottom) paint g.
     case (draw_target canvas g, muplar_find_bitmap bitmap g) of
       (Some (c, i), Some si) \<Rightarrow>
         rbind (muplar_floor_to_int (map_x c dst_left)) (\<lambda>dx.
         rbind (muplar_floor_to_int (map_y c dst_top)) (\<lambda>dy.
         rbind (muplar_ceil_to_int (map_x c dst_right)) (\<lambda>dr.
         rbind (muplar_ceil_to_int (map_y c dst_bottom)) (\<lambda>db.
           muplar_blit_bitmap i si (dx, dy, dr - dx, db - dy) (0, 0, bw (bitmaps g ! si), bh (bitmaps g ! si)) (clip_rect c) paint False g))))
     | _ \<Rightarrow> Inr g)"

section \<open>Blitting stays in the clip\<close>

text \<open>The alpha of the rounded corners is a product of a byte and a factor between 0 and 1, so its
  conversion to an integer is defined.\<close>

lemma nan32_decode: "decode nan32 = Nan"
  by code_simp

lemma unit_floats: "is_fin 0" "real_of 0 = 0" "is_fin f1" "real_of f1 = 1"
proof -
  have "of_int32 0 = 0" "of_int32 1 = f1" by code_simp+
  then show "is_fin 0" "real_of 0 = 0" "is_fin f1" "real_of f1 = 1" using of_int32_exact [of 0] of_int32_exact [of 1] by simp_all
qed

lemma fsub_operand_not_nan: "flt (fsub x y) z \<Longrightarrow> decode x \<noteq> Nan \<and> decode z \<noteq> Nan"
proof (intro conjI notI)
  assume "flt (fsub x y) z" "decode x = Nan"
  then show False using nan32_decode by (simp add: flt_def fsub_def fadd_def)
next
  assume "flt (fsub x y) z" "decode z = Nan"
  then show False by (cases "decode (fsub x y)") (simp_all add: flt_def)
qed

lemma corner_mask_unit:
  assumes "flt (fsub r f1) d"
  defines "m \<equiv> fsub r d"
  defines "m1 \<equiv> if flt m 0 then 0 else m"
  defines "m2 \<equiv> if flt f1 m1 then f1 else m1"
  shows "is_fin m2 \<and> 0 \<le> real_of m2 \<and> real_of m2 \<le> 1"
proof -
  obtain sf mf ef where f: "decode f1 = Fin sf mf ef" using unit_floats(3) by (auto simp: is_fin_def)
  obtain sz mz ez where z: "decode 0 = Fin sz mz ez" using unit_floats(1) by (auto simp: is_fin_def)
  have "decode d \<noteq> Inf s" if "decode r = Inf s" for s
    using assms(1) that f by (auto simp: flt_def fsub_def fadd_def decode_fneg)
  then have "decode m \<noteq> Nan"
    unfolding m_def using fsub_operand_not_nan [OF assms(1)] by (intro fsub_not_nan) auto
  then consider s where "decode m = Inf s" | "is_fin m" by (cases "decode m") (auto simp: is_fin_def)
  then show ?thesis
  proof cases
    case 1
    then show ?thesis using f z unit_floats unfolding m2_def m1_def by (cases s) (auto simp: flt_def)
  next
    case 2
    have m1: "is_fin m1" "real_of m1 = max 0 (real_of m)"
      using 2 unit_floats flt_real [OF 2, of 0] by (auto simp: m1_def)
    then show ?thesis using unit_floats flt_real [of f1 m1] by (auto simp: m2_def)
  qed
qed

lemma squircle_alpha_total: "alpha < 256 \<Longrightarrow> \<exists>a. squircle_alpha q px py alpha = Inr a"
  using product_to_int32 [of "uint alpha", OF _ _ corner_mask_unit [THEN conjunct1] corner_mask_unit [THEN conjunct2, THEN conjunct1]
      corner_mask_unit [THEN conjunct2, THEN conjunct2], of "q_r q" "q_dist q px py"]
  by (fastforce simp: squircle_alpha_def Let_def word_less_def)

lemma paints_in_cases:
  assumes "in_bitmap b x y" and "R x y"
    and "\<And>ps. sized b ps \<Longrightarrow> f ps = Inr ps \<or> (\<exists>F. f ps = mod_px F ps (y * bw b + x))"
  shows "paints_in R b f"
proof (rule paints_inI)
  fix ps
  assume ps: "sized b ps"
  from assms(3) [OF ps] show "\<exists>ps'. f ps = Inr ps' \<and> sized b ps' \<and>
      (\<forall>x y. in_bitmap b x y \<and> \<not> R x y \<longrightarrow> ps' ! nat (y * bw b + x) = ps ! nat (y * bw b + x))"
  proof (elim disjE exE)
    fix F
    assume "f ps = mod_px F ps (y * bw b + x)"
    then show ?thesis using paints_in_mod [of b x y R F, OF assms(1,2)] ps by (simp add: paints_in_def)
  qed (use ps in simp)
qed

lemma blit_px_paints_in:
  assumes "in_bitmap dst px py" and "R px py" and "\<And>ps. sized dst ps \<Longrightarrow> sized src (rd ps)" and "0 \<le> sy0" "sy0 < bh src"
  shows "paints_in R dst (blit_px rd (bw src) sx0 sy0 msk f pa px py (py * bw dst + px))"
proof (rule paints_in_cases [of dst px py R, OF assms(1,2)])
  fix ps
  assume ps: "sized dst ps"
  show "blit_px rd (bw src) sx0 sy0 msk f pa px py (py * bw dst + px) ps = Inr ps \<or>
      (\<exists>F. blit_px rd (bw src) sx0 sy0 msk f pa px py (py * bw dst + px) ps = mod_px F ps (py * bw dst + px))"
  proof (cases "0 \<le> sx0 \<and> sx0 < bw src")
    case True
    then obtain v where v: "get_px (rd ps) (sy0 * bw src + sx0) = Inr v"
      using index_range [OF assms(3) [OF ps], of sx0 sy0] assms(4,5) by (simp add: in_bitmap_def get_px_def)
    obtain a where "(case msk of None \<Rightarrow> Inr (alpha_of v) | Some q \<Rightarrow> squircle_alpha q px py (alpha_of v)) = Inr a"
      using squircle_alpha_total [OF channel_less(1) [of v]] by (cases msk) (auto, blast)
    then show ?thesis using True v by (cases "alpha_of v = 0 \<or> a = 0") (auto simp: blit_px_def Let_def)
  qed (auto simp: blit_px_def)
qed

lemma blit_rows_paint_in:
  fixes dst_x dst_y dst_w dst_h src_x src_y src_w src_h :: int
  assumes rd: "\<And>ps. sized dst ps \<Longrightarrow> sized src (rd ps)"
    and size: "0 < dst_w" "0 < dst_h" "0 < src_w" "0 < src_h"
    and lims: "- (2 ^ 31) \<le> dst_x" "dst_x + dst_w \<le> 2 ^ 31" "- (2 ^ 31) \<le> dst_y" "dst_y + dst_h \<le> 2 ^ 31"
      "- (2 ^ 31) \<le> src_x" "src_x + src_w \<le> 2 ^ 31" "- (2 ^ 31) \<le> src_y" "src_y + src_h \<le> 2 ^ 31"
  shows "paints_in (in_clip c) dst (foldM (\<lambda>y ps.
               rbind (iadd dst_y y) (\<lambda>py.
               if py < clip_top c \<or> clip_bottom c \<le> py \<or> py < 0 \<or> bh dst \<le> py then Inr ps
               else rbind (iadd src_y ((y * src_h) div dst_h)) (\<lambda>sy0.
               if sy0 < 0 \<or> bh src \<le> sy0 then Inr ps
               else foldM (\<lambda>x ps.
                   rbind (iadd dst_x x) (\<lambda>px.
                   if px < clip_left c \<or> clip_right c \<le> px \<or> px < 0 \<or> bw dst \<le> px then Inr ps
                   else if msq \<and> squircle_skips q px py then Inr ps
                   else rbind (iadd src_x ((x * src_w) div dst_w)) (\<lambda>sx0.
                     blit_px rd (bw src) sx0 sy0 msk f pa px py (py * bw dst + px) ps)))
                 [0..dst_w - 1] ps)))
             [0..dst_h - 1])"
proof (rule paints_in_foldM, goal_cases)
  case (1 y)
  then have y: "0 \<le> y" "y < dst_h" by auto
  have py: "iadd dst_y y = Inr (dst_y + y)" using y lims by (simp add: iadd_def)
  obtain sy0 where sy: "iadd src_y ((y * src_h) div dst_h) = Inr sy0"
    using src_at_range [OF y size(4)] lims by (simp add: iadd_def)
  show ?case
  proof (cases "(dst_y + y < clip_top c \<or> clip_bottom c \<le> dst_y + y \<or> dst_y + y < 0 \<or> bh dst \<le> dst_y + y) \<or> sy0 < 0 \<or> bh src \<le> sy0")
    case True
    then show ?thesis using paints_in_skip by (auto simp: py sy cong del: if_weak_cong)
  next
    case row: False
    have "paints_in (in_clip c) dst (\<lambda>ps. rbind (iadd dst_x x) (\<lambda>px.
        if px < clip_left c \<or> clip_right c \<le> px \<or> px < 0 \<or> bw dst \<le> px then Inr ps
        else if msq \<and> squircle_skips q px (dst_y + y) then Inr ps
        else rbind (iadd src_x ((x * src_w) div dst_w)) (\<lambda>sx0.
          blit_px rd (bw src) sx0 sy0 msk f pa px (dst_y + y) ((dst_y + y) * bw dst + px) ps)))"
      if "x \<in> set [0..dst_w - 1]" for x
    proof -
      have x: "0 \<le> x" "x < dst_w" using that by auto
      have px: "iadd dst_x x = Inr (dst_x + x)" using x lims by (simp add: iadd_def)
      obtain sx0 where sx: "iadd src_x ((x * src_w) div dst_w) = Inr sx0"
        using src_at_range [OF x size(3)] lims by (simp add: iadd_def)
      show ?thesis
      proof (cases "(dst_x + x < clip_left c \<or> clip_right c \<le> dst_x + x \<or> dst_x + x < 0 \<or> bw dst \<le> dst_x + x) \<or>
          (msq \<and> squircle_skips q (dst_x + x) (dst_y + y))")
        case True
        then show ?thesis using paints_in_skip by (auto simp: px cong del: if_weak_cong)
      next
        case False
        then show ?thesis
          using row blit_px_paints_in [of dst "dst_x + x" "dst_y + y" "in_clip c" src rd sy0, OF _ _ rd]
          by (auto simp: px sx in_bitmap_def in_clip_def cong del: if_weak_cong)
      qed
    qed
    then show ?thesis using row by (simp add: py sy cong del: if_weak_cong) (rule paints_in_foldM, auto)
  qed
qed

lemma blit_drawn:
  fixes dst_x dst_y dst_w dst_h src_x src_y src_w src_h :: int
  assumes "bitmap_ok (bitmaps g ! di)" and "bitmap_ok (bitmaps g ! si)"
    and "- (2 ^ 31) \<le> dst_x" "dst_x + dst_w \<le> 2 ^ 31" "- (2 ^ 31) \<le> dst_y" "dst_y + dst_h \<le> 2 ^ 31"
      "- (2 ^ 31) \<le> src_x" "src_x + src_w \<le> 2 ^ 31" "- (2 ^ 31) \<le> src_y" "src_y + src_h \<le> 2 ^ 31"
  shows "\<exists>g'. muplar_blit_bitmap di si (dst_x, dst_y, dst_w, dst_h) (src_x, src_y, src_w, src_h) (clip_rect c) paint msq g = Inr g' \<and>
    drawn_in c di g g'"
proof -
  obtain dps sps where ps: "pixels (bitmaps g ! di) = Some dps" "pixels (bitmaps g ! si) = Some sps"
    using assms(1,2) by (auto simp: bitmap_ok_def)
  show ?thesis
  proof (cases "dst_w \<le> 0 \<or> dst_h \<le> 0 \<or> src_w \<le> 0 \<or> src_h \<le> 0")
    case True
    then show ?thesis using drawn_in_refl [OF assms(1)] unfolding muplar_blit_bitmap_def prod.case Let_def ps option.case by simp
  next
    case False
    then have size: "0 < dst_w" "0 < dst_h" "0 < src_w" "0 < src_h" by auto
    have "sized (bitmaps g ! si) sps" using assms(2) ps(2) by (auto simp: bitmap_ok_def sized_def)
    then have rd: "sized (bitmaps g ! si) (if si = di then qs else sps)" if "sized (bitmaps g ! di) qs" for qs using that by auto
    note loop = blit_rows_paint_in [where rd = "\<lambda>qs. if si = di then qs else sps", OF rd size assms(3-10)]
    show ?thesis
      using paints_drawn [OF loop assms(1) ps(1)] False unfolding muplar_blit_bitmap_def prod.case Let_def ps option.case
      by (simp only: if_False)
  qed
qed

section \<open>Sequences of drawing calls\<close>

text \<open>The calls on one canvas; \<^verbatim>\<open>nDrawCircle\<close> does not heed the clip and is not among them.\<close>

datatype draw_call =
    Path jlong jlong | Color jint jint | ColorLong jlong jlong jint | Paint jlong
  | DRect jfloat jfloat jfloat jfloat jlong | RoundRect jfloat jfloat jfloat jfloat jfloat jfloat jlong
  | Oval jfloat jfloat jfloat jfloat jlong | Arc jfloat jfloat jfloat jfloat jfloat jfloat bool jlong
  | DLine jfloat jfloat jfloat jfloat jlong | Point jfloat jfloat jlong
  | Points "jfloat list option" jint jint jlong | Lines "jfloat list option" jint jint jlong
  | Bitmap jlong jfloat jfloat jlong | BitmapMatrix jlong jlong jlong
  | BitmapRect jlong "jfloat \<times> jfloat \<times> jfloat \<times> jfloat" "jfloat \<times> jfloat \<times> jfloat \<times> jfloat" jlong
  | NinePatch jlong jlong "jfloat \<times> jfloat \<times> jfloat \<times> jfloat" jlong
  | TextString jstring jint jint jfloat jfloat jint jlong | TextChars "u16 list option" jint jint jfloat jfloat jint jlong
  | Glyphs "jint list option" "jfloat list option" jint jint jint jlong

fun exec_draw :: "jni \<Rightarrow> jlong \<Rightarrow> draw_call \<Rightarrow> gfx \<Rightarrow> fault + gfx" where
  "exec_draw j t (Path path p) = Canvas_nDrawPath t path p"
| "exec_draw j t (Color color mode) = Canvas_nDrawColor t color mode"
| "exec_draw j t (ColorLong cs color mode) = BaseCanvas_nDrawColorLong t cs color mode"
| "exec_draw j t (Paint p) = BaseCanvas_nDrawPaint t p"
| "exec_draw j t (DRect l tp r b p) = BaseCanvas_nDrawRect t l tp r b p"
| "exec_draw j t (RoundRect l tp r b rx ry p) = Canvas_nDrawRoundRect t l tp r b rx ry p"
| "exec_draw j t (Oval l tp r b p) = BaseCanvas_nDrawOval t l tp r b p"
| "exec_draw j t (Arc l tp r b st sw use p) = BaseCanvas_nDrawArc t l tp r b st sw use p"
| "exec_draw j t (DLine x1 y1 x2 y2 p) = BaseCanvas_nDrawLine t x1 y1 x2 y2 p"
| "exec_draw j t (Point x y p) = BaseCanvas_nDrawPoint t x y p"
| "exec_draw j t (Points ps off n p) = BaseCanvas_nDrawPoints t ps off n p"
| "exec_draw j t (Lines ls off n p) = BaseCanvas_nDrawLines t ls off n p"
| "exec_draw j t (Bitmap bm l tp p) = BaseCanvas_nDrawBitmap t bm l tp p"
| "exec_draw j t (BitmapMatrix bm m p) = BaseCanvas_nDrawBitmapMatrix t bm m p"
| "exec_draw j t (BitmapRect bm sr dr p) = BaseCanvas_nDrawBitmapRect t bm sr dr p"
| "exec_draw j t (NinePatch bm ch dr p) = BaseCanvas_nDrawNinePatch t bm ch dr p"
| "exec_draw j t (TextString s st e x y bi p) = BaseCanvas_nDrawTextString j t s st e x y bi p"
| "exec_draw j t (TextChars s i n x y bi p) = BaseCanvas_nDrawTextChars j t s i n x y bi p"
| "exec_draw j t (Glyphs ids pos go po n p) = BaseCanvas_nDrawGlyphs j t ids pos go po n p"

text \<open>What a call relies on: arrays of coordinates reach as far as the call says, and a bitmap
  scaled by the transform has a size that is a C \<^verbatim>\<open>int\<close>, far from overflow.\<close>

definition array_fits :: "jfloat list option \<Rightarrow> jint \<Rightarrow> jint \<Rightarrow> bool" where
  "array_fits data off n = (case data of None \<Rightarrow> True
     | Some d \<Rightarrow> 0 \<le> sint off \<and> sint off + sint n \<le> int (length d) \<and> sint off + sint n \<le> 2 ^ 30)"

definition scale_fits :: "canvas_state \<Rightarrow> jlong \<Rightarrow> gfx \<Rightarrow> bool" where
  "scale_fits c bm g = (case bitmap_of g bm of None \<Rightarrow> True
     | Some src \<Rightarrow> (\<exists>dw dh. to_int32 (fmul (of_int32 (bw src)) (sx c)) = Inr dw \<and> to_int32 (fmul (of_int32 (bh src)) (sy c)) = Inr dh \<and>
         dw \<le> 2 ^ 30 \<and> dh \<le> 2 ^ 30))"

fun call_ok :: "canvas_state \<Rightarrow> gfx \<Rightarrow> draw_call \<Rightarrow> bool" where
  "call_ok c g (Points ps off n p) = array_fits ps off n"
| "call_ok c g (Lines ls off n p) = array_fits ls off n"
| "call_ok c g (Bitmap bm l tp p) = scale_fits c bm g"
| "call_ok c g (BitmapMatrix bm m p) = scale_fits c bm g"
| "call_ok c g (Glyphs ids pos go po n p) = (sint po + 1 < 2 ^ 31)"
| "call_ok c g _ = True"

text \<open>The clip is made of C \<^verbatim>\<open>int\<close>s as the canvas methods leave them; live bitmaps have their
  pixels and at most \<open>2 ^ 30\<close> rows and columns.\<close>

definition clip_typed :: "canvas_state \<Rightarrow> bool" where
  "clip_typed c \<longleftrightarrow> 0 \<le> clip_left c \<and> clip_left c \<le> 1000000 \<and> 0 \<le> clip_top c \<and> clip_top c \<le> 1000000 \<and>
     - 1000000 \<le> clip_right c \<and> clip_right c < 2 ^ 31 \<and> - 1000000 \<le> clip_bottom c \<and> clip_bottom c < 2 ^ 31"

definition bitmap_sane :: "bitmap_state \<Rightarrow> bool" where
  "bitmap_sane b \<longleftrightarrow> bitmap_ok b \<and> bw b \<le> 2 ^ 30 \<and> bh b \<le> 2 ^ 30"

definition draw_ready :: "jlong \<Rightarrow> canvas_state \<Rightarrow> nat \<Rightarrow> gfx \<Rightarrow> bool" where
  "draw_ready t c i g \<longleftrightarrow> draw_target t g = Some (c, i) \<and> clip_typed c \<and> (\<forall>b \<in> set (bitmaps g). b_token b \<noteq> 0 \<longrightarrow> bitmap_sane b)"

lemma find_bitmap_sane:
  assumes "\<forall>b \<in> set (bitmaps g). b_token b \<noteq> 0 \<longrightarrow> bitmap_sane b" and "muplar_find_bitmap bm g = Some si"
  shows "si < length (bitmaps g)" "bitmap_sane (bitmaps g ! si)" "bitmap_of g bm = Some (bitmaps g ! si)"
  using assms by (auto simp: muplar_find_bitmap_def find_slot_def first_index_Some lookup_def split: if_splits)

lemma draw_ready_target:
  assumes "draw_ready t c i g"
  shows "draw_target t g = Some (c, i)" "clip_typed c" "i < length (bitmaps g)" "bitmap_sane (bitmaps g ! i)"
  using assms find_bitmap_sane [of g "bitmap_token c" i]
  by (auto simp: draw_ready_def draw_target_def split: option.splits)

lemma shader_source_sane:
  assumes "draw_ready t c i g" and "shader_source p g = Some si"
  shows "bitmap_sane (bitmaps g ! si)"
  using assms find_bitmap_sane(2) by (auto simp: draw_ready_def shader_source_def split: option.splits if_splits)

text \<open>A call that succeeds and stays in the clip.\<close>

definition draws :: "canvas_state \<Rightarrow> nat \<Rightarrow> gfx \<Rightarrow> fault + gfx \<Rightarrow> bool" where
  "draws c i g r \<longleftrightarrow> (\<exists>g'. r = Inr g' \<and> drawn_in c i g g')"

lemma blit_draws:
  assumes "bitmap_sane (bitmaps g ! i)" and "bitmap_sane (bitmaps g ! si)"
    and "- (2 ^ 31) \<le> dx" "dx + dw \<le> 2 ^ 31" "- (2 ^ 31) \<le> dy" "dy + dh \<le> 2 ^ 31"
      "- (2 ^ 31) \<le> x" "x + w \<le> 2 ^ 31" "- (2 ^ 31) \<le> y" "y + h \<le> 2 ^ 31"
  shows "draws c i g (muplar_blit_bitmap i si (dx, dy, dw, dh) (x, y, w, h) (clip_rect c) p msq g)"
  using blit_drawn [OF _ _ assms(3-10)] assms(1,2) by (simp add: draws_def bitmap_sane_def)

lemma fill_draws:
  assumes "bitmap_sane (bitmaps g ! i)" and "\<And>x y. l \<le> x \<Longrightarrow> x < r \<Longrightarrow> tp \<le> y \<Longrightarrow> y < b \<Longrightarrow> in_clip c x y"
  shows "draws c i g (on_bitmap i (muplar_fill_rect l tp r b color) g)"
proof -
  obtain b' where b': "muplar_fill_rect l tp r b color (bitmaps g ! i) = Inr b'"
    "repainted (bitmaps g ! i) b' (\<lambda>x y v. if l \<le> x \<and> x < r \<and> tp \<le> y \<and> y < b \<and> alpha_of color \<noteq> 0
      then (if alpha_of color = 255 then color else blend_over color v) else v)"
    using fill_rect_repaints [of "bitmaps g ! i" l tp r b color] assms(1) unfolding bitmap_sane_def by blast
  have "drawn_in c i g (g\<lparr>bitmaps := (bitmaps g)[i := b']\<rparr>)"
    by (rule repainted_drawn [OF b'(2)]) (use assms(2) in auto)
  then show ?thesis using b'(1) by (simp add: draws_def on_bitmap_def)
qed

lemma draws_refl: "bitmap_sane (bitmaps g ! i) \<Longrightarrow> draws c i g (Inr g)"
  using drawn_in_refl by (simp add: draws_def bitmap_sane_def)

lemma clamped_bounds: "- 1000000 \<le> clamped f v" "clamped f v \<le> 1000000"
  using clamped_range [of f v] by linarith+

lemma sane_dims: "bitmap_sane b \<Longrightarrow> 0 < bw b \<and> bw b \<le> 2 ^ 30 \<and> 0 < bh b \<and> bh b \<le> 2 ^ 30"
  by (auto simp: bitmap_sane_def bitmap_ok_def)

lemmas conversions = floor_to_int_eq ceil_to_int_eq rbind_Inr

lemma clip_max_min: "(if x < a then a else x) = max a x" "(if a < x then a else x) = min a x" for a x :: int
  by auto

lemma rect_draws:
  assumes "draw_ready t c i g"
  shows "draws c i g (BaseCanvas_nDrawRect t l tp r b p g)"
proof -
  note rd = draw_ready_target [OF assms]
  define l' where "l' = max (clip_left c) (clamped floor (map_x c l))"
  define t' where "t' = max (clip_top c) (clamped floor (map_y c tp))"
  define r' where "r' = min (clip_right c) (clamped ceiling (map_x c r))"
  define b' where "b' = min (clip_bottom c) (clamped ceiling (map_y c b))"
  define fill where "fill = (if l' < r' \<and> t' < b' then on_bitmap i (muplar_fill_rect l' t' r' b' (muplar_paint_color p 0xffdadce0 g)) g else Inr g)"
  have eq: "BaseCanvas_nDrawRect t l tp r b p g =
     (case shader_source p g of None \<Rightarrow> fill | Some si \<Rightarrow>
        if l' < r' \<and> t' < b' then muplar_blit_bitmap i si (l', t', r' - l', b' - t') (0, 0, bw (bitmaps g ! si), bh (bitmaps g ! si)) (clip_rect c) p False g
        else fill)"
    unfolding BaseCanvas_nDrawRect_def rd(1) option.case prod.case conversions Let_def fill_def l'_def t'_def r'_def b'_def clip_max_min ..
  have fill: "draws c i g fill"
    unfolding fill_def using rd(4) draws_refl fill_draws [of g i l' r' t' b' c] by (auto simp: in_clip_def l'_def t'_def r'_def b'_def)
  show ?thesis
  proof (cases "shader_source p g")
    case (Some si)
    note sane = shader_source_sane [OF assms Some]
    have "draws c i g (muplar_blit_bitmap i si (l', t', r' - l', b' - t') (0, 0, bw (bitmaps g ! si), bh (bitmaps g ! si)) (clip_rect c) p False g)"
      if "l' < r'" "t' < b'"
      using that rd(2) clamped_bounds sane_dims [OF sane] rd(4) sane
      by (intro blit_draws) (auto simp: l'_def t'_def r'_def b'_def clip_typed_def)
    then show ?thesis unfolding eq Some using fill by auto
  qed (use eq fill in simp)
qed

lemma color_draws: "draw_ready t c i g \<Longrightarrow> draws c i g (Canvas_nDrawColor t color mode g)"
  using draw_ready_target [of t c i g] by (simp add: Canvas_nDrawColor_def fill_draws in_clip_def)

lemma paint_draws:
  assumes "draw_ready t c i g"
  shows "draws c i g (BaseCanvas_nDrawPaint t p g)"
proof (cases "shader_source p g")
  case None
  then show ?thesis using draw_ready_target [OF assms] by (simp add: BaseCanvas_nDrawPaint_def fill_draws in_clip_def)
next
  case (Some si)
  note rd = draw_ready_target [OF assms] and sane = shader_source_sane [OF assms Some]
  have w: "iadd (clip_right c) (- clip_left c) = Inr (clip_right c - clip_left c)" "iadd (clip_bottom c) (- clip_top c) = Inr (clip_bottom c - clip_top c)"
    using rd(2) by (auto simp: iadd_def clip_typed_def)
  show ?thesis
    unfolding BaseCanvas_nDrawPaint_def rd(1) Some option.case prod.case w rbind_Inr
    using rd(2) sane_dims [OF sane] by (intro blit_draws rd sane) (auto simp: clip_typed_def)
qed

lemma path_draws:
  assumes "draw_ready t c i g"
  shows "draws c i g (Canvas_nDrawPath t path p g)"
proof (cases "shader_source p g")
  case None
  then show ?thesis using draw_ready_target [OF assms] draws_refl by (simp add: Canvas_nDrawPath_def)
next
  case (Some si)
  note rd = draw_ready_target [OF assms] and sane = shader_source_sane [OF assms Some]
  show ?thesis
    unfolding Canvas_nDrawPath_def rd(1) Some option.case prod.case Let_def conversions
    using sane_dims [OF sane] sane_dims [OF rd(4)] clamped_bounds [of floor "tx c"] clamped_bounds [of floor "ty c"]
      clamped_bounds [of ceiling "fmul (of_int32 (bw (bitmaps g ! i))) (sx c)"] clamped_bounds [of ceiling "fmul (of_int32 (bh (bitmaps g ! i))) (sy c)"]
    by (intro blit_draws rd sane) auto
qed

lemma bitmap_draws:
  assumes "draw_ready t c i g" and "scale_fits c bm g"
  shows "draws c i g (BaseCanvas_nDrawBitmap t bm l tp p g)"
proof (cases "muplar_find_bitmap bm g")
  case None
  then show ?thesis using draw_ready_target [OF assms(1)] draws_refl by (simp add: BaseCanvas_nDrawBitmap_def)
next
  case (Some si)
  note rd = draw_ready_target [OF assms(1)]
  have sane: "bitmap_sane (bitmaps g ! si)" "bitmap_of g bm = Some (bitmaps g ! si)"
    using find_bitmap_sane [OF _ Some] assms(1) by (auto simp: draw_ready_def)
  then obtain dw dh where d: "to_int32 (fmul (of_int32 (bw (bitmaps g ! si))) (sx c)) = Inr dw" "to_int32 (fmul (of_int32 (bh (bitmaps g ! si))) (sy c)) = Inr dh"
    "dw \<le> 2 ^ 30" "dh \<le> 2 ^ 30" using assms(2) by (auto simp: scale_fits_def)
  show ?thesis
    unfolding BaseCanvas_nDrawBitmap_def rd(1) Some option.case prod.case Let_def conversions d(1,2)
    using d(3,4) sane_dims [OF sane(1)] clamped_bounds [of floor "map_x c l"] clamped_bounds [of floor "map_y c tp"]
    by (intro blit_draws rd sane) auto
qed

lemma bitmap_rect_draws:
  assumes "draw_ready t c i g"
  shows "draws c i g (BaseCanvas_nDrawBitmapRect t bm (sl, st, sr, sb) (dl, dt, dr, db) p g)"
    "draws c i g (BaseCanvas_nDrawNinePatch t bm ch (dl, dt, dr, db) p g)"
proof -
  note rd = draw_ready_target [OF assms]
  have "draws c i g (BaseCanvas_nDrawBitmapRect t bm (sl, st, sr, sb) (dl, dt, dr, db) p g) \<and>
      draws c i g (BaseCanvas_nDrawNinePatch t bm ch (dl, dt, dr, db) p g)"
  proof (cases "muplar_find_bitmap bm g")
    case None
    then show ?thesis using rd draws_refl by (simp add: BaseCanvas_nDrawBitmapRect_def BaseCanvas_nDrawNinePatch_def)
  next
    case (Some si)
    have sane: "bitmap_sane (bitmaps g ! si)" using find_bitmap_sane [OF _ Some] assms by (auto simp: draw_ready_def)
    have lim: "- (2 ^ 31) \<le> clamped f v" "clamped f v + (clamped f' v' - clamped f v) \<le> 2 ^ 31" for f v f' v'
      using clamped_bounds [of f v] clamped_bounds [of f' v'] by auto
    show ?thesis
      unfolding BaseCanvas_nDrawBitmapRect_def BaseCanvas_nDrawNinePatch_def rd(1) Some option.case prod.case conversions
      using sane_dims [OF sane] by (intro conjI blit_draws rd(4) sane lim) auto
  qed
  then show "draws c i g (BaseCanvas_nDrawBitmapRect t bm (sl, st, sr, sb) (dl, dt, dr, db) p g)"
    "draws c i g (BaseCanvas_nDrawNinePatch t bm ch (dl, dt, dr, db) p g)" by blast+
qed

lemma text_draws:
  assumes "draw_ready t c i g"
  shows "draws c i g (muplar_draw_text t buf x y p g)"
proof -
  note rd = draw_ready_target [OF assms]
  have ok: "bitmap_ok (bitmaps g ! i)" using rd(4) by (simp add: bitmap_sane_def)
  then obtain ps where ps: "pixels (bitmaps g ! i) = Some ps" by (auto simp: bitmap_ok_def)
  have loop: "draws c i g (rbind (foldM (draw_char c (bitmaps g ! i) rgb a y) cs (x, ps))
      (\<lambda>(_, ps'). Inr (g\<lparr>bitmaps := (bitmaps g)[i := (bitmaps g ! i)\<lparr>pixels := Some ps'\<rparr>]\<rparr>)))" for rgb a cs
    using paints_drawn [OF text_paints_in ok ps, of c rgb a y cs x] unfolding draws_def rbind_assoc by (simp add: case_prod_beta')
  show ?thesis
    using loop draws_refl [OF rd(4)] unfolding muplar_draw_text_def rd(1) option.case prod.case ps Let_def
    by (cases "buf = []"; cases "buf = lit ''null''") (simp_all only: if_True if_False prod.case simp_thms)
qed

lemma text_buf_ok:
  assumes "0 \<le> start" and "0 \<le> len" and "start + len \<le> int (length cs)"
  shows "\<exists>buf. text_buf cs start len = Inr buf"
  using assms by (auto simp: text_buf_def Let_def peek_def)

lemma text_string_draws:
  assumes "draw_ready t c i g"
  shows "draws c i g (BaseCanvas_nDrawTextString j t str st e x y bi p g)"
proof -
  define len where "len = (case str of None \<Rightarrow> 0 | Some cs \<Rightarrow> int (length cs))"
  define s' where "s' = (if sint st < 0 then 0 else sint st)"
  define e' where "e' = (if sint e < s' \<or> len < sint e then len else sint e)"
  have eq: "BaseCanvas_nDrawTextString j t str st e x y bi p g =
      (if e' - s' \<le> 0 \<or> \<not> get_chars j then Inr g else rbind (text_buf (the str) s' (e' - s')) (\<lambda>buf. muplar_draw_text t buf x y p g))"
    by (simp add: BaseCanvas_nDrawTextString_def len_def s'_def e'_def Let_def)
  show ?thesis
  proof (cases "e' - s' \<le> 0 \<or> \<not> get_chars j")
    case False
    have "0 \<le> s'" "e' \<le> len" by (auto simp: s'_def e'_def)
    moreover from this False obtain cs where "str = Some cs" "len = int (length cs)" by (cases str) (auto simp: len_def)
    ultimately obtain buf where "text_buf (the str) s' (e' - s') = Inr buf"
      using text_buf_ok [of s' "e' - s'" cs] False by auto
    then show ?thesis using text_draws [OF assms] False by (simp add: eq)
  qed (use eq draws_refl draw_ready_target(4) [OF assms] in simp)
qed

lemma text_chars_draws:
  assumes "draw_ready t c i g"
  shows "draws c i g (BaseCanvas_nDrawTextChars j t arr ix n x y bi p g)"
proof (cases arr)
  case None
  then show ?thesis using draws_refl draw_ready_target(4) [OF assms] by (simp add: BaseCanvas_nDrawTextChars_def)
next
  case (Some cs)
  define n' where "n' = (if int (length cs) - sint ix < sint n then int (length cs) - sint ix else sint n)"
  show ?thesis
  proof (cases "sint n \<le> 0 \<or> sint ix < 0 \<or> int (length cs) \<le> sint ix \<or> n' \<le> 0 \<or> \<not> get_chars j")
    case True
    then show ?thesis using draws_refl draw_ready_target(4) [OF assms] Some by (auto simp: BaseCanvas_nDrawTextChars_def n'_def Let_def)
  next
    case False
    moreover have "sint ix + n' \<le> int (length cs)" by (auto simp: n'_def)
    ultimately obtain buf where "text_buf cs (sint ix) n' = Inr buf"
      using text_buf_ok [of "sint ix" n' cs] by auto
    then show ?thesis using text_draws [OF assms] False Some by (auto simp: BaseCanvas_nDrawTextChars_def n'_def Let_def)
  qed
qed

lemma glyphs_draw:
  assumes "draw_ready t c i g" and "sint po + 1 < 2 ^ 31"
  shows "draws c i g (BaseCanvas_nDrawGlyphs j t ids pos go po n p g)"
proof (cases "ids = None \<or> pos = None \<or> sint n \<le> 0 \<or> sint po < 0")
  case True
  then show ?thesis using draws_refl draw_ready_target(4) [OF assms(1)] by (auto simp: BaseCanvas_nDrawGlyphs_def split: option.split)
next
  case False
  then obtain gs ps where ip: "ids = Some gs" "pos = Some ps" and pos: "0 < sint n" "0 \<le> sint po" by auto
  have po1: "iadd (sint po) 1 = Inr (sint po + 1)" using pos assms(2) by (simp add: iadd_def)
  show ?thesis
  proof (cases "int (length ps) \<le> sint po + 1 \<or> sint go < 0 \<or> int (length gs) \<le> sint go \<or> \<not> get_chars j")
    case True
    then show ?thesis using draws_refl draw_ready_target(4) [OF assms(1)] pos by (auto simp: BaseCanvas_nDrawGlyphs_def ip po1)
  next
    case False
    define k where "k = (if sint n < 250 then sint n else 250)"
    define k' where "k' = (if int (length gs) - sint go < k then int (length gs) - sint go else k)"
    have "nat (sint go) + nat k' \<le> length gs" using False by (auto simp: k'_def)
    then have "peek gs (nat (sint go)) (nat k') = Inr (take (nat k') (drop (nat (sint go)) gs))" by (simp add: peek_def)
    then show ?thesis
      using False pos text_draws [OF assms(1)]
      by (simp add: BaseCanvas_nDrawGlyphs_def ip po1 Let_def flip: k_def) (simp add: array_at_def k'_def split: if_splits)
  qed
qed

text \<open>Drawing keeps what later calls rely on.\<close>

lemma drawn_in_keeps:
  assumes "drawn_in c i g g'" and "draw_ready t c i g"
  shows "draw_ready t c i g'" "call_ok c g' d = call_ok c g d"
proof -
  note rd = draw_ready_target [OF assms(2)]
  obtain b' where b': "g' = g\<lparr>bitmaps := (bitmaps g)[i := b']\<rparr>" "bitmap_ok b'" "b' = (bitmaps g ! i)\<lparr>pixels := pixels b'\<rparr>"
    using assms(1) unfolding drawn_in_def by blast
  have same: "b_token b' = b_token (bitmaps g ! i)" "b_width b' = b_width (bitmaps g ! i)" "b_height b' = b_height (bitmaps g ! i)"
    by (subst b'(3), simp)+
  have "map b_token (bitmaps g') = map b_token (bitmaps g)" using rd(3) same(1) by (simp add: b'(1) map_update list_update_same_conv)
  then have find: "muplar_find_bitmap u g' = muplar_find_bitmap u g" for u unfolding muplar_find_bitmap_def by (rule find_slot_tokens)
  have "canvases g' = canvases g" by (simp add: b'(1))
  then have "draw_target t g' = draw_target t g" unfolding draw_target_def find by simp
  moreover have "bitmap_sane b'" using rd(4) b'(2) same by (simp add: bitmap_sane_def)
  moreover have "set (bitmaps g') \<subseteq> insert b' (set (bitmaps g))" using set_update_subset_insert [of "bitmaps g" i b'] by (simp add: b'(1))
  ultimately show "draw_ready t c i g'" using assms(2) unfolding draw_ready_def by auto
  have dims: "b_width (bitmaps g' ! k) = b_width (bitmaps g ! k)" "b_height (bitmaps g' ! k) = b_height (bitmaps g ! k)" for k
    using same rd(3) by (simp_all add: b'(1) nth_list_update)
  have lk: "bitmap_of h u = map_option (\<lambda>k. bitmaps h ! k) (muplar_find_bitmap u h)" for h u by (simp add: lookup_def muplar_find_bitmap_def)
  have "scale_fits c bm g' = scale_fits c bm g" for bm
    unfolding scale_fits_def lk find by (cases "muplar_find_bitmap bm g") (simp_all add: dims)
  then show "call_ok c g' d = call_ok c g d" by (cases d) simp_all
qed

lemma draws_foldM:
  assumes "draw_ready t c i g" and "\<And>k g. k \<in> set ks \<Longrightarrow> draw_ready t c i g \<Longrightarrow> draws c i g (f k g)"
  shows "draws c i g (foldM f ks g)"
  using assms
proof (induction ks arbitrary: g)
  case Nil
  then show ?case using draws_refl draw_ready_target(4) [OF Nil.prems(1)] by simp
next
  case (Cons k ks)
  obtain g1 where g1: "f k g = Inr g1" "drawn_in c i g g1" using Cons.prems by (auto simp: draws_def)
  obtain g2 where g2: "foldM f ks g1 = Inr g2" "drawn_in c i g1 g2"
    using Cons.IH [of g1] Cons.prems drawn_in_keeps(1) [OF g1(2) Cons.prems(1)] by (auto simp: draws_def)
  show ?case using g1 g2 drawn_in_trans [OF g1(2) g2(2)] draw_ready_target(3) [OF Cons.prems(1)] by (simp add: draws_def)
qed

lemma float_at_ok:
  assumes "array_fits (Some d) off n" and "0 \<le> k" "k < sint n"
  shows "\<exists>v. float_at d off k = Inr v"
  using assms by (auto simp: array_fits_def float_at_def iadd_def array_at_def)

lemma line_draws: "draw_ready t c i g \<Longrightarrow> draws c i g (BaseCanvas_nDrawLine t x1 y1 x2 y2 p g)"
  "draw_ready t c i g \<Longrightarrow> draws c i g (BaseCanvas_nDrawPoint t x1 y1 p g)"
  by (simp_all add: BaseCanvas_nDrawLine_def BaseCanvas_nDrawPoint_def Let_def rect_draws)

lemma points_draw:
  assumes "draw_ready t c i g" and "array_fits ps off n"
  shows "draws c i g (BaseCanvas_nDrawPoints t ps off n p g)"
proof (cases "ps = None \<or> sint n \<le> 0")
  case True
  then show ?thesis using draws_refl draw_ready_target(4) [OF assms(1)] by (auto simp: BaseCanvas_nDrawPoints_def split: option.split)
next
  case False
  then obtain d where d: "ps = Some d" "0 < sint n" by auto
  have "sint n \<le> 2 ^ 30" using assms(2) by (simp add: d array_fits_def)
  then obtain ks where ks: "loop_values 0 (sint n - 1) 2 = Inr ks" "\<forall>k \<in> set ks. 0 \<le> k \<and> k < sint n - 1"
    using loop_values_ok [of 2 "sint n - 1" 0] by auto
  have step: "draws c i g (rbind (float_at d off k) (\<lambda>x. rbind (float_at d off (k + 1)) (\<lambda>y. BaseCanvas_nDrawPoint t x y p g)))"
    if "k \<in> set ks" "draw_ready t c i g" for k g
  proof -
    have "0 \<le> k" "k + 1 < sint n" using ks(2) that(1) by auto
    then obtain x y where "float_at d off k = Inr x" "float_at d off (k + 1) = Inr y"
      using float_at_ok [of d off n k] float_at_ok [of d off n "k + 1"] assms(2) d by auto
    then show ?thesis using line_draws(2) [OF that(2)] by simp
  qed
  show ?thesis using draws_foldM [OF assms(1) step] d ks(1) by (simp add: BaseCanvas_nDrawPoints_def)
qed

lemma lines_draw:
  assumes "draw_ready t c i g" and "array_fits ls off n"
  shows "draws c i g (BaseCanvas_nDrawLines t ls off n p g)"
proof (cases "ls = None \<or> sint n \<le> 0")
  case True
  then show ?thesis using draws_refl draw_ready_target(4) [OF assms(1)] by (auto simp: BaseCanvas_nDrawLines_def split: option.split)
next
  case False
  then obtain d where d: "ls = Some d" "0 < sint n" by auto
  have "sint n \<le> 2 ^ 30" using assms(2) by (simp add: d array_fits_def)
  then obtain ks where ks: "loop_values 0 (sint n - 3) 4 = Inr ks" "\<forall>k \<in> set ks. 0 \<le> k \<and> k < sint n - 3"
    using loop_values_ok [of 4 "sint n - 3" 0] by auto
  have step: "draws c i g (rbind (float_at d off k) (\<lambda>x1. rbind (float_at d off (k + 1)) (\<lambda>y1.
      rbind (float_at d off (k + 2)) (\<lambda>x2. rbind (float_at d off (k + 3)) (\<lambda>y2. BaseCanvas_nDrawLine t x1 y1 x2 y2 p g)))))"
    if "k \<in> set ks" "draw_ready t c i g" for k g
  proof -
    have "0 \<le> k" "k + 3 < sint n" using ks(2) that(1) by auto
    then obtain x1 y1 x2 y2 where "float_at d off k = Inr x1" "float_at d off (k + 1) = Inr y1"
        "float_at d off (k + 2) = Inr x2" "float_at d off (k + 3) = Inr y2"
      using float_at_ok [of d off n k] float_at_ok [of d off n "k + 1"] float_at_ok [of d off n "k + 2"] float_at_ok [of d off n "k + 3"] assms(2) d
      by auto
    then show ?thesis using line_draws(1) [OF that(2)] by simp
  qed
  show ?thesis using draws_foldM [OF assms(1) step] d ks(1) by (simp add: BaseCanvas_nDrawLines_def)
qed

lemma exec_draws:
  assumes "draw_ready t c i g" and "call_ok c g d"
  shows "draws c i g (exec_draw j t d g)"
  using assms
  by (cases d) (auto simp: BaseCanvas_nDrawColorLong_def Canvas_nDrawRoundRect_def BaseCanvas_nDrawOval_def BaseCanvas_nDrawArc_def
      BaseCanvas_nDrawBitmapMatrix_def path_draws color_draws paint_draws rect_draws line_draws points_draw lines_draw bitmap_draws
      bitmap_rect_draws text_string_draws text_chars_draws glyphs_draw)


text \<open>A canvas on the bitmap of three by two pixels, clipped to its first two columns.\<close>

definition demo_canvas :: canvas_state where
  "demo_canvas = zero_canvas\<lparr>c_token := 5, bitmap_token := 0x40000100, sx := f1, sy := f1, clip_right := 2, clip_bottom := 2\<rparr>"

definition demo_scene :: gfx where
  "demo_scene = (tables 1 1 0 0 0)\<lparr>bitmaps := [demo_bitmap], canvases := [demo_canvas]\<rparr>"

lemma demo_scene_target: "draw_target 5 demo_scene = Some (demo_canvas, 0)" "clip_typed demo_canvas"
  by code_simp+

lemma demo_scene_sane: "\<forall>b \<in> set (bitmaps demo_scene). b_token b \<noteq> 0 \<longrightarrow> bitmap_sane b"
  using demo_bitmap_ok by (simp add: demo_scene_def bitmap_sane_def demo_bitmap_dims)


text \<open>\<^verbatim>\<open>nDrawCircle\<close> paints outside the clip: a circle over the whole bitmap changes its last column.\<close>

lemma draw_circle_ignores_clip:
  "\<exists>g'. Canvas_nDrawCircle 5 0x3fc00000 f1 0x41200000 0 demo_scene = Inr g' \<and> \<not> in_clip demo_canvas 2 1 \<and>
    pixel (bitmaps demo_scene ! 0) 2 1 = 0 \<and> pixel (bitmaps g' ! 0) 2 1 = 0xff5f6368"
proof -
  have p: "map_x demo_canvas 0x3fc00000 = 0x3fc00000" "map_y demo_canvas f1 = f1"
    "fmul 0x41200000 (if flt (sy demo_canvas) (sx demo_canvas) then sx demo_canvas else sy demo_canvas) = 0x41200000"
    "muplar_paint_color 0 0xff5f6368 demo_scene = 0xff5f6368" "\<not> fle 0x41200000 0" "in_circle 0x3fc00000 f1 (fmul 0x41200000 0x41200000) 2 1"
    by code_simp+
  have "muplar_floor_to_int (fsub 0x3fc00000 0x41200000) = Inr (- 9)" "muplar_floor_to_int (fsub f1 0x41200000) = Inr (- 9)"
    "muplar_ceil_to_int (fadd 0x3fc00000 0x41200000) = Inr 12" "muplar_ceil_to_int (fadd f1 0x41200000) = Inr 11" by code_simp+
  then have bounds: "clamped floor (fsub 0x3fc00000 0x41200000) = - 9" "clamped floor (fsub f1 0x41200000) = - 9"
    "clamped ceiling (fadd 0x3fc00000 0x41200000) = 12" "clamped ceiling (fadd f1 0x41200000) = 11"
    by (simp_all add: floor_to_int_eq ceil_to_int_eq)
  have g: "bitmaps demo_scene = [demo_bitmap]" by (simp add: demo_scene_def)
  obtain b' where "muplar_fill_circle 0x3fc00000 f1 0x41200000 0xff5f6368 demo_bitmap = Inr b'" "pixel b' 2 1 = 0xff5f6368"
    using fill_circle_repaints [OF demo_bitmap_ok p(5), of "0x3fc00000" f1 "0xff5f6368"] p(6) by (auto simp: repainted_def bounds demo_bitmap_dims)
  then have "Canvas_nDrawCircle 5 0x3fc00000 f1 0x41200000 0 demo_scene = Inr (demo_scene\<lparr>bitmaps := [b']\<rparr>)"
    using demo_scene_target(1) unfolding Canvas_nDrawCircle_def on_bitmap_def demo_scene_target(1) option.case prod.case p by (simp add: g)
  moreover have "\<not> in_clip demo_canvas 2 1" "pixel demo_bitmap 2 1 = 0" by code_simp+
  ultimately show ?thesis using \<open>pixel b' 2 1 = 0xff5f6368\<close> by (simp add: g)
qed

text \<open>A bitmap three pixels wide drawn at scale \<^verbatim>\<open>3e10\<close> makes \<^verbatim>\<open>nDrawBitmap\<close> convert a float
  outside the range of \<^verbatim>\<open>int\<close>.\<close>

lemma draw_bitmap_undefined:
  "BaseCanvas_nDrawBitmap 5 0x40000100 0 0 0 (demo_scene\<lparr>canvases := [demo_canvas\<lparr>sx := 0x50df8476\<rparr>]\<rparr>) = Inl Undefined"
  by code_simp

section \<open>The type of a clip\<close>

definition entry_typed :: "canvas_stack_entry \<Rightarrow> bool" where
  "entry_typed e \<longleftrightarrow> 0 \<le> e_clip_left e \<and> e_clip_left e \<le> 1000000 \<and> 0 \<le> e_clip_top e \<and> e_clip_top e \<le> 1000000 \<and>
     - 1000000 \<le> e_clip_right e \<and> e_clip_right e < 2 ^ 31 \<and> - 1000000 \<le> e_clip_bottom e \<and> e_clip_bottom e < 2 ^ 31"

definition canvas_typed :: "canvas_state \<Rightarrow> bool" where
  "canvas_typed c \<longleftrightarrow> clip_typed c \<and> (\<forall>e \<in> set (stack c). entry_typed e) \<and> length (stack c) \<le> stack_limit"

lemma saved_typed: "entry_typed (saved c) = clip_typed c"
  by (simp add: entry_typed_def clip_typed_def saved_def)

lemma push_typed: "canvas_typed c \<Longrightarrow> canvas_typed (push_state c)"
  by (auto simp: canvas_typed_def push_state_def saved_typed clip_typed_def)

lemma pop_typed:
  assumes "canvas_typed c" and "stack c \<noteq> []"
  shows "canvas_typed (pop_state c)"
proof -
  have "entry_typed (last (stack c))" using assms by (simp add: canvas_typed_def)
  moreover have "set (butlast (stack c)) \<subseteq> set (stack c)" by (auto dest: in_set_butlastD)
  ultimately show ?thesis using assms by (auto simp: canvas_typed_def pop_state_def Let_def clip_typed_def entry_typed_def)
qed

lemma clip_call_typed: "canvas_typed c \<Longrightarrow> canvas_typed (clip_call l tp r b c)"
  using clamped_bounds [of floor "map_x c l"] clamped_bounds [of floor "map_y c tp"] clamped_bounds [of ceiling "map_x c r"] clamped_bounds [of ceiling "map_y c b"]
  by (auto simp: canvas_typed_def clip_typed_def clip_call_bounds) (simp_all add: clip_call_def clip_to_def)

lemma canvas_step_typed: "canvas_typed c \<Longrightarrow> canvas_typed (canvas_step call c)"
  by (cases call) (auto simp: push_typed pop_typed clip_call_typed, auto simp: canvas_typed_def clip_typed_def)

lemma canvas_calls_typed:
  assumes "canvases_ok g" and "canvas_of g t = Some c" and "canvas_typed c"
  shows "\<exists>g' c'. foldM (exec_canvas t) cs g = Inr g' \<and> canvas_of g' t = Some c' \<and> canvas_typed c'"
  using assms
proof (induction cs arbitrary: g c)
  case (Cons call cs)
  obtain g1 where "exec_canvas t call g = Inr g1" "canvases_ok g1" "canvas_of g1 t = Some (canvas_step call c)"
    using exec_canvas_step [OF Cons.prems(1,2)] by blast
  then show ?case using Cons.IH [of g1] canvas_step_typed [OF Cons.prems(3)] by auto
qed auto

lemma reset_typed: "(\<And>bm. b = Some bm \<Longrightarrow> 0 < bw bm \<and> 0 < bh bm) \<Longrightarrow> canvas_typed (muplar_canvas_reset b c)"
  using sint_less [where 'a = 32]
  by (cases b) (auto simp: canvas_typed_def clip_typed_def muplar_canvas_reset_def)

text \<open>C27: a canvas created on a bitmap has a clip of C \<^verbatim>\<open>int\<close>s with non-negative left and top
  edges of at most a million and right and bottom edges of at least minus a million, and keeps it
  under every sequence of saves, restores, transforms and clips; so do its saved states, of which
  there are never more than 512. No call fails.\<close>

theorem canvas_type_preserved:
  assumes "canvases_ok g" and "0 < left_of (next_canvas_token g)" and "canvases g \<noteq> []"
    and "\<forall>b \<in> set (bitmaps g). b_token b \<noteq> 0 \<longrightarrow> 0 < bw b \<and> 0 < bh b" and "Canvas_nInitRaster bmp g = (t, g1)"
  shows "\<exists>g2 c. foldM (exec_canvas t) cs g1 = Inr g2 \<and> canvas_of g2 t = Some c \<and> canvas_typed c"
proof -
  have inv: "table_inv c_token (next_canvas_token g) (canvases g)" using assms(1) by (simp add: canvases_ok_def)
  define i where "i = (case free_slot c_token (canvases g) of Some i \<Rightarrow> i | None \<Rightarrow> wrap_idx g mod length (canvases g))"
  define new where "new = muplar_canvas_reset (bitmap_of g bmp) ((canvases g ! i)\<lparr>c_token := next_canvas_token g + 0x100, bitmap_token := bmp\<rparr>)"
  have i: "i < length (canvases g)" using assms(3) free_slot_Some [of c_token "canvases g"] by (auto simp: i_def split: option.split)
  have tok: "c_token new = next_canvas_token g + 0x100" by (simp add: new_def muplar_canvas_reset_def)
  have g1: "canvases g1 = (canvases g)[i := new]" "next_canvas_token g1 = next_canvas_token g + 0x100" "t = c_token new"
    using assms(5) i by (auto simp: Canvas_nInitRaster_def muplar_alloc_canvas_def Let_def new_def i_def split: option.splits)
  have fresh: "next_canvas_token g < c_token new" using left_of_step(1) [OF assms(2)] tok by simp
  have ok: "canvases_ok g1"
    unfolding canvases_ok_def g1(1,2) by (rule table_inv_put [OF inv i]) (use fresh tok in auto)
  have "canvas_of g1 t = Some new" using lookup_replace [OF inv i fresh] by (simp add: g1)
  moreover have "canvas_typed new"
    unfolding new_def by (rule reset_typed) (use lookup_SomeD [of b_token bmp "bitmaps g"] assms(4) in auto)
  ultimately show ?thesis using canvas_calls_typed [OF ok] by blast
qed

theorem canvas_type_preserved_witness:
  "\<exists>g2 c. foldM (exec_canvas 0x24100) [Save, ClipRect 0 0 0x40400000 f1, Scale f4 f4, Restore]
      (snd (Canvas_nInitRaster 0x40000100 ((tables 1 1 0 0 0)\<lparr>bitmaps := [demo_bitmap]\<rparr>))) = Inr g2 \<and>
    canvas_of g2 0x24100 = Some c \<and> canvas_typed c"
proof -
  let ?g = "(tables 1 1 0 0 0)\<lparr>bitmaps := [demo_bitmap]\<rparr>"
  have "canvases_ok ?g" "0 < left_of (next_canvas_token ?g)" "canvases ?g \<noteq> []"
    by (simp_all add: canvases_ok_def tables_def table_inv_def zero_canvas_def left_of_def)
  moreover have "\<forall>b \<in> set (bitmaps ?g). b_token b \<noteq> 0 \<longrightarrow> 0 < bw b \<and> 0 < bh b" by (simp add: demo_bitmap_dims)
  moreover have "fst (Canvas_nInitRaster 0x40000100 ?g) = 0x24100" by code_simp
  then have "Canvas_nInitRaster 0x40000100 ?g = (0x24100, snd (Canvas_nInitRaster 0x40000100 ?g))" by (metis prod.collapse)
  ultimately show ?thesis by (rule canvas_type_preserved)
qed

end
