(* ===== verification/Bitmap_Natives.thy ===== *)
theory Bitmap_Natives
  imports Png
begin

text \<open>
  The native methods of \<^verbatim>\<open>android.graphics.Bitmap\<close> in the ART shim: creation from an array of
  colours, access to pixels, copying to and from \<^verbatim>\<open>java.nio\<close> buffers, erasing, recycling and
  compression.

  The methods that do nothing or return a constant (\<^verbatim>\<open>nativeSetHasAlpha\<close>, \<^verbatim>\<open>nativeHasMipMap\<close>, ...) are left
  out. The Java object is created by a helper outside of this code; what matters of it is its field
  \<^verbatim>\<open>mNativePtr\<close>. The elements of a Java array are a list, \<open>None\<close> for null or for elements
  that the VM does not hand out.
\<close>

section \<open>Creation\<close>

text \<open>\<open>helper\<close> is what the Java helper gives: \<open>None\<close> when it cannot be found, \<open>Some None\<close> for a null
  object, else the field \<^verbatim>\<open>mNativePtr\<close> of the new object. A null object leaves the allocated bitmap behind.\<close>

definition HardwareRenderer_nCreateHardwareBitmap ::
  "(nat \<Rightarrow> bool) \<Rightarrow> jlong option option \<Rightarrow> jint \<Rightarrow> jint \<Rightarrow> gfx \<Rightarrow> jlong option \<times> gfx" where
  "HardwareRenderer_nCreateHardwareBitmap al helper width height g =
     (case helper of None \<Rightarrow> (None, g)
      | Some object \<Rightarrow>
          case muplar_alloc_bitmap al (width, height) g of
            (None, g') \<Rightarrow> (object, g')
          | (Some i, g') \<Rightarrow> (map_option (\<lambda>_. b_token (bitmaps g' ! i)) object, g'))"

definition config_bytes :: "jint \<Rightarrow> jint" where
  "config_bytes config = (if config = 1 then 1 else if config = 3 \<or> config = 4 then 2 else if config = 6 then 8 else 4)"

text \<open>\<^verbatim>\<open>src[offset + y * stride + x]\<close> and \<^verbatim>\<open>pixels[y * width + x]\<close>, with the indices of type \<^verbatim>\<open>int\<close>.\<close>

definition copy_color :: "jint list \<Rightarrow> int \<Rightarrow> int \<Rightarrow> int \<Rightarrow> int \<Rightarrow> int \<Rightarrow> u32 list \<Rightarrow> fault + u32 list" where
  "copy_color src offset stride width y x ps =
     rbind (imul y stride) (\<lambda>a. rbind (iadd offset a) (\<lambda>a. rbind (iadd a x) (\<lambda>src_idx.
     rbind (array_at src src_idx) (\<lambda>v.
     rbind (imul y width) (\<lambda>d. rbind (iadd d x) (\<lambda>d. put_px ps d v))))))"

definition set_colors :: "jint list \<Rightarrow> int \<Rightarrow> int \<Rightarrow> int \<Rightarrow> int \<Rightarrow> bitmap_state \<Rightarrow> fault + bitmap_state" where
  "set_colors src offset stride width height b =
     (case pixels b of None \<Rightarrow> Inr b
      | Some ps \<Rightarrow>
          if width \<le> 0 \<or> height \<le> 0 then Inr b
          else rbind (foldM (\<lambda>y. foldM (copy_color src offset stride width y) [0..width - 1]) [0..height - 1] ps)
            (\<lambda>ps'. Inr (b\<lparr>pixels := Some ps'\<rparr>)))"

definition Bitmap_nativeCreate ::
  "(nat \<Rightarrow> bool) \<Rightarrow> jlong option option \<Rightarrow> jint list option \<Rightarrow> jint \<Rightarrow> jint \<Rightarrow> jint \<Rightarrow> jint \<Rightarrow> jint \<Rightarrow> gfx \<Rightarrow> fault + jlong option \<times> gfx" where
  "Bitmap_nativeCreate al helper colors offset stride width height config g =
     (case HardwareRenderer_nCreateHardwareBitmap al helper width height g of
        (None, g1) \<Rightarrow> Inr (None, g1)
      | (Some token, g1) \<Rightarrow>
          case muplar_find_bitmap token g1 of None \<Rightarrow> Inr (Some token, g1)
          | Some i \<Rightarrow>
              let b = (bitmaps g1 ! i)\<lparr>b_config := (if config \<noteq> 0 then config else 5), bytes_per_pixel := config_bytes config\<rparr> in
              rbind (case colors of None \<Rightarrow> Inr b
                     | Some src \<Rightarrow> set_colors src (sint offset) (sint stride) (sint width) (sint height) b)
                (\<lambda>b'. Inr (Some token, g1\<lparr>bitmaps := (bitmaps g1)[i := b']\<rparr>)))"

section \<open>Properties and pixels\<close>

definition bpp :: "bitmap_state \<Rightarrow> int" where
  "bpp b = (if 0 < sint (bytes_per_pixel b) then sint (bytes_per_pixel b) else 4)"

definition Bitmap_nativeRowBytes :: "jlong \<Rightarrow> gfx \<Rightarrow> fault + int" where
  "Bitmap_nativeRowBytes t g = (case bitmap_of g t of None \<Rightarrow> Inr 64 | Some b \<Rightarrow> imul (bw b) (bpp b))"

definition Bitmap_nativeGetAllocationByteCount :: "jlong \<Rightarrow> gfx \<Rightarrow> fault + int" where
  "Bitmap_nativeGetAllocationByteCount t g =
     (case bitmap_of g t of None \<Rightarrow> Inr 256 | Some b \<Rightarrow> rbind (imul (bw b) (bh b)) (\<lambda>n. imul n (bpp b)))"

definition Bitmap_nativeConfig :: "jlong \<Rightarrow> gfx \<Rightarrow> jint" where
  "Bitmap_nativeConfig t g = (case bitmap_of g t of None \<Rightarrow> 5 | Some b \<Rightarrow> if b_config b \<noteq> 0 then b_config b else 5)"

definition px_index :: "bitmap_state \<Rightarrow> int \<Rightarrow> int \<Rightarrow> fault + int" where
  "px_index b x y = rbind (imul y (bw b)) (\<lambda>r. iadd r x)"

definition Bitmap_nativeGetPixel :: "jlong \<Rightarrow> jint \<Rightarrow> jint \<Rightarrow> gfx \<Rightarrow> fault + jint" where
  "Bitmap_nativeGetPixel t x y g =
     (case bitmap_of g t of None \<Rightarrow> Inr 0
      | Some b \<Rightarrow>
          case pixels b of None \<Rightarrow> Inr 0
          | Some ps \<Rightarrow>
              if 0 \<le> sint x \<and> sint x < bw b \<and> 0 \<le> sint y \<and> sint y < bh b
              then rbind (px_index b (sint x) (sint y)) (get_px ps) else Inr 0)"

definition Bitmap_nativeSetPixel :: "jlong \<Rightarrow> jint \<Rightarrow> jint \<Rightarrow> jint \<Rightarrow> gfx \<Rightarrow> fault + gfx" where
  "Bitmap_nativeSetPixel t x y color g =
     (case muplar_find_bitmap t g of None \<Rightarrow> Inr g
      | Some i \<Rightarrow>
          let b = bitmaps g ! i in
          case pixels b of None \<Rightarrow> Inr g
          | Some ps \<Rightarrow>
              if 0 \<le> sint x \<and> sint x < bw b \<and> 0 \<le> sint y \<and> sint y < bh b
              then rbind (px_index b (sint x) (sint y)) (\<lambda>k. rbind (put_px ps k color) (\<lambda>ps'.
                Inr (g\<lparr>bitmaps := (bitmaps g)[i := b\<lparr>pixels := Some ps'\<rparr>]\<rparr>)))
              else Inr g)"

text \<open>The number of pixels, a product of type \<^verbatim>\<open>size_t\<close>.\<close>

definition px_count :: "bitmap_state \<Rightarrow> nat" where
  "px_count b = unat (scast (b_width b) * scast (b_height b) :: u64)"

definition Bitmap_nativeErase :: "jlong \<Rightarrow> jint \<Rightarrow> gfx \<Rightarrow> fault + gfx" where
  "Bitmap_nativeErase t color g =
     (case muplar_find_bitmap t g of None \<Rightarrow> Inr g
      | Some i \<Rightarrow>
          let b = bitmaps g ! i in
          case pixels b of None \<Rightarrow> Inr g
          | Some ps \<Rightarrow>
              rbind (foldM (\<lambda>k ps. put_px ps (int k) color) [0..<px_count b] ps) (\<lambda>ps'.
                Inr (g\<lparr>bitmaps := (bitmaps g)[i := b\<lparr>pixels := Some ps'\<rparr>]\<rparr>)))"

definition Bitmap_nativeRecycle :: "jlong \<Rightarrow> gfx \<Rightarrow> gfx" where
  "Bitmap_nativeRecycle t g = muplar_release_bitmap t g"

text \<open>Compression writes the PNG to a stream; \<open>out\<close> says whether writing so many bytes succeeds.
  The result and the bytes that were handed to the stream.\<close>

definition Bitmap_nativeCompress :: "(nat \<Rightarrow> bool) \<Rightarrow> (u8 list \<Rightarrow> bool) \<Rightarrow> jlong \<Rightarrow> gfx \<Rightarrow> fault + bool \<times> u8 list" where
  "Bitmap_nativeCompress al out t g =
     (case bitmap_of g t of None \<Rightarrow> Inr (False, [])
      | Some b \<Rightarrow>
          rbind (muplar_bitmap_to_png al b empty_buf) (\<lambda>(ok, png).
            if \<not> ok \<or> 0x7fffffff < length (buf_data png) then Inr (False, [])
            else Inr (out (buf_data png), buf_data png)))"

section \<open>Buffers\<close>

text \<open>A \<^verbatim>\<open>java.nio\<close> buffer: direct memory, or a Java array with an offset and the element size as a
  shift, or neither; its bytes and its position. A null buffer behaves as an inaccessible one: nothing is
  copied. Bytes are copied in pairs for two bytes per pixel, with the byte order of the machine.\<close>

datatype nio_kind = Direct | Backed int nat | Inaccessible

record nio =
  nio_kind :: nio_kind
  nio_bytes :: "u8 list"
  nio_pos :: int

text \<open>Where the copy starts; a start before the buffer is outside of it.\<close>

definition nio_start :: "nio \<Rightarrow> fault + nat option" where
  "nio_start buf =
     (case nio_kind buf of
        Direct \<Rightarrow> if nio_pos buf < 0 then Inl Overrun else Inr (Some (nat (nio_pos buf)))
      | Backed off sh \<Rightarrow>
          rbind (iadd off (nio_pos buf)) (\<lambda>k. if k < 0 then Inl Undefined
            else rbind (imul k (2 ^ sh)) (\<lambda>k. Inr (Some (nat k))))
      | Inaccessible \<Rightarrow> Inr None)"

definition px_bytes :: "u32 list \<Rightarrow> u8 list" where
  "px_bytes ps = concat (map (le_encode 4) ps)"

fun px_words :: "u8 list \<Rightarrow> u32 list" where
  "px_words (a # b # c # d # bs) = le_decode [a, b, c, d] # px_words bs"
| "px_words _ = []"

definition to_alpha :: "u32 \<Rightarrow> u8" where
  "to_alpha p = (let a = ucast (drop_bit 24 p AND 0xff) in if a = 0 \<and> p AND 0xffffff \<noteq> 0 then 0xff else a)"

definition to_565 :: "u32 \<Rightarrow> u16" where
  "to_565 p = ucast (push_bit 11 (drop_bit 19 p AND 0x1f) OR push_bit 5 (drop_bit 10 p AND 0x3f) OR (drop_bit 3 p AND 0x1f))"

definition of_alpha :: "u8 \<Rightarrow> u32" where
  "of_alpha a = push_bit 24 (ucast a) OR 0x00ffffff"

definition of_565 :: "u16 \<Rightarrow> u32" where
  "of_565 p =
     (let r = (ucast (drop_bit 11 p AND 0x1f) * 255) div 31; g = (ucast (drop_bit 5 p AND 0x3f) * 255) div 63;
          b = (ucast (p AND 0x1f) * 255) div 31 in
      push_bit 24 0xff OR push_bit 16 r OR push_bit 8 g OR b)"

fun halfwords :: "u8 list \<Rightarrow> u16 list" where
  "halfwords (a # b # bs) = le_decode [a, b] # halfwords bs"
| "halfwords _ = []"

text \<open>The bytes that are written to a buffer: \<^verbatim>\<open>memcpy\<close> reads bytes per pixel times count bytes of the pixels.\<close>

definition copied_out :: "bitmap_state \<Rightarrow> u32 list \<Rightarrow> fault + u8 list" where
  "copied_out b ps =
     (if bpp b = 1 then rbind (peek ps 0 (px_count b)) (\<lambda>ps. Inr (map to_alpha ps))
      else if bpp b = 2 then rbind (peek ps 0 (px_count b)) (\<lambda>ps. Inr (concat (map (\<lambda>p. le_encode 2 (to_565 p)) ps)))
      else peek (px_bytes ps) 0 (px_count b * nat (bpp b)))"

definition Bitmap_nativeCopyPixelsToBuffer :: "jlong \<Rightarrow> nio \<Rightarrow> gfx \<Rightarrow> fault + nio" where
  "Bitmap_nativeCopyPixelsToBuffer t buf g =
     (case bitmap_of g t of None \<Rightarrow> Inr buf
      | Some b \<Rightarrow>
          case pixels b of None \<Rightarrow> Inr buf
          | Some ps \<Rightarrow>
              rbind (nio_start buf) (\<lambda>st.
                case st of None \<Rightarrow> Inr buf
                | Some off \<Rightarrow>
                    rbind (copied_out b ps) (\<lambda>bs.
                    rbind (poke (nio_bytes buf) off bs) (\<lambda>d. Inr (buf\<lparr>nio_bytes := d\<rparr>)))))"

text \<open>The new pixels from the bytes of a buffer from \<open>off\<close> on.\<close>

definition copied_in :: "bitmap_state \<Rightarrow> u8 list \<Rightarrow> nat \<Rightarrow> u32 list \<Rightarrow> fault + u32 list" where
  "copied_in b bytes off ps =
     (if bpp b = 1 then rbind (peek bytes off (px_count b)) (\<lambda>bs. poke ps 0 (map of_alpha bs))
      else if bpp b = 2 then rbind (peek bytes off (2 * px_count b)) (\<lambda>bs. poke ps 0 (map of_565 (halfwords bs)))
      else rbind (peek bytes off (px_count b * nat (bpp b))) (\<lambda>bs.
        rbind (poke (px_bytes ps) 0 bs) (\<lambda>pb. Inr (px_words pb))))"

definition Bitmap_nativeCopyPixelsFromBuffer :: "jlong \<Rightarrow> nio \<Rightarrow> gfx \<Rightarrow> fault + gfx" where
  "Bitmap_nativeCopyPixelsFromBuffer t buf g =
     (case muplar_find_bitmap t g of None \<Rightarrow> Inr g
      | Some i \<Rightarrow>
          let b = bitmaps g ! i in
          case pixels b of None \<Rightarrow> Inr g
          | Some ps \<Rightarrow>
              rbind (nio_start buf) (\<lambda>st.
                case st of None \<Rightarrow> Inr g
                | Some off \<Rightarrow>
                    rbind (copied_in b (nio_bytes buf) off ps) (\<lambda>ps'.
                      Inr (g\<lparr>bitmaps := (bitmaps g)[i := b\<lparr>pixels := Some ps'\<rparr>]\<rparr>))))"

section \<open>Facts about the pixel formats\<close>

lemma px_words_bytes: "px_words (px_bytes ps) = ps"
proof (induction ps)
  case (Cons p ps)
  have "le_encode 4 p = [ucast p, ucast (drop_bit 8 p), ucast (drop_bit 8 (drop_bit 8 p)), ucast (drop_bit 8 (drop_bit 8 (drop_bit 8 p)))]"
    by (simp only: le_encode_numeral pred_numeral_simps BitM.simps numeral_One le_encode.simps One_nat_def eval_nat_numeral)
  moreover have "le_decode (le_encode 4 p) = p" by simp
  ultimately show ?case using Cons by (simp add: px_bytes_def del: le_decode.simps)
qed (simp add: px_bytes_def)

lemma px_bytes_words: "4 dvd length bs \<Longrightarrow> px_bytes (px_words bs) = bs"
proof (induction bs rule: px_words.induct)
  case (1 a b c d bs)
  have "le_encode (length [a, b, c, d]) (le_decode [a, b, c, d] :: u32) = [a, b, c, d]" by (rule le_encode_decode) simp
  moreover have "4 dvd length bs" using 1(2) by (simp add: dvd_def) presburger
  ultimately show ?case using 1(1) by (simp add: px_bytes_def numeral_eq_Suc del: le_decode.simps le_encode.simps)
qed (simp_all add: px_bytes_def, presburger+)

lemma length_px_bytes: "length (px_bytes ps) = 4 * length ps"
  by (simp add: px_bytes_def length_concat comp_def sum_list_triv)

lemma halfwords_bytes: "2 dvd length bs \<Longrightarrow> concat (map (le_encode 2) (halfwords bs)) = bs \<and> 2 * length (halfwords bs) = length bs"
proof (induction bs rule: halfwords.induct)
  case (1 a b bs)
  have "le_encode 2 (le_decode [a, b] :: u16) = [a, b]" using le_encode_decode [of "[a, b]", where 'a = 16] by (simp add: numeral_2_eq_2 del: le_decode.simps le_encode.simps)
  moreover have "2 dvd length bs" using 1(2) by simp
  ultimately show ?case using 1(1) by (simp del: le_decode.simps)
qed auto

lemma scale_5: "(n :: nat) < 32 \<Longrightarrow> n * 255 div 31 div 8 = n"
  by (simp flip: div_mult2_eq)

lemma scale_6: "(n :: nat) < 64 \<Longrightarrow> n * 255 div 63 div 4 = n"
  by (simp flip: div_mult2_eq)


lemma channel_5:
  assumes "(x :: u32) < 32"
  shows "(x * 255) div 31 < 256" "drop_bit 3 ((x * 255) div 31) = x"
proof -
  have n: "unat x < 32" using assms by (simp add: word_less_nat_alt)
  have u: "unat ((x * 255) div 31) = unat x * 255 div 31" using n by (simp add: unat_div unat_word_ariths)
  show "(x * 255) div 31 < 256" using n unfolding word_less_nat_alt u by simp
  show "drop_bit 3 ((x * 255) div 31) = x"
    using scale_5 [OF n] u by (simp add: word_unat_eq_iff unat_drop_bit_eq drop_bit_eq_div unat_div)
qed

lemma channel_6:
  assumes "(x :: u32) < 64"
  shows "(x * 255) div 63 < 256" "drop_bit 2 ((x * 255) div 63) = x"
proof -
  have n: "unat x < 64" using assms by (simp add: word_less_nat_alt)
  have u: "unat ((x * 255) div 63) = unat x * 255 div 63" using n by (simp add: unat_div unat_word_ariths)
  show "(x * 255) div 63 < 256" using n unfolding word_less_nat_alt u by simp
  show "drop_bit 2 ((x * 255) div 63) = x"
    using scale_6 [OF n] u by (simp add: word_unat_eq_iff unat_drop_bit_eq drop_bit_eq_div unat_div)
qed

lemma five_bits:
  "drop_bit 19 p AND 0x1f = drop_bit 3 (red_of p)" "drop_bit 10 p AND 0x3f = drop_bit 2 (green_of p)" "drop_bit 3 p AND 0x1f = drop_bit 3 (blue_of p)"
proof -
  have m: "(0x1f :: u32) = mask 5" "(0x3f :: u32) = mask 6" by (simp_all add: mask_eq_exp_minus_1)
  show "drop_bit 19 p AND 0x1f = drop_bit 3 (red_of p)" "drop_bit 10 p AND 0x3f = drop_bit 2 (green_of p)" "drop_bit 3 p AND 0x1f = drop_bit 3 (blue_of p)"
    unfolding channel_defs ff_mask m by (rule bit_word_eqI, auto simp: bit_simps)+
qed

lemma masked_less: "(x :: u16) AND 0x1f < 32" "(x :: u16) AND 0x3f < 64"
proof -
  have m: "(0x1f :: u16) = mask 5" "(0x3f :: u16) = mask 6" by (simp_all add: mask_eq_exp_minus_1)
  show "x AND 0x1f < 32" "x AND 0x3f < 64"
    unfolding m by (simp_all add: word_less_nat_alt unsigned_take_bit_eq take_bit_eq_mod unat_mod flip: take_bit_eq_mask)
qed

lemma ucast_less: "(x :: u16) < 32 \<Longrightarrow> (ucast x :: u32) < 32" "(x :: u16) < 64 \<Longrightarrow> (ucast x :: u32) < 64"
  by (simp_all add: word_less_nat_alt unsigned_ucast_eq take_bit_nat_eq_self)

lemma to_565_of_565: "to_565 (of_565 p) = p"
proof -
  define x where "x = drop_bit 11 p AND 0x1f"
  define y where "y = drop_bit 5 p AND 0x3f"
  define z where "z = p AND 0x1f"
  have xyz: "(ucast x :: u32) < 32" "(ucast y :: u32) < 64" "(ucast z :: u32) < 32"
    unfolding x_def y_def z_def by (rule ucast_less, rule masked_less)+
  have "of_565 p = argb 0xff ((ucast x * 255) div 31) ((ucast y * 255) div 63) ((ucast z * 255) div 31)"
    by (simp add: of_565_def argb_def Let_def x_def y_def z_def)
  then have "to_565 (of_565 p) = ucast (push_bit 11 (ucast x) OR push_bit 5 (ucast y) OR (ucast z) :: u32)"
    using channel_5 [OF xyz(1)] channel_6 [OF xyz(2)] channel_5 [OF xyz(3)] unfolding to_565_def five_bits by (simp add: channel_argb)
  also have "\<dots> = p"
  proof -
    have m: "(0x1f :: u16) = mask 5" "(0x3f :: u16) = mask 6" by (simp_all add: mask_eq_exp_minus_1)
    show ?thesis unfolding x_def y_def z_def m
    proof (rule bit_word_eqI)
      fix n assume "n < LENGTH(16)"
      then consider "n < 5" | "5 \<le> n" "n < 11" | "11 \<le> n" "n < 16" by force
      then show "bit (ucast (push_bit 11 (ucast (drop_bit 11 p AND mask 5)) OR push_bit 5 (ucast (drop_bit 5 p AND mask 6)) OR
         (ucast (p AND mask 5) :: u32)) :: u16) n = bit p n" by cases (auto simp: bit_simps)
    qed
  qed
  finally show ?thesis .
qed

lemma to_alpha_of_alpha: "to_alpha (of_alpha a) = (if a = 0 then 0xff else a)"
proof -
  have m: "(0xff :: u32) = mask 8" "(0xffffff :: u32) = mask 24" by (simp_all add: mask_eq_exp_minus_1)
  have a: "ucast (drop_bit 24 (of_alpha a) AND 0xff) = a" unfolding of_alpha_def m by (rule bit_word_eqI) (auto simp: bit_simps)
  have "of_alpha a AND 0xffffff = 0xffffff" unfolding of_alpha_def m by (rule bit_word_eqI) (auto simp: bit_simps)
  then show ?thesis unfolding to_alpha_def a Let_def by simp
qed

lemma px_count_ok:
  assumes "bitmap_ok b" and "pixels b = Some ps"
  shows "px_count b = length ps"
proof -
  have pos: "0 < bw b" "0 < bh b" and len: "int (length ps) = bw b * bh b" using assms by (auto simp: bitmap_ok_def)
  have "bw b < 2 ^ 31" "bh b < 2 ^ 31" using sint_lt [of "b_width b"] sint_lt [of "b_height b"] by simp_all
  then have "bw b * bh b < 2 ^ 31 * 2 ^ 31" using pos by (intro mult_strict_mono) auto
  then have "int (length ps) < 2 ^ 64" using len by simp
  moreover have "(scast (b_width b) * scast (b_height b) :: u64) = word_of_int (bw b * bh b)" by (simp add: of_int_sint)
  ultimately show ?thesis unfolding px_count_def len [symmetric]
    by (simp add: unsigned_of_nat take_bit_nat_eq_self)
qed

section \<open>Copying back and forth\<close>

text \<open>The byte that comes back: an alpha of 0 comes back as 0xff, because the copy into the bitmap sets the
  colour bits and the copy out of it takes a transparent pixel with colour bits for an opaque one.\<close>

definition restored :: "int \<Rightarrow> u8 \<Rightarrow> u8" where
  "restored n x = (if n = 1 \<and> x = 0 then 0xff else x)"

lemma restored_id: "n \<noteq> 1 \<Longrightarrow> restored n = id"
  by (auto simp: restored_def)

lemma bitmap_of_find: "bitmap_of g t = map_option (\<lambda>i. bitmaps g ! i) (muplar_find_bitmap t g)"
  by (simp add: lookup_def muplar_find_bitmap_def)

lemma find_bitmap_pixels:
  assumes "muplar_find_bitmap t g = Some i"
  shows "muplar_find_bitmap t (g\<lparr>bitmaps := (bitmaps g)[i := (bitmaps g ! i)\<lparr>pixels := x\<rparr>]\<rparr>) = Some i" "i < length (bitmaps g)"
proof -
  show i: "i < length (bitmaps g)" using assms by (auto simp: muplar_find_bitmap_def find_slot_def first_index_Some split: if_splits)
  have "map b_token (bitmaps (g\<lparr>bitmaps := (bitmaps g)[i := (bitmaps g ! i)\<lparr>pixels := x\<rparr>]\<rparr>)) = map b_token (bitmaps g)"
    using i by (simp add: map_update list_update_same_conv)
  then show "muplar_find_bitmap t (g\<lparr>bitmaps := (bitmaps g)[i := (bitmaps g ! i)\<lparr>pixels := x\<rparr>]\<rparr>) = Some i"
    using assms find_slot_tokens unfolding muplar_find_bitmap_def by metis
qed

lemma px_count_pixels [simp]: "px_count (b\<lparr>pixels := x\<rparr>) = px_count b" "bpp (b\<lparr>pixels := x\<rparr>) = bpp b"
  by (simp_all add: px_count_def bpp_def)

lemma poke_all: "length xs = length ps \<Longrightarrow> poke ps 0 xs = Inr xs"
  by (simp add: poke_def)

lemma copied_roundtrip:
  assumes "bitmap_ok b" and px: "pixels b = Some ps" and bpp: "bpp b = 1 \<or> bpp b = 2 \<or> bpp b = 4"
    and room: "off + length ps * nat (bpp b) \<le> length bytes"
  shows "\<exists>ps'. copied_in b bytes off ps = Inr ps' \<and> length ps' = length ps \<and>
    copied_out b ps' = Inr (map (restored (bpp b)) (take (length ps * nat (bpp b)) (drop off bytes)))"
proof -
  define bs where "bs = take (length ps * nat (bpp b)) (drop off bytes)"
  have n: "px_count b = length ps" by (rule px_count_ok [OF assms(1) px])
  have bs: "peek bytes off (length ps * nat (bpp b)) = Inr bs" "length bs = length ps * nat (bpp b)"
    using room by (simp_all add: bs_def peek_def)
  consider (one) "bpp b = 1" | (two) "bpp b = 2" | (four) "bpp b = 4" using bpp by blast
  then show ?thesis unfolding bs_def [symmetric]
  proof cases
    case one
    have "map (to_alpha \<circ> of_alpha) bs = map (restored 1) bs" by (simp add: to_alpha_of_alpha restored_def)
    then show "\<exists>ps'. copied_in b bytes off ps = Inr ps' \<and> length ps' = length ps \<and> copied_out b ps' = Inr (map (restored (bpp b)) bs)"
      using one bs by (simp add: copied_in_def copied_out_def n poke_all peek_def)
  next
    case two
    have h: "concat (map (le_encode 2) (halfwords bs)) = bs" "length (halfwords bs) = length ps"
      using halfwords_bytes [of bs] bs(2) two by simp_all
    show "\<exists>ps'. copied_in b bytes off ps = Inr ps' \<and> length ps' = length ps \<and> copied_out b ps' = Inr (map (restored (bpp b)) bs)"
      using two bs h by (simp add: copied_in_def copied_out_def n poke_all peek_def mult.commute comp_def restored_id to_565_of_565)
  next
    case four
    have w: "px_bytes (px_words bs) = bs" using bs(2) four by (intro px_bytes_words) simp
    then have "length (px_words bs) = length ps" using length_px_bytes [of "px_words bs"] bs(2) four by simp
    then show "\<exists>ps'. copied_in b bytes off ps = Inr ps' \<and> length ps' = length ps \<and> copied_out b ps' = Inr (map (restored (bpp b)) bs)"
      using four bs w by (simp add: copied_in_def copied_out_def n poke_all peek_def length_px_bytes restored_id)
  qed
qed

lemma copied_back:
  assumes "bitmap_ok b" and px: "pixels b = Some ps" and bpp: "bpp b = 4" and room: "off + 4 * length ps \<le> length bytes"
  shows "\<exists>bytes'. rbind (copied_out b ps) (poke bytes off) = Inr bytes' \<and> copied_in b bytes' off ps = Inr ps"
proof -
  have n: "px_count b = length ps" by (rule px_count_ok [OF assms(1) px])
  have out: "copied_out b ps = Inr (px_bytes ps)" using bpp by (simp add: copied_out_def n peek_def length_px_bytes)
  obtain bytes' where d: "poke bytes off (px_bytes ps) = Inr bytes'" using room poke_succeeds_iff by (metis length_px_bytes)
  then have "peek bytes' off (length ps * 4) = Inr (px_bytes ps)" using peek_poke_same [OF d] by (simp add: length_px_bytes mult.commute)
  then show ?thesis using out d bpp by (simp add: copied_in_def n poke_all px_words_bytes)
qed

text \<open>The pixel array has four bytes per pixel whatever the configuration, so that copying eight bytes per pixel
  (\<^verbatim>\<open>RGBA_F16\<close>) reads or writes past its end.\<close>

lemma copy_f16_overruns:
  assumes "bitmap_ok b" and px: "pixels b = Some ps" and "4 < bpp b"
  shows "copied_out b ps = Inl Overrun" "length bytes \<ge> off + length ps * nat (bpp b) \<Longrightarrow> copied_in b bytes off ps = Inl Overrun"
proof -
  have n: "px_count b = length ps" by (rule px_count_ok [OF assms(1) px])
  have "0 < length ps" using assms(1) px by (auto simp: bitmap_ok_def zero_less_mult_iff simp flip: of_nat_0_less_iff)
  then have "4 * length ps < length ps * nat (bpp b)" using assms(3) by simp
  then show "copied_out b ps = Inl Overrun" "length bytes \<ge> off + length ps * nat (bpp b) \<Longrightarrow> copied_in b bytes off ps = Inl Overrun"
    using assms(3) by (simp_all add: copied_out_def copied_in_def n peek_def poke_def length_px_bytes)
qed

text \<open>C28: For a bitmap with one, two or four bytes per pixel and an accessible buffer with room for it: filling
  the bitmap from the buffer and copying it back leaves the buffer as it was, except that with one byte per pixel
  the byte 0 comes back as 0xff; with four bytes per pixel, copying the bitmap to the buffer and filling it from
  there leaves the bitmap as it was. Nothing outside of the pixels and of the buffer is touched.\<close>

theorem copy_pixels_roundtrip:
  assumes find: "muplar_find_bitmap t g = Some i" and ok: "bitmap_ok (bitmaps g ! i)"
    and bpp: "bpp (bitmaps g ! i) = 1 \<or> bpp (bitmaps g ! i) = 2 \<or> bpp (bitmaps g ! i) = 4"
    and n: "n = nat (bw (bitmaps g ! i) * bh (bitmaps g ! i) * bpp (bitmaps g ! i))"
    and start: "nio_start buf = Inr (Some off)" and room: "off + n \<le> length (nio_bytes buf)"
  shows "(\<exists>g'. Bitmap_nativeCopyPixelsFromBuffer t buf g = Inr g' \<and>
      Bitmap_nativeCopyPixelsToBuffer t buf g' = Inr (buf\<lparr>nio_bytes := take off (nio_bytes buf) @
        map (\<lambda>x. if bpp (bitmaps g ! i) = 1 \<and> x = 0 then 0xff else x) (take n (drop off (nio_bytes buf))) @
        drop (off + n) (nio_bytes buf)\<rparr>)) \<and>
    (bpp (bitmaps g ! i) = 4 \<longrightarrow> (\<exists>buf'. Bitmap_nativeCopyPixelsToBuffer t buf g = Inr buf' \<and>
      Bitmap_nativeCopyPixelsFromBuffer t buf' g = Inr g))"
proof -
  let ?b = "bitmaps g ! i"
  obtain ps where px: "pixels ?b = Some ps" and len: "int (length ps) = bw ?b * bh ?b" using ok by (auto simp: bitmap_ok_def)
  have n': "n = length ps * nat (bpp ?b)" using bpp unfolding n len [symmetric] by (auto simp: nat_mult_distrib)
  obtain ps' where ps': "copied_in ?b (nio_bytes buf) off ps = Inr ps'"
    "copied_out ?b ps' = Inr (map (restored (bpp ?b)) (take n (drop off (nio_bytes buf))))"
    using copied_roundtrip [OF ok px bpp] room unfolding n' by metis
  note i = find_bitmap_pixels [OF find]
  have "poke (nio_bytes buf) off (map (restored (bpp ?b)) (take n (drop off (nio_bytes buf)))) =
      Inr (take off (nio_bytes buf) @ map (restored (bpp ?b)) (take n (drop off (nio_bytes buf))) @ drop (off + n) (nio_bytes buf))"
    using room by (simp add: poke_def min_absorb1)
  moreover have "bitmap_of (g\<lparr>bitmaps := (bitmaps g)[i := ?b\<lparr>pixels := Some ps'\<rparr>]\<rparr>) t = Some (?b\<lparr>pixels := Some ps'\<rparr>)"
    using i(2) unfolding bitmap_of_find i(1) by simp
  moreover have "copied_out (?b\<lparr>pixels := Some ps'\<rparr>) ps' = copied_out ?b ps'" by (simp add: copied_out_def)
  ultimately have fwd: "Bitmap_nativeCopyPixelsFromBuffer t buf g = Inr (g\<lparr>bitmaps := (bitmaps g)[i := ?b\<lparr>pixels := Some ps'\<rparr>]\<rparr>) \<and>
     Bitmap_nativeCopyPixelsToBuffer t buf (g\<lparr>bitmaps := (bitmaps g)[i := ?b\<lparr>pixels := Some ps'\<rparr>]\<rparr>) = Inr (buf\<lparr>nio_bytes := take off (nio_bytes buf) @
        map (restored (bpp ?b)) (take n (drop off (nio_bytes buf))) @ drop (off + n) (nio_bytes buf)\<rparr>)"
    using ps' px start i find
    by (simp add: Bitmap_nativeCopyPixelsFromBuffer_def Bitmap_nativeCopyPixelsToBuffer_def Let_def)
  have "\<exists>buf'. Bitmap_nativeCopyPixelsToBuffer t buf g = Inr buf' \<and> Bitmap_nativeCopyPixelsFromBuffer t buf' g = Inr g" if four: "bpp ?b = 4"
  proof -
    obtain bs bytes' where "copied_out ?b ps = Inr bs" "poke (nio_bytes buf) off bs = Inr bytes'" "copied_in ?b bytes' off ps = Inr ps"
      using copied_back [OF ok px four, of off "nio_bytes buf"] room unfolding n' four by (auto simp: mult.commute rbind_eq_Inr_iff)
    moreover have "nio_start (buf\<lparr>nio_bytes := bytes'\<rparr>) = Inr (Some off)" using start by (cases "nio_kind buf") (auto simp: nio_start_def split: if_splits)
    moreover have "g\<lparr>bitmaps := (bitmaps g)[i := ?b\<lparr>pixels := Some ps\<rparr>]\<rparr> = g" 
    proof -
      have "?b\<lparr>pixels := Some ps\<rparr> = ?b" using px by (cases ?b) simp
      then show ?thesis by simp
    qed
    ultimately show ?thesis using px start find
      by (simp add: Bitmap_nativeCopyPixelsFromBuffer_def Bitmap_nativeCopyPixelsToBuffer_def bitmap_of_find Let_def)
  qed
  then show ?thesis using fwd unfolding restored_def by blast
qed

text \<open>A bitmap of four pixels in the format \<^verbatim>\<open>RGB_565\<close> and a \<^verbatim>\<open>ShortBuffer\<close> on an array.\<close>

definition demo_565 :: gfx where
  "demo_565 = (tables 2 0 0 0 0)\<lparr>bitmaps := [demo_bitmap, (new_bitmap 0x40000200 (2, 2))\<lparr>bytes_per_pixel := 2\<rparr>]\<rparr>"

definition demo_nio :: nio where
  "demo_nio = \<lparr>nio_kind = Backed 0 1, nio_bytes = [9, 9, 0x00, 0xf8, 0xe0, 0x07, 0x1f, 0x00, 0x34, 0x12, 9], nio_pos = 1\<rparr>"

theorem copy_pixels_roundtrip_witness:
  "\<exists>g'. Bitmap_nativeCopyPixelsFromBuffer 0x40000200 demo_nio demo_565 = Inr g' \<and>
     Bitmap_nativeCopyPixelsToBuffer 0x40000200 demo_nio g' = Inr demo_nio"
proof -
  have b: "b_width (bitmaps demo_565 ! Suc 0) = 2" "b_height (bitmaps demo_565 ! Suc 0) = 2" "bytes_per_pixel (bitmaps demo_565 ! Suc 0) = 2"
    "pixels (bitmaps demo_565 ! Suc 0) = Some [0, 0, 0, 0]" by code_simp+
  have "bpp (bitmaps demo_565 ! Suc 0) = 2" by (simp add: bpp_def b)
  moreover have "muplar_find_bitmap 0x40000200 demo_565 = Some (Suc 0)" by code_simp
  moreover have "bitmap_ok (bitmaps demo_565 ! Suc 0)" by (simp add: bitmap_ok_def b)
  moreover have "nio_start demo_nio = Inr (Some 2)" by code_simp
  moreover have "2 + (8 :: nat) \<le> length (nio_bytes demo_nio)" by (simp add: demo_nio_def)
  ultimately show ?thesis
    using copy_pixels_roundtrip [of "0x40000200" demo_565 "Suc 0" 8 demo_nio 2] by (simp add: b) (simp add: demo_nio_def)
qed

end
