(* ===== verification/Sys_Props.thy ===== *)
theory Sys_Props
  imports Gfx_Tables
begin

text \<open>
  The system properties of the ART shim: the fixed table of values, the functions of
  \<^verbatim>\<open>libcutils\<close> and bionic that copy a value into a buffer of the caller, and the native methods of
  \<^verbatim>\<open>android.os.SystemProperties\<close>, by key and by handle.

  A C string is the list of its characters without the final NUL; \<open>None\<close> is a null pointer.
\<close>

section \<open>The values\<close>

definition properties :: "(string \<times> string) list" where
  "properties =
    [(''servicemanager.ready'', ''1''), (''servicemanager.installed'', ''1''), (''hwservicemanager.ready'', ''1''),
     (''vndservicemanager.ready'', ''1''),
     (''init.svc.servicemanager'', ''running''), (''init.svc.hwservicemanager'', ''running''),
     (''init.svc.vndservicemanager'', ''running''),
     (''ro.arch'', ''arm64''), (''ro.product.cpu.abi'', ''arm64-v8a''),
     (''ro.product.cpu.abilist'', ''arm64-v8a''), (''ro.product.cpu.abilist64'', ''arm64-v8a''),
     (''ro.product.cpu.abilist32'', ''''),
     (''ro.build.version.sdk'', ''35''), (''ro.build.version.sdk_full'', ''35''),
     (''ro.build.version.preview_sdk'', ''0''),
     (''ro.build.version.codename'', ''REL''), (''ro.build.version.release_or_codename'', ''REL''),
     (''ro.build.version.all_codenames'', ''REL''), (''ro.build.version.known_codenames'', ''REL''),
     (''ro.build.version.min_supported_target_sdk'', ''23''),
     (''ro.build.version.release'', ''15''), (''ro.build.version.release_or_preview_display'', ''15''),
     (''ro.build.version.incremental'', ''muplar''), (''ro.build.version.security_patch'', ''2026-07-01''),
     (''ro.build.type'', ''userdebug''), (''ro.build.tags'', ''test-keys''), (''ro.build.id'', ''MUPLAR''),
     (''ro.build.fingerprint'', ''muplar/android_arm64/muplar:15/MUPLAR/1:userdebug/test-keys''),
     (''ro.product.brand'', ''Muplar''), (''ro.product.vendor.brand'', ''Muplar''),
     (''ro.product.brand_for_attestation'', ''Muplar''),
     (''ro.product.manufacturer'', ''Muplar''), (''ro.product.vendor.manufacturer'', ''Muplar''),
     (''ro.product.manufacturer_for_attestation'', ''Muplar''),
     (''ro.product.name'', ''muplar_arm64''), (''ro.product.vendor.name'', ''muplar_arm64''),
     (''ro.product.name_for_attestation'', ''muplar_arm64''),
     (''ro.product.device'', ''muplar''), (''ro.product.vendor.device'', ''muplar''),
     (''ro.product.device_for_attestation'', ''muplar''),
     (''ro.product.model'', ''Muplar Android''), (''ro.product.vendor.model'', ''Muplar Android''),
     (''ro.product.model_for_attestation'', ''Muplar Android''),
     (''ro.product.locale'', ''en-US''), (''persist.sys.locale'', ''en-US''),
     (''ro.product.locale.language'', ''en''), (''ro.product.locale.region'', ''US''),
     (''ro.debuggable'', ''1''), (''ro.treble.enabled'', ''true''), (''ro.config.low_ram'', ''false''),
     (''ro.property_service.version'', ''2''), (''ro.hardware'', ''muplar''),
     (''persist.sys.dalvik.vm.lib.2'', ''libart.so''), (''ro.dalvik.vm.native.bridge'', ''0''),
     (''dalvik.vm.isa.arm64.variant'', ''generic''), (''dalvik.vm.isa.arm64.features'', ''generic''),
     (''dalvik.vm.allow_profile_code'', ''false''), (''persist.log.level'', ''I'')]"

definition muplar_property :: "string option \<Rightarrow> string option" where
  "muplar_property key =
     (case key of None \<Rightarrow> None
      | Some k \<Rightarrow>
          case map_of properties k of Some v \<Rightarrow> Some v
          | None \<Rightarrow> if take 8 k = ''log.tag.'' \<or> take 15 k = ''persist.log.tag'' then Some ''I'' else None)"

section \<open>Copying into a buffer\<close>

definition PROP_VALUE_MAX :: nat where "PROP_VALUE_MAX = 92"

definition NUL :: char where "NUL = CHR 0x00"

text \<open>The returned length and the buffer \<open>value\<close> afterwards; the length is that of the value, not of the copy.\<close>

definition muplar_copy_property :: "char list option \<Rightarrow> string option \<Rightarrow> fault + nat \<times> char list option" where
  "muplar_copy_property value src =
     (let s = (case src of None \<Rightarrow> [] | Some s \<Rightarrow> s) in
      case value of None \<Rightarrow> Inr (length s, None)
      | Some buf \<Rightarrow>
          let cap = PROP_VALUE_MAX - 1; copy = (if length s < cap then length s else cap) in
          rbind (poke buf 0 (take copy s)) (\<lambda>buf. rbind (poke buf copy [NUL]) (\<lambda>buf. Inr (length s, Some buf))))"

definition property_get :: "string option \<Rightarrow> char list option \<Rightarrow> string option \<Rightarrow> fault + nat \<times> char list option" where
  "property_get key value default_value =
     muplar_copy_property value (case muplar_property key of Some p \<Rightarrow> Some p | None \<Rightarrow> default_value)"

definition system_property_get :: "string option \<Rightarrow> char list option \<Rightarrow> fault + nat \<times> char list option" where
  "system_property_get key value =
     muplar_copy_property value (case muplar_property key of Some p \<Rightarrow> Some p | None \<Rightarrow> Some [])"

section \<open>Parsing\<close>

definition isspace :: "char \<Rightarrow> bool" where
  "isspace c \<longleftrightarrow> c = CHR '' '' \<or> (9 \<le> (of_char c :: nat) \<and> (of_char c :: nat) \<le> 13)"

definition isdigit :: "char \<Rightarrow> bool" where
  "isdigit c \<longleftrightarrow> 48 \<le> (of_char c :: nat) \<and> (of_char c :: nat) \<le> 57"

definition digits_value :: "string \<Rightarrow> int" where
  "digits_value ds = foldl (\<lambda>n c. 10 * n + (int (of_char c) - 48)) 0 ds"

text \<open>\<^verbatim>\<open>strtol\<close> and \<^verbatim>\<open>strtoll\<close> with base 10: the value, limited to 64 bits, and the rest of the string;
  the whole string is the rest when it has no number.\<close>

definition strtoll10 :: "string \<Rightarrow> int \<times> string" where
  "strtoll10 s =
     (let t = dropWhile isspace s;
          neg = (t \<noteq> [] \<and> hd t = CHR ''-'');
          t = (if t \<noteq> [] \<and> (hd t = CHR ''-'' \<or> hd t = CHR ''+'') then tl t else t);
          n = digits_value (takeWhile isdigit t); n = (if neg then - n else n) in
      if takeWhile isdigit t = [] then (0, s)
      else (max (- (2 ^ 63)) (min (2 ^ 63 - 1) n), dropWhile isdigit t))"

definition muplar_parse_int :: "string option \<Rightarrow> jint \<Rightarrow> jint" where
  "muplar_parse_int value fallback =
     (case value of None \<Rightarrow> fallback
      | Some v \<Rightarrow> if v = [] then fallback
                 else let (parsed, rest) = strtoll10 v in if rest = [] then word_of_int parsed else fallback)"

definition muplar_parse_long :: "string option \<Rightarrow> jlong \<Rightarrow> jlong" where
  "muplar_parse_long value fallback =
     (case value of None \<Rightarrow> fallback
      | Some v \<Rightarrow> if v = [] then fallback
                 else let (parsed, rest) = strtoll10 v in if rest = [] then word_of_int parsed else fallback)"

definition muplar_parse_boolean :: "string option \<Rightarrow> bool \<Rightarrow> bool" where
  "muplar_parse_boolean value fallback =
     (case value of None \<Rightarrow> fallback
      | Some v \<Rightarrow> if v = [] then fallback
                 else if v \<in> set [''1'', ''true'', ''y'', ''yes'', ''on''] then True
                 else if v \<in> set [''0'', ''false'', ''n'', ''no'', ''off''] then False
                 else fallback)"

section \<open>Access by key\<close>

text \<open>The key is given by its characters, \<open>None\<close> when the key is null or the VM does not hand them out.
  The second result of \<open>SystemProperties_native_get\<close> is the number of strings that are not given back to the VM.\<close>

definition SystemProperties_native_get :: "string option \<Rightarrow> string option \<Rightarrow> string \<times> nat" where
  "SystemProperties_native_get key def =
     (case (muplar_property key, def) of
        (None, Some d) \<Rightarrow> (d, if key = None then 0 else 1)
      | (None, None) \<Rightarrow> ([], 0)
      | (Some v, _) \<Rightarrow> (v, 0))"

definition SystemProperties_native_get_int :: "string option \<Rightarrow> jint \<Rightarrow> jint" where
  "SystemProperties_native_get_int key def = muplar_parse_int (muplar_property key) def"

definition SystemProperties_native_get_long :: "string option \<Rightarrow> jlong \<Rightarrow> jlong" where
  "SystemProperties_native_get_long key def = muplar_parse_long (muplar_property key) def"

definition SystemProperties_native_get_boolean :: "string option \<Rightarrow> bool \<Rightarrow> bool" where
  "SystemProperties_native_get_boolean key def = muplar_parse_boolean (muplar_property key) def"

section \<open>Handles\<close>

text \<open>\<^verbatim>\<open>muplar_property_handles\<close>, 64 slots of 96 bytes; a slot with an empty string is free.\<close>

type_synonym handles = "string list"

definition no_handles :: handles where "no_handles = replicate 64 []"

definition SystemProperties_native_find :: "string option \<Rightarrow> handles \<Rightarrow> jlong \<times> handles" where
  "SystemProperties_native_find chars hs =
     (case chars of None \<Rightarrow> (0, hs)
      | Some k \<Rightarrow>
          case first_index (\<lambda>s. s \<noteq> [] \<and> s = k) hs of Some i \<Rightarrow> (of_nat i + 1, hs)
          | None \<Rightarrow>
              case first_index (\<lambda>s. s = []) hs of None \<Rightarrow> (0, hs)
              | Some i \<Rightarrow> (of_nat i + 1, hs[i := take (if 96 \<le> length k then 95 else length k) k]))"

definition handle_key :: "handles \<Rightarrow> jlong \<Rightarrow> string option" where
  "handle_key hs handle =
     (if 0 < sint handle \<and> sint handle \<le> int (length hs) then Some (hs ! nat (sint handle - 1)) else None)"

definition SystemProperties_native_get_J :: "handles \<Rightarrow> jlong \<Rightarrow> string" where
  "SystemProperties_native_get_J hs handle =
     (case handle_key hs handle of None \<Rightarrow> []
      | Some key \<Rightarrow> case muplar_property (Some key) of None \<Rightarrow> [] | Some value \<Rightarrow> value)"

definition SystemProperties_native_get_int_JI :: "handles \<Rightarrow> jlong \<Rightarrow> jint \<Rightarrow> jint" where
  "SystemProperties_native_get_int_JI hs handle def =
     (case handle_key hs handle of None \<Rightarrow> def | Some key \<Rightarrow> muplar_parse_int (muplar_property (Some key)) def)"

definition SystemProperties_native_get_long_JJ :: "handles \<Rightarrow> jlong \<Rightarrow> jlong \<Rightarrow> jlong" where
  "SystemProperties_native_get_long_JJ hs handle def =
     (case handle_key hs handle of None \<Rightarrow> def | Some key \<Rightarrow> muplar_parse_long (muplar_property (Some key)) def)"

definition SystemProperties_native_get_boolean_JZ :: "handles \<Rightarrow> jlong \<Rightarrow> bool \<Rightarrow> bool" where
  "SystemProperties_native_get_boolean_JZ hs handle def =
     (case handle_key hs handle of None \<Rightarrow> def | Some key \<Rightarrow> muplar_parse_boolean (muplar_property (Some key)) def)"

text \<open>The table after a sequence of calls of \<^verbatim>\<open>native_find\<close>.\<close>

definition finds :: "string list \<Rightarrow> handles \<Rightarrow> handles" where
  "finds ks hs = foldl (\<lambda>hs k. snd (SystemProperties_native_find (Some k) hs)) hs ks"

section \<open>Facts\<close>

text \<open>The slot of a key keeps its first 95 characters, and these decide the value.\<close>

lemma properties_short: "map_of properties k = Some v \<Longrightarrow> length k < 95"
proof -
  have "list_all (\<lambda>(k, v). length k < 95) properties" by code_simp
  then show "map_of properties k = Some v \<Longrightarrow> length k < 95" by (auto simp: list_all_iff dest: map_of_SomeD)
qed

lemma property_truncated: "muplar_property (Some (take 95 k)) = muplar_property (Some k)"
proof (cases "length k \<le> 95")
  case False
  then have "map_of properties (take 95 k) = None" "map_of properties k = None"
    using properties_short [of k] properties_short [of "take 95 k"] by (fastforce simp: option.expand)+
  then show ?thesis by (simp add: muplar_property_def)
qed simp

text \<open>The used slots come first: a table is \<open>us @ replicate r []\<close> with no empty string in \<open>us\<close>.\<close>

lemma first_index_us: "[] \<notin> set us \<Longrightarrow> first_index (\<lambda>s. s = []) (us @ replicate r []) = (if r = 0 then None else Some (length us))"
proof -
  assume "[] \<notin> set us"
  then have "first_index (\<lambda>s. s = []) us = None" by (auto simp: first_index_None)
  then show ?thesis by (cases r) (simp_all add: first_index_append)
qed

lemma take_slot: "take (if 96 \<le> length k then 95 else length k) k = take 95 k"
  by simp

lemma find_table:
  assumes "[] \<notin> set us" and "k \<noteq> []"
  shows "SystemProperties_native_find (Some k) (us @ replicate r []) =
    (case first_index (\<lambda>s. s = k) us of Some i \<Rightarrow> (of_nat i + 1, us @ replicate r [])
     | None \<Rightarrow> if r = 0 then (0, us) else (of_nat (length us) + 1, us @ take 95 k # replicate (r - 1) []))"
proof -
  have "(\<lambda>s. s \<noteq> [] \<and> s = k) = (\<lambda>s. s = k)" using assms(2) by auto
  moreover have "first_index (\<lambda>s. s = k) (replicate r []) = None" using assms(2) by (auto simp: first_index_None)
  ultimately have "first_index (\<lambda>s. s \<noteq> [] \<and> s = k) (us @ replicate r []) = first_index (\<lambda>s. s = k) us"
    by (simp add: first_index_append split: option.split)
  moreover have "(us @ replicate r [])[length us := take 95 k] = us @ take 95 k # replicate (r - 1) []" if "r \<noteq> 0"
    using that by (cases r) (simp_all add: list_update_append)
  moreover have "us = us @ replicate r []" if "r = 0" using that by simp
  ultimately show ?thesis
    unfolding SystemProperties_native_find_def option.case first_index_us [OF assms(1)] take_slot by (simp split: option.split)
qed

lemma find_empty:
  assumes "[] \<notin> set us"
  shows "snd (SystemProperties_native_find (Some []) (us @ replicate r [])) = us @ replicate r []"
  using assms by (auto simp: SystemProperties_native_find_def first_index_us first_index_None list_update_append split: option.split) (cases r, auto)

lemma finds_table:
  assumes "[] \<notin> set us"
  shows "\<exists>vs q. finds ks (us @ replicate r []) = us @ vs @ replicate q [] \<and> [] \<notin> set vs \<and> length vs + q = r \<and> length vs \<le> length ks"
  using assms
proof (induction ks arbitrary: us r)
  case Nil
  then show ?case by (intro exI [of _ "[]"]) (simp add: finds_def)
next
  case (Cons k ks)
  have step: "finds (k # ks) hs = finds ks (snd (SystemProperties_native_find (Some k) hs))" for hs by (simp add: finds_def)
  show ?case
  proof (cases "k = [] \<or> first_index (\<lambda>s. s = k) us \<noteq> None \<or> r = 0")
    case True
    then have "snd (SystemProperties_native_find (Some k) (us @ replicate r [])) = us @ replicate r []"
      using find_empty [OF Cons(2)] find_table [OF Cons(2), of k r] by (cases "k = []") (auto split: option.splits)
    then show ?thesis using Cons.IH [OF Cons(2), of r] unfolding step by (auto intro: le_SucI)
  next
    case False
    then have "snd (SystemProperties_native_find (Some k) (us @ replicate r [])) = (us @ [take 95 k]) @ replicate (r - 1) []"
      using find_table [OF Cons(2), of k r] by auto
    moreover obtain vs q where "finds ks ((us @ [take 95 k]) @ replicate (r - 1) []) = (us @ [take 95 k]) @ vs @ replicate q []"
      "[] \<notin> set vs" "length vs + q = r - 1" "length vs \<le> length ks"
      using Cons.IH [of "us @ [take 95 k]" "r - 1"] Cons(2) False by auto
    ultimately show ?thesis using False unfolding step by (intro exI [of _ "take 95 k # vs"] exI [of _ q]) auto
  qed
qed

text \<open>The table behind a handle that was given out.\<close>

lemma find_gives_slot:
  assumes "[] \<notin> set us" and "k \<noteq> []" and "SystemProperties_native_find (Some k) (us @ replicate r []) = (h, hs)" and "h \<noteq> 0"
  obtains us' r' i where "hs = us' @ replicate r' []" "[] \<notin> set us'" "length us' + r' = length us + r" "i < length us'"
    "h = of_nat i + 1" "muplar_property (Some (us' ! i)) = muplar_property (Some k)"
    "length k < 96 \<Longrightarrow> first_index (\<lambda>s. s = k) us' = Some i"
proof (cases "first_index (\<lambda>s. s = k) us")
  case (Some i)
  then have "us ! i = k" "i < length us" by (simp_all add: first_index_Some)
  moreover have "h = of_nat i + 1" "hs = us @ replicate r []" using find_table [OF assms(1,2), of r] assms(3) Some by simp_all
  ultimately show thesis using that [of us r i] assms(1) Some by simp
next
  case None
  then have r: "r \<noteq> 0" and h: "h = of_nat (length us) + 1" and hs: "hs = us @ take 95 k # replicate (r - 1) []"
    using find_table [OF assms(1,2), of r] assms(3,4) by (auto split: if_splits)
  have "first_index (\<lambda>s. s = k) (us @ [take 95 k]) = Some (length us)" if "length k < 96" using that None by (simp add: first_index_append)
  then show thesis using that [of "us @ [take 95 k]" "r - 1" "length us"] assms(1,2) r h hs by (simp add: property_truncated)
qed

lemma handle_key_slot:
  assumes "i < length us" and "length us + length ws = 64"
  shows "handle_key (us @ ws) (of_nat i + 1) = Some (us ! i)"
proof -
  have "sint (of_nat (i + 1) :: jlong) = int (i + 1)" using assms by (simp only: signed_of_nat) (simp add: signed_take_bit_int_eq_self)
  then have "sint (of_nat i + 1 :: jlong) = int i + 1" by (simp add: add.commute)
  then show ?thesis using assms by (simp add: handle_key_def nth_append)
qed

lemma no_handle_iff:
  assumes "[] \<notin> set us" and "k \<noteq> []" and "length us + r = 64" and "r \<noteq> 0"
  shows "fst (SystemProperties_native_find (Some k) (us @ replicate r [])) \<noteq> 0"
proof -
  have "(of_nat i + 1 :: jlong) \<noteq> 0" if "i < 64" for i
  proof -
    have "unat (of_nat (i + 1) :: jlong) = i + 1" using that by (simp only: unsigned_of_nat) (simp add: take_bit_nat_eq_self)
    then show ?thesis by (metis Suc_eq_plus1 add.commute of_nat_1 of_nat_add old.nat.distinct(2) unat_0)
  qed
  moreover have "i < 64" if "first_index (\<lambda>s. s = k) us = Some i" for i using that assms by (auto simp: first_index_Some)
  ultimately show ?thesis using assms by (simp add: find_table split: option.split)
qed

section \<open>Handles keep their keys\<close>

text \<open>C29: After any calls of \<^verbatim>\<open>native_find\<close>, the next call with a non-empty key gives a handle as long as fewer
  than 64 calls came before. From then on, whatever keys are looked up later, the four methods that read a
  property by this handle give the same as the methods that read it by the key, also for keys that are too long
  for their slot; and a key that fits its slot gets the same handle again, without a change of the table.\<close>

theorem handle_serves_key:
  assumes "k \<noteq> []" and "SystemProperties_native_find (Some k) (finds ks no_handles) = (h, hs)"
  shows "(length ks < 64 \<longrightarrow> h \<noteq> 0) \<and>
    (h \<noteq> 0 \<longrightarrow> (\<forall>later. let hs' = finds later hs in
       SystemProperties_native_get_J hs' h = fst (SystemProperties_native_get (Some k) None) \<and>
       SystemProperties_native_get_int_JI hs' h = SystemProperties_native_get_int (Some k) \<and>
       SystemProperties_native_get_long_JJ hs' h = SystemProperties_native_get_long (Some k) \<and>
       SystemProperties_native_get_boolean_JZ hs' h = SystemProperties_native_get_boolean (Some k) \<and>
       (length k < 96 \<longrightarrow> SystemProperties_native_find (Some k) hs' = (h, hs'))))"
proof -
  obtain us r where us: "finds ks no_handles = us @ replicate r []" "[] \<notin> set us" "length us + r = 64" "length us \<le> length ks"
    using finds_table [of "[]" ks 64] by (auto simp: no_handles_def)
  have "h \<noteq> 0" if "length ks < 64" using no_handle_iff [OF us(2) assms(1) us(3)] us that assms(2) by simp
  moreover have "let hs' = finds later hs in
       SystemProperties_native_get_J hs' h = fst (SystemProperties_native_get (Some k) None) \<and>
       SystemProperties_native_get_int_JI hs' h = SystemProperties_native_get_int (Some k) \<and>
       SystemProperties_native_get_long_JJ hs' h = SystemProperties_native_get_long (Some k) \<and>
       SystemProperties_native_get_boolean_JZ hs' h = SystemProperties_native_get_boolean (Some k) \<and>
       (length k < 96 \<longrightarrow> SystemProperties_native_find (Some k) hs' = (h, hs'))" if h: "h \<noteq> 0" for later
  proof -
    obtain us' r' i where s: "hs = us' @ replicate r' []" "[] \<notin> set us'" "length us' + r' = 64" "i < length us'"
      "h = of_nat i + 1" "muplar_property (Some (us' ! i)) = muplar_property (Some k)"
      "length k < 96 \<Longrightarrow> first_index (\<lambda>s. s = k) us' = Some i"
      using find_gives_slot [OF us(2) assms(1) assms(2) [unfolded us(1)] h] us(3) by metis
    obtain vs q where v: "finds later hs = (us' @ vs) @ replicate q []" "[] \<notin> set vs" "length vs + q = r'"
      using finds_table [OF s(2), of later r'] unfolding s(1) by auto
    have "handle_key (finds later hs) h = Some (us' ! i)"
      using handle_key_slot [OF s(4), of "vs @ replicate q []"] s(3) v(3) unfolding s(5) v(1) by simp
    moreover have "SystemProperties_native_find (Some k) (finds later hs) = (h, finds later hs)" if "length k < 96"
      using find_table [of "us' @ vs" k q] s v(2) assms(1) that unfolding v(1) by (simp add: first_index_append)
    ultimately show ?thesis using s(6)
      by (auto simp: Let_def SystemProperties_native_get_J_def SystemProperties_native_get_def SystemProperties_native_get_int_JI_def
          SystemProperties_native_get_int_def SystemProperties_native_get_long_JJ_def SystemProperties_native_get_long_def
          SystemProperties_native_get_boolean_JZ_def SystemProperties_native_get_boolean_def split: option.split)
  qed
  ultimately show ?thesis by blast
qed

theorem handle_serves_key_witness:
  "SystemProperties_native_get_int_JI (finds [''ro.arch''] (no_handles[0 := ''ro.build.version.sdk''])) 1 7 = 35"
proof -
  have "SystemProperties_native_find (Some ''ro.build.version.sdk'') (finds [] no_handles) = (1, no_handles[0 := ''ro.build.version.sdk''])" by code_simp
  from handle_serves_key [OF _ this] have "SystemProperties_native_get_int_JI (finds [''ro.arch''] (no_handles[0 := ''ro.build.version.sdk''])) 1 =
    SystemProperties_native_get_int (Some ''ro.build.version.sdk'')" by (simp add: Let_def)
  moreover have "SystemProperties_native_get_int (Some ''ro.build.version.sdk'') 7 = 35" by code_simp
  ultimately show ?thesis by simp
qed

text \<open>Where the code goes wrong: the empty key gets a handle whose slot stays free, so that the next key gets
  the same handle; a key too long for its slot is not found again and takes a new slot at every call; a default
  value leaves the characters of the key with the VM.\<close>

lemma empty_key_shares_handle:
  "fst (SystemProperties_native_find (Some []) no_handles) = 1"
  "fst (SystemProperties_native_find (Some ''ro.arch'') (finds [[]] no_handles)) = 1"
  by code_simp+

lemma long_key_new_handle:
  assumes "96 \<le> length k" and "[] \<notin> set us" and "k \<notin> set us" and "r \<noteq> 0"
  shows "SystemProperties_native_find (Some k) (us @ replicate r []) = (of_nat (length us) + 1, us @ take 95 k # replicate (r - 1) [])"
    and "k \<notin> set (us @ [take 95 k])"
proof -
  have "first_index (\<lambda>s. s = k) us = None" using assms(3) by (auto simp: first_index_None)
  moreover have "k \<noteq> []" using assms(1) by auto
  ultimately show "SystemProperties_native_find (Some k) (us @ replicate r []) = (of_nat (length us) + 1, us @ take 95 k # replicate (r - 1) [])"
    using find_table [OF assms(2), of k r] assms(4) by simp
  have "length (take 95 k) \<noteq> length k" using assms(1) by simp
  then have "k \<noteq> take 95 k" by metis
  then show "k \<notin> set (us @ [take 95 k])" using assms(3) by simp
qed

lemma native_get_leaks: "muplar_property (Some k) = None \<Longrightarrow> SystemProperties_native_get (Some k) (Some d) = (d, 1)"
  by (simp add: SystemProperties_native_get_def)

text \<open>The returned length of a value that is cut off at 91 characters is that of the whole value.\<close>

lemma copy_property_length:
  assumes "91 < length s" and "92 \<le> length buf"
  shows "\<exists>buf'. muplar_copy_property (Some buf) (Some s) = Inr (length s, Some buf') \<and> take 92 buf' = take 91 s @ [NUL]"
  using assms by (simp add: muplar_copy_property_def PROP_VALUE_MAX_def poke_def min_def)

end
