(* ===== verification/Frames.thy ===== *)
theory Frames
  imports Canvas Bitmap_Natives "HOL-Library.Sublist"
begin

text \<open>
  Frames for the host window: a bitmap is sent over a socket and stored in a file that replaces the
  previous one (\<^verbatim>\<open>muplar_write_bitmap_frame\<close>, \<^verbatim>\<open>muplar_write_raw_frame\<close>), with the methods of
  \<^verbatim>\<open>MuplarFramePresenter\<close> and \<^verbatim>\<open>Surface\<close> that call them.

  The kernel decides whether calls succeed and how many bytes a \<^verbatim>\<open>write\<close> takes: functions of
  the number of system calls so far. The calls that have an effect are kept in a trace, from which the
  files and the bytes of each connection are computed, at every moment.
\<close>

section \<open>System calls\<close>

datatype sink = Sock nat | File string

datatype sys =
    Connect string
  | Put sink "u8 list"
  | CloseSock nat
  | Mkdir string
  | Create string
  | CloseFile string
  | Unlink string
  | Rename string string

record frame_os =
  fk_env :: "string \<Rightarrow> string option" \<comment> \<open>\<^verbatim>\<open>getenv\<close>\<close>
  fk_alloc :: "nat \<Rightarrow> bool" \<comment> \<open>\<^verbatim>\<open>malloc\<close> of so many bytes succeeds\<close>
  fk_socket :: "nat \<Rightarrow> bool"
  fk_connect :: "nat \<Rightarrow> bool"
  fk_write :: "nat \<Rightarrow> nat \<Rightarrow> int" \<comment> \<open>for so many bytes: how many are taken, or an error\<close>
  fk_open :: "nat \<Rightarrow> bool"
  fk_rename :: "nat \<Rightarrow> bool"

text \<open>\<open>conns\<close> is the number of connections made so far; \<open>frame_socket\<close> is the connection of
  \<^verbatim>\<open>muplar_frame_socket_fd\<close>, \<open>None\<close> for -1.\<close>

record frame_world =
  tick :: nat
  trace :: "sys list"
  conns :: nat
  frame_socket :: "nat option"

definition call :: "sys list \<Rightarrow> frame_world \<Rightarrow> frame_world" where
  "call evs w = w\<lparr>tick := tick w + 1, trace := trace w @ evs\<rparr>"

function muplar_write_all :: "frame_os \<Rightarrow> sink \<Rightarrow> u8 list \<Rightarrow> frame_world \<Rightarrow> bool \<times> frame_world" where
  "muplar_write_all k sink bytes w =
     (if bytes = [] then (True, w)
      else
        let written = fk_write k (tick w) (length bytes) in
        if written \<le> 0 then (False, call [] w)
        else muplar_write_all k sink (drop (nat written) bytes) (call [Put sink (take (nat written) bytes)] w))"
  by pat_completeness auto
termination
  by (relation "measure (\<lambda>(k, sink, bytes, w). length bytes)") auto

declare muplar_write_all.simps [simp del]

text \<open>The address holds 107 characters of the path.\<close>

definition muplar_get_frame_socket :: "frame_os \<Rightarrow> frame_world \<Rightarrow> nat option \<times> frame_world" where
  "muplar_get_frame_socket k w =
     (case frame_socket w of Some i \<Rightarrow> (Some i, w)
      | None \<Rightarrow>
          case fk_env k ''MUPLAR_HOST_WINDOW_FRAME_SOCKET'' of None \<Rightarrow> (None, w)
          | Some socket_path \<Rightarrow>
              if socket_path = [] then (None, w)
              else if \<not> fk_socket k (tick w) then (None, call [] w)
              else
                let w = call [] w in
                if \<not> fk_connect k (tick w) then (None, call [] w)
                else (Some (conns w), (call [Connect (take 107 socket_path)] w)\<lparr>conns := conns w + 1, frame_socket := Some (conns w)\<rparr>))"

text \<open>The directories above a file, outermost first; the path is cut at 511 characters.\<close>

definition muplar_ensure_parent_dir :: "string \<Rightarrow> frame_world \<Rightarrow> frame_world" where
  "muplar_ensure_parent_dir path w =
     (let dir = take 511 path; r = dropWhile (\<lambda>c. c \<noteq> CHR ''/'') (rev dir); n = length r - 1 in
      if r = [] then w
      else call (map (\<lambda>i. Mkdir (take i dir)) (filter (\<lambda>i. dir ! i = CHR ''/'') [1..<n]) @ [Mkdir (take n dir)]) w)"

section \<open>Frames\<close>

text \<open>A pixel on a light grey background.\<close>

definition over_grey :: "u32 \<Rightarrow> u8 \<times> u8 \<times> u8" where
  "over_grey c =
     (let a = alpha_of c; over = (\<lambda>v. ucast (if a < 255 then (v * a + 238 * (255 - a)) div 255 else v)) in
      (over (red_of c), over (green_of c), over (blue_of c)))"

definition rgba_px :: "u8 \<times> u8 \<times> u8 \<Rightarrow> u8 list" where
  "rgba_px = (\<lambda>(r, g, b). [r, g, b, 255])"

definition frame_magic :: u32 where "frame_magic = 0x4d485231"

definition frame_header :: "u32 \<Rightarrow> u32 \<Rightarrow> nat \<Rightarrow> u8 list" where
  "frame_header width height count =
     le_encode 4 frame_magic @ le_encode 4 width @ le_encode 4 height @ le_encode 4 width @
     le_encode 8 (of_nat (count * 4) :: u64)"

definition frame_file_path :: "string \<Rightarrow> string" where
  "frame_file_path path =
     dropWhile (\<lambda>c. c = CHR ''/'')
       (if take 16 path = ''/data/local/tmp/'' then drop 16 path
        else if take 15 path = ''data/local/tmp/'' then drop 15 path else path)"

text \<open>Header and pixels to a sink.\<close>

definition put_both :: "frame_os \<Rightarrow> sink \<Rightarrow> u8 list \<Rightarrow> u8 list \<Rightarrow> frame_world \<Rightarrow> bool \<times> frame_world" where
  "put_both k sink header rgba w =
     (case muplar_write_all k sink header w of (ok, w) \<Rightarrow>
        if ok then muplar_write_all k sink rgba w else (False, w))"

definition write_file :: "frame_os \<Rightarrow> u8 list \<Rightarrow> u8 list \<Rightarrow> string \<Rightarrow> frame_world \<Rightarrow> bool \<times> frame_world" where
  "write_file k header rgba path w =
     (let file_path = frame_file_path path; tmp_path = file_path @ ''.tmp'' in
      if 512 \<le> length file_path + 5 then (False, w)
      else
        let w = muplar_ensure_parent_dir tmp_path w in
        if \<not> fk_open k (tick w) then (False, call [] w)
        else
          case put_both k (File tmp_path) header rgba (call [Create tmp_path] w) of (ok, w) \<Rightarrow>
            let w = call [CloseFile tmp_path] w in
            if \<not> ok then (False, call [Unlink tmp_path] w)
            else if fk_rename k (tick w) then (True, call [Rename tmp_path file_path] w)
            else (False, call [] w))"

text \<open>The common end of both functions: the socket first, then the file if there is a path.\<close>

definition put_frame :: "frame_os \<Rightarrow> u8 list \<Rightarrow> u8 list \<Rightarrow> string option \<Rightarrow> frame_world \<Rightarrow> bool \<times> frame_world" where
  "put_frame k header rgba path w =
     (let (sent, w) =
        (case muplar_get_frame_socket k w of
           (None, w) \<Rightarrow> (False, w)
         | (Some i, w) \<Rightarrow>
             case put_both k (Sock i) header rgba w of (ok, w) \<Rightarrow>
               if ok then (True, w) else (False, (call [CloseSock i] w)\<lparr>frame_socket := None\<rparr>)) in
      case path of None \<Rightarrow> (sent, w) | Some p \<Rightarrow> if p = [] then (sent, w) else write_file k header rgba p w)"

definition muplar_write_bitmap_frame ::
  "frame_os \<Rightarrow> bitmap_state \<Rightarrow> string option \<Rightarrow> frame_world \<Rightarrow> fault + bool \<times> frame_world" where
  "muplar_write_bitmap_frame k bitmap path w =
     (case pixels bitmap of None \<Rightarrow> Inr (False, w)
      | Some ps \<Rightarrow>
          let count = px_count bitmap in
          if \<not> fk_alloc k (count * 4) then Inr (False, w)
          else rbind (peek ps 0 count) (\<lambda>ps.
            Inr (put_frame k (frame_header (b_width bitmap) (b_height bitmap) count)
              (concat (map (\<lambda>p. rgba_px (over_grey p)) ps)) path w)))"

definition muplar_write_raw_frame ::
  "frame_os \<Rightarrow> u32 list option \<Rightarrow> jint \<Rightarrow> jint \<Rightarrow> string option \<Rightarrow> frame_world \<Rightarrow> fault + bool \<times> frame_world" where
  "muplar_write_raw_frame k px width height path w =
     (case px of None \<Rightarrow> Inr (False, w)
      | Some ps \<Rightarrow>
          if sint width \<le> 0 \<or> sint height \<le> 0 then Inr (False, w)
          else
            let count = unat (scast width * scast height :: u64) in
            if \<not> fk_alloc k (count * 4) then Inr (False, w)
            else rbind (peek ps 0 count) (\<lambda>ps.
              Inr (put_frame k (frame_header width height count) (concat (map (\<lambda>p. rgba_px (over_grey p)) ps)) path w)))"

section \<open>Callers\<close>

text \<open>The Java bitmap object: the field \<^verbatim>\<open>mNativePtr\<close>, \<open>None\<close> when it has no such field, and its methods
  \<^verbatim>\<open>getWidth\<close>, \<^verbatim>\<open>getHeight\<close>, \<^verbatim>\<open>getPixels\<close>; \<open>None\<close> when one is missing, and no pixels when the array
  cannot be created or read or \<^verbatim>\<open>getPixels\<close> throws. \<open>get_pixels n\<close> are the elements of an array of \<open>n\<close>
  elements after the call.\<close>

record java_bitmap =
  native_ptr :: "jlong option"
  java_dims :: "(jint \<times> jint) option"
  get_pixels :: "int \<Rightarrow> u32 list option"

definition MuplarFramePresenter_writeBitmapNative ::
  "frame_os \<Rightarrow> java_bitmap option \<Rightarrow> string option \<Rightarrow> gfx \<Rightarrow> frame_world \<Rightarrow> fault + bool \<times> frame_world" where
  "MuplarFramePresenter_writeBitmapNative k bitmap_object path g w =
     (case (bitmap_object, path) of
        (Some obj, Some p) \<Rightarrow>
          rbind
            (case native_ptr obj of None \<Rightarrow> Inr (False, w)
             | Some t \<Rightarrow> case bitmap_of g t of None \<Rightarrow> Inr (False, w) | Some bmp \<Rightarrow> muplar_write_bitmap_frame k bmp (Some p) w)
            (\<lambda>(ok, w).
              if ok then Inr (True, w)
              else case java_dims obj of None \<Rightarrow> Inr (False, w)
                   | Some (wd, ht) \<Rightarrow>
                       if 0 < sint wd \<and> 0 < sint ht
                       then rbind (imul (sint wd) (sint ht)) (\<lambda>n.
                         case get_pixels obj n of None \<Rightarrow> Inr (False, w)
                         | Some elements \<Rightarrow> muplar_write_raw_frame k (Some elements) wd ht (Some p) w)
                       else Inr (False, w))
      | _ \<Rightarrow> Inr (False, w))"

text \<open>The Java canvas object is its field \<^verbatim>\<open>mNativeCanvasWrapper\<close>, \<open>None\<close> for null or a missing field.\<close>

definition Surface_nativeLockCanvas ::
  "(nat \<Rightarrow> bool) \<Rightarrow> jlong \<Rightarrow> jlong option \<Rightarrow> gfx \<Rightarrow> jlong \<times> jlong option \<times> gfx" where
  "Surface_nativeLockCanvas al native_object canvas_obj g =
     (let r = (if native_object \<noteq> 0 then native_object else 1001) in
      case canvas_obj of None \<Rightarrow> (r, None, g)
      | Some current \<Rightarrow>
          if current = 0 \<or> muplar_find_canvas current g = None then
            (case muplar_alloc_bitmap al (1080, 1920) g of (b, g) \<Rightarrow>
              case muplar_alloc_canvas (case b of None \<Rightarrow> 0 | Some i \<Rightarrow> b_token (bitmaps g ! i)) g of (c, g) \<Rightarrow>
                (r, Some (c_token (canvases g ! c)), g))
          else
            (r, Some current, on_canvas current (\<lambda>c. muplar_canvas_reset (bitmap_of g (bitmap_token c)) c) g))"

definition Surface_nativeUnlockCanvasAndPost ::
  "frame_os \<Rightarrow> jlong option \<Rightarrow> gfx \<Rightarrow> frame_world \<Rightarrow> fault + frame_world" where
  "Surface_nativeUnlockCanvasAndPost k canvas_obj g w =
     (case canvas_obj of None \<Rightarrow> Inr w
      | Some current \<Rightarrow>
          case muplar_canvas_bitmap current g of None \<Rightarrow> Inr w
          | Some i \<Rightarrow>
              case fk_env k ''MUPLAR_ANDROID_SOFTWARE_FRAME_PATH'' of None \<Rightarrow> Inr w
              | Some path \<Rightarrow> if path = [] then Inr w
                  else rbind (muplar_write_bitmap_frame k (bitmaps g ! i) (Some path) w) (\<lambda>(ok, w). Inr w))"

section \<open>Files and streams\<close>

fun apply_sys :: "(string \<Rightarrow> u8 list option) \<Rightarrow> sys \<Rightarrow> (string \<Rightarrow> u8 list option)" where
  "apply_sys fs (Create p) = fs(p \<mapsto> [])"
| "apply_sys fs (Put (File p) bs) = fs(p := map_option (\<lambda>d. d @ bs) (fs p))"
| "apply_sys fs (Unlink p) = fs(p := None)"
| "apply_sys fs (Rename a b) = fs(b := fs a, a := None)"
| "apply_sys fs _ = fs"

definition fs_after :: "(string \<Rightarrow> u8 list option) \<Rightarrow> sys list \<Rightarrow> (string \<Rightarrow> u8 list option)" where
  "fs_after fs evs = foldl apply_sys fs evs"

definition stream :: "sys list \<Rightarrow> nat \<Rightarrow> u8 list" where
  "stream evs i = concat (map (\<lambda>e. case e of Put (Sock j) bs \<Rightarrow> if j = i then bs else [] | _ \<Rightarrow> []) evs)"

text \<open>An image as the host sees it, its frame, and a reader of frames: the first frame of a stream, if it is
  complete, and the rest.\<close>

type_synonym image = "u32 \<times> u32 \<times> (u8 \<times> u8 \<times> u8) list"

definition frame_of :: "image \<Rightarrow> u8 list" where
  "frame_of im = (case im of (wd, ht, cs) \<Rightarrow> frame_header wd ht (length cs) @ concat (map rgba_px cs))"

definition image_of :: "bitmap_state \<Rightarrow> image" where
  "image_of b = (b_width b, b_height b, map over_grey (the (pixels b)))"

fun triples :: "u8 list \<Rightarrow> (u8 \<times> u8 \<times> u8) list" where
  "triples (r # g # b # a # bs) = (r, g, b) # triples bs"
| "triples _ = []"

definition read_frame :: "u8 list \<Rightarrow> (image \<times> u8 list) option" where
  "read_frame bs =
     (let wd = le_decode (take 4 (drop 4 bs)) :: u32; ht = le_decode (take 4 (drop 8 bs)) :: u32;
          st = le_decode (take 4 (drop 12 bs)) :: u32; n = unat (le_decode (take 8 (drop 16 bs)) :: u64) in
      if 24 \<le> length bs \<and> le_decode (take 4 bs) = frame_magic \<and> st = wd \<and> n = 4 * (unat wd * unat ht) \<and> 24 + n \<le> length bs
      then Some ((wd, ht, triples (take n (drop 24 bs))), drop (24 + n) bs) else None)"

function read_frames :: "u8 list \<Rightarrow> image list \<times> u8 list" where
  "read_frames bs =
     (case read_frame bs of None \<Rightarrow> ([], bs)
      | Some (im, rest) \<Rightarrow> (case read_frames rest of (ims, r) \<Rightarrow> (im # ims, r)))"
  by pat_completeness auto
termination
  by (relation "measure length") (auto simp: read_frame_def Let_def split: if_splits)

declare read_frames.simps [simp del]

section \<open>Writing\<close>

text \<open>What a sequence of writes leaves: all bytes if it succeeds, else a proper beginning of them.\<close>

definition puts :: "sink \<Rightarrow> u8 list \<Rightarrow> bool \<Rightarrow> frame_world \<Rightarrow> frame_world \<Rightarrow> bool" where
  "puts s bs ok w w' \<longleftrightarrow> (\<exists>bss. trace w' = trace w @ map (Put s) bss \<and> prefix (concat bss) bs \<and> (ok \<longleftrightarrow> concat bss = bs)) \<and>
     conns w' = conns w \<and> frame_socket w' = frame_socket w"

lemma call_fields [simp]:
  "trace (call evs w) = trace w @ evs" "conns (call evs w) = conns w" "frame_socket (call evs w) = frame_socket w"
  by (simp_all add: call_def)

lemma write_all_puts: "muplar_write_all k s bs w = (ok, w') \<Longrightarrow> puts s bs ok w w'"
proof (induction k s bs w rule: muplar_write_all.induct)
  case (1 k s bs w)
  let ?n = "fk_write k (tick w) (length bs)"
  consider (nothing) "bs = []" | (fail) "bs \<noteq> []" "?n \<le> 0" | (more) "bs \<noteq> []" "0 < ?n" by linarith
  then show ?case
  proof cases
    case nothing
    then show ?thesis using 1(2) by (auto simp: muplar_write_all.simps [of k s "[]"] puts_def intro: exI [of _ "[]"])
  next
    case fail
    then show ?thesis using 1(2) by (auto simp: muplar_write_all.simps [of k s bs] puts_def Let_def intro: exI [of _ "[]"])
  next
    case more
    then have "puts s (drop (nat ?n) bs) ok (call [Put s (take (nat ?n) bs)] w) w'"
      using 1 by (auto simp: muplar_write_all.simps [of k s bs] Let_def)
    then obtain bss where b: "trace w' = trace w @ map (Put s) (take (nat ?n) bs # bss)" "prefix (concat bss) (drop (nat ?n) bs)"
      "ok \<longleftrightarrow> concat bss = drop (nat ?n) bs" "conns w' = conns w" "frame_socket w' = frame_socket w" by (auto simp: puts_def)
    have "prefix (take (nat ?n) bs @ concat bss) (take (nat ?n) bs @ drop (nat ?n) bs)" using b(2) by (simp only: same_prefix_prefix)
    moreover have "take (nat ?n) bs @ concat bss = bs \<longleftrightarrow> concat bss = drop (nat ?n) bs"
      by (metis append_take_drop_id same_append_eq)
    ultimately show ?thesis using b unfolding puts_def by (intro conjI exI [of _ "take (nat ?n) bs # bss"]) simp_all
  qed
qed

lemma put_both_puts: "put_both k s hdr rgba w = (ok, w') \<Longrightarrow> puts s (hdr @ rgba) ok w w'"
proof -
  assume a: "put_both k s hdr rgba w = (ok, w')"
  obtain ok1 w1 where 1: "muplar_write_all k s hdr w = (ok1, w1)" by force
  note p1 = write_all_puts [OF 1]
  show ?thesis
  proof (cases ok1)
    case True
    then have "puts s rgba ok w1 w'" using a 1 write_all_puts by (simp add: put_both_def)
    then obtain bss where b: "trace w' = trace w1 @ map (Put s) bss" "prefix (concat bss) rgba" "ok \<longleftrightarrow> concat bss = rgba"
      "conns w' = conns w1" "frame_socket w' = frame_socket w1" by (auto simp: puts_def)
    obtain bss1 where "trace w1 = trace w @ map (Put s) bss1" "concat bss1 = hdr" "conns w1 = conns w" "frame_socket w1 = frame_socket w"
      using p1 True by (auto simp: puts_def)
    then show ?thesis using b unfolding puts_def by (intro conjI exI [of _ "bss1 @ bss"]) auto
  next
    case False
    then have [simp]: "ok = False" "w' = w1" using a 1 by (simp_all add: put_both_def)
    obtain bss where b: "trace w1 = trace w @ map (Put s) bss" "prefix (concat bss) hdr" "concat bss \<noteq> hdr" using p1 False by (auto simp: puts_def)
    moreover have "concat bss \<noteq> hdr @ rgba" using b(2,3) by (auto simp: prefix_def)
    ultimately show ?thesis using p1 unfolding puts_def by (auto simp: prefix_prefix)
  qed
qed

section \<open>The file\<close>

definition spares :: "string \<Rightarrow> sys \<Rightarrow> bool" where
  "spares p e \<longleftrightarrow> (\<forall>fs. apply_sys fs e p = fs p)"

lemma spares_simps [simp]:
  "spares p (Connect c)" "spares p (Put (Sock i) bs)" "spares p (CloseSock i)" "spares p (Mkdir d)" "spares p (CloseFile q)"
  "p \<noteq> q \<Longrightarrow> spares p (Put (File q) bs)" "p \<noteq> q \<Longrightarrow> spares p (Create q)" "p \<noteq> q \<Longrightarrow> spares p (Unlink q)"
  "p \<noteq> q \<Longrightarrow> p \<noteq> r \<Longrightarrow> spares p (Rename q r)"
  by (simp_all add: spares_def)

lemma fs_after_simps [simp]:
  "fs_after fs [] = fs" "fs_after fs (e # evs) = fs_after (apply_sys fs e) evs" "fs_after fs (evs @ evs') = fs_after (fs_after fs evs) evs'"
  by (simp_all add: fs_after_def)

lemma fs_after_spared: "\<forall>e \<in> set evs. spares p e \<Longrightarrow> fs_after fs evs p = fs p"
  by (induction evs arbitrary: fs) (auto simp: spares_def)

lemma fs_after_puts: "fs p = Some d \<Longrightarrow> fs_after fs (map (Put (File p)) bss) p = Some (d @ concat bss)"
  by (induction bss arbitrary: fs d) simp_all

text \<open>\<open>replaced f new ok evs\<close>: at every moment, file \<open>f\<close> is the old one or the new one; it is the new one at the end
  if and only if \<open>ok\<close>, and no other file than \<open>f\<close> and its temporary file changes.\<close>

definition replaced :: "string \<Rightarrow> u8 list \<Rightarrow> bool \<Rightarrow> sys list \<Rightarrow> bool" where
  "replaced f new ok evs \<longleftrightarrow>
     (\<forall>fs n. fs_after fs (take n evs) f = fs f \<or> fs_after fs (take n evs) f = Some new) \<and>
     (\<forall>fs. fs_after fs evs f = (if ok then Some new else fs f)) \<and>
     (\<forall>fs p. p \<noteq> f \<longrightarrow> p \<noteq> f @ ''.tmp'' \<longrightarrow> fs_after fs evs p = fs p)"

lemma replaced_spared:
  assumes "\<forall>e \<in> set evs. \<forall>p. p \<noteq> f @ ''.tmp'' \<longrightarrow> spares p e"
  shows "replaced f new False evs"
proof -
  have "fs_after fs (take n evs) f = fs f" for fs n using assms by (intro fs_after_spared) (auto dest: in_set_takeD)
  moreover have "fs_after fs evs p = fs p" if "p \<noteq> f @ ''.tmp''" for fs p using assms that by (intro fs_after_spared) auto
  ultimately show ?thesis by (simp add: replaced_def)
qed

lemma replaced_rename:
  assumes "\<forall>e \<in> set evs. \<forall>p. p \<noteq> f @ ''.tmp'' \<longrightarrow> spares p e" and "\<forall>fs. fs_after fs evs (f @ ''.tmp'') = Some new"
  shows "replaced f new True (evs @ [Rename (f @ ''.tmp'') f])"
proof -
  have tmp: "f \<noteq> f @ ''.tmp''" by simp
  have "fs_after fs (take n evs) f = fs f" for fs n using assms(1) tmp by (intro fs_after_spared) (auto dest: in_set_takeD)
  moreover have "fs_after fs evs p = fs p" if "p \<noteq> f @ ''.tmp''" for fs p using assms(1) that by (intro fs_after_spared) auto
  ultimately show ?thesis using assms(2) tmp unfolding replaced_def by (auto simp: take_Cons' simp del: tmp)
qed

lemma replaced_before:
  assumes "\<forall>e \<in> set evs. \<forall>p. spares p e" and "replaced f new ok evs'"
  shows "replaced f new ok (evs @ evs')"
proof -
  have "fs_after fs (take n evs) = fs" for fs n using assms(1) by (intro ext fs_after_spared) (auto dest: in_set_takeD)
  moreover have "fs_after fs evs = fs" for fs using assms(1) by (intro ext fs_after_spared) auto
  ultimately show ?thesis using assms(2) by (auto simp: replaced_def)
qed

lemma ensure_parent_dir_events:
  "\<exists>evs. trace (muplar_ensure_parent_dir path w) = trace w @ evs \<and> (\<forall>e \<in> set evs. \<exists>d. e = Mkdir d) \<and>
     conns (muplar_ensure_parent_dir path w) = conns w \<and> frame_socket (muplar_ensure_parent_dir path w) = frame_socket w"
  by (auto simp: muplar_ensure_parent_dir_def Let_def)

text \<open>Events of the file leave the streams alone, and those of the socket leave the files alone.\<close>

lemma stream_simps [simp]:
  "stream [] i = []" "stream (evs @ evs') i = stream evs i @ stream evs' i"
  "stream (map (Put (Sock j)) bss) i = (if j = i then concat bss else [])"
  by (induction bss) (simp_all add: stream_def)

definition file_event :: "sys \<Rightarrow> bool" where
  "file_event e \<longleftrightarrow> (case e of Put (Sock i) bs \<Rightarrow> False | _ \<Rightarrow> True)"

lemma stream_file_events: "\<forall>e \<in> set evs. file_event e \<Longrightarrow> stream evs i = []"
  by (induction evs) (auto simp: stream_def file_event_def split: sys.splits sink.splits)

lemma write_file_events:
  assumes "write_file k hdr rgba path w = (ok, w')"
  shows "\<exists>evs. trace w' = trace w @ evs \<and> replaced (frame_file_path path) (hdr @ rgba) ok evs \<and> (\<forall>e \<in> set evs. file_event e) \<and>
    conns w' = conns w \<and> frame_socket w' = frame_socket w"
proof -
  let ?f = "frame_file_path path" let ?tmp = "?f @ ''.tmp''"
  let ?w1 = "muplar_ensure_parent_dir ?tmp w"
  obtain mk where mk: "trace ?w1 = trace w @ mk" "\<forall>e \<in> set mk. \<exists>d. e = Mkdir d" "conns ?w1 = conns w" "frame_socket ?w1 = frame_socket w"
    using ensure_parent_dir_events by blast
  have none: "replaced ?f (hdr @ rgba) False evs" if "\<forall>e \<in> set evs. \<forall>p. p \<noteq> ?tmp \<longrightarrow> spares p e" for evs
    using that by (rule replaced_spared)
  consider (long) "512 \<le> length ?f + 5" | (unopened) "length ?f + 5 < 512" "\<not> fk_open k (tick ?w1)" | (opened) "length ?f + 5 < 512" "fk_open k (tick ?w1)"
    by linarith
  then show ?thesis
  proof cases
    case long
    then show ?thesis using assms none [of "[]"] by (simp add: write_file_def Let_def)
  next
    case unopened
    then have "ok = False" "w' = call [] ?w1" using assms by (simp_all add: write_file_def Let_def)
    moreover have "\<forall>e \<in> set mk. \<forall>p. p \<noteq> ?tmp \<longrightarrow> spares p e" "\<forall>e \<in> set mk. file_event e" using mk(2) by (auto simp: file_event_def)
    ultimately show ?thesis using mk none [of mk] by simp
  next
    case opened
    obtain ok2 w2 where 2: "put_both k (File ?tmp) hdr rgba (call [Create ?tmp] ?w1) = (ok2, w2)" by force
    obtain bss where b: "trace w2 = trace w @ mk @ [Create ?tmp] @ map (Put (File ?tmp)) bss" "ok2 \<longleftrightarrow> concat bss = hdr @ rgba"
      "conns w2 = conns w" "frame_socket w2 = frame_socket w"
      using put_both_puts [OF 2] mk by (auto simp: puts_def)
    define evs where "evs = mk @ [Create ?tmp] @ map (Put (File ?tmp)) bss @ [CloseFile ?tmp]"
    have sp: "\<forall>e \<in> set evs. \<forall>p. p \<noteq> ?tmp \<longrightarrow> spares p e" and fe: "\<forall>e \<in> set evs. file_event e"
      using mk(2) by (auto simp: evs_def file_event_def)
    have tmp: "fs_after fs evs ?tmp = Some (concat bss)" for fs
      using fs_after_puts [of "(fs_after fs mk)(?tmp \<mapsto> [])" ?tmp "[]" bss] by (simp add: evs_def)
    have w: "(ok, w') = (if \<not> ok2 then (False, call [Unlink ?tmp] (call [CloseFile ?tmp] w2))
        else if fk_rename k (tick (call [CloseFile ?tmp] w2)) then (True, call [Rename ?tmp ?f] (call [CloseFile ?tmp] w2))
        else (False, call [] (call [CloseFile ?tmp] w2)))"
      using assms opened 2 by (simp add: write_file_def Let_def)
    have tr: "trace (call [CloseFile ?tmp] w2) = trace w @ evs" by (simp add: b evs_def)
    consider (bad) "\<not> ok2" | (kept) "ok2" "ok = False" "w' = call [] (call [CloseFile ?tmp] w2)"
      | (renamed) "ok2" "ok = True" "w' = call [Rename ?tmp ?f] (call [CloseFile ?tmp] w2)" using w by (metis prod.inject)
    then show ?thesis
    proof cases
      case bad
      then have "ok = False" "w' = call [Unlink ?tmp] (call [CloseFile ?tmp] w2)" using w by simp_all
      moreover have "replaced ?f (hdr @ rgba) False (evs @ [Unlink ?tmp])" using sp by (intro none) auto
      ultimately show ?thesis using tr fe b by (intro exI [of _ "evs @ [Unlink ?tmp]"]) (simp add: file_event_def)
    next
      case kept
      then show ?thesis using tr fe b none [OF sp] by (intro exI [of _ evs]) simp
    next
      case renamed
      then have "replaced ?f (hdr @ rgba) True (evs @ [Rename ?tmp ?f])" using sp tmp b(2) by (intro replaced_rename) auto
      then show ?thesis using renamed tr fe b by (intro exI [of _ "evs @ [Rename ?tmp ?f]"]) (simp add: file_event_def)
    qed
  qed
qed

section \<open>Sockets\<close>

lemma get_frame_socket_cases:
  assumes "muplar_get_frame_socket k w = (r, w')"
  shows "(r = None \<and> frame_socket w = None \<and> trace w' = trace w \<and> conns w' = conns w \<and> frame_socket w' = None) \<or>
    (\<exists>i. r = Some i \<and> frame_socket w = Some i \<and> w' = w) \<or>
    (\<exists>c. r = Some (conns w) \<and> frame_socket w = None \<and> trace w' = trace w @ [Connect c] \<and> conns w' = conns w + 1 \<and>
       frame_socket w' = Some (conns w))"
  using assms by (auto simp: muplar_get_frame_socket_def Let_def split: option.splits if_splits)

definition valid_image :: "image \<Rightarrow> bool" where
  "valid_image im \<longleftrightarrow> (case im of (wd, ht, cs) \<Rightarrow> length cs = unat wd * unat ht \<and> 4 * length cs < 2 ^ 64)"

text \<open>What the connections have received: frames of a subsequence of the images, in order; more than that only on a
  connection that is closed.\<close>

definition received :: "image list \<Rightarrow> frame_world \<Rightarrow> nat \<Rightarrow> bool" where
  "received ims w i \<longleftrightarrow> (\<exists>frs part. stream (trace w) i = concat (map frame_of frs) @ part \<and> subseq frs ims \<and>
     (part = [] \<or> frame_socket w \<noteq> Some i \<and> (\<exists>im. valid_image im \<and> strict_prefix part (frame_of im))) \<and>
     (conns w \<le> i \<longrightarrow> stream (trace w) i = []))"

definition streams_ok :: "image list \<Rightarrow> frame_world \<Rightarrow> bool" where
  "streams_ok ims w \<longleftrightarrow> (\<forall>i. received ims w i) \<and> (\<forall>i. frame_socket w = Some i \<longrightarrow> i < conns w)"

lemma received_more:
  assumes "received ims w i" and "stream (trace w') i = stream (trace w) i" and "conns w \<le> conns w'"
    and "frame_socket w' = Some i \<Longrightarrow> frame_socket w = Some i \<or> conns w \<le> i"
  shows "received (ims @ ims') w' i"
proof -
  obtain frs part where "stream (trace w) i = concat (map frame_of frs) @ part" "subseq frs ims"
    "part = [] \<or> frame_socket w \<noteq> Some i \<and> (\<exists>im. valid_image im \<and> strict_prefix part (frame_of im))" "conns w \<le> i \<longrightarrow> stream (trace w) i = []"
    using assms(1) unfolding received_def by blast
  then show ?thesis using assms(2-4) unfolding received_def
    by (intro exI [of _ frs] exI [of _ part]) (auto intro: list_emb_append2 dest: subseq_order.trans)
qed

lemma get_frame_socket_streams:
  assumes "streams_ok ims w" and "muplar_get_frame_socket k w = (r, w')"
  shows "streams_ok ims w'" "frame_socket w' = r"
proof -
  note c = get_frame_socket_cases [OF assms(2)]
  have st: "stream (trace w') i = stream (trace w) i" for i using c by (auto simp: stream_def)
  have "received (ims @ []) w' i" for i
    using assms(1) c by (intro received_more [OF _ st]) (auto simp: streams_ok_def)
  then show "streams_ok ims w'" using assms(1) c by (auto simp: streams_ok_def)
  show "frame_socket w' = r" using c by auto
qed

lemma stream_close: "stream [CloseSock i] j = []"
  by (simp add: stream_def)

text \<open>The frame on the socket: complete, or the connection is closed.\<close>

lemma socket_streams:
  assumes ok: "streams_ok ims w" and i: "frame_socket w = Some i" and im: "valid_image im" "frame_of im = hdr @ rgba"
    and put: "put_both k (Sock i) hdr rgba w = (sent, w1)"
    and w2: "w2 = (if sent then w1 else (call [CloseSock i] w1)\<lparr>frame_socket := None\<rparr>)"
  shows "streams_ok (ims @ [im]) w2"
proof -
  obtain bss where b: "trace w1 = trace w @ map (Put (Sock i)) bss" "prefix (concat bss) (frame_of im)" "sent \<longleftrightarrow> concat bss = frame_of im"
    "conns w1 = conns w" "frame_socket w1 = frame_socket w"
    using put_both_puts [OF put] im(2) by (auto simp: puts_def)
  have tr: "trace w2 = trace w @ map (Put (Sock i)) bss @ (if sent then [] else [CloseSock i])" using b(1) by (simp add: w2)
  then have st: "stream (trace w2) j = stream (trace w) j @ (if j = i then concat bss else [])" for j
    by (cases sent) (simp_all add: stream_close)
  have "received (ims @ [im]) w2 j" for j
  proof (cases "j = i")
    case True
    obtain frs where f: "stream (trace w) i = concat (map frame_of frs)" "subseq frs ims"
      using ok i unfolding streams_ok_def received_def by (metis append_Nil2)
    have "i < conns w" using ok i by (simp add: streams_ok_def)
    moreover have "subseq (frs @ [im]) (ims @ [im])" "subseq frs (ims @ [im])" using f(2) list_emb_append_mono [OF f(2), of "[]" "[im]"] by (simp_all add: subseq_append)
    moreover have "stream (trace w2) i = concat (map frame_of frs) @ concat bss" using st f(1) by simp
    moreover have "conns w2 = conns w" "\<not> sent \<Longrightarrow> frame_socket w2 = None" "\<not> sent \<Longrightarrow> strict_prefix (concat bss) (frame_of im)"
      using b by (simp_all add: w2 strict_prefix_def)
    ultimately show ?thesis unfolding received_def True using im(1) b(3)
      by (cases sent) (intro exI [of _ "frs @ [im]"] exI [of _ "[]"], simp, intro exI [of _ frs] exI [of _ "concat bss"], auto simp del: split_paired_Ex)
  next
    case False
    moreover have "received ims w j" using ok by (simp add: streams_ok_def)
    moreover have "stream (trace w2) j = stream (trace w) j" using st [of j] False by simp
    moreover have "conns w2 = conns w" "frame_socket w2 \<noteq> Some j" using b(4,5) i False by (auto simp: w2)
    ultimately show ?thesis by (intro received_more [of ims w]) auto
  qed
  then show "streams_ok (ims @ [im]) w2" using ok b(4,5) by (auto simp: streams_ok_def w2)
qed

lemma streams_ok_file:
  assumes "streams_ok ims w" and "trace w' = trace w @ evs" and "\<forall>e \<in> set evs. file_event e" and "conns w' = conns w" and "frame_socket w' = frame_socket w"
  shows "streams_ok (ims @ ims') w'"
proof -
  have "stream (trace w') i = stream (trace w) i" for i using assms(2) stream_file_events [OF assms(3)] by simp
  then have "received (ims @ ims') w' i" for i using assms by (intro received_more [of ims w]) (auto simp: streams_ok_def)
  then show ?thesis using assms by (simp add: streams_ok_def)
qed

text \<open>The first half of \<open>put_frame\<close>.\<close>

definition put_socket :: "frame_os \<Rightarrow> u8 list \<Rightarrow> u8 list \<Rightarrow> frame_world \<Rightarrow> bool \<times> frame_world" where
  "put_socket k hdr rgba w =
     (case muplar_get_frame_socket k w of
        (None, w) \<Rightarrow> (False, w)
      | (Some i, w) \<Rightarrow>
          case put_both k (Sock i) hdr rgba w of (ok, w) \<Rightarrow>
            if ok then (True, w) else (False, (call [CloseSock i] w)\<lparr>frame_socket := None\<rparr>))"

lemma put_frame_cases:
  assumes "put_frame k hdr rgba path w = (r, w')"
  obtains sent w1 where "put_socket k hdr rgba w = (sent, w1)" "path = None \<or> path = Some []" "r = sent" "w' = w1"
    | sent w1 p where "put_socket k hdr rgba w = (sent, w1)" "path = Some p" "p \<noteq> []" "write_file k hdr rgba p w1 = (r, w')"
  using assms unfolding put_frame_def put_socket_def [symmetric] Let_def by (auto split: prod.splits option.splits if_splits)

lemma put_socket_spares:
  assumes "put_socket k hdr rgba w = (sent, w')"
  shows "\<exists>evs. trace w' = trace w @ evs \<and> (\<forall>e \<in> set evs. \<forall>p. spares p e)"
proof -
  obtain s w1 where 1: "muplar_get_frame_socket k w = (s, w1)" by force
  obtain evs where e: "trace w1 = trace w @ evs" "\<forall>e \<in> set evs. \<forall>p. spares p e" using get_frame_socket_cases [OF 1] by auto
  show ?thesis
  proof (cases s)
    case None
    then show ?thesis using assms 1 e by (auto simp: put_socket_def)
  next
    case (Some i)
    obtain ok w2 where 2: "put_both k (Sock i) hdr rgba w1 = (ok, w2)" by force
    obtain bss where "trace w2 = trace w1 @ map (Put (Sock i)) bss" using put_both_puts [OF 2] by (auto simp: puts_def)
    then show ?thesis using assms 1 2 Some e by (auto simp: put_socket_def split: if_splits)
  qed
qed

lemma put_frame_file:
  assumes "put_frame k hdr rgba (Some p) w = (r, w')" and "p \<noteq> []"
  shows "\<exists>evs. trace w' = trace w @ evs \<and> replaced (frame_file_path p) (hdr @ rgba) r evs"
proof -
  obtain sent w1 where 1: "put_socket k hdr rgba w = (sent, w1)" and 2: "write_file k hdr rgba p w1 = (r, w')"
    using put_frame_cases [OF assms(1)] assms(2) by (metis option.discI option.inject)
  show ?thesis using put_socket_spares [OF 1] write_file_events [OF 2] replaced_before by fastforce
qed

lemma put_frame_streams:
  assumes ok: "streams_ok ims w" and im: "valid_image im" "frame_of im = hdr @ rgba" and put: "put_frame k hdr rgba path w = (r, w')"
  shows "streams_ok (ims @ [im]) w'"
proof -
  have sock: "streams_ok (ims @ [im]) w1" if "put_socket k hdr rgba w = (sent, w1)" for sent w1
  proof -
    obtain s w0 where 0: "muplar_get_frame_socket k w = (s, w0)" by force
    note g = get_frame_socket_streams [OF ok 0]
    show ?thesis
    proof (cases s)
      case None
      then show ?thesis using that 0 streams_ok_file [OF g(1), of w0 "[]" "[im]"] by (simp add: put_socket_def)
    next
      case (Some i)
      then show ?thesis using that 0 socket_streams [OF g(1) _ im, of i k] g(2) by (fastforce simp: put_socket_def split: prod.splits if_splits)
    qed
  qed
  show ?thesis
  proof (rule put_frame_cases [OF put])
    fix sent w1 p assume "put_socket k hdr rgba w = (sent, w1)" "write_file k hdr rgba p w1 = (r, w')"
    then show ?thesis using streams_ok_file [of "ims @ [im]" w1 w' _ "[]"] sock write_file_events by (metis append_Nil2)
  qed (use sock in auto)
qed

section \<open>Reading\<close>

lemma length_frame_header [simp]: "length (frame_header wd ht n) = 24"
  by (simp add: frame_header_def)

lemma length_rgba [simp]: "length (concat (map rgba_px cs)) = 4 * length cs"
  by (induction cs) (auto simp: rgba_px_def)

lemma triples_rgba: "triples (concat (map rgba_px cs)) = cs"
  by (induction cs) (auto simp: rgba_px_def)

lemma length_frame_of: "length (frame_of (wd, ht, cs)) = 24 + 4 * length cs"
  by (simp add: frame_of_def)

text \<open>The fields of a header, in front of anything.\<close>

lemma header_fields:
  assumes "bs = frame_header wd ht n @ rest"
  shows "take 4 bs = le_encode 4 frame_magic" "take 4 (drop 4 bs) = le_encode 4 wd" "take 4 (drop 8 bs) = le_encode 4 ht"
    "take 4 (drop 12 bs) = le_encode 4 wd" "take 8 (drop 16 bs) = le_encode 8 (of_nat (n * 4) :: u64)"
  by (simp_all add: assms frame_header_def del: le_encode_numeral)

lemma read_frame_header:
  assumes im: "valid_image (wd, ht, cs)" and bs: "bs = frame_header wd ht (length cs) @ rest"
  shows "read_frame bs = (if 4 * length cs \<le> length rest then Some ((wd, ht, triples (take (4 * length cs) rest)), drop (4 * length cs) rest) else None)"
proof -
  have "unat (of_nat (length cs * 4) :: u64) = 4 * (unat wd * unat ht)"
    using im by (simp only: unsigned_of_nat) (simp add: valid_image_def take_bit_nat_eq_self mult.commute)
  moreover have "length cs = unat wd * unat ht" using im by (simp add: valid_image_def)
  ultimately show ?thesis
    using header_fields [OF bs] by (simp add: read_frame_def Let_def del: le_decode.simps le_encode_numeral) (simp add: bs)
qed

lemma read_frame_of: "valid_image im \<Longrightarrow> read_frame (frame_of im @ rest) = Some (im, rest)"
proof -
  obtain wd ht cs where im: "im = (wd, ht, cs)" by (cases im)
  assume "valid_image im"
  then have v: "valid_image (wd, ht, cs)" by (simp add: im)
  have b: "frame_of im @ rest = frame_header wd ht (length cs) @ (concat (map rgba_px cs) @ rest)" by (simp add: im frame_of_def)
  show ?thesis using read_frame_header [OF v b] by (simp add: im triples_rgba)
qed

lemma read_frame_part:
  assumes "valid_image im" and "strict_prefix part (frame_of im)"
  shows "read_frame part = None"
proof (cases "length part < 24")
  case False
  obtain wd ht cs where im: "im = (wd, ht, cs)" by (cases im)
  obtain zs where zs: "frame_of im = part @ zs" "zs \<noteq> []" using assms(2) by (auto simp: strict_prefix_def prefix_def)
  have "frame_header wd ht (length cs) @ concat (map rgba_px cs) = part @ zs" using zs(1) by (simp add: im frame_of_def)
  then have sp: "frame_header wd ht (length cs) = take 24 part" "concat (map rgba_px cs) = drop 24 part @ zs"
    using False by (simp_all add: append_eq_append_conv_if)
  have part: "part = frame_header wd ht (length cs) @ drop 24 part" unfolding sp(1) by simp
  have "length (drop 24 part) + length zs = 4 * length cs" using arg_cong [OF sp(2), of length] by simp
  moreover have "0 < length zs" using zs(2) by simp
  ultimately have "\<not> 4 * length cs \<le> length (drop 24 part)" by linarith
  then show ?thesis using read_frame_header [OF _ part] assms(1) by (simp add: im)
qed (simp add: read_frame_def Let_def)

lemma read_frame_nil: "read_frame [] = None"
  by (simp add: read_frame_def)

lemma read_frames_stream:
  assumes "\<forall>im \<in> set ims. valid_image im" and "read_frame part = None"
  shows "read_frames (concat (map frame_of ims) @ part) = (ims, part)"
  using assms(1)
proof (induction ims)
  case Nil
  then show ?case using assms(2) by (simp add: read_frames.simps [of part])
next
  case (Cons im ims)
  then show ?case using read_frame_of [of im] by (simp add: read_frames.simps [of "frame_of im @ bs" for bs])
qed

lemma image_of_valid:
  assumes "bitmap_ok b"
  shows "valid_image (image_of b)" "length (the (pixels b)) = px_count b"
    and "frame_of (image_of b) = frame_header (b_width b) (b_height b) (px_count b) @ concat (map (\<lambda>p. rgba_px (over_grey p)) (the (pixels b)))"
proof -
  obtain ps where ps: "pixels b = Some ps" "int (length ps) = bw b * bh b" and pos: "0 < bw b" "0 < bh b" using assms by (auto simp: bitmap_ok_def)
  show c: "length (the (pixels b)) = px_count b" using px_count_ok [OF assms ps(1)] ps(1) by simp
  have u: "unat (b_width b) = nat (bw b)" "unat (b_height b) = nat (bh b)" using pos unat_pos_sint by blast+
  have "bw b < 2 ^ 31" "bh b < 2 ^ 31" using sint_lt [of "b_width b"] sint_lt [of "b_height b"] by simp_all
  then have "bw b * bh b < 2 ^ 31 * 2 ^ 31" using pos by (intro mult_strict_mono) auto
  then have "int (4 * length ps) < int (2 ^ 64)" using ps(2) by (simp add: mult.commute)
  then have "4 * length ps < 2 ^ 64" by (simp only: of_nat_less_iff)
  moreover have "length ps = unat (b_width b) * unat (b_height b)" using ps(2) pos unfolding u by (simp flip: nat_mult_distrib)
  ultimately show "valid_image (image_of b)" by (simp add: valid_image_def image_of_def ps mult.commute)
  show "frame_of (image_of b) = frame_header (b_width b) (b_height b) (px_count b) @ concat (map (\<lambda>p. rgba_px (over_grey p)) (the (pixels b)))"
    using c by (simp add: frame_of_def image_of_def comp_def)
qed

section \<open>Frames of bitmaps\<close>

definition frame_start :: frame_world where
  "frame_start = \<lparr>tick = 0, trace = [], conns = 0, frame_socket = None\<rparr>"

text \<open>A sequence of calls, each with a bitmap and a path.\<close>

definition write_frames :: "frame_os \<Rightarrow> (bitmap_state \<times> string option) list \<Rightarrow> frame_world \<Rightarrow> fault + frame_world" where
  "write_frames k = foldM (\<lambda>(b, path) w. rbind (muplar_write_bitmap_frame k b path w) (\<lambda>(ok, w). Inr w))"

lemma write_bitmap_frame_eq:
  assumes "bitmap_ok b" and "fk_alloc k (px_count b * 4)"
  shows "muplar_write_bitmap_frame k b path w =
    Inr (put_frame k (frame_header (b_width b) (b_height b) (px_count b)) (concat (map (\<lambda>p. rgba_px (over_grey p)) (the (pixels b)))) path w)"
proof -
  obtain ps where ps: "pixels b = Some ps" using assms(1) by (auto simp: bitmap_ok_def)
  then have "peek ps 0 (px_count b) = Inr ps" using image_of_valid(2) [OF assms(1)] by (simp add: peek_def)
  then show ?thesis using ps assms(2) by (simp add: muplar_write_bitmap_frame_def Let_def)
qed

lemma write_bitmap_frame_no_memory: "\<not> fk_alloc k (px_count b * 4) \<Longrightarrow> muplar_write_bitmap_frame k b path w = Inr (False, w)"
  by (simp add: muplar_write_bitmap_frame_def split: option.split)

lemma write_bitmap_frame_streams:
  assumes b: "bitmap_ok b" and st: "streams_ok ims w"
  shows "\<exists>ok w'. muplar_write_bitmap_frame k b path w = Inr (ok, w') \<and> streams_ok (ims @ [image_of b]) w'"
proof (cases "fk_alloc k (px_count b * 4)")
  case True
  obtain ok w' where put: "put_frame k (frame_header (b_width b) (b_height b) (px_count b)) (concat (map (\<lambda>p. rgba_px (over_grey p)) (the (pixels b)))) path w = (ok, w')" by force
  then show ?thesis using write_bitmap_frame_eq [OF b True] put_frame_streams [OF st image_of_valid(1,3) [OF b] put] by auto
next
  case False
  then show ?thesis using write_bitmap_frame_no_memory streams_ok_file [OF st, of w "[]" "[image_of b]"] by auto
qed

lemma write_bitmap_frame_file:
  assumes b: "bitmap_ok b" and "path \<noteq> []"
  shows "\<exists>ok w' evs. muplar_write_bitmap_frame k b (Some path) w = Inr (ok, w') \<and> trace w' = trace w @ evs \<and>
    replaced (frame_file_path path) (frame_of (image_of b)) ok evs"
proof (cases "fk_alloc k (px_count b * 4)")
  case True
  obtain ok w' where put: "put_frame k (frame_header (b_width b) (b_height b) (px_count b)) (concat (map (\<lambda>p. rgba_px (over_grey p)) (the (pixels b)))) (Some path) w = (ok, w')" by force
  then show ?thesis using write_bitmap_frame_eq [OF b True] put_frame_file [OF put assms(2)] image_of_valid(3) [OF b] by auto
next
  case False
  have "replaced f new False []" for f new by (rule replaced_spared) simp
  then show ?thesis using False write_bitmap_frame_no_memory by auto
qed

text \<open>C30: Writing the frame of a bitmap with a path replaces the file atomically: whatever the kernel does (short writes,
  errors of any call), at every moment of the sequence of system calls the file is either the old one or a
  complete frame that a reader decodes to the size and to the pixels of the bitmap on the grey background; it
  is the new one at the end if and only if the function reports success. No file besides it and its temporary
  file changes, and no pixel outside of the array is read.\<close>

theorem frame_file_atomic:
  assumes "bitmap_ok b" and "path \<noteq> []"
  shows "\<exists>ok w' evs new. muplar_write_bitmap_frame k b (Some path) w = Inr (ok, w') \<and> trace w' = trace w @ evs \<and>
    read_frame new = Some ((b_width b, b_height b, map over_grey (the (pixels b))), []) \<and>
    (\<forall>fs n. fs_after fs (take n evs) (frame_file_path path) = fs (frame_file_path path) \<or>
       fs_after fs (take n evs) (frame_file_path path) = Some new) \<and>
    (\<forall>fs. fs_after fs evs (frame_file_path path) = (if ok then Some new else fs (frame_file_path path))) \<and>
    (\<forall>fs p. p \<noteq> frame_file_path path \<and> p \<noteq> frame_file_path path @ ''.tmp'' \<longrightarrow> fs_after fs evs p = fs p)"
proof -
  obtain ok w' evs where 1: "muplar_write_bitmap_frame k b (Some path) w = Inr (ok, w')" "trace w' = trace w @ evs"
    and 2: "replaced (frame_file_path path) (frame_of (image_of b)) ok evs"
    using write_bitmap_frame_file [OF assms] by blast
  have "read_frame (frame_of (image_of b)) = Some (image_of b, [])" using read_frame_of [OF image_of_valid(1) [OF assms(1)], of "[]"] by simp
  then show ?thesis using 1 2
    by (intro exI [of _ ok] exI [of _ w'] exI [of _ evs] exI [of _ "frame_of (image_of b)"]) (simp add: replaced_def image_of_def)
qed

text \<open>What a reader of a connection sees.\<close>

definition valid_images :: "image list \<Rightarrow> bool" where
  "valid_images ims \<longleftrightarrow> (\<forall>im \<in> set ims. valid_image im)"

lemma received_read:
  assumes "received ims w i" and "valid_images ims"
  shows "\<exists>frs rest. read_frames (stream (trace w) i) = (frs, rest) \<and> stream (trace w) i = concat (map frame_of frs) @ rest \<and> valid_images frs \<and>
    subseq frs ims \<and> (rest \<noteq> [] \<longrightarrow> frame_socket w \<noteq> Some i) \<and> (conns w \<le> i \<longrightarrow> rest = [])"
proof -
  obtain frs part where f: "stream (trace w) i = concat (map frame_of frs) @ part" "subseq frs ims"
    "part = [] \<or> frame_socket w \<noteq> Some i \<and> (\<exists>im. valid_image im \<and> strict_prefix part (frame_of im))"
    "conns w \<le> i \<longrightarrow> stream (trace w) i = []"
    using assms(1) unfolding received_def by metis
  have "read_frame part = None" using f(3) read_frame_part read_frame_nil by metis
  moreover have "valid_images frs" using assms(2) list_emb_set [OF f(2)] unfolding valid_images_def by metis
  ultimately show ?thesis using f read_frames_stream [of frs part] by (auto simp: valid_images_def)
qed

lemma put_socket_sent:
  assumes "put_socket k hdr rgba w = (True, w')"
  shows "\<exists>i. frame_socket w' = Some i \<and> stream (trace w') i = stream (trace w) i @ hdr @ rgba \<and> (frame_socket w = Some i \<or> conns w \<le> i)"
proof -
  obtain s w1 where 1: "muplar_get_frame_socket k w = (s, w1)" by force
  then obtain i where s: "s = Some i" using assms by (cases s) (auto simp: put_socket_def)
  have c: "frame_socket w1 = Some i" "frame_socket w = Some i \<or> conns w \<le> i" "stream (trace w1) i = stream (trace w) i"
    using get_frame_socket_cases [OF 1] s by (auto simp: stream_def)
  have "put_both k (Sock i) hdr rgba w1 = (True, w')" using assms 1 s by (auto simp: put_socket_def split: prod.splits if_splits)
  then obtain bss where "trace w' = trace w1 @ map (Put (Sock i)) bss" "concat bss = hdr @ rgba" "frame_socket w' = frame_socket w1"
    using put_both_puts by (fastforce simp: puts_def)
  then show ?thesis using c by (intro exI [of _ i]) simp
qed

text \<open>A frame that was sent without a path is the last one its connection has received.\<close>

lemma sent_frame_received:
  assumes b: "bitmap_ok b" and st: "streams_ok ims w" "valid_images ims" and sent: "muplar_write_bitmap_frame k b None w = Inr (True, w')"
  shows "\<exists>i frs. frame_socket w' = Some i \<and> fst (read_frames (stream (trace w) i)) = frs \<and> read_frames (stream (trace w') i) = (frs @ [image_of b], [])"
proof -
  note im = image_of_valid [OF b]
  have "fk_alloc k (px_count b * 4)" using sent write_bitmap_frame_no_memory by fastforce
  then have "put_frame k (frame_header (b_width b) (b_height b) (px_count b)) (concat (map (\<lambda>p. rgba_px (over_grey p)) (the (pixels b)))) None w = (True, w')"
    using sent write_bitmap_frame_eq [OF b] by simp
  then have "put_socket k (frame_header (b_width b) (b_height b) (px_count b)) (concat (map (\<lambda>p. rgba_px (over_grey p)) (the (pixels b)))) w = (True, w')"
    by (rule put_frame_cases) simp_all
  then obtain i where i: "frame_socket w' = Some i" "stream (trace w') i = stream (trace w) i @ frame_of (image_of b)" "frame_socket w = Some i \<or> conns w \<le> i"
    using put_socket_sent unfolding im(3) by blast
  obtain frs where f: "read_frames (stream (trace w) i) = (frs, [])" "stream (trace w) i = concat (map frame_of frs)" "valid_images frs"
  proof -
    have "received ims w i" using st(1) unfolding streams_ok_def by blast
    then obtain frs rest where "read_frames (stream (trace w) i) = (frs, rest)" "stream (trace w) i = concat (map frame_of frs) @ rest" "valid_images frs"
      "rest \<noteq> [] \<longrightarrow> frame_socket w \<noteq> Some i" "conns w \<le> i \<longrightarrow> rest = []" using received_read st(2) by blast
    moreover from this have "rest = []" using i(3) by blast
    ultimately show thesis using that by simp
  qed
  have "read_frames (stream (trace w') i) = (frs @ [image_of b], [])"
    using read_frames_stream [of "frs @ [image_of b]" "[]"] f(2,3) i(2) im(1) by (simp add: valid_images_def read_frame_nil)
  then show ?thesis using i(1) f(1) by (intro exI [of _ i]) simp
qed

lemma write_frames_ok:
  assumes "\<forall>(b, path) \<in> set calls. bitmap_ok b"
  shows "\<exists>w. write_frames k calls frame_start = Inr w \<and> streams_ok (map (image_of \<circ> fst) calls) w" and "valid_images (map (image_of \<circ> fst) calls)"
proof -
  show "\<exists>w. write_frames k calls frame_start = Inr w \<and> streams_ok (map (image_of \<circ> fst) calls) w" using assms
  proof (induction calls rule: rev_induct)
    case Nil
    have "received [] frame_start i" for i unfolding received_def by (intro exI [of _ "[]"]) (simp add: frame_start_def)
    moreover have "frame_socket frame_start \<noteq> Some i" for i by (simp add: frame_start_def)
    ultimately have "streams_ok [] frame_start" unfolding streams_ok_def by (intro conjI allI) simp_all
    then show ?case by (simp add: write_frames_def)
  next
    case (snoc c calls)
    obtain b path where c: "c = (b, path)" by force
    obtain w where w: "write_frames k calls frame_start = Inr w" "streams_ok (map (image_of \<circ> fst) calls) w"
      using snoc.IH snoc.prems unfolding set_append by blast
    have "bitmap_ok b" using snoc(2) c by simp
    then obtain ok w' where "muplar_write_bitmap_frame k b path w = Inr (ok, w')" "streams_ok (map (image_of \<circ> fst) calls @ [image_of b]) w'"
      using write_bitmap_frame_streams [OF _ w(2)] by blast
    then show ?case using w(1) by (simp add: write_frames_def foldM_append c comp_def)
  qed
  show "valid_images (map (image_of \<circ> fst) calls)" using assms image_of_valid(1) by (fastforce simp: valid_images_def)
qed

text \<open>C31: However the kernel cuts the writes and whichever calls fail, after any sequence of frames written from the
  start on, every connection to the host has received complete frames, those of a subsequence of the bitmaps in
  their order; an incomplete frame follows them only on a connection that is closed. When writing one more
  frame without a path reports success, the reader of the open connection gets it as its last frame.\<close>

theorem frame_streams:
  assumes "\<forall>(b, path) \<in> set calls. bitmap_ok b" and "bitmap_ok c"
  shows "\<exists>w. write_frames k calls frame_start = Inr w \<and>
    (\<forall>i. \<exists>ims rest. read_frames (stream (trace w) i) = (ims, rest) \<and>
       subseq ims (map (\<lambda>(b, path). (b_width b, b_height b, map over_grey (the (pixels b)))) calls) \<and>
       (rest \<noteq> [] \<longrightarrow> frame_socket w \<noteq> Some i)) \<and>
    (\<forall>w'. muplar_write_bitmap_frame k c None w = Inr (True, w') \<longrightarrow>
       (\<exists>i ims. frame_socket w' = Some i \<and> fst (read_frames (stream (trace w) i)) = ims \<and>
          read_frames (stream (trace w') i) = (ims @ [(b_width c, b_height c, map over_grey (the (pixels c)))], [])))"
proof -
  obtain w where w: "write_frames k calls frame_start = Inr w" "streams_ok (map (image_of \<circ> fst) calls) w" and v: "valid_images (map (image_of \<circ> fst) calls)"
    using write_frames_ok [OF assms(1)] by blast
  have eq: "map (image_of \<circ> fst) calls = map (\<lambda>(b, path). (b_width b, b_height b, map over_grey (the (pixels b)))) calls"
    by (simp add: image_of_def split_beta comp_def)
  have "\<exists>ims rest. read_frames (stream (trace w) i) = (ims, rest) \<and> subseq ims (map (image_of \<circ> fst) calls) \<and> (rest \<noteq> [] \<longrightarrow> frame_socket w \<noteq> Some i)" for i
    using received_read [OF _ v, of w i] w(2) unfolding streams_ok_def by blast
  then show ?thesis using w(1) sent_frame_received [OF assms(2) w(2) v] unfolding eq image_of_def by (intro exI [of _ w]) blast
qed

text \<open>A kernel that takes one byte at a time and fails at the 30th call, and one that takes all.\<close>

definition demo_kernel :: frame_os where
  "demo_kernel = \<lparr>fk_env = (\<lambda>v. Some ''sock''), fk_alloc = (\<lambda>_. True), fk_socket = (\<lambda>_. True), fk_connect = (\<lambda>_. True),
     fk_write = (\<lambda>t n. if t = 30 then - 1 else 1), fk_open = (\<lambda>_. True), fk_rename = (\<lambda>_. True)\<rparr>"

definition good_kernel :: frame_os where
  "good_kernel = demo_kernel\<lparr>fk_write := (\<lambda>t n. int n)\<rparr>"

theorem frame_file_atomic_witness:
  "\<exists>w' new. muplar_write_bitmap_frame good_kernel demo_bitmap (Some ''/data/local/tmp/frame'') frame_start = Inr (True, w') \<and>
    fs_after (\<lambda>_. None) (trace w') ''frame'' = Some new \<and>
    read_frame new = Some ((b_width demo_bitmap, b_height demo_bitmap, map over_grey (the (pixels demo_bitmap))), [])"
proof -
  have p: "frame_file_path ''/data/local/tmp/frame'' = ''frame''" by code_simp
  obtain ok w' evs new where w: "muplar_write_bitmap_frame good_kernel demo_bitmap (Some ''/data/local/tmp/frame'') frame_start = Inr (ok, w')"
    "trace w' = evs" "read_frame new = Some ((b_width demo_bitmap, b_height demo_bitmap, map over_grey (the (pixels demo_bitmap))), [])"
    "fs_after (\<lambda>_. None) evs ''frame'' = (if ok then Some new else None)"
    using frame_file_atomic [OF demo_bitmap_ok, of "''/data/local/tmp/frame''" good_kernel frame_start] unfolding p by (auto simp: frame_start_def)
  have "(case muplar_write_bitmap_frame good_kernel demo_bitmap (Some ''/data/local/tmp/frame'') frame_start of Inr (ok, w) \<Rightarrow> ok | Inl e \<Rightarrow> False)"
    by code_simp
  then have ok unfolding w(1) by simp
  then show ?thesis using w by auto
qed

theorem frame_streams_witness:
  "\<exists>w. write_frames demo_kernel [(demo_bitmap, None)] frame_start = Inr w \<and>
    snd (read_frames (stream (trace w) 0)) \<noteq> [] \<and> frame_socket w \<noteq> Some 0 \<and>
    (\<exists>w' i. muplar_write_bitmap_frame demo_kernel demo_image None w = Inr (True, w') \<and>
       snd (last (fst (read_frames (stream (trace w') i)))) = (b_height demo_image, map over_grey (the (pixels demo_image))))"
proof -
  have ok: "bitmap_ok demo_image" by (simp add: bitmap_ok_def demo_image_def demo_bitmap_dims)
  obtain w where w: "write_frames demo_kernel [(demo_bitmap, None)] frame_start = Inr w"
    "\<forall>i. \<exists>ims rest. read_frames (stream (trace w) i) = (ims, rest) \<and> (rest \<noteq> [] \<longrightarrow> frame_socket w \<noteq> Some i)"
    "\<forall>w'. muplar_write_bitmap_frame demo_kernel demo_image None w = Inr (True, w') \<longrightarrow>
       (\<exists>i ims. frame_socket w' = Some i \<and> read_frames (stream (trace w') i) = (ims @ [(b_width demo_image, b_height demo_image, map over_grey (the (pixels demo_image)))], []))"
    using frame_streams [of "[(demo_bitmap, None)]" demo_image demo_kernel] demo_bitmap_ok ok by fastforce
  have "(case write_frames demo_kernel [(demo_bitmap, None)] frame_start of Inl e \<Rightarrow> False
     | Inr w \<Rightarrow> snd (read_frames (stream (trace w) 0)) \<noteq> [] \<and>
         (case muplar_write_bitmap_frame demo_kernel demo_image None w of Inl e \<Rightarrow> False | Inr (ok, w') \<Rightarrow> ok))"
    by code_simp
  then obtain w' where r: "snd (read_frames (stream (trace w) 0)) \<noteq> []" "muplar_write_bitmap_frame demo_kernel demo_image None w = Inr (True, w')"
    unfolding w(1) by (auto split: sum.splits)
  obtain i ims where "read_frames (stream (trace w') i) = (ims @ [(b_width demo_image, b_height demo_image, map over_grey (the (pixels demo_image)))], [])"
    using w(3) r(2) by blast
  then have "snd (last (fst (read_frames (stream (trace w') i)))) = (b_height demo_image, map over_grey (the (pixels demo_image)))" by simp
  moreover have "frame_socket w \<noteq> Some 0" using w(2) r(1) by (metis snd_conv)
  ultimately show ?thesis using w(1) r by blast
qed

end
