(* ===== verification/Apk_Zip.thy ===== *)
theory Apk_Zip
  imports Muplar_Base
begin

text \<open>
  The zip reader of the APK component (\<^verbatim>\<open>src/platform/android-aarch64/apk/apk_envelope.cpp\<close>): entries from the
  central directory, extraction of one entry, and the names and paths of entries.

  A C++ exception is \<open>Inl (Throws m)\<close>, with the constant part of its message. Offsets of type \<^verbatim>\<open>size_t\<close>
  are natural numbers: they are sums of a few values below \<open>2 ^ 32\<close>. Strings are lists of characters. The
  inflate function of zlib is a parameter: it takes the compressed bytes and the expected size, and gives the
  output when the stream ends with exactly so many bytes.
\<close>

datatype exn = Throws string | UB

section \<open>Bytes\<close>

definition read_u16 :: "u8 list \<Rightarrow> nat \<Rightarrow> exn + nat" where
  "read_u16 data off =
     (if length data < off + 2 then Inl (Throws ''APK zip header truncated'')
      else Inr (unat (le_decode (take 2 (drop off data)) :: u16)))"

definition read_u32 :: "u8 list \<Rightarrow> nat \<Rightarrow> exn + nat" where
  "read_u32 data off =
     (if length data < off + 4 then Inl (Throws ''APK zip header truncated'')
      else Inr (unat (le_decode (take 4 (drop off data)) :: u32)))"

definition chars_of :: "u8 list \<Rightarrow> string" where
  "chars_of bs = map (\<lambda>b. char_of (unat b)) bs"

text \<open>\<^verbatim>\<open>std::string(data + off, len)\<close> and iterator ranges: the bytes must be in the vector.\<close>

definition take_at :: "u8 list \<Rightarrow> nat \<Rightarrow> nat \<Rightarrow> exn + u8 list" where
  "take_at data off n = (if off + n \<le> length data then Inr (take n (drop off data)) else Inl UB)"

section \<open>Entries\<close>

record zip_entry =
  ze_name :: string
  ze_flags :: nat
  ze_method :: nat
  compressed_size :: nat
  uncompressed_size :: nat
  local_header_offset :: nat

definition EOCD_SIG :: nat where "EOCD_SIG = 0x06054b50"
definition CEN_SIG :: nat where "CEN_SIG = 0x02014b50"
definition LOC_SIG :: nat where "LOC_SIG = 0x04034b50"

fun find_sig :: "u8 list \<Rightarrow> nat \<Rightarrow> nat list \<Rightarrow> exn + nat option" where
  "find_sig apk sig [] = Inr None"
| "find_sig apk sig (off # offs) = rbind (read_u32 apk off) (\<lambda>v. if v = sig then Inr (Some off) else find_sig apk sig offs)"

definition read_central :: "u8 list \<Rightarrow> nat \<times> zip_entry list \<Rightarrow> exn + nat \<times> zip_entry list" where
  "read_central apk = (\<lambda>(off, entries).
     rbind (if length apk < off + 46 then Inr 0 else read_u32 apk off) (\<lambda>sig.
     if length apk < off + 46 \<or> sig \<noteq> CEN_SIG then Inl (Throws ''APK central directory entry is invalid'')
     else
       rbind (read_u16 apk (off + 28)) (\<lambda>name_len.
       rbind (read_u16 apk (off + 30)) (\<lambda>extra_len.
       rbind (read_u16 apk (off + 32)) (\<lambda>comment_len.
       if length apk < off + 46 + name_len + extra_len + comment_len
       then Inl (Throws ''APK central directory entry is truncated'')
       else
         rbind (read_u16 apk (off + 8)) (\<lambda>flags.
         rbind (read_u16 apk (off + 10)) (\<lambda>method.
         rbind (read_u32 apk (off + 20)) (\<lambda>csize.
         rbind (read_u32 apk (off + 24)) (\<lambda>usize.
         rbind (read_u32 apk (off + 42)) (\<lambda>loc.
         rbind (take_at apk (off + 46) name_len) (\<lambda>name.
           Inr (off + 46 + name_len + extra_len + comment_len,
             entries @ [\<lparr>ze_name = chars_of name, ze_flags = flags, ze_method = method, compressed_size = csize,
               uncompressed_size = usize, local_header_offset = loc\<rparr>]))))))))))))"

definition read_zip_entries :: "u8 list \<Rightarrow> exn + zip_entry list" where
  "read_zip_entries apk =
     (if length apk < 22 then Inl (Throws ''APK is too small to be a zip file'')
      else
        let search_start = (if 22 + 65535 < length apk then length apk - (22 + 65535) else 0) in
        rbind (find_sig apk EOCD_SIG (rev [search_start..<length apk - 22 + 1])) (\<lambda>eocd.
        case eocd of None \<Rightarrow> Inl (Throws ''APK zip end-of-central-directory not found'')
        | Some eocd \<Rightarrow>
            rbind (read_u16 apk (eocd + 10)) (\<lambda>entry_count.
            rbind (read_u32 apk (eocd + 12)) (\<lambda>central_size.
            rbind (read_u32 apk (eocd + 16)) (\<lambda>central_off.
            if central_off = 0xffffffff \<or> central_size = 0xffffffff then Inl (Throws ''ZIP64 APKs are not supported yet'')
            else if length apk < central_off + central_size then Inl (Throws ''APK central directory is out of bounds'')
            else rbind (foldM (\<lambda>i. read_central apk) [0..<entry_count] (central_off, [])) (\<lambda>(off, entries). Inr entries))))))"

definition extract_entry_data :: "(u8 list \<Rightarrow> nat \<Rightarrow> u8 list option) \<Rightarrow> u8 list \<Rightarrow> zip_entry \<Rightarrow> exn + u8 list" where
  "extract_entry_data inflate apk entry =
     (let off = local_header_offset entry in
      rbind (if length apk < off + 30 then Inr 0 else read_u32 apk off) (\<lambda>sig.
      if length apk < off + 30 \<or> sig \<noteq> LOC_SIG then Inl (Throws ''APK local zip header is invalid for '')
      else
        rbind (read_u16 apk (off + 26)) (\<lambda>name_len.
        rbind (read_u16 apk (off + 28)) (\<lambda>extra_len.
        let data_off = off + 30 + name_len + extra_len in
        if length apk < data_off + compressed_size entry then Inl (Throws ''APK entry data is truncated for '')
        else
          rbind (take_at apk data_off (compressed_size entry)) (\<lambda>src.
          if ze_method entry = 0 then Inr src
          else if ze_method entry \<noteq> 8 then Inl (Throws ''unsupported APK zip compression method '')
          else case inflate src (uncompressed_size entry) of None \<Rightarrow> Inl (Throws ''zlib inflate failed for '')
               | Some out \<Rightarrow> Inr out)))))"

section \<open>Names\<close>

definition starts_with :: "string \<Rightarrow> string \<Rightarrow> bool" where
  "starts_with value prefix = (take (length prefix) value = prefix)"

definition ends_with :: "string \<Rightarrow> string \<Rightarrow> bool" where
  "ends_with value suffix \<longleftrightarrow> length suffix \<le> length value \<and> drop (length value - length suffix) value = suffix"

definition is_root_dex :: "string \<Rightarrow> bool" where
  "is_root_dex path \<longleftrightarrow> CHR ''/'' \<notin> set path \<and>
     (path = ''classes.dex'' \<or> starts_with path ''classes'' \<and> ends_with path ''.dex'')"

text \<open>The parts of a path between slashes.\<close>

fun split_slash :: "string \<Rightarrow> string list" where
  "split_slash [] = [[]]"
| "split_slash (c # cs) =
     (if c = CHR ''/'' then [] # split_slash cs
      else case split_slash cs of [] \<Rightarrow> [[c]] | p # ps \<Rightarrow> (c # p) # ps)"

definition safe_zip_path :: "string \<Rightarrow> bool" where
  "safe_zip_path path \<longleftrightarrow>
     \<not> (path = [] \<or> hd path = CHR ''/'' \<or> CHR 0x5c \<in> set path \<or> CHR '':'' \<in> set path) \<and>
     \<not> list_ex (\<lambda>part. part = ''..'') (split_slash path)"

definition filename_from_zip_path :: "string \<Rightarrow> string" where
  "filename_from_zip_path path = rev (takeWhile (\<lambda>c. c \<noteq> CHR ''/'') (rev path))"

definition lib_base_name :: "string \<Rightarrow> string" where
  "lib_base_name filename =
     (let base = filename_from_zip_path filename in
      if starts_with base ''lib'' \<and> ends_with base ''.so'' then take (length base - 6) (drop 3 base)
      else if ends_with base ''.so'' then take (length base - 3) base
      else base)"

definition lib_name_matches :: "string \<Rightarrow> string \<Rightarrow> bool" where
  "lib_name_matches entry_name requested =
     (let filename = filename_from_zip_path entry_name in requested = filename \<or> requested = lib_base_name filename)"

definition is_alnum :: "char \<Rightarrow> bool" where
  "is_alnum c = (let n = of_char c :: nat in 48 \<le> n \<and> n \<le> 57 \<or> 65 \<le> n \<and> n \<le> 90 \<or> 97 \<le> n \<and> n \<le> 122)"

definition sanitize_path_component :: "string \<Rightarrow> string" where
  "sanitize_path_component value =
     (let v = map (\<lambda>c. if is_alnum c \<or> c = CHR ''-'' \<or> c = CHR ''_'' \<or> c = CHR ''.'' then c else CHR ''_'') value in
      if v = [] then ''apk'' else v)"

fun join_libs :: "string list \<Rightarrow> string" where
  "join_libs [] = []"
| "join_libs [l] = filename_from_zip_path l"
| "join_libs (l # ls) = filename_from_zip_path l @ '', '' @ join_libs ls"

section \<open>A writer of archives\<close>

text \<open>What the reader is compared with: entries with their compressed bytes, extra fields and comments. The
  fields the reader does not look at are zero.\<close>

record member =
  m_name :: "u8 list"
  m_flags :: u16
  m_method :: u16
  m_data :: "u8 list"
  m_usize :: u32
  m_local_extra :: "u8 list"
  m_extra :: "u8 list"
  m_comment :: "u8 list"

definition w16 :: "nat \<Rightarrow> u8 list" where "w16 n = le_encode 2 (of_nat n :: u16)"
definition w32 :: "nat \<Rightarrow> u8 list" where "w32 n = le_encode 4 (of_nat n :: u32)"

text \<open>The bytes of a string.\<close>

definition bytes_of :: "string \<Rightarrow> u8 list" where
  "bytes_of s = map (\<lambda>c. of_nat (of_char c)) s"

lemma chars_of_bytes_of: "chars_of (bytes_of s) = s"
proof -
  have "unat (of_nat (of_char c) :: u8) = of_char c" for c :: char
    using nat_of_char_less_256 [of c] by (simp add: unsigned_of_nat take_bit_nat_eq_self)
  then show ?thesis by (simp add: chars_of_def bytes_of_def comp_def)
qed

definition local_part :: "member \<Rightarrow> u8 list" where
  "local_part m =
     w32 LOC_SIG @ w16 20 @ le_encode 2 (m_flags m) @ le_encode 2 (m_method m) @ w32 0 @ w32 0 @ w32 (length (m_data m)) @
     le_encode 4 (m_usize m) @ w16 (length (m_name m)) @ w16 (length (m_local_extra m)) @
     m_name m @ m_local_extra m @ m_data m"

definition central_header :: "member \<Rightarrow> nat \<Rightarrow> u8 list" where
  "central_header m off =
     w32 CEN_SIG @ w16 20 @ w16 20 @ le_encode 2 (m_flags m) @ le_encode 2 (m_method m) @ w32 0 @ w32 0 @
     w32 (length (m_data m)) @ le_encode 4 (m_usize m) @ w16 (length (m_name m)) @ w16 (length (m_extra m)) @
     w16 (length (m_comment m)) @ w16 0 @ w16 0 @ w32 0 @ w32 off"

definition central_part :: "member \<Rightarrow> nat \<Rightarrow> u8 list" where
  "central_part m off = central_header m off @ m_name m @ m_extra m @ m_comment m"

fun locals_of :: "member list \<Rightarrow> u8 list" where
  "locals_of [] = []"
| "locals_of (m # ms) = local_part m @ locals_of ms"

fun centrals_of :: "nat \<Rightarrow> member list \<Rightarrow> u8 list" where
  "centrals_of off [] = []"
| "centrals_of off (m # ms) = central_part m off @ centrals_of (off + length (local_part m)) ms"

definition eocd_of :: "nat \<Rightarrow> nat \<Rightarrow> nat \<Rightarrow> u8 list" where
  "eocd_of n sz off = w32 EOCD_SIG @ w16 0 @ w16 0 @ w16 n @ w16 n @ w32 sz @ w32 off @ w16 0"

definition zip_of :: "member list \<Rightarrow> u8 list" where
  "zip_of ms = locals_of ms @ centrals_of 0 ms @ eocd_of (length ms) (length (centrals_of 0 ms)) (length (locals_of ms))"

fun entries_of :: "nat \<Rightarrow> member list \<Rightarrow> zip_entry list" where
  "entries_of off [] = []"
| "entries_of off (m # ms) =
     \<lparr>ze_name = chars_of (m_name m), ze_flags = unat (m_flags m), ze_method = unat (m_method m), compressed_size = length (m_data m),
       uncompressed_size = unat (m_usize m), local_header_offset = off\<rparr> # entries_of (off + length (local_part m)) ms"

definition member_ok :: "member \<Rightarrow> bool" where
  "member_ok m \<longleftrightarrow> length (m_name m) < 2 ^ 16 \<and> length (m_extra m) < 2 ^ 16 \<and> length (m_local_extra m) < 2 ^ 16 \<and> length (m_comment m) < 2 ^ 16"

section \<open>Reading back\<close>

lemma length_w [simp]: "length (w16 n) = 2" "length (w32 n) = 4"
  by (simp_all add: w16_def w32_def)

lemma read_in:
  "k + 2 \<le> length h \<Longrightarrow> read_u16 (pre @ h @ post) (length pre + k) = read_u16 h k"
  "k + 4 \<le> length h \<Longrightarrow> read_u32 (pre @ h @ post) (length pre + k) = read_u32 h k"
  by (simp_all add: read_u16_def read_u32_def)

lemma read_field:
  "length pre = k \<Longrightarrow> read_u16 (pre @ le_encode 2 (v :: u16) @ post) k = Inr (unat v)"
  "length pre = k \<Longrightarrow> read_u32 (pre @ le_encode 4 (w :: u32) @ post) k = Inr (unat w)"
  by (auto simp: read_u16_def read_u32_def simp del: le_encode_numeral)

lemma read_w:
  "length pre = k \<Longrightarrow> n < 2 ^ 16 \<Longrightarrow> read_u16 (pre @ w16 n @ post) k = Inr n"
  "length pre = k \<Longrightarrow> n < 2 ^ 32 \<Longrightarrow> read_u32 (pre @ w32 n @ post) k = Inr n"
  unfolding w16_def w32_def by (simp_all add: read_field unsigned_of_nat take_bit_nat_eq_self)

lemma length_central_header [simp]: "length (central_header m off) = 46"
  by (simp add: central_header_def)

lemma central_fields:
  assumes "member_ok m" and "off < 2 ^ 32" and "length (m_data m) < 2 ^ 32"
  shows "read_u32 (central_header m off) 0 = Inr CEN_SIG" "read_u16 (central_header m off) 28 = Inr (length (m_name m))"
    "read_u16 (central_header m off) 30 = Inr (length (m_extra m))" "read_u16 (central_header m off) 32 = Inr (length (m_comment m))"
    "read_u16 (central_header m off) 8 = Inr (unat (m_flags m))" "read_u16 (central_header m off) 10 = Inr (unat (m_method m))"
    "read_u32 (central_header m off) 20 = Inr (length (m_data m))" "read_u32 (central_header m off) 24 = Inr (unat (m_usize m))"
    "read_u32 (central_header m off) 42 = Inr off"
  using assms unfolding member_ok_def read_u16_def read_u32_def central_header_def
  by (simp_all add: w16_def w32_def CEN_SIG_def unsigned_of_nat take_bit_nat_eq_self del: le_encode_numeral)

lemma take_at_in: "n \<le> length h \<Longrightarrow> take_at (pre @ h @ post) (length pre) n = Inr (take n h)"
  by (simp add: take_at_def)

lemma read_central_part:
  assumes m: "member_ok m" "off < 2 ^ 32" "length (m_data m) < 2 ^ 32" and apk: "apk = pre @ central_part m off @ post"
  shows "read_central apk (length pre, es) = Inr (length pre + length (central_part m off),
    es @ [\<lparr>ze_name = chars_of (m_name m), ze_flags = unat (m_flags m), ze_method = unat (m_method m), compressed_size = length (m_data m),
       uncompressed_size = unat (m_usize m), local_header_offset = off\<rparr>])"
proof -
  let ?h = "central_header m off" let ?r = "m_name m @ m_extra m @ m_comment m @ post"
  have a: "apk = pre @ ?h @ ?r" by (simp add: apk central_part_def)
  have r: "k + 2 \<le> 46 \<Longrightarrow> read_u16 apk (length pre + k) = read_u16 ?h k" "k + 4 \<le> 46 \<Longrightarrow> read_u32 apk (length pre + k) = read_u32 ?h k" for k
    unfolding a by (intro read_in; simp)+
  have len: "length apk = length pre + 46 + length (m_name m) + length (m_extra m) + length (m_comment m) + length post" by (simp add: a)
  have name: "take_at apk (length pre + 46) (length (m_name m)) = Inr (m_name m)"
    using take_at_in [of "length (m_name m)" "m_name m" "pre @ ?h"] by (simp add: a)
  show ?thesis
    using central_fields [OF m] r [of 0] name len
    by (simp add: read_central_def r central_part_def)
qed

lemma read_centrals:
  assumes "\<forall>m \<in> set ms. member_ok m" and "off + length (locals_of ms) < 2 ^ 32" and "length is' = length ms"
  shows "foldM (\<lambda>i. read_central (pre @ centrals_of off ms @ post)) is' (length pre, es) =
    Inr (length pre + length (centrals_of off ms), es @ entries_of off ms)"
  using assms
proof (induction ms arbitrary: off is' pre es)
  case (Cons m ms)
  obtain i js where i: "is' = i # js" "length js = length ms" using Cons.prems(3) by (cases is') auto
  have "length (m_data m) \<le> length (local_part m)" by (simp add: local_part_def)
  then have m: "member_ok m" "off < 2 ^ 32" "length (m_data m) < 2 ^ 32" using Cons.prems(1,2) by simp_all
  define apk where "apk = pre @ central_part m off @ centrals_of (off + length (local_part m)) ms @ post"
  have "apk = (pre @ central_part m off) @ centrals_of (off + length (local_part m)) ms @ post" by (simp add: apk_def)
  then have IH: "foldM (\<lambda>i. read_central apk) js (length pre + length (central_part m off), es') =
     Inr (length pre + length (central_part m off) + length (centrals_of (off + length (local_part m)) ms), es' @ entries_of (off + length (local_part m)) ms)" for es'
    using Cons.IH [of "off + length (local_part m)" js "pre @ central_part m off" es'] Cons.prems(1,2) i(2) by simp
  show ?case using read_central_part [OF m apk_def, of es] IH by (simp add: i(1) flip: apk_def)
qed simp

lemma eocd_fields:
  assumes "n < 2 ^ 16" and "sz < 2 ^ 32" and "off < 2 ^ 32"
  shows "length (eocd_of n sz off) = 22" "read_u32 (eocd_of n sz off) 0 = Inr EOCD_SIG" "read_u16 (eocd_of n sz off) 10 = Inr n"
    "read_u32 (eocd_of n sz off) 12 = Inr sz" "read_u32 (eocd_of n sz off) 16 = Inr off"
  using assms unfolding read_u16_def read_u32_def eocd_of_def
  by (simp_all add: w16_def w32_def EOCD_SIG_def unsigned_of_nat take_bit_nat_eq_self del: le_encode_numeral)

lemma local_fields:
  assumes "member_ok m"
  shows "30 \<le> length (local_part m)" "read_u32 (local_part m) 0 = Inr LOC_SIG" "read_u16 (local_part m) 26 = Inr (length (m_name m))"
    "read_u16 (local_part m) 28 = Inr (length (m_local_extra m))"
    "length (local_part m) = 30 + length (m_name m) + length (m_local_extra m) + length (m_data m)"
  using assms unfolding member_ok_def read_u16_def read_u32_def local_part_def
  by (simp_all add: w16_def w32_def LOC_SIG_def unsigned_of_nat take_bit_nat_eq_self del: le_encode_numeral)

text \<open>What extraction gives for a member.\<close>

definition extracted :: "(u8 list \<Rightarrow> nat \<Rightarrow> u8 list option) \<Rightarrow> member \<Rightarrow> exn + u8 list" where
  "extracted inflate m =
     (if m_method m = 0 then Inr (m_data m)
      else if m_method m \<noteq> 8 then Inl (Throws ''unsupported APK zip compression method '')
      else case inflate (m_data m) (unat (m_usize m)) of None \<Rightarrow> Inl (Throws ''zlib inflate failed for '') | Some out \<Rightarrow> Inr out)"

lemma extract_member:
  assumes m: "member_ok m" and apk: "apk = pre @ local_part m @ post" and e: "local_header_offset e = length pre"
    "compressed_size e = length (m_data m)" "ze_method e = unat (m_method m)" "uncompressed_size e = unat (m_usize m)"
  shows "extract_entry_data inflate apk e = extracted inflate m"
proof -
  note f = local_fields [OF m]
  have r: "read_u32 apk (length pre) = Inr LOC_SIG" "read_u16 apk (length pre + 26) = Inr (length (m_name m))"
    "read_u16 apk (length pre + 28) = Inr (length (m_local_extra m))"
    using read_in [of _ "local_part m" pre post] read_in(2) [of 0 "local_part m" pre post] f by (simp_all add: apk)
  have len: "length apk = length pre + 30 + length (m_name m) + length (m_local_extra m) + length (m_data m) + length post" using f(5) by (simp add: apk)
  have "drop (30 + length (m_name m) + length (m_local_extra m)) (local_part m) = m_data m" by (simp add: local_part_def)
  then have d: "take_at apk (length pre + 30 + length (m_name m) + length (m_local_extra m)) (length (m_data m)) = Inr (m_data m)"
    using len by (simp add: take_at_def apk add.assoc)
  have u: "unat (m_method m) = 0 \<longleftrightarrow> m_method m = 0" "unat (m_method m) = 8 \<longleftrightarrow> m_method m = 8" by (simp_all add: word_unat_eq_iff)
  show ?thesis using r d len by (simp add: extract_entry_data_def extracted_def e Let_def u)
qed

lemma extract_locals:
  assumes "\<forall>m \<in> set ms. member_ok m" and "apk = pre @ locals_of ms @ post"
  shows "map (extract_entry_data inflate apk) (entries_of (length pre) ms) = map (extracted inflate) ms"
  using assms
proof (induction ms arbitrary: pre)
  case (Cons m ms)
  have "apk = (pre @ local_part m) @ locals_of ms @ post" using Cons.prems(2) by simp
  moreover have "extract_entry_data inflate apk (hd (entries_of (length pre) (m # ms))) = extracted inflate m"
    by (rule extract_member [of m apk pre "locals_of ms @ post"]) (use Cons.prems in simp_all)
  ultimately show ?case using Cons.IH [of "pre @ local_part m"] Cons.prems(1) by simp
qed simp

lemma read_zip_of:
  assumes "\<forall>m \<in> set ms. member_ok m" and "length ms < 2 ^ 16" and "length (zip_of ms) < 2 ^ 32 - 1"
  shows "read_zip_entries (zip_of ms) = Inr (entries_of 0 ms)"
proof -
  let ?apk = "zip_of ms" let ?c = "length (centrals_of 0 ms)" let ?l = "length (locals_of ms)"
  let ?e = "eocd_of (length ms) ?c ?l"
  have cl: "?c < 2 ^ 32 - 1" "?l < 2 ^ 32 - 1" using assms(3) by (simp_all add: zip_of_def)
  then have f: "length ?e = 22" "read_u32 ?e 0 = Inr EOCD_SIG" "read_u16 ?e 10 = Inr (length ms)" "read_u32 ?e 12 = Inr ?c" "read_u32 ?e 16 = Inr ?l"
    using eocd_fields [of "length ms" ?c ?l] assms(2) by simp_all
  have len: "length ?apk = ?l + ?c + 22" by (simp add: zip_of_def f(1))
  have r: "k + 2 \<le> 22 \<Longrightarrow> read_u16 ?apk (?l + ?c + k) = read_u16 ?e k" "k + 4 \<le> 22 \<Longrightarrow> read_u32 ?apk (?l + ?c + k) = read_u32 ?e k" for k
    using read_in [of k ?e "locals_of ms @ centrals_of 0 ms" "[]"] f(1) by (simp_all add: zip_of_def)
  have "rev [s..<length ?apk - 22 + 1] = (?l + ?c) # rev [s..<?l + ?c]" if "s \<le> ?l + ?c" for s using that by (simp add: len)
  moreover have "(if 22 + 65535 < length ?apk then length ?apk - (22 + 65535) else 0) \<le> ?l + ?c" by (simp add: len)
  moreover have "read_u32 ?apk (?l + ?c) = Inr EOCD_SIG" using r(2) [of 0] f(2) by simp
  ultimately have sig: "find_sig ?apk EOCD_SIG (rev [(if 22 + 65535 < length ?apk then length ?apk - (22 + 65535) else 0)..<length ?apk - 22 + 1]) = Inr (Some (?l + ?c))"
    by simp
  have "foldM (\<lambda>i. read_central ?apk) [0..<length ms] (?l, []) = Inr (?l + ?c, entries_of 0 ms)"
    using read_centrals [of ms 0 "[0..<length ms]" "locals_of ms" ?e "[]"] assms(1) cl by (simp add: zip_of_def)
  then show ?thesis
    using sig r f cl len unfolding read_zip_entries_def Let_def by simp
qed

lemma extract_zip_of:
  assumes "\<forall>m \<in> set ms. member_ok m"
  shows "map (extract_entry_data inflate (zip_of ms)) (entries_of 0 ms) = map (extracted inflate) ms"
  using extract_locals [OF assms, of "zip_of ms" "[]"] by (simp add: zip_of_def)

lemma entries_names: "map ze_name (entries_of n ms) = map (\<lambda>m. chars_of (m_name m)) ms"
  by (induction ms arbitrary: n) simp_all

text \<open>C32: The reader gets back what the writer of archives puts in, for any flags, methods, extra fields and comments of
  the members: the names in order, and for every member its bytes if it is stored, what inflate gives for
  its bytes and its size if it is deflated, and an exception for other methods. Every read of the archive is
  inside of it. The archive has fewer than \<open>2 ^ 16\<close> members and \<open>2 ^ 32 - 1\<close> bytes and no comment of its own.\<close>

theorem zip_roundtrip:
  assumes "\<forall>m \<in> set ms. member_ok m" and "length ms < 2 ^ 16" and "length (zip_of ms) < 2 ^ 32 - 1"
  shows "\<exists>es. read_zip_entries (zip_of ms) = Inr es \<and> map ze_name es = map (\<lambda>m. chars_of (m_name m)) ms \<and>
    map (extract_entry_data inflate (zip_of ms)) es =
      map (\<lambda>m. if m_method m = 0 then Inr (m_data m)
        else if m_method m \<noteq> 8 then Inl (Throws ''unsupported APK zip compression method '')
        else case inflate (m_data m) (unat (m_usize m)) of None \<Rightarrow> Inl (Throws ''zlib inflate failed for '') | Some out \<Rightarrow> Inr out) ms"
  using read_zip_of [OF assms] entries_names extract_zip_of [OF assms(1), of inflate] unfolding extracted_def by blast

text \<open>An archive of two members, one stored and one deflated, for a function in place of inflate.\<close>

definition demo_members :: "member list" where
  "demo_members =
    [\<lparr>m_name = [97], m_flags = 0, m_method = 0, m_data = [1, 2, 3], m_usize = 3, m_local_extra = [], m_extra = [7], m_comment = []\<rparr>,
     \<lparr>m_name = [98, 47], m_flags = 8, m_method = 8, m_data = [5], m_usize = 2, m_local_extra = [0, 0], m_extra = [], m_comment = [33]\<rparr>]"

definition demo_inflate :: "u8 list \<Rightarrow> nat \<Rightarrow> u8 list option" where
  "demo_inflate bs n = (case bs of [b] \<Rightarrow> Some (replicate n b) | _ \<Rightarrow> None)"

theorem zip_roundtrip_witness:
  "\<exists>es. read_zip_entries (zip_of demo_members) = Inr es \<and> map ze_name es = [''a'', ''b/''] \<and>
     map (extract_entry_data demo_inflate (zip_of demo_members)) es = [Inr [1, 2, 3], Inr [5, 5]]"
proof -
  have "\<forall>m \<in> set demo_members. member_ok m" by (simp add: demo_members_def member_ok_def)
  moreover have "length (zip_of demo_members) = 188" by (simp add: demo_members_def zip_of_def local_part_def central_part_def eocd_of_def)
  moreover have "length demo_members = 2" by (simp add: demo_members_def)
  moreover have "map (\<lambda>m. chars_of (m_name m)) demo_members = [''a'', ''b/'']" by code_simp
  moreover have "map (\<lambda>m. if m_method m = 0 then Inr (m_data m)
        else if m_method m \<noteq> 8 then Inl (Throws ''unsupported APK zip compression method '')
        else case demo_inflate (m_data m) (unat (m_usize m)) of None \<Rightarrow> Inl (Throws ''zlib inflate failed for '') | Some out \<Rightarrow> Inr out) demo_members =
      [Inr [1, 2, 3], Inr [5, 5]]" by code_simp
  ultimately show ?thesis using zip_roundtrip [of demo_members demo_inflate] by simp
qed

end
