(* ===== verification/Apk_Axml.thy ===== *)
theory Apk_Axml
  imports Apk_Zip
begin

text \<open>
  The binary formats of the APK component: compiled XML (the manifest) and the resource table, read by
  \<^verbatim>\<open>apk_envelope.cpp\<close>.

  Both are sequences of chunks, and every reader walks over them with the same loop: it stops at a chunk that
  does not fit, else handles the chunk and goes on behind it. A chunk of size zero keeps the loop where it
  is. The loop is therefore a partial function: \<open>None\<close> is a walk that does not end. Results are of type
  \<open>(exn + 'a) option\<close>.
\<close>

section \<open>Strings\<close>

definition byte_at :: "u8 list \<Rightarrow> nat \<Rightarrow> exn + nat" where
  "byte_at data i = (if i < length data then Inr (unat (data ! i)) else Inl UB)"

definition len8 :: "u8 list \<Rightarrow> nat \<Rightarrow> exn + nat \<times> nat" where
  "len8 data pos =
     (if length data \<le> pos then Inl (Throws ''AXML string length is truncated'')
      else
        let first = unat (data ! pos) in
        if first < 0x80 then Inr (first, pos + 1)
        else if length data \<le> pos + 1 then Inl (Throws ''AXML string length is truncated'')
        else Inr ((first - 0x80) * 256 + unat (data ! (pos + 1)), pos + 2))"

definition utf8_length_string :: "u8 list \<Rightarrow> nat \<Rightarrow> exn + string" where
  "utf8_length_string data off =
     rbind (len8 data off) (\<lambda>(chars, pos).
     rbind (len8 data pos) (\<lambda>(byte_len, pos).
       if length data < pos + byte_len then Inl (Throws ''AXML UTF-8 string is truncated'')
       else rbind (take_at data pos byte_len) (\<lambda>bs. Inr (chars_of bs))))"

definition len16 :: "u8 list \<Rightarrow> nat \<Rightarrow> exn + nat \<times> nat" where
  "len16 data pos =
     rbind (read_u16 data pos) (\<lambda>first.
       if first < 0x8000 then Inr (first, pos + 2)
       else rbind (read_u16 data (pos + 2)) (\<lambda>second. Inr ((first - 0x8000) * 65536 + second, pos + 4)))"

fun utf16_chars :: "u8 list \<Rightarrow> nat \<Rightarrow> nat \<Rightarrow> exn + string" where
  "utf16_chars data pos 0 = Inr []"
| "utf16_chars data pos (Suc n) =
     rbind (read_u16 data pos) (\<lambda>ch.
     rbind (utf16_chars data (pos + 2) n) (\<lambda>cs. Inr ((if ch < 0x80 then char_of ch else CHR ''?'') # cs)))"

definition utf16_length_string :: "u8 list \<Rightarrow> nat \<Rightarrow> exn + string" where
  "utf16_length_string data off = rbind (len16 data off) (\<lambda>(len, pos). utf16_chars data pos len)"

section \<open>Chunks\<close>

datatype ('s, 'r) flow = Go 's | Ret 'r

definition obind :: "(exn + 'a) option \<Rightarrow> ('a \<Rightarrow> (exn + 'b) option) \<Rightarrow> (exn + 'b) option" where
  "obind m f = Option.bind m (\<lambda>r. case r of Inl e \<Rightarrow> Some (Inl e) | Inr x \<Rightarrow> f x)"

lemma obind_simps [simp]: "obind None f = None" "obind (Some (Inl e)) f = Some (Inl e)" "obind (Some (Inr x)) f = f x"
  by (simp_all add: obind_def)

lemma obind_Inr: "obind m f = Some (Inr y) \<longleftrightarrow> (\<exists>x. m = Some (Inr x) \<and> f x = Some (Inr y))"
proof (cases m)
  case (Some r)
  then show ?thesis by (cases r) simp_all
qed simp

definition chunk_header :: "u8 list \<Rightarrow> nat \<Rightarrow> exn + nat \<times> nat \<times> nat" where
  "chunk_header data off =
     rbind (read_u16 data off) (\<lambda>type.
     rbind (read_u16 data (off + 2)) (\<lambda>header_size.
     rbind (read_u32 data (off + 4)) (\<lambda>chunk_size. Inr (type, header_size, chunk_size))))"

text \<open>The loop \<^verbatim>\<open>while (off + room <= limit)\<close> over chunks.\<close>

partial_function (option) walk_chunks ::
  "u8 list \<Rightarrow> nat \<Rightarrow> nat \<Rightarrow> (nat \<Rightarrow> nat \<Rightarrow> nat \<Rightarrow> nat \<Rightarrow> 's \<Rightarrow> (exn + ('s, 'r) flow) option) \<Rightarrow> nat \<Rightarrow> 's \<Rightarrow> (exn + ('s, 'r) flow) option" where
  "walk_chunks data room limit body off st =
     (if off + room \<le> limit then
        case chunk_header data off of Inl e \<Rightarrow> Some (Inl e)
        | Inr (type, header_size, chunk_size) \<Rightarrow>
            if chunk_size < header_size \<or> limit < off + chunk_size then Some (Inr (Go st))
            else Option.bind (body off type header_size chunk_size st) (\<lambda>r.
              case r of Inl e \<Rightarrow> Some (Inl e)
              | Inr (Ret v) \<Rightarrow> Some (Inr (Ret v))
              | Inr (Go st') \<Rightarrow> walk_chunks data room limit body (off + chunk_size) st')
      else Some (Inr (Go st)))"

declare walk_chunks.simps [code]

text \<open>What a search returns: the value it stopped with, or nothing.\<close>

definition result_of :: "(exn + ('s, 'r) flow) option \<Rightarrow> (exn + 'r option) option" where
  "result_of w = obind w (\<lambda>fl. Some (Inr (case fl of Go st \<Rightarrow> None | Ret v \<Rightarrow> Some v)))"

definition xml_start :: "u8 list \<Rightarrow> exn + nat" where
  "xml_start manifest =
     (if 8 \<le> length manifest then rbind (read_u16 manifest 0) (\<lambda>t. Inr (if t = 0x0003 then 8 else 0)) else Inr 0)"

section \<open>String pools\<close>

definition pool_string :: "u8 list \<Rightarrow> bool \<Rightarrow> nat \<Rightarrow> exn + string" where
  "pool_string data utf8 pos = (if utf8 then utf8_length_string data pos else utf16_length_string data pos)"

text \<open>The strings of the pool at \<open>off\<close>, whose fields have type \<^verbatim>\<open>uint32_t\<close>: the product and the sum of the size
  check wrap around. A string that cannot be read is empty, one outside of the chunk is left out.\<close>

definition axml_pool_at :: "u8 list \<Rightarrow> nat \<Rightarrow> nat \<Rightarrow> nat \<Rightarrow> exn + string list" where
  "axml_pool_at manifest off header_size chunk_size =
     rbind (read_u32 manifest (off + 8)) (\<lambda>string_count.
     rbind (read_u32 manifest (off + 16)) (\<lambda>flags.
     rbind (read_u32 manifest (off + 20)) (\<lambda>strings_start.
       if chunk_size < (header_size + string_count * 4) mod 2 ^ 32 \<or> chunk_size \<le> strings_start then Inr []
       else foldM (\<lambda>i strings.
           rbind (read_u32 manifest (off + header_size + i * 4 mod 2 ^ 32)) (\<lambda>string_off.
             let string_pos = off + strings_start + string_off in
             if off + chunk_size \<le> string_pos then Inr strings
             else Inr (strings @ [case pool_string manifest (bit flags 8) string_pos of Inl e \<Rightarrow> [] | Inr s \<Rightarrow> s])))
         [0..<string_count] [])))"

definition axml_string_pool :: "u8 list \<Rightarrow> (exn + string list) option" where
  "axml_string_pool manifest =
     obind (Some (xml_start manifest)) (\<lambda>off.
     obind (walk_chunks manifest 28 (length manifest) (\<lambda>off type header_size chunk_size _.
         if type \<noteq> 0x0001 then Some (Inr (Go ()))
         else Some (rbind (axml_pool_at manifest off header_size chunk_size) (\<lambda>strings. Inr (Ret strings)))) off ())
       (\<lambda>fl. Some (Inr (case fl of Go _ \<Rightarrow> [] | Ret strings \<Rightarrow> strings))))"

text \<open>The pool of the resource table keeps the place of a string outside of the chunk and checks sizes with 64 bits.\<close>

definition string_pool_at :: "u8 list \<Rightarrow> nat \<Rightarrow> exn + string list" where
  "string_pool_at data off =
     rbind (if length data < off + 28 then Inr 0 else read_u16 data off) (\<lambda>type.
     if length data < off + 28 \<or> type \<noteq> 0x0001 then Inr []
     else
       rbind (read_u16 data (off + 2)) (\<lambda>header_size.
       rbind (read_u32 data (off + 4)) (\<lambda>chunk_size.
       rbind (read_u32 data (off + 8)) (\<lambda>string_count.
       rbind (read_u32 data (off + 16)) (\<lambda>flags.
       rbind (read_u32 data (off + 20)) (\<lambda>strings_start.
       if chunk_size < header_size \<or> length data < off + chunk_size \<or> chunk_size < header_size + string_count * 4 \<or> chunk_size \<le> strings_start
       then Inr []
       else foldM (\<lambda>i strings.
           rbind (read_u32 data (off + header_size + i * 4 mod 2 ^ 32)) (\<lambda>string_off.
             let string_pos = off + strings_start + string_off in
             Inr (strings @ [if off + chunk_size \<le> string_pos then []
               else case pool_string data (bit flags 8) string_pos of Inl e \<Rightarrow> [] | Inr s \<Rightarrow> s])))
         [0..<string_count] []))))))"

section \<open>The resource table\<close>

text \<open>The offset of the wanted entry of a type chunk; \<open>0xffffffff\<close> for none.\<close>

fun sparse_entry :: "u8 list \<Rightarrow> nat \<Rightarrow> nat \<Rightarrow> nat \<Rightarrow> nat \<Rightarrow> nat list \<Rightarrow> exn + nat" where
  "sparse_entry resources child child_header_size child_size wanted [] = Inr 0xffffffff"
| "sparse_entry resources child child_header_size child_size wanted (i # is') =
     (let sparse = child + child_header_size + i * 4 mod 2 ^ 32 in
      if child + child_size < sparse + 4 then Inr 0xffffffff
      else rbind (read_u16 resources sparse) (\<lambda>k.
        if k = wanted then rbind (read_u16 resources (sparse + 2)) (\<lambda>o'. Inr (o' * 4))
        else sparse_entry resources child child_header_size child_size wanted is'))"

definition entry_offset :: "u8 list \<Rightarrow> nat \<Rightarrow> nat \<Rightarrow> nat \<Rightarrow> nat \<Rightarrow> nat \<Rightarrow> nat \<Rightarrow> exn + nat" where
  "entry_offset resources child child_header_size child_size type_flags entry_count wanted =
     (if type_flags mod 2 = 1 then sparse_entry resources child child_header_size child_size wanted [0..<entry_count]
      else if wanted < entry_count then
        (let offset_pos = child + child_header_size + wanted * 4 in
         if offset_pos + 4 \<le> child + child_size then read_u32 resources offset_pos else Inr 0xffffffff)
      else Inr 0xffffffff)"

definition entry_string :: "u8 list \<Rightarrow> string list \<Rightarrow> nat \<Rightarrow> nat \<Rightarrow> nat \<Rightarrow> exn + string option" where
  "entry_string resources global_strings child child_size entry =
     (if child + child_size < entry + 8 then Inr None
      else
        rbind (read_u16 resources entry) (\<lambda>entry_size.
        rbind (read_u16 resources (entry + 2)) (\<lambda>entry_flags.
        let value = entry + entry_size in
        if entry_flags mod 2 = 0 \<and> value + 8 \<le> child + child_size then
          rbind (byte_at resources (value + 3)) (\<lambda>t.
          if t = 0x03 then
            rbind (read_u32 resources (value + 4)) (\<lambda>string_index.
              Inr (if string_index < length global_strings then Some (global_strings ! string_index) else None))
          else Inr None)
        else Inr None)))"

definition type_chunk :: "u8 list \<Rightarrow> string list \<Rightarrow> nat \<Rightarrow> nat \<Rightarrow> nat \<Rightarrow> nat \<Rightarrow> nat \<Rightarrow> exn + string option" where
  "type_chunk resources global_strings resource_id child child_type child_header_size child_size =
     (if child_type \<noteq> 0x0201 then Inr None
      else
        rbind (byte_at resources (child + 8)) (\<lambda>t.
        if t \<noteq> resource_id div 2 ^ 16 mod 256 then Inr None
        else
          rbind (byte_at resources (child + 9)) (\<lambda>type_flags.
          rbind (read_u32 resources (child + 12)) (\<lambda>entry_count.
          rbind (read_u32 resources (child + 16)) (\<lambda>entries_start.
          rbind (entry_offset resources child child_header_size child_size type_flags entry_count (resource_id mod 2 ^ 16)) (\<lambda>off.
            if off = 0xffffffff then Inr None
            else entry_string resources global_strings child child_size (child + entries_start + off)))))))"

definition package_chunk :: "u8 list \<Rightarrow> string list \<Rightarrow> nat \<Rightarrow> nat \<Rightarrow> nat \<Rightarrow> nat \<Rightarrow> (exn + string option) option" where
  "package_chunk resources global_strings resource_id off header_size chunk_size =
     result_of (walk_chunks resources 20 (off + chunk_size) (\<lambda>child child_type child_header_size child_size _.
       Some (rbind (type_chunk resources global_strings resource_id child child_type child_header_size child_size) (\<lambda>r.
         Inr (case r of None \<Rightarrow> Go () | Some s \<Rightarrow> Ret s)))) (off + header_size) ())"

definition resolve_resource_string :: "u8 list \<Rightarrow> nat \<Rightarrow> (exn + string option) option" where
  "resolve_resource_string resources resource_id =
     (if length resources < 12 then Some (Inr None)
      else
        obind (Some (read_u16 resources 0)) (\<lambda>type.
        if type \<noteq> 0x0002 then Some (Inr None)
        else
          obind (Some (read_u16 resources 2)) (\<lambda>table_header_size.
          obind (Some (read_u32 resources 4)) (\<lambda>table_size.
          if table_size < table_header_size \<or> length resources < table_size then Some (Inr None)
          else
            result_of (walk_chunks resources 8 table_size (\<lambda>off type header_size chunk_size global_strings.
              if type = 0x0001 \<and> global_strings = [] then Some (rbind (string_pool_at resources off) (\<lambda>s. Inr (Go s)))
              else if type = 0x0200 \<and> 284 \<le> header_size then
                obind (Some (read_u32 resources (off + 8))) (\<lambda>id.
                if id = resource_id div 2 ^ 24 then
                  obind (package_chunk resources global_strings resource_id off header_size chunk_size) (\<lambda>r.
                    Some (Inr (case r of None \<Rightarrow> Go global_strings | Some s \<Rightarrow> Ret s)))
                else Some (Inr (Go global_strings)))
              else Some (Inr (Go global_strings))) table_header_size [])))))"

section \<open>Attributes\<close>

fun attr_search ::
  "u8 list \<Rightarrow> string list \<Rightarrow> nat \<Rightarrow> string \<Rightarrow> (nat \<Rightarrow> exn + 'r option) \<Rightarrow> nat \<Rightarrow> nat \<Rightarrow> nat list \<Rightarrow> exn + 'r option" where
  "attr_search manifest strings stop wanted value attrs attr_size [] = Inr None"
| "attr_search manifest strings stop wanted value attrs attr_size (i # is') =
     (let a = attrs + i * attr_size in
      if stop < a + 20 then Inr None
      else rbind (read_u32 manifest (a + 4)) (\<lambda>name_idx.
        if length strings \<le> name_idx \<or> strings ! name_idx \<noteq> wanted
        then attr_search manifest strings stop wanted value attrs attr_size is'
        else rbind (value a) (\<lambda>v. case v of Some r \<Rightarrow> Inr (Some r)
          | None \<Rightarrow> attr_search manifest strings stop wanted value attrs attr_size is')))"

definition element_attribute ::
  "u8 list \<Rightarrow> string list \<Rightarrow> (nat \<Rightarrow> exn + 'r option) \<Rightarrow> nat \<Rightarrow> nat \<Rightarrow> string \<Rightarrow> exn + 'r option" where
  "element_attribute manifest strings value off chunk_size wanted =
     rbind (read_u16 manifest (off + 24)) (\<lambda>attr_start.
     rbind (read_u16 manifest (off + 26)) (\<lambda>attr_size.
     rbind (read_u16 manifest (off + 28)) (\<lambda>attr_count.
       attr_search manifest strings (off + chunk_size) wanted value (off + 16 + attr_start) attr_size [0..<attr_count])))"

definition string_value :: "u8 list \<Rightarrow> string list \<Rightarrow> nat \<Rightarrow> exn + string option" where
  "string_value manifest strings a =
     rbind (read_u32 manifest (a + 8)) (\<lambda>raw_idx.
     if raw_idx \<noteq> 0xffffffff \<and> raw_idx < length strings then Inr (Some (strings ! raw_idx))
     else
       rbind (byte_at manifest (a + 15)) (\<lambda>data_type.
       rbind (read_u32 manifest (a + 16)) (\<lambda>data.
         Inr (if data_type = 0x03 \<and> data < length strings then Some (strings ! data) else None))))"

definition resource_value :: "u8 list \<Rightarrow> nat \<Rightarrow> exn + nat option" where
  "resource_value manifest a =
     rbind (byte_at manifest (a + 15)) (\<lambda>data_type.
     if data_type = 0x01 \<or> data_type = 0x07 then rbind (read_u32 manifest (a + 16)) (\<lambda>d. Inr (Some d)) else Inr None)"

text \<open>The name of an element, empty when its index is not in the pool.\<close>

definition element_name :: "u8 list \<Rightarrow> string list \<Rightarrow> nat \<Rightarrow> exn + string" where
  "element_name manifest strings off =
     rbind (read_u32 manifest (off + 20)) (\<lambda>idx. Inr (if idx < length strings then strings ! idx else []))"

definition element_is :: "u8 list \<Rightarrow> string list \<Rightarrow> nat \<Rightarrow> string \<Rightarrow> exn + bool" where
  "element_is manifest strings off name =
     rbind (read_u32 manifest (off + 20)) (\<lambda>idx. Inr (idx < length strings \<and> strings ! idx = name))"

text \<open>The first attribute with a value, in elements of the given name.\<close>

definition search_attribute ::
  "u8 list \<Rightarrow> (string list \<Rightarrow> nat \<Rightarrow> exn + 'r option) \<Rightarrow> string \<Rightarrow> string \<Rightarrow> (exn + 'r option) option" where
  "search_attribute manifest value element attribute =
     obind (axml_string_pool manifest) (\<lambda>strings.
     if strings = [] then Some (Inr None)
     else
       obind (Some (xml_start manifest)) (\<lambda>off.
       result_of (walk_chunks manifest 8 (length manifest) (\<lambda>off type header_size chunk_size _.
         if type = 0x0102 \<and> off + 36 \<le> length manifest then
           Some (rbind (element_is manifest strings off element) (\<lambda>hit.
             if hit then rbind (element_attribute manifest strings (value strings) off chunk_size attribute) (\<lambda>r.
               Inr (case r of None \<Rightarrow> Go () | Some v \<Rightarrow> Ret v))
             else Inr (Go ())))
         else Some (Inr (Go ()))) off ())))"

definition infer_binary_manifest_package :: "u8 list \<Rightarrow> (exn + string option) option" where
  "infer_binary_manifest_package manifest = search_attribute manifest (string_value manifest) ''manifest'' ''package''"

definition infer_binary_manifest_string_attribute :: "u8 list \<Rightarrow> string \<Rightarrow> string \<Rightarrow> (exn + string option) option" where
  "infer_binary_manifest_string_attribute manifest element attribute =
     search_attribute manifest (string_value manifest) element attribute"

definition infer_binary_manifest_resource_attribute :: "u8 list \<Rightarrow> string \<Rightarrow> string \<Rightarrow> (exn + nat option) option" where
  "infer_binary_manifest_resource_attribute manifest element attribute =
     search_attribute manifest (\<lambda>_. resource_value manifest) element attribute"

definition infer_binary_manifest_lib :: "u8 list \<Rightarrow> string list \<Rightarrow> (exn + string option) option" where
  "infer_binary_manifest_lib manifest available_bases =
     obind (axml_string_pool manifest) (\<lambda>strings.
       Some (Inr (if ''android.app.lib_name'' \<notin> set strings then None
         else case List.find (\<lambda>base. base \<in> set strings) available_bases of Some base \<Rightarrow> Some base
           | None \<Rightarrow> if length available_bases = 1 then Some (hd available_bases) else None)))"

section \<open>Activities\<close>

definition normalize_activity_name :: "string \<Rightarrow> string \<Rightarrow> string" where
  "normalize_activity_name package_name activity_name =
     (if activity_name = [] then activity_name
      else if package_name \<noteq> [] \<and> hd activity_name = CHR ''.'' then package_name @ activity_name
      else if package_name \<noteq> [] \<and> CHR ''.'' \<notin> set activity_name then package_name @ ''.'' @ activity_name
      else activity_name)"

definition the_or_empty :: "string option \<Rightarrow> string" where
  "the_or_empty s = (case s of None \<Rightarrow> [] | Some s \<Rightarrow> s)"

text \<open>\<^verbatim>\<open>std::string::find\<close> from a position on.\<close>

definition find_str :: "string \<Rightarrow> string \<Rightarrow> nat \<Rightarrow> nat option" where
  "find_str s p pos = List.find (\<lambda>i. take (length p) (drop i s) = p) [pos..<length s + 1]"

definition contains :: "string \<Rightarrow> string \<Rightarrow> bool" where
  "contains s p \<longleftrightarrow> find_str s p 0 \<noteq> None"

definition to_lower :: "char \<Rightarrow> char" where
  "to_lower c = (let n = of_char c :: nat in if 65 \<le> n \<and> n \<le> 90 then char_of (n + 32) else c)"

text \<open>The names that are preferred among several launcher activities.\<close>

definition main_name :: "string \<Rightarrow> bool" where
  "main_name name =
     (let lower = map to_lower name in
      contains lower ''mainactivity'' \<or> contains lower ''main'' \<and> \<not> contains lower ''panic'' \<and> \<not> contains lower ''calc'')"

record launch_state =
  first_activity :: "string option"
  current_activity :: "string option"
  launcher_activities :: "string list"
  has_main_action :: bool
  has_launcher_category :: bool

definition launcher_categories :: "string list" where
  "launcher_categories = [''android.intent.category.LAUNCHER'', ''android.intent.category.HOME'', ''android.intent.category.SECONDARY_HOME'']"

definition launch_start_element ::
  "u8 list \<Rightarrow> string list \<Rightarrow> string option \<Rightarrow> nat \<Rightarrow> nat \<Rightarrow> launch_state \<Rightarrow> exn + launch_state" where
  "launch_start_element manifest strings package_name off chunk_size st =
     rbind (element_name manifest strings off) (\<lambda>element.
     let attr = element_attribute manifest strings (string_value manifest strings) off chunk_size ''name'' in
     if element = ''activity'' then
       rbind attr (\<lambda>name. Inr (case name of None \<Rightarrow> st
         | Some n \<Rightarrow>
             let current = Some (normalize_activity_name (the_or_empty package_name) n) in
             st\<lparr>current_activity := current,
               first_activity := (case first_activity st of None \<Rightarrow> current | Some f \<Rightarrow> Some f),
               has_main_action := False, has_launcher_category := False\<rparr>))
     else if current_activity st \<noteq> None \<and> element = ''action'' then
       if has_main_action st then Inr st
       else rbind attr (\<lambda>v. Inr (st\<lparr>has_main_action := (v = Some ''android.intent.action.MAIN'')\<rparr>))
     else if current_activity st \<noteq> None \<and> element = ''category'' then
       rbind attr (\<lambda>category. Inr (st\<lparr>has_launcher_category :=
         (has_launcher_category st \<or> (case category of None \<Rightarrow> False | Some c \<Rightarrow> c \<in> set launcher_categories))\<rparr>))
     else Inr st)"

definition launch_end_element :: "u8 list \<Rightarrow> string list \<Rightarrow> nat \<Rightarrow> launch_state \<Rightarrow> exn + launch_state" where
  "launch_end_element manifest strings off st =
     rbind (element_is manifest strings off ''activity'') (\<lambda>hit.
       Inr (case current_activity st of None \<Rightarrow> st
         | Some a \<Rightarrow>
             if hit then st\<lparr>launcher_activities := launcher_activities st @ (if has_main_action st \<and> has_launcher_category st then [a] else []),
               current_activity := None\<rparr>
             else st))"

definition launch_choice :: "launch_state \<Rightarrow> string option" where
  "launch_choice st =
     (case launcher_activities st of [] \<Rightarrow> first_activity st
      | a # as \<Rightarrow> (case List.find main_name (a # as) of Some m \<Rightarrow> Some m | None \<Rightarrow> Some a))"

definition infer_binary_manifest_launch_activity :: "u8 list \<Rightarrow> string option \<Rightarrow> (exn + string option) option" where
  "infer_binary_manifest_launch_activity manifest package_name =
     obind (axml_string_pool manifest) (\<lambda>strings.
     if strings = [] then Some (Inr None)
     else
       obind (Some (xml_start manifest)) (\<lambda>off.
       obind (walk_chunks manifest 8 (length manifest) (\<lambda>off type header_size chunk_size st.
           Some (rbind
             (if type = 0x0102 \<and> off + 36 \<le> length manifest then launch_start_element manifest strings package_name off chunk_size st
              else if type = 0x0103 \<and> off + 24 \<le> length manifest then launch_end_element manifest strings off st
              else Inr st) (\<lambda>st. Inr (Go st)))) off
           \<lparr>first_activity = None, current_activity = None, launcher_activities = [], has_main_action = False, has_launcher_category = False\<rparr>)
         (\<lambda>fl. Some (Inr (case fl of Go st \<Rightarrow> launch_choice st | Ret (v :: unit) \<Rightarrow> None)))))"

definition widget_element ::
  "u8 list \<Rightarrow> string list \<Rightarrow> string option \<Rightarrow> nat \<Rightarrow> nat \<Rightarrow> nat \<Rightarrow> string option \<Rightarrow> exn + (string option, string) flow" where
  "widget_element manifest strings package_name off type chunk_size receiver =
     (if type = 0x0102 \<and> off + 36 \<le> length manifest then
        rbind (element_name manifest strings off) (\<lambda>element.
        let attr = element_attribute manifest strings (string_value manifest strings) off chunk_size ''name'' in
        if element = ''receiver'' then
          rbind attr (\<lambda>value. Inr (Go (map_option (normalize_activity_name (the_or_empty package_name)) value)))
        else case receiver of None \<Rightarrow> Inr (Go None)
          | Some r \<Rightarrow>
              if element = ''action'' then
                rbind attr (\<lambda>v. Inr (if v = Some ''android.appwidget.action.APPWIDGET_UPDATE'' then Ret r else Go (Some r)))
              else Inr (Go (Some r)))
      else if type = 0x0103 \<and> off + 24 \<le> length manifest then
        rbind (element_is manifest strings off ''receiver'') (\<lambda>hit. Inr (Go (if hit then None else receiver)))
      else Inr (Go receiver))"

definition infer_binary_manifest_widget_provider :: "u8 list \<Rightarrow> string option \<Rightarrow> (exn + string option) option" where
  "infer_binary_manifest_widget_provider manifest package_name =
     obind (axml_string_pool manifest) (\<lambda>strings.
     if strings = [] then Some (Inr None)
     else
       obind (Some (xml_start manifest)) (\<lambda>off.
       result_of (walk_chunks manifest 8 (length manifest) (\<lambda>off type header_size chunk_size receiver.
         Some (widget_element manifest strings package_name off type chunk_size receiver)) off None)))"

section \<open>Walks that end\<close>

text \<open>No chunk that the walk can reach has size zero.\<close>

function well_sized :: "u8 list \<Rightarrow> nat \<Rightarrow> nat \<Rightarrow> nat \<Rightarrow> bool" where
  "well_sized data room limit off =
     (if off + room \<le> limit then
        case chunk_header data off of Inl e \<Rightarrow> True
        | Inr (type, header_size, chunk_size) \<Rightarrow>
            if chunk_size < header_size \<or> limit < off + chunk_size then True
            else if chunk_size = 0 then False
            else well_sized data room limit (off + chunk_size)
      else True)"
  by pat_completeness auto
termination
  by (relation "measure (\<lambda>(data, room, limit, off). limit - off)") auto

declare well_sized.simps [simp del]

lemma walk_chunks_returns:
  assumes "well_sized data room limit off" and "\<And>off type hs cs st. \<exists>r. body off type hs cs st = Some r"
  shows "\<exists>r. walk_chunks data room limit body off st = Some r"
  using assms(1)
proof (induction data room limit off arbitrary: st rule: well_sized.induct)
  case (1 data room limit off)
  show ?case
  proof (cases "off + room \<le> limit")
    case True
    show ?thesis
    proof (cases "chunk_header data off")
      case (Inr h)
      obtain type hs cs where h: "h = (type, hs, cs)" by (cases h)
      show ?thesis
      proof (cases "cs < hs \<or> limit < off + cs")
        case False
        then have ws: "cs \<noteq> 0" "well_sized data room limit (off + cs)" using 1(2) True Inr h by (auto simp: well_sized.simps [of data room limit off] split: if_splits)
        obtain r where r: "body off type hs cs st = Some r" using assms(2) by blast
        have IH: "\<exists>r. walk_chunks data room limit body (off + cs) st' = Some r" for st' using 1(1) [OF True Inr h [symmetric] refl False ws] .
        show ?thesis using True Inr h False r IH by (auto simp: walk_chunks.simps [of data room limit body off] split: sum.split flow.split)
      qed (simp add: True Inr h walk_chunks.simps [of data room limit body off])
    qed (simp add: True walk_chunks.simps [of data room limit body off])
  qed (simp add: walk_chunks.simps [of data room limit body off])
qed

text \<open>A chunk of size zero that the body passes over keeps the walk forever.\<close>

lemma walk_chunks_stuck:
  assumes "off + room \<le> limit" and "chunk_header data off = Inr (type, 0, 0)" and "\<And>st. \<exists>st'. body off type 0 0 st = Some (Inr (Go st'))"
  shows "walk_chunks data room limit body off st = None"
proof (rule ccontr)
  assume "walk_chunks data room limit body off st \<noteq> None"
  then obtain r where r: "walk_chunks data room limit body off st = Some r" by blast
  have "\<not> (data = data \<and> room = room \<and> limit = limit \<and> body = body \<and> off = off)"
  proof (rule walk_chunks.raw_induct [where P = "\<lambda>d rm l b k st r. \<not> (d = data \<and> rm = room \<and> l = limit \<and> b = body \<and> k = off)", OF _ r])
    fix f d rm l b k st r
    assume IH: "\<And>d rm l b k st r. f d rm l b k st = Some r \<Longrightarrow> \<not> (d = data \<and> rm = room \<and> l = limit \<and> b = body \<and> k = off)"
      and eq: "(if k + rm \<le> l then case chunk_header d k of Inl e \<Rightarrow> Some (Inl e)
         | Inr (type, header_size, chunk_size) \<Rightarrow>
             if chunk_size < header_size \<or> l < k + chunk_size then Some (Inr (Go st))
             else Option.bind (b k type header_size chunk_size st) (\<lambda>r. case r of Inl e \<Rightarrow> Some (Inl e)
               | Inr (Go st') \<Rightarrow> f d rm l b (k + chunk_size) st' | Inr (Ret v) \<Rightarrow> Some (Inr (Ret v)))
        else Some (Inr (Go st))) = Some r"
    show "\<not> (d = data \<and> rm = room \<and> l = limit \<and> b = body \<and> k = off)"
    proof
      assume a: "d = data \<and> rm = room \<and> l = limit \<and> b = body \<and> k = off"
      obtain st' where "body off type 0 0 st = Some (Inr (Go st'))" using assms(3) by blast
      then have "f data room limit body off st' = Some r" using eq a assms(1,2) by auto
      then show False using IH by blast
    qed
  qed
  then show False by simp
qed

section \<open>Readers that return\<close>

definition returns :: "'a option \<Rightarrow> bool" where
  "returns m \<longleftrightarrow> m \<noteq> None"

named_theorems return_intros \<open>when computations return\<close>

lemma returns_simps [simp]: "returns (Some x)" "\<not> returns None"
  by (simp_all add: returns_def)

lemma returns_obind [return_intros]: "returns m \<Longrightarrow> (\<And>x. returns (f x)) \<Longrightarrow> returns (obind m f)"
  by (auto simp: returns_def obind_def split: sum.split)

lemma returns_result_of [return_intros]: "returns m \<Longrightarrow> returns (result_of m)"
  unfolding result_of_def by (intro return_intros) simp_all

lemma returns_walk [return_intros]:
  "well_sized data room limit off \<Longrightarrow> (\<And>off type hs cs st. returns (body off type hs cs st)) \<Longrightarrow> returns (walk_chunks data room limit body off st)"
  using walk_chunks_returns [of data room limit off body st] by (fastforce simp: returns_def)

lemma returns_if [return_intros]: "(P \<Longrightarrow> returns a) \<Longrightarrow> (\<not> P \<Longrightarrow> returns b) \<Longrightarrow> returns (if P then a else b)"
  by simp

lemma well_sized_room: "well_sized data room limit off \<Longrightarrow> room \<le> room' \<Longrightarrow> well_sized data room' limit off"
proof (induction data room limit off rule: well_sized.induct)
  case (1 data room limit off)
  show ?case
  proof (cases "off + room' \<le> limit \<and> (\<exists>h. chunk_header data off = Inr h)")
    case True
    then obtain type hs cs where h: "chunk_header data off = Inr (type, hs, cs)" "off + room \<le> limit" using 1(3) by force
    show ?thesis
    proof (cases "cs < hs \<or> limit < off + cs")
      case False
      then have ws: "cs \<noteq> 0" "well_sized data room limit (off + cs)" using 1(2) h by (auto simp: well_sized.simps [of data room limit off] split: if_splits)
      then have "well_sized data room' limit (off + cs)" using 1(1) [OF h(2,1) refl refl False] 1(3) by simp
      then show ?thesis using True h False ws by (simp add: well_sized.simps [of data room' limit off])
    qed (use h True in \<open>simp add: well_sized.simps [of data room' limit off]\<close>)
  next
    case False
    then show ?thesis by (cases "chunk_header data off") (auto simp: well_sized.simps [of data room' limit off])
  qed
qed

text \<open>A manifest whose chunks all have a size.\<close>

definition manifest_sized :: "u8 list \<Rightarrow> bool" where
  "manifest_sized manifest \<longleftrightarrow> (\<forall>off. xml_start manifest = Inr off \<longrightarrow> well_sized manifest 8 (length manifest) off)"

lemma returns_start:
  assumes "manifest_sized manifest" and "\<And>off. well_sized manifest 8 (length manifest) off \<Longrightarrow> returns (f off)"
  shows "returns (obind (Some (xml_start manifest)) f)"
  using assms by (cases "xml_start manifest") (simp_all add: manifest_sized_def)

lemma pool_returns: "manifest_sized manifest \<Longrightarrow> returns (axml_string_pool manifest)"
  unfolding axml_string_pool_def by (rule returns_start) (auto intro!: return_intros intro: well_sized_room)

lemma search_attribute_returns: "manifest_sized manifest \<Longrightarrow> returns (search_attribute manifest value element attribute)"
  unfolding search_attribute_def by (intro return_intros pool_returns returns_start) simp_all

lemma launch_returns: "manifest_sized manifest \<Longrightarrow> returns (infer_binary_manifest_launch_activity manifest pkg)"
  unfolding infer_binary_manifest_launch_activity_def by (intro return_intros pool_returns returns_start) simp_all

lemma widget_returns: "manifest_sized manifest \<Longrightarrow> returns (infer_binary_manifest_widget_provider manifest pkg)"
  unfolding infer_binary_manifest_widget_provider_def by (intro return_intros pool_returns returns_start) simp_all

lemma lib_returns: "manifest_sized manifest \<Longrightarrow> returns (infer_binary_manifest_lib manifest bases)"
  unfolding infer_binary_manifest_lib_def by (intro return_intros pool_returns) simp_all

lemma zeros_stuck: "28 \<le> n \<Longrightarrow> axml_string_pool (replicate n 0) = None"
proof -
  assume n: "28 \<le> n"
  have r: "read_u16 (replicate n 0) k = Inr 0" "read_u32 (replicate n 0) k = Inr 0" if "k \<le> 8" for k
    using n that by (simp_all add: read_u16_def read_u32_def)
  then have "xml_start (replicate n 0) = Inr 0" "chunk_header (replicate n 0) 0 = Inr (0, 0, 0)" using n by (simp_all add: xml_start_def chunk_header_def)
  then show ?thesis using n by (simp add: axml_string_pool_def walk_chunks_stuck)
qed

end
