(* ===== verification/Apk_Launch.thy ===== *)
theory Apk_Launch
  imports Apk_Axml "HOL-Library.Char_ord" "HOL-Library.List_Lexorder"
begin

text \<open>
  The manifest as plain text, the choice between text and binary, the classification of an APK and the
  preparation of its launch (\<^verbatim>\<open>apk_envelope.cpp\<close>).

  The file system is a record of functions (\<open>host\<close>): the contents of files, whether directories can be created and
  files opened. The files that are written are a result, in order, also when an exception ends the function.
\<close>

section \<open>Plain manifests\<close>

definition infer_plain_manifest_lib :: "string \<Rightarrow> string list \<Rightarrow> string option" where
  "infer_plain_manifest_lib manifest available_bases =
     (if \<not> contains manifest ''android.app.lib_name'' then None
      else case List.find (\<lambda>base. contains manifest (CHR 0x22 # base @ [CHR 0x22]) \<or> contains manifest (CHR 0x27 # base @ [CHR 0x27])) available_bases of
        Some base \<Rightarrow> Some base
      | None \<Rightarrow> if length available_bases = 1 then Some (hd available_bases) else None)"

definition find_quote :: "string \<Rightarrow> nat \<Rightarrow> nat option" where
  "find_quote s pos = List.find (\<lambda>i. s ! i = CHR 0x22 \<or> s ! i = CHR 0x27) [pos..<length s]"

definition substr :: "string \<Rightarrow> nat \<Rightarrow> nat \<Rightarrow> string" where
  "substr s pos n = take n (drop pos s)"

text \<open>The quoted value behind the attribute name at \<open>attr_pos\<close>; all positions up to \<open>stop\<close>.\<close>

definition quoted_value :: "string \<Rightarrow> nat \<Rightarrow> nat \<Rightarrow> string option" where
  "quoted_value s from' stop =
     Option.bind (find_str s ''='' from') (\<lambda>eq. if stop < eq then None else
     Option.bind (find_quote s (eq + 1)) (\<lambda>quote. if stop < quote then None else
     Option.bind (find_str s [s ! quote] (quote + 1)) (\<lambda>close. if stop < close then None else
       Some (substr s (quote + 1) (close - quote - 1)))))"

definition plain_manifest_attribute :: "string \<Rightarrow> string \<Rightarrow> string \<Rightarrow> string option" where
  "plain_manifest_attribute manifest element attr =
     Option.bind (find_str manifest (CHR ''<'' # element) 0) (\<lambda>tag.
     Option.bind (find_str manifest ''>'' tag) (\<lambda>end'.
     Option.bind (find_str manifest attr tag) (\<lambda>attr_pos. if end' < attr_pos then None else
       quoted_value manifest (attr_pos + length attr) end')))"

definition tag_attribute :: "string \<Rightarrow> string \<Rightarrow> string option" where
  "tag_attribute tag attr =
     Option.bind (find_str tag attr 0) (\<lambda>attr_pos. quoted_value tag (attr_pos + length attr) (length tag))"

definition either_attribute :: "string option \<Rightarrow> string option \<Rightarrow> string option" where
  "either_attribute a b = (case a of None \<Rightarrow> b | Some v \<Rightarrow> Some v)"

definition infer_plain_manifest_package :: "string \<Rightarrow> string option" where
  "infer_plain_manifest_package manifest = plain_manifest_attribute manifest ''manifest'' ''package''"

lemma find_range:
  "List.find P [m..<n] = Some i \<Longrightarrow> m \<le> i \<and> i < n \<and> P i"
  by (auto simp: find_Some_iff)

lemma find_str_Some: "find_str s p pos = Some i \<Longrightarrow> pos \<le> i \<and> i \<le> length s \<and> take (length p) (drop i s) = p"
  unfolding find_str_def by (drule find_range) auto

text \<open>The activities in the order of the text: the name and whether the block asks for the launcher.\<close>

lemma open_tag_progress:
  assumes "find_str s (CHR ''<'' # p) pos = Some start" and "find_str s ''>'' start = Some e"
  shows "pos < e" "e < length s"
proof -
  have 1: "pos \<le> start" "take (Suc (length p)) (drop start s) = CHR ''<'' # p" using find_str_Some [OF assms(1)] by auto
  have 2: "start \<le> e" "take 1 (drop e s) = ''>''" using find_str_Some [OF assms(2)] by auto
  then show "e < length s" by (cases "e < length s") auto
  have "start \<noteq> e" using 1(2) 2(2) by (cases "drop e s") auto
  then show "pos < e" using 1(1) 2(1) by simp
qed

function plain_activities :: "string \<Rightarrow> string option \<Rightarrow> nat \<Rightarrow> (string \<times> bool) list" where
  "plain_activities manifest package_name pos =
     (case find_str manifest (CHR ''<'' # ''activity'') pos of None \<Rightarrow> []
      | Some activity_start \<Rightarrow>
          case find_str manifest ''>'' activity_start of None \<Rightarrow> []
          | Some open_end \<Rightarrow>
              let tag = substr manifest activity_start (open_end - activity_start + 1);
                  name = either_attribute (tag_attribute tag ''android:name'') (tag_attribute tag ''name'');
                  block_end = (case find_str manifest ''</activity>'' open_end of None \<Rightarrow> open_end | Some e \<Rightarrow> e + 11);
                  block = substr manifest activity_start (block_end - activity_start);
                  launcher = (contains block ''android.intent.action.MAIN'' \<and> list_ex (contains block) launcher_categories) in
              (case name of None \<Rightarrow> [] | Some n \<Rightarrow> [(normalize_activity_name (the_or_empty package_name) n, launcher)]) @
              plain_activities manifest package_name block_end)"
  by pat_completeness auto
termination
proof (relation "measure (\<lambda>(manifest, package_name, pos). length manifest - pos)", goal_cases)
  case (2 manifest package_name pos start open_end tag name block_end block launcher)
  have "open_end \<le> block_end" using find_str_Some [of manifest "''</activity>''" open_end] unfolding 2(5) by (auto split: option.split)
  then show ?case using open_tag_progress [OF 2(1,2)] by (auto intro: diff_less_mono2)
qed simp

definition infer_plain_manifest_launch_activity :: "string \<Rightarrow> string option \<Rightarrow> string option" where
  "infer_plain_manifest_launch_activity manifest package_name =
     (let candidates = plain_activities manifest package_name 0 in
      case List.find (\<lambda>(n, l). l \<and> main_name n) candidates of Some (n, l) \<Rightarrow> Some n
      | None \<Rightarrow>
          case List.find (\<lambda>(n, l). l) candidates of Some (n, l) \<Rightarrow> Some n
          | None \<Rightarrow> (case candidates of [] \<Rightarrow> None | (n, l) # _ \<Rightarrow> Some n))"

function plain_widget :: "string \<Rightarrow> string option \<Rightarrow> nat \<Rightarrow> string option" where
  "plain_widget manifest package_name pos =
     (case find_str manifest (CHR ''<'' # ''receiver'') pos of None \<Rightarrow> None
      | Some start \<Rightarrow>
          case find_str manifest ''>'' start of None \<Rightarrow> None
          | Some open_end \<Rightarrow>
              let end' = (case find_str manifest ''</receiver>'' open_end of None \<Rightarrow> open_end | Some e \<Rightarrow> e);
                  tag = substr manifest start (open_end - start + 1);
                  block = substr manifest start (end' - start);
                  name = (if contains block ''android.appwidget.action.APPWIDGET_UPDATE''
                    then either_attribute (tag_attribute tag ''android:name'') (tag_attribute tag ''name'') else None) in
              case name of Some n \<Rightarrow> Some (normalize_activity_name (the_or_empty package_name) n)
              | None \<Rightarrow> plain_widget manifest package_name (end' + 1))"
  by pat_completeness auto
termination
proof (relation "measure (\<lambda>(manifest, package_name, pos). length manifest - pos)", goal_cases)
  case (2 manifest package_name pos start open_end end' tag block name)
  have "open_end \<le> end'" using find_str_Some [of manifest "''</receiver>''" open_end] unfolding 2(3) by (auto split: option.split)
  then show ?case using open_tag_progress [OF 2(1,2)] by (auto intro: diff_less_mono2)
qed simp

definition infer_plain_manifest_widget_provider :: "string \<Rightarrow> string option \<Rightarrow> string option" where
  "infer_plain_manifest_widget_provider manifest package_name = plain_widget manifest package_name 0"

section \<open>The manifest\<close>

record manifest_info =
  lib_name :: "string option"
  package_name :: "string option"
  application_label :: "string option"
  application_label_resource :: "nat option"
  application_icon :: "string option"
  application_icon_resource :: "nat option"
  application_class :: "string option"
  launch_activity :: "string option"
  widget_provider :: "string option"

definition is_space :: "u8 \<Rightarrow> bool" where
  "is_space b \<longleftrightarrow> b = 32 \<or> 9 \<le> b \<and> b \<le> 13"

definition plain_info :: "string \<Rightarrow> string list \<Rightarrow> manifest_info" where
  "plain_info text' available_bases =
     (let pkg = infer_plain_manifest_package text';
          attr = (\<lambda>name. either_attribute (plain_manifest_attribute text' ''application'' (''android:'' @ name))
            (plain_manifest_attribute text' ''application'' name)) in
      \<lparr>lib_name = infer_plain_manifest_lib text' available_bases, package_name = pkg,
       application_label = attr ''label'', application_label_resource = None,
       application_icon = attr ''icon'', application_icon_resource = None,
       application_class = map_option (normalize_activity_name (the_or_empty pkg)) (attr ''name''),
       launch_activity = infer_plain_manifest_launch_activity text' pkg,
       widget_provider = infer_plain_manifest_widget_provider text' pkg\<rparr>)"

definition infer_manifest_info :: "u8 list \<Rightarrow> string list \<Rightarrow> (exn + manifest_info) option" where
  "infer_manifest_info manifest available_bases =
     (if (case dropWhile is_space manifest of b # _ \<Rightarrow> b = 0x3c | [] \<Rightarrow> False)
      then Some (Inr (plain_info (chars_of manifest) available_bases))
      else
        obind (infer_binary_manifest_package manifest) (\<lambda>pkg.
        obind (infer_binary_manifest_lib manifest available_bases) (\<lambda>lib.
        obind (infer_binary_manifest_string_attribute manifest ''application'' ''label'') (\<lambda>label.
        obind (infer_binary_manifest_resource_attribute manifest ''application'' ''label'') (\<lambda>label_res.
        obind (infer_binary_manifest_string_attribute manifest ''application'' ''icon'') (\<lambda>icon.
        obind (infer_binary_manifest_resource_attribute manifest ''application'' ''icon'') (\<lambda>icon_res.
        obind (infer_binary_manifest_string_attribute manifest ''application'' ''name'') (\<lambda>cls.
        obind (infer_binary_manifest_launch_activity manifest pkg) (\<lambda>launch.
        obind (infer_binary_manifest_widget_provider manifest pkg) (\<lambda>widget.
          Some (Inr \<lparr>lib_name = lib, package_name = pkg, application_label = label, application_label_resource = label_res,
            application_icon = icon, application_icon_resource = icon_res,
            application_class = map_option (normalize_activity_name (the_or_empty pkg)) cls,
            launch_activity = launch, widget_provider = widget\<rparr>)))))))))))"

section \<open>Classification\<close>

datatype apk_runtime_kind = KEmpty | NativeOnly | JavaOnly | Mixed

definition runtime_kind_for :: "string list \<Rightarrow> string list \<Rightarrow> apk_runtime_kind" where
  "runtime_kind_for arm64_libs dex_files =
     (if arm64_libs \<noteq> [] \<and> dex_files \<noteq> [] then Mixed
      else if arm64_libs \<noteq> [] then NativeOnly
      else if dex_files \<noteq> [] then JavaOnly else KEmpty)"

definition kind_string :: "apk_runtime_kind \<Rightarrow> string" where
  "kind_string kind = (case kind of KEmpty \<Rightarrow> ''empty'' | NativeOnly \<Rightarrow> ''native-only'' | JavaOnly \<Rightarrow> ''java-only'' | Mixed \<Rightarrow> ''mixed'')"

record apk_classification =
  runtime_kind :: apk_runtime_kind
  has_manifest :: bool
  c_manifest_lib :: "string option"
  c_package :: "string option"
  c_label :: "string option"
  c_icon :: "string option"
  c_icon_resource :: "nat option"
  c_class :: "string option"
  c_launch_activity :: "string option"
  c_widget_provider :: "string option"
  arm64_libs :: "string list"
  dex_files :: "string list"
  asset_entries :: "string list"

definition is_arm64_lib :: "string \<Rightarrow> bool" where
  "is_arm64_lib name \<longleftrightarrow> starts_with name ''lib/arm64-v8a/'' \<and> ends_with name ''.so''"

definition is_asset :: "string \<Rightarrow> bool" where
  "is_asset name \<longleftrightarrow> starts_with name ''assets/'' \<and> \<not> ends_with name ''/'' \<and> safe_zip_path name"

definition last_named :: "string \<Rightarrow> zip_entry list \<Rightarrow> zip_entry option" where
  "last_named name entries = List.find (\<lambda>e. ze_name e = name) (rev entries)"

definition named_as :: "(string \<Rightarrow> bool) \<Rightarrow> zip_entry list \<Rightarrow> string list" where
  "named_as P entries = filter P (map ze_name entries)"

text \<open>The icon: looked up in the resources when there is none or it starts with \<^verbatim>\<open>@\<close>. Looking at the first
  character of an empty string is undefined.\<close>

definition wants_icon :: "string option \<Rightarrow> exn + bool" where
  "wants_icon icon = (case icon of None \<Rightarrow> Inr True | Some [] \<Rightarrow> Inl UB | Some (c # _) \<Rightarrow> Inr (c = CHR ''@''))"

definition resource_string ::
  "(u8 list \<Rightarrow> nat \<Rightarrow> u8 list option) \<Rightarrow> u8 list \<Rightarrow> zip_entry option \<Rightarrow> nat option \<Rightarrow> string option \<Rightarrow> (exn + string option) option" where
  "resource_string inflate apk resources_entry resource old =
     (case (resource, resources_entry) of
        (Some rid, Some e) \<Rightarrow> obind (Some (extract_entry_data inflate apk e)) (\<lambda>data. resolve_resource_string data rid)
      | _ \<Rightarrow> Some (Inr old))"

definition classify_entries ::
  "(u8 list \<Rightarrow> nat \<Rightarrow> u8 list option) \<Rightarrow> u8 list \<Rightarrow> zip_entry list \<Rightarrow> (exn + apk_classification) option" where
  "classify_entries inflate apk entries =
     (let libs = named_as is_arm64_lib entries;
          dexs = named_as (\<lambda>n. \<not> is_arm64_lib n \<and> is_root_dex n) entries;
          assets = named_as (\<lambda>n. \<not> is_arm64_lib n \<and> \<not> is_root_dex n \<and> is_asset n) entries;
          res = last_named ''resources.arsc'' entries;
          c = \<lparr>runtime_kind = runtime_kind_for (sort libs) (sort dexs), has_manifest = False, c_manifest_lib = None, c_package = None, c_label = None,
               c_icon = None, c_icon_resource = None, c_class = None, c_launch_activity = None, c_widget_provider = None,
               arm64_libs = sort libs, dex_files = sort dexs, asset_entries = sort assets\<rparr> in
      case last_named ''AndroidManifest.xml'' entries of None \<Rightarrow> Some (Inr c)
      | Some e \<Rightarrow>
          obind (Some (extract_entry_data inflate apk e)) (\<lambda>manifest.
          obind (infer_manifest_info manifest (map lib_base_name libs)) (\<lambda>m.
          obind (if application_label m = None then resource_string inflate apk res (application_label_resource m) None
                 else Some (Inr (application_label m))) (\<lambda>label.
          obind (Some (wants_icon (application_icon m))) (\<lambda>wants.
          obind (if wants then resource_string inflate apk res (application_icon_resource m) (application_icon m)
                 else Some (Inr (application_icon m))) (\<lambda>icon.
            Some (Inr (c\<lparr>has_manifest := True, c_manifest_lib := lib_name m, c_package := package_name m, c_label := label, c_icon := icon,
              c_icon_resource := application_icon_resource m, c_class := application_class m, c_launch_activity := launch_activity m,
              c_widget_provider := widget_provider m\<rparr>)))))))) "

text \<open>The system: reading of files, which directories and files can be created and written, and what the name of the
  default directory depends on. Sizes and times are printed numbers, the hash is printed in hexadecimal.\<close>

record host =
  read_file :: "string \<Rightarrow> exn + u8 list"
  can_make_dir :: "string \<Rightarrow> bool"
  can_open :: "string \<Rightarrow> bool"
  write_good :: "string \<Rightarrow> bool"
  absolute_path :: "string \<Rightarrow> string"
  working_dir :: string
  file_size :: "string \<Rightarrow> string option"
  last_write_time :: "string \<Rightarrow> string option"
  string_hash :: "string \<Rightarrow> string"

definition classify_apk :: "(u8 list \<Rightarrow> nat \<Rightarrow> u8 list option) \<Rightarrow> host \<Rightarrow> string \<Rightarrow> (exn + apk_classification) option" where
  "classify_apk inflate h apk_path =
     (if apk_path = [] then Some (Inl (Throws ''APK path is empty''))
      else
        obind (Some (read_file h apk_path)) (\<lambda>apk.
        obind (Some (read_zip_entries apk)) (\<lambda>entries. classify_entries inflate apk entries)))"

section \<open>Paths\<close>

text \<open>The operator \<^verbatim>\<open>/\<close>, \<^verbatim>\<open>parent_path\<close> and \<^verbatim>\<open>stem\<close> of \<^verbatim>\<open>std::filesystem::path\<close>.\<close>

definition path_join :: "string \<Rightarrow> string \<Rightarrow> string" where
  "path_join a b =
     (if b \<noteq> [] \<and> hd b = CHR ''/'' then b
      else if a = [] then b
      else if last a = CHR ''/'' then a @ b
      else a @ ''/'' @ b)"

definition parent_path :: "string \<Rightarrow> string" where
  "parent_path p =
     (let q = rev (dropWhile (\<lambda>c. c = CHR ''/'') (dropWhile (\<lambda>c. c \<noteq> CHR ''/'') (rev p))) in
      if q = [] \<and> p \<noteq> [] \<and> hd p = CHR ''/'' then ''/'' else q)"

definition stem :: "string \<Rightarrow> string" where
  "stem p =
     (let f = filename_from_zip_path p; cut = rev (tl (dropWhile (\<lambda>c. c \<noteq> CHR ''.'') (rev f))) in
      if f = ''.'' \<or> f = ''..'' \<or> CHR ''.'' \<notin> set f \<or> cut = [] then f else cut)"

text \<open>When the time of the last change cannot be read, the size is in the seed already.\<close>

definition default_extract_dir :: "host \<Rightarrow> string \<Rightarrow> string \<Rightarrow> string" where
  "default_extract_dir h apk_path base_dir =
     (let seed = absolute_path h apk_path @
            (case file_size h apk_path of None \<Rightarrow> []
             | Some n \<Rightarrow> '':'' @ n @ (case last_write_time h apk_path of None \<Rightarrow> [] | Some t \<Rightarrow> '':'' @ t));
          dir = sanitize_path_component (stem apk_path) @ ''-'' @ string_hash h seed;
          base = (if base_dir = [] then path_join (path_join (working_dir h) ''build'') ''apk'' else base_dir) in
      path_join base dir)"

section \<open>Extraction and launch\<close>

text \<open>What is written, in order, and the result. An exception leaves the files that have been written.\<close>

definition extract_apk_entry ::
  "(u8 list \<Rightarrow> nat \<Rightarrow> u8 list option) \<Rightarrow> host \<Rightarrow> string \<Rightarrow> string \<Rightarrow> string \<Rightarrow> (string \<times> u8 list) list \<times> (exn + bool)" where
  "extract_apk_entry inflate h apk_path entry_path output_path =
     (if \<not> safe_zip_path entry_path then ([], Inr False)
      else
        case rbind (read_file h apk_path) (\<lambda>apk. rbind (read_zip_entries apk) (\<lambda>entries.
          case List.find (\<lambda>e. ze_name e = entry_path) entries of None \<Rightarrow> Inr None
          | Some e \<Rightarrow> rbind (extract_entry_data inflate apk e) (\<lambda>data. Inr (Some data)))) of
          Inl e \<Rightarrow> ([], Inl e)
        | Inr None \<Rightarrow> ([], Inr False)
        | Inr (Some data) \<Rightarrow>
            if \<not> can_make_dir h (parent_path output_path) \<or> \<not> can_open h output_path then ([], Inr False)
            else ([(output_path, data)], Inr (write_good h output_path)))"

record launch_config =
  cfg_apk_path :: string
  cfg_lib_name :: "string option"
  cfg_output_base_dir :: string
  cfg_output_dir :: string

record launch_result =
  r_apk_path :: string
  r_extract_dir :: string
  r_so_path :: string
  r_assets_dir :: string
  r_selected_lib :: string
  extracted_libs :: "string list"
  extracted_assets :: "string list"
  r_manifest :: apk_classification

definition select_lib :: "string option \<Rightarrow> string option \<Rightarrow> zip_entry list \<Rightarrow> exn + zip_entry" where
  "select_lib requested manifest_lib libs =
     (case requested of
        Some r \<Rightarrow> (case List.find (\<lambda>l. lib_name_matches (ze_name l) r) libs of Some l \<Rightarrow> Inr l
          | None \<Rightarrow> Inl (Throws ''APK does not contain requested arm64 lib ''))
      | None \<Rightarrow>
          case (case manifest_lib of
              Some ml \<Rightarrow> List.find (\<lambda>l. lib_name_matches (ze_name l) ml) libs
            | None \<Rightarrow> if length libs = 1 then Some (hd libs) else List.find (\<lambda>l. lib_name_matches (ze_name l) ''main'') libs) of
            Some l \<Rightarrow> Inr l
          | None \<Rightarrow> Inl (Throws ''APK has multiple arm64 native libraries and no clear NativeActivity lib_name''))"

text \<open>The part before anything is written.\<close>

definition launch_plan ::
  "(u8 list \<Rightarrow> nat \<Rightarrow> u8 list option) \<Rightarrow> host \<Rightarrow> launch_config \<Rightarrow>
   (exn + u8 list \<times> apk_classification \<times> zip_entry list \<times> zip_entry list \<times> zip_entry) option" where
  "launch_plan inflate h config =
     (if cfg_apk_path config = [] then Some (Inl (Throws ''APK path is empty''))
      else
        obind (Some (read_file h (cfg_apk_path config))) (\<lambda>apk.
        obind (Some (read_zip_entries apk)) (\<lambda>entries.
        obind (classify_entries inflate apk entries) (\<lambda>c.
        let libs = filter (\<lambda>e. is_arm64_lib (ze_name e)) entries;
            assets = filter (\<lambda>e. \<not> is_arm64_lib (ze_name e) \<and> is_asset (ze_name e)) entries in
        if libs = [] \<and> runtime_kind c = JavaOnly then Some (Inl (Throws ''APK runtime kind is java-only''))
        else if libs = [] then Some (Inl (Throws ''APK has no lib/arm64-v8a/*.so entries''))
        else obind (Some (select_lib (cfg_lib_name config) (c_manifest_lib c) libs)) (\<lambda>selected.
          Some (Inr (apk, c, libs, assets, selected)))))))"

definition launch_dir :: "host \<Rightarrow> launch_config \<Rightarrow> string" where
  "launch_dir h config =
     (if cfg_output_dir config = [] then default_extract_dir h (cfg_apk_path config) (cfg_output_base_dir config) else cfg_output_dir config)"

fun extract_files ::
  "(zip_entry \<Rightarrow> exn + u8 list) \<Rightarrow> (string \<Rightarrow> exn option) \<Rightarrow> (zip_entry \<Rightarrow> string) \<Rightarrow> zip_entry list \<Rightarrow> (string \<times> u8 list) list \<Rightarrow>
   (string \<times> u8 list) list \<times> exn option" where
  "extract_files data_of blocked path [] ws = (ws, None)"
| "extract_files data_of blocked path (e # es) ws =
     (case data_of e of Inl x \<Rightarrow> (ws, Some x)
      | Inr bytes \<Rightarrow>
          case blocked (path e) of Some x \<Rightarrow> (ws, Some x)
          | None \<Rightarrow> extract_files data_of blocked path es (ws @ [(path e, bytes)]))"

definition lib_blocked :: "host \<Rightarrow> string \<Rightarrow> exn option" where
  "lib_blocked h p = (if can_open h p then None else Some (Throws ''unable to write extracted lib: ''))"

definition asset_blocked :: "host \<Rightarrow> string \<Rightarrow> exn option" where
  "asset_blocked h p =
     (if \<not> can_make_dir h (parent_path p) then Some (Throws ''create_directories'')
      else if can_open h p then None else Some (Throws ''unable to write extracted asset: ''))"

definition prepare_apk_launch ::
  "(u8 list \<Rightarrow> nat \<Rightarrow> u8 list option) \<Rightarrow> host \<Rightarrow> launch_config \<Rightarrow> ((string \<times> u8 list) list \<times> (exn + launch_result)) option" where
  "prepare_apk_launch inflate h config =
     Option.bind (launch_plan inflate h config) (\<lambda>plan.
       case plan of Inl e \<Rightarrow> Some ([], Inl e)
       | Inr (apk, c, libs, assets, selected) \<Rightarrow>
           let extract_dir = launch_dir h config;
               lib_dir = path_join (path_join extract_dir ''lib'') ''arm64-v8a'';
               assets_dir = path_join extract_dir ''assets'';
               lib_path = (\<lambda>e. path_join lib_dir (filename_from_zip_path (ze_name e)));
               asset_path = (\<lambda>e. path_join extract_dir (ze_name e));
               data_of = extract_entry_data inflate apk in
           if \<not> can_make_dir h lib_dir \<or> assets \<noteq> [] \<and> \<not> can_make_dir h assets_dir then Some ([], Inl (Throws ''create_directories''))
           else
             case extract_files data_of (lib_blocked h) lib_path libs [] of
               (ws, Some e) \<Rightarrow> Some (ws, Inl e)
             | (ws, None) \<Rightarrow>
                 case extract_files data_of (asset_blocked h) asset_path assets ws of
                   (ws, Some e) \<Rightarrow> Some (ws, Inl e)
                 | (ws, None) \<Rightarrow>
                     Some (ws, Inr \<lparr>r_apk_path = cfg_apk_path config, r_extract_dir = extract_dir, r_so_path = lib_path selected,
                       r_assets_dir = assets_dir, r_selected_lib = lib_base_name (ze_name selected),
                       extracted_libs = map lib_path libs, extracted_assets = map asset_path assets, r_manifest = c\<rparr>))"

section \<open>When the manifest reader returns\<close>

lemma info_returns: "manifest_sized manifest \<Longrightarrow> returns (infer_manifest_info manifest bases)"
  unfolding infer_manifest_info_def infer_binary_manifest_package_def infer_binary_manifest_string_attribute_def infer_binary_manifest_resource_attribute_def
  by (intro return_intros search_attribute_returns launch_returns widget_returns lib_returns) simp_all

lemma zeros_hang: "28 \<le> n \<Longrightarrow> infer_manifest_info (replicate n 0) bases = None"
proof -
  assume n: "28 \<le> n"
  then have "dropWhile is_space (replicate n 0) = replicate n 0" by (cases n) (simp_all add: is_space_def)
  then show ?thesis using n zeros_stuck [OF n]
    by (cases n) (simp_all add: infer_manifest_info_def infer_binary_manifest_package_def search_attribute_def is_space_def)
qed

text \<open>C35: Reading a manifest ends when no chunk that the walk over it reaches has size zero; text manifests always do.
  The condition is needed: on a manifest of zero bytes, at least as long as a chunk header, the reader
  never returns.\<close>

theorem manifest_reader_returns:
  "(manifest_sized manifest \<or> take 1 (dropWhile is_space manifest) = [0x3c] \<longrightarrow> (\<exists>r. infer_manifest_info manifest bases = Some r)) \<and>
   (28 \<le> n \<longrightarrow> infer_manifest_info (replicate n 0) bases = None)"
proof -
  have "\<exists>r. infer_manifest_info manifest bases = Some r" if "manifest_sized manifest"
    using info_returns [OF that, of bases] by (auto simp: returns_def)
  moreover have "\<exists>r. infer_manifest_info manifest bases = Some r" if "take 1 (dropWhile is_space manifest) = [0x3c]"
    using that by (cases "dropWhile is_space manifest") (simp_all add: infer_manifest_info_def)
  ultimately show ?thesis using zeros_hang by blast
qed

theorem manifest_reader_returns_witness:
  "(\<exists>r. infer_manifest_info [3, 0, 8, 0, 8, 0, 0, 0] [] = Some r) \<and> infer_manifest_info (replicate 28 0) [] = None"
proof -
  have "xml_start [3, 0, 8, 0, 8, 0, 0, 0] = Inr 8" by code_simp
  then have "manifest_sized [3, 0, 8, 0, 8, 0, 0, 0]" by (simp add: manifest_sized_def well_sized.simps)
  then show ?thesis using manifest_reader_returns [of "[3, 0, 8, 0, 8, 0, 0, 0]" "[]" 28] by simp
qed

section \<open>Where files are written\<close>

text \<open>How the system walks along the parts of a path, from a directory given by its parts.\<close>

definition step_dir :: "string list \<Rightarrow> string \<Rightarrow> string list" where
  "step_dir dir part = (if part = [] \<or> part = ''.'' then dir else if part = ''..'' then butlast dir else dir @ [part])"

definition resolve :: "string list \<Rightarrow> string \<Rightarrow> string list" where
  "resolve dir path = foldl step_dir (if path \<noteq> [] \<and> hd path = CHR ''/'' then [] else dir) (split_slash path)"

lemma split_slash_nonempty: "split_slash p \<noteq> []"
  by (induction p) (auto split: list.split)

lemma split_slash_append: "split_slash (a @ CHR ''/'' # b) = split_slash a @ split_slash b"
proof (induction a)
  case (Cons c a)
  then show ?case using split_slash_nonempty [of a] by (auto split: list.split)
qed simp

lemma split_slash_name: "CHR ''/'' \<notin> set p \<Longrightarrow> split_slash p = [p]"
  by (induction p) auto

lemma split_slash_parts: "q \<in> set (split_slash p) \<Longrightarrow> CHR ''/'' \<notin> set q"
  by (induction p arbitrary: q) (auto split: list.splits if_splits)

lemma resolve_rel: "b \<noteq> [] \<Longrightarrow> hd b \<noteq> CHR ''/'' \<Longrightarrow> resolve dir b = foldl step_dir dir (split_slash b)"
  by (simp add: resolve_def)

lemma resolve_join:
  assumes b: "b \<noteq> []" "hd b \<noteq> CHR ''/''"
  shows "resolve dir (path_join a b) = resolve (resolve dir a) b"
proof (cases "a = []")
  case True
  then show ?thesis using b by (simp add: path_join_def resolve_def step_dir_def)
next
  case False
  show ?thesis
  proof (cases "last a = CHR ''/''")
    case True
    then obtain c where a: "a = c @ [CHR ''/'']" using False by (metis append_butlast_last_id)
    have "foldl step_dir d (split_slash a @ split_slash b) = foldl step_dir d (split_slash c @ split_slash b)" for d
      by (simp add: a split_slash_append step_dir_def)
    moreover have "split_slash (a @ b) = split_slash c @ split_slash b" by (simp add: a split_slash_append)
    ultimately show ?thesis using False True b by (simp add: path_join_def resolve_def)
  next
    case nl: False
    then show ?thesis using False b by (simp add: path_join_def resolve_def split_slash_append)
  qed
qed

lemma inside_parts: "''..'' \<notin> set parts \<Longrightarrow> \<exists>rest. foldl step_dir dir parts = dir @ rest"
proof (induction parts arbitrary: dir)
  case (Cons p parts)
  then obtain rest where "foldl step_dir (step_dir dir p) parts = step_dir dir p @ rest" by auto
  moreover have "\<exists>r. step_dir dir p = dir @ r" using Cons.prems by (auto simp: step_dir_def)
  ultimately show ?case by auto
qed simp

text \<open>Paths of libraries and of assets.\<close>

lemma filename_no_slash: "CHR ''/'' \<notin> set (filename_from_zip_path p)"
  unfolding filename_from_zip_path_def by (auto dest: set_takeWhileD)

lemma filename_ends:
  assumes "ends_with name ''.so''"
  shows "ends_with (filename_from_zip_path name) ''.so''"
proof -
  obtain a where a: "name = a @ ''.so''" using assms unfolding ends_with_def by (metis append_take_drop_id)
  then have "filename_from_zip_path name = rev (takeWhile (\<lambda>c. c \<noteq> CHR ''/'') (rev a)) @ ''.so''"
    by (simp add: filename_from_zip_path_def)
  then show ?thesis by (simp add: ends_with_def)
qed

lemma lib_inside:
  assumes "is_arm64_lib name"
  shows "resolve dir (path_join (path_join (path_join d ''lib'') ''arm64-v8a'') (filename_from_zip_path name)) =
    resolve dir d @ [''lib'', ''arm64-v8a'', filename_from_zip_path name]"
proof -
  let ?f = "filename_from_zip_path name"
  have "ends_with ?f ''.so''" using assms filename_ends by (simp add: is_arm64_lib_def)
  then have f: "?f \<noteq> []" "?f \<noteq> ''.''" "?f \<noteq> ''..''" by (auto simp: ends_with_def)
  moreover have "hd ?f \<noteq> CHR ''/''" using filename_no_slash f(1) by (metis hd_in_set)
  ultimately show ?thesis
    by (simp add: resolve_join) (simp add: resolve_rel split_slash_name filename_no_slash step_dir_def)
qed

lemma asset_inside:
  assumes "is_asset name"
  shows "\<exists>rest. resolve dir (path_join d name) = resolve dir d @ ''assets'' # rest"
proof -
  obtain b where b: "name = ''assets'' @ CHR ''/'' # b"
    using assms unfolding is_asset_def starts_with_def by (metis append_Cons append_take_drop_id append_Nil)
  have "''..'' \<notin> set (split_slash name)" using assms by (auto simp: is_asset_def safe_zip_path_def list_ex_iff)
  then have "''..'' \<notin> set (split_slash b)" unfolding b split_slash_append by simp
  then obtain rest where "foldl step_dir (resolve dir d @ [''assets'']) (split_slash b) = (resolve dir d @ [''assets'']) @ rest"
    using inside_parts by blast
  moreover have "split_slash name = ''assets'' # split_slash b" unfolding b split_slash_append by (simp add: split_slash_name)
  ultimately have "foldl step_dir (resolve dir d) (split_slash name) = resolve dir d @ ''assets'' # rest" by (simp add: step_dir_def)
  moreover have "name \<noteq> []" "hd name \<noteq> CHR ''/''" by (simp_all add: b)
  ultimately show ?thesis by (auto simp: resolve_join resolve_rel)
qed

text \<open>Every file that is written comes from an entry; when nothing goes wrong, every entry has its file.\<close>

lemma extract_files_from:
  assumes "extract_files data_of blocked path es ws0 = (ws, x)"
  shows "\<forall>(p, bytes) \<in> set ws - set ws0. \<exists>e \<in> set es. p = path e \<and> data_of e = Inr bytes"
    "x = None \<Longrightarrow> map fst ws = map fst ws0 @ map path es"
  using assms
  by (induction data_of blocked path es ws0 arbitrary: ws x rule: extract_files.induct) (fastforce split: sum.splits option.splits)+

lemma select_lib_in: "select_lib requested manifest_lib libs = Inr l \<Longrightarrow> libs \<noteq> [] \<Longrightarrow> l \<in> set libs"
  unfolding select_lib_def
  by (auto split: option.splits if_splits dest!: find_Some_iff [THEN iffD1] simp: in_set_conv_nth hd_conv_nth)

definition inside_launch_dir :: "string list \<Rightarrow> string \<Rightarrow> string \<Rightarrow> bool" where
  "inside_launch_dir dir d path \<longleftrightarrow>
     (\<exists>f. resolve dir path = resolve dir d @ [''lib'', ''arm64-v8a'', f]) \<or> (\<exists>rest. resolve dir path = resolve dir d @ ''assets'' # rest)"

lemma launch_plan_cases:
  assumes "launch_plan inflate h config = Some (Inr (apk, c, libs, assets, selected))"
  shows "read_file h (cfg_apk_path config) = Inr apk" "selected \<in> set libs"
    "\<exists>entries. read_zip_entries apk = Inr entries \<and> libs = filter (\<lambda>e. is_arm64_lib (ze_name e)) entries \<and>
       assets = filter (\<lambda>e. \<not> is_arm64_lib (ze_name e) \<and> is_asset (ze_name e)) entries"
  using assms unfolding launch_plan_def Let_def by (auto simp: obind_Inr split: if_splits dest: select_lib_in)

lemma files_inside:
  assumes plan: "launch_plan inflate h config = Some (Inr (apk, c, libs, assets, selected))"
    and libs: "extract_files (extract_entry_data inflate apk) lb (\<lambda>e. path_join (path_join (path_join d ''lib'') ''arm64-v8a'') (filename_from_zip_path (ze_name e))) libs [] = (ws, x)"
    and assets: "extract_files (extract_entry_data inflate apk) ab (\<lambda>e. path_join d (ze_name e)) assets ws = (ws', y)"
  shows "\<forall>(path, bytes) \<in> set ws \<union> set ws'. inside_launch_dir dir d path \<and>
    (\<exists>es e. read_zip_entries apk = Inr es \<and> e \<in> set es \<and> extract_entry_data inflate apk e = Inr bytes)"
proof -
  obtain entries where e: "read_zip_entries apk = Inr entries" "libs = filter (\<lambda>e. is_arm64_lib (ze_name e)) entries"
    "assets = filter (\<lambda>e. \<not> is_arm64_lib (ze_name e) \<and> is_asset (ze_name e)) entries" using launch_plan_cases(3) [OF plan] by blast
  have l: "inside_launch_dir dir d path \<and> (\<exists>e. e \<in> set entries \<and> extract_entry_data inflate apk e = Inr bytes)" if mem: "(path, bytes) \<in> set ws" for path bytes
  proof -
    obtain a where a: "a \<in> set libs" "path = path_join (path_join (path_join d ''lib'') ''arm64-v8a'') (filename_from_zip_path (ze_name a))"
      "extract_entry_data inflate apk a = Inr bytes" using extract_files_from(1) [OF libs] mem by auto
    then show ?thesis using e(2) lib_inside [of "ze_name a" dir d] by (auto simp: inside_launch_dir_def)
  qed
  have "inside_launch_dir dir d path \<and> (\<exists>e. e \<in> set entries \<and> extract_entry_data inflate apk e = Inr bytes)" if mem: "(path, bytes) \<in> set ws' - set ws" for path bytes
  proof -
    obtain a where a: "a \<in> set assets" "path = path_join d (ze_name a)" "extract_entry_data inflate apk a = Inr bytes"
      using extract_files_from(1) [OF assets] mem by blast
    then show ?thesis using e(3) asset_inside [of "ze_name a" dir d] by (auto simp: inside_launch_dir_def)
  qed
  then have "inside_launch_dir dir d path \<and> (\<exists>e. e \<in> set entries \<and> extract_entry_data inflate apk e = Inr bytes)"
    if "(path, bytes) \<in> set ws \<union> set ws'" for path bytes using l that by (cases "(path, bytes) \<in> set ws") simp_all
  then show ?thesis unfolding e(1) by auto
qed

lemma prepare_cases:
  assumes "prepare_apk_launch inflate h config = Some (ws, res)"
  shows "ws = [] \<and> (\<exists>x. res = Inl x) \<or>
    (\<exists>apk c libs assets selected lib_files x asset_files y.
       launch_plan inflate h config = Some (Inr (apk, c, libs, assets, selected)) \<and>
       extract_files (extract_entry_data inflate apk) (lib_blocked h)
         (\<lambda>e. path_join (path_join (path_join (launch_dir h config) ''lib'') ''arm64-v8a'') (filename_from_zip_path (ze_name e))) libs [] = (lib_files, x) \<and>
       extract_files (extract_entry_data inflate apk) (asset_blocked h) (\<lambda>e. path_join (launch_dir h config) (ze_name e)) assets lib_files = (asset_files, y) \<and>
       (ws = lib_files \<and> (\<exists>e. res = Inl e) \<or> ws = asset_files \<and> (\<exists>e. res = Inl e) \<or>
        x = None \<and> y = None \<and> ws = asset_files \<and> (\<exists>r. res = Inr r \<and> r_extract_dir r = launch_dir h config \<and>
          extracted_libs r = map (\<lambda>e. path_join (path_join (path_join (launch_dir h config) ''lib'') ''arm64-v8a'') (filename_from_zip_path (ze_name e))) libs \<and>
          extracted_assets r = map (\<lambda>e. path_join (launch_dir h config) (ze_name e)) assets \<and>
          r_so_path r = path_join (path_join (path_join (launch_dir h config) ''lib'') ''arm64-v8a'') (filename_from_zip_path (ze_name selected)))))"
proof -
  obtain plan where plan: "launch_plan inflate h config = Some plan" using assms by (auto simp: prepare_apk_launch_def bind_eq_Some_conv)
  show ?thesis
  proof (cases plan)
    case (Inl e)
    then show ?thesis using assms plan by (auto simp: prepare_apk_launch_def)
  next
    case (Inr q)
    obtain apk c libs assets selected where q: "q = (apk, c, libs, assets, selected)" by (cases q)
    show ?thesis using assms unfolding prepare_apk_launch_def plan Inr q Let_def
      by (auto simp: plan Inr q split: if_splits prod.splits option.splits)
  qed
qed


text \<open>An archive with a library and an asset.\<close>

definition stored :: "string \<Rightarrow> u8 list \<Rightarrow> member" where
  "stored name data = \<lparr>m_name = bytes_of name, m_flags = 0, m_method = 0, m_data = data, m_usize = of_nat (length data),
     m_local_extra = [], m_extra = [], m_comment = []\<rparr>"

definition demo_apk :: "member list" where
  "demo_apk = [stored ''lib/arm64-v8a/libx.so'' [127], stored ''assets/../evil'' [6], stored ''assets/a'' [1, 2]]"

lemma demo_apk_reads:
  "read_zip_entries (zip_of demo_apk) = Inr (entries_of 0 demo_apk)"
  "map (extract_entry_data inflate (zip_of demo_apk)) (entries_of 0 demo_apk) = [Inr [127], Inr [6], Inr [1, 2]]"
proof -
  have ok: "\<forall>m \<in> set demo_apk. member_ok m" by (simp add: demo_apk_def stored_def bytes_of_def member_ok_def)
  have "length demo_apk = 3" "length (zip_of demo_apk) < 2 ^ 32 - 1"
    by (simp_all add: demo_apk_def stored_def bytes_of_def zip_of_def local_part_def central_part_def eocd_of_def)
  then show "read_zip_entries (zip_of demo_apk) = Inr (entries_of 0 demo_apk)" using read_zip_of [OF ok] by simp
  show "map (extract_entry_data inflate (zip_of demo_apk)) (entries_of 0 demo_apk) = [Inr [127], Inr [6], Inr [1, 2]]"
    using extract_zip_of [OF ok, of inflate] by (simp add: demo_apk_def stored_def extracted_def)
qed

definition demo_host :: host where
  "demo_host = \<lparr>read_file = (\<lambda>p. if p = ''x.apk'' then Inr (zip_of demo_apk) else Inl (Throws ''unable to open APK: '')), can_make_dir = (\<lambda>_. True),
     can_open = (\<lambda>_. True), write_good = (\<lambda>_. True), absolute_path = (\<lambda>p. ''/home/'' @ p), working_dir = ''/home'', file_size = (\<lambda>_. None),
     last_write_time = (\<lambda>_. None), string_hash = (\<lambda>_. ''5a'')\<rparr>"

definition demo_config :: launch_config where
  "demo_config = \<lparr>cfg_apk_path = ''x.apk'', cfg_lib_name = None, cfg_output_base_dir = [], cfg_output_dir = []\<rparr>"

lemma demo_dir: "launch_dir demo_host demo_config = ''/home/build/apk/x-5a''"
  by code_simp

text \<open>The entry that would lead out of the directory is left out.\<close>

lemma demo_apk_launch:
  "\<exists>r. prepare_apk_launch inflate demo_host demo_config =
     Some ([(''/home/build/apk/x-5a/lib/arm64-v8a/libx.so'', [127]), (''/home/build/apk/x-5a/assets/a'', [1, 2])], Inr r)"
proof -
  let ?es = "entries_of 0 demo_apk"
  obtain e1 e2 e3 where es: "?es = [e1, e2, e3]" by (simp add: demo_apk_def)
  have n: "map ze_name ?es = [''lib/arm64-v8a/libx.so'', ''assets/../evil'', ''assets/a'']"
    by (simp add: entries_names demo_apk_def stored_def chars_of_bytes_of)
  then have names: "ze_name e1 = ''lib/arm64-v8a/libx.so''" "ze_name e2 = ''assets/../evil''" "ze_name e3 = ''assets/a''" by (simp_all add: es)
  have data: "extract_entry_data inflate (zip_of demo_apk) e1 = Inr [127]" "extract_entry_data inflate (zip_of demo_apk) e3 = Inr [1, 2]"
    using demo_apk_reads(2) [of inflate] by (simp_all add: es)
  have preds: "is_arm64_lib ''lib/arm64-v8a/libx.so''" "\<not> is_arm64_lib ''assets/../evil''" "\<not> is_arm64_lib ''assets/a''"
    "\<not> is_asset ''assets/../evil''" "is_asset ''assets/a''" "filename_from_zip_path ''lib/arm64-v8a/libx.so'' = ''libx.so''" by code_simp+
  obtain c where c: "classify_entries inflate (zip_of demo_apk) ?es = Some (Inr c)" "c_manifest_lib c = None"
    by (simp add: classify_entries_def last_named_def es names Let_def)
  have "select_lib None None [e1] = Inr e1" by (simp add: select_lib_def)
  then have plan: "launch_plan inflate demo_host demo_config = Some (Inr (zip_of demo_apk, c, [e1], [e3], e1))"
    using c unfolding es by (simp add: launch_plan_def demo_host_def demo_config_def demo_apk_reads(1) es names preds Let_def)
  have h: "can_make_dir demo_host p" "can_open demo_host p" for p by (simp_all add: demo_host_def)
  show ?thesis
    by (simp add: prepare_apk_launch_def plan demo_dir lib_blocked_def asset_blocked_def h names preds data path_join_def Let_def)
qed


end
