(* ===== verification/Apk_Events.thy ===== *)
theory Apk_Events
  imports Apk_Axml
begin

text \<open>
  Compiled manifests as a sequence of events: a pool of strings and the start and end of elements, whose names,
  attribute names and values are indices into the pool. The theory encodes them to bytes and shows that the
  readers of \<open>Apk_Axml\<close> compute functions of the events.
\<close>

section \<open>Encoding\<close>

datatype attr_value = ARaw nat | ATyped nat nat

datatype xml_node = XStart nat "(nat \<times> attr_value) list" | XEnd nat | XOther nat "u8 list"

definition NO_INDEX :: nat where "NO_INDEX = 0xffffffff"

type_synonym chunk = "nat \<times> nat \<times> u8 list"

definition chunk_size :: "chunk \<Rightarrow> nat" where
  "chunk_size c = (case c of (t, hs, pl) \<Rightarrow> 8 + length pl)"

definition chunk_encoding :: "chunk \<Rightarrow> u8 list" where
  "chunk_encoding c = (case c of (t, hs, pl) \<Rightarrow> w16 t @ w16 hs @ w32 (8 + length pl) @ pl)"

definition attr_bytes :: "nat \<times> attr_value \<Rightarrow> u8 list" where
  "attr_bytes a = (case a of
       (nm, ARaw v) \<Rightarrow> w32 NO_INDEX @ w32 nm @ w32 v @ w16 8 @ [0, 3] @ w32 v
     | (nm, ATyped t d) \<Rightarrow> w32 NO_INDEX @ w32 nm @ w32 NO_INDEX @ w16 8 @ [0, of_nat t] @ w32 d)"

definition element_head :: "nat \<Rightarrow> u8 list" where
  "element_head nm = w32 0 @ w32 NO_INDEX @ w32 NO_INDEX @ w32 nm"

definition node_chunk :: "xml_node \<Rightarrow> chunk" where
  "node_chunk n = (case n of
       XStart nm ats \<Rightarrow> (0x0102, 16, element_head nm @ w16 20 @ w16 20 @ w16 (length ats) @ w16 0 @ w16 0 @ w16 0 @ concat (map attr_bytes ats))
     | XEnd nm \<Rightarrow> (0x0103, 16, element_head nm)
     | XOther t pl \<Rightarrow> (t, 8, pl))"

definition string_bytes :: "u8 list \<Rightarrow> u8 list" where
  "string_bytes s = [of_nat (length s), of_nat (length s)] @ s @ [0]"

fun offsets_of :: "nat \<Rightarrow> u8 list list \<Rightarrow> u8 list" where
  "offsets_of k [] = []"
| "offsets_of k (s # ss) = w32 k @ offsets_of (k + length (string_bytes s)) ss"

definition pool_chunk :: "u8 list list \<Rightarrow> chunk" where
  "pool_chunk ss = (1, 28, w32 (length ss) @ w32 0 @ w32 0x100 @ w32 (28 + 4 * length ss) @ w32 0 @
     offsets_of 0 ss @ concat (map string_bytes ss))"

fun item_chunk :: "u8 list list \<Rightarrow> xml_node option \<Rightarrow> chunk" where
  "item_chunk ss None = pool_chunk ss"
| "item_chunk ss (Some n) = node_chunk n"

definition manifest_bytes :: "u8 list list \<Rightarrow> xml_node list \<Rightarrow> u8 list" where
  "manifest_bytes ss nodes =
     (let body = concat (map (\<lambda>n. chunk_encoding (item_chunk ss n)) (None # map Some nodes)) in w16 3 @ w16 8 @ w32 (8 + length body) @ body)"

section \<open>Meaning\<close>

definition name_at :: "string list \<Rightarrow> nat \<Rightarrow> string option" where
  "name_at strings i = (if i < length strings then Some (strings ! i) else None)"

fun attr_spec :: "string list \<Rightarrow> (attr_value \<Rightarrow> 'r option) \<Rightarrow> string \<Rightarrow> (nat \<times> attr_value) list \<Rightarrow> 'r option" where
  "attr_spec strings value wanted [] = None"
| "attr_spec strings value wanted ((nm, v) # ats) =
     (if name_at strings nm = Some wanted
      then (case value v of Some r \<Rightarrow> Some r | None \<Rightarrow> attr_spec strings value wanted ats)
      else attr_spec strings value wanted ats)"

fun string_spec :: "string list \<Rightarrow> attr_value \<Rightarrow> string option" where
  "string_spec strings (ARaw v) = name_at strings v"
| "string_spec strings (ATyped t d) = (if t = 3 then name_at strings d else None)"

fun resource_spec :: "attr_value \<Rightarrow> nat option" where
  "resource_spec (ARaw v) = None"
| "resource_spec (ATyped t d) = (if t = 1 \<or> t = 7 then Some d else None)"

text \<open>The first element of a name that has the attribute.\<close>

fun search_spec :: "string list \<Rightarrow> (attr_value \<Rightarrow> 'r option) \<Rightarrow> string \<Rightarrow> string \<Rightarrow> xml_node list \<Rightarrow> 'r option" where
  "search_spec strings value element attribute [] = None"
| "search_spec strings value element attribute (XStart nm ats # ns) =
     (case (if name_at strings nm = Some element then attr_spec strings value attribute ats else None) of
        Some r \<Rightarrow> Some r | None \<Rightarrow> search_spec strings value element attribute ns)"
| "search_spec strings value element attribute (n # ns) = search_spec strings value element attribute ns"

text \<open>The activities that can be launched: those with the main action and a launcher category between their start
  and their end.\<close>

fun launch_spec :: "string list \<Rightarrow> string \<Rightarrow> xml_node \<Rightarrow> launch_state \<Rightarrow> launch_state" where
  "launch_spec strings pkg (XStart nm ats) st =
     (let v = attr_spec strings (string_spec strings) ''name'' ats in
      if name_at strings nm = Some ''activity'' then
        (case v of None \<Rightarrow> st
         | Some a \<Rightarrow> st\<lparr>current_activity := Some (normalize_activity_name pkg a),
             first_activity := (case first_activity st of None \<Rightarrow> Some (normalize_activity_name pkg a) | f \<Rightarrow> f),
             has_main_action := False, has_launcher_category := False\<rparr>)
      else if current_activity st = None then st
      else if name_at strings nm = Some ''action'' then st\<lparr>has_main_action := (has_main_action st \<or> v = Some ''android.intent.action.MAIN'')\<rparr>
      else if name_at strings nm = Some ''category'' then
        st\<lparr>has_launcher_category := (has_launcher_category st \<or> v \<in> Some ` set launcher_categories)\<rparr>
      else st)"
| "launch_spec strings pkg (XEnd nm) st =
     (if name_at strings nm = Some ''activity'' \<and> current_activity st \<noteq> None then
        st\<lparr>launcher_activities := launcher_activities st @
             (if has_main_action st \<and> has_launcher_category st then [the (current_activity st)] else []),
           current_activity := None\<rparr>
      else st)"
| "launch_spec strings pkg (XOther t pl) st = st"

definition no_launch :: launch_state where
  "no_launch = \<lparr>first_activity = None, current_activity = None, launcher_activities = [], has_main_action = False, has_launcher_category = False\<rparr>"

definition launch_activity_spec :: "string list \<Rightarrow> string \<Rightarrow> xml_node list \<Rightarrow> string option" where
  "launch_activity_spec strings pkg nodes = launch_choice (fold (launch_spec strings pkg) nodes no_launch)"

section \<open>Walking over encoded chunks\<close>

definition chunk_ok :: "chunk \<Rightarrow> bool" where
  "chunk_ok c \<longleftrightarrow> (case c of (t, hs, pl) \<Rightarrow> t < 2 ^ 16 \<and> hs < 2 ^ 16 \<and> hs \<le> 8 + length pl \<and> 8 + length pl < 2 ^ 32)"

lemma length_chunk_encoding [simp]: "length (chunk_encoding c) = chunk_size c"
  by (simp add: chunk_encoding_def chunk_size_def split: prod.split)

lemma chunk_header_in:
  assumes "chunk_ok (t, hs, pl)"
  shows "chunk_header (pre @ chunk_encoding (t, hs, pl) @ post) (length pre) = Inr (t, hs, 8 + length pl)"
proof -
  let ?c = "chunk_encoding (t, hs, pl)"
  have "read_u16 ?c 0 = Inr t" "read_u16 ?c 2 = Inr hs" "read_u32 ?c 4 = Inr (8 + length pl)"
    using assms read_w(1) [of "[]" 0 t] read_w(1) [of "w16 t" 2 hs] read_w(2) [of "w16 t @ w16 hs" 4 "8 + length pl"]
    by (simp_all add: chunk_encoding_def chunk_ok_def)
  then show ?thesis
    using read_in(1) [of 0 ?c pre post] read_in(1) [of 2 ?c pre post] read_in(2) [of 4 ?c pre post]
    by (simp add: chunk_header_def chunk_size_def)
qed

fun run :: "('n \<Rightarrow> 's \<Rightarrow> ('s, 'r) flow) \<Rightarrow> 'n list \<Rightarrow> 's \<Rightarrow> ('s, 'r) flow" where
  "run g [] st = Go st"
| "run g (n # ns) st = (case g n st of Go st' \<Rightarrow> run g ns st' | Ret r \<Rightarrow> Ret r)"

lemma walk_chunks_run:
  assumes "\<forall>n \<in> set ns. chunk_ok (enc n)" and "0 < room" and "room \<le> 8"
    and "data = pre @ concat (map (\<lambda>n. chunk_encoding (enc n)) ns)"
    and "\<And>n t hs pl pre' post st. n \<in> set ns \<Longrightarrow> enc n = (t, hs, pl) \<Longrightarrow> data = pre' @ chunk_encoding (enc n) @ post \<Longrightarrow>
      body (length pre') t hs (8 + length pl) st = Some (Inr (g n st))"
  shows "walk_chunks data room (length data) body (length pre) st = Some (Inr (run g ns st))"
  using assms
proof (induction ns arbitrary: pre st)
  case Nil
  then show ?case by (simp add: walk_chunks.simps [of pre])
next
  case (Cons n ns)
  obtain t hs pl where c: "enc n = (t, hs, pl)" by (cases "enc n")
  have data: "data = pre @ chunk_encoding (enc n) @ concat (map (\<lambda>n. chunk_encoding (enc n)) ns)" using Cons.prems(4) by simp
  have hd: "chunk_header data (length pre) = Inr (t, hs, 8 + length pl)"
    unfolding data c using Cons.prems(1) c by (intro chunk_header_in) (metis list.set_intros(1))
  have "chunk_ok (t, hs, pl)" using Cons.prems(1) c by (metis list.set_intros(1))
  then have hs: "hs \<le> 8 + length pl" by (simp add: chunk_ok_def)
  have b: "body (length pre) t hs (8 + length pl) st = Some (Inr (g n st))" using Cons.prems(5) data c by (metis list.set_intros(1))
  have len: "length data = length pre + (8 + length pl) + length (concat (map (\<lambda>n. chunk_encoding (enc n)) ns))" by (simp add: data c chunk_size_def)
  have IH: "walk_chunks data room (length data) body (length (pre @ chunk_encoding (enc n))) st' = Some (Inr (run g ns st'))" for st'
    by (rule Cons.IH) (use Cons.prems in auto)
  have fits: "length pre + room \<le> length data" "length pre + (8 + length pl) \<le> length data" using len Cons.prems(3) by simp_all
  have "walk_chunks data room (length data) body (length pre) st =
      (case g n st of Go st' \<Rightarrow> walk_chunks data room (length data) body (length (pre @ chunk_encoding (enc n))) st' | Ret r \<Rightarrow> Some (Inr (Ret r)))"
    using hd hs b fits by (subst walk_chunks.simps) (simp add: c chunk_size_def add.assoc split: flow.split)
  then show ?case by (simp add: IH del: length_append split: flow.split)
qed

section \<open>Elements\<close>

definition attr_ok :: "nat \<times> attr_value \<Rightarrow> bool" where
  "attr_ok a \<longleftrightarrow> fst a < 2 ^ 32 \<and> (case snd a of ARaw v \<Rightarrow> v < 2 ^ 32 \<and> v \<noteq> NO_INDEX | ATyped t d \<Rightarrow> t < 256 \<and> d < 2 ^ 32)"

definition node_ok :: "xml_node \<Rightarrow> bool" where
  "node_ok n \<longleftrightarrow> chunk_ok (node_chunk n) \<and>
     (case n of XStart nm ats \<Rightarrow> nm < 2 ^ 32 \<and> length ats < 2 ^ 16 \<and> (\<forall>a \<in> set ats. attr_ok a)
      | XEnd nm \<Rightarrow> nm < 2 ^ 32 | XOther t pl \<Rightarrow> t \<noteq> 0x0102 \<and> t \<noteq> 0x0103)"

lemma length_attr_bytes [simp]: "length (attr_bytes a) = 20"
  by (simp add: attr_bytes_def split: prod.split attr_value.split)

lemma length_attrs: "length (concat (map attr_bytes ats)) = 20 * length ats"
  by (induction ats) simp_all

lemma read_at:
  assumes "data = pre @ h @ post" and "length pre = n" and "k + 4 \<le> length h"
  shows "read_u32 data (n + k) = read_u32 h k" "read_u16 data (n + k) = read_u16 h k" "byte_at data (n + k) = Inr (unat (h ! k))"
  using assms by (auto simp: read_u16_def read_u32_def byte_at_def nth_append)

lemma attr_fields:
  assumes "attr_ok (nm, v)"
  shows "read_u32 (attr_bytes (nm, v)) 4 = Inr nm"
    "read_u32 (attr_bytes (nm, v)) 8 = Inr (case v of ARaw r \<Rightarrow> r | ATyped t d \<Rightarrow> NO_INDEX)"
    "unat (attr_bytes (nm, v) ! 15) = (case v of ARaw r \<Rightarrow> 3 | ATyped t d \<Rightarrow> t)"
    "read_u32 (attr_bytes (nm, v)) 16 = Inr (case v of ARaw r \<Rightarrow> r | ATyped t d \<Rightarrow> d)"
  using assms
  by (cases v; simp add: attr_bytes_def attr_ok_def read_u32_def w16_def w32_def NO_INDEX_def unsigned_of_nat take_bit_nat_eq_self nth_append
      del: le_encode_numeral)+

lemma string_value_spec:
  assumes "attr_ok (nm, v)" and "data = pre @ attr_bytes (nm, v) @ post"
  shows "string_value data strings (length pre) = Inr (string_spec strings v)" "resource_value data (length pre) = Inr (resource_spec v)"
    "read_u32 data (length pre + 4) = Inr nm"
proof -
  have r: "read_u32 data (length pre + 4) = Inr nm" "read_u32 data (length pre + 8) = Inr (case v of ARaw r \<Rightarrow> r | ATyped t d \<Rightarrow> NO_INDEX)"
    "read_u32 data (length pre + 16) = Inr (case v of ARaw r \<Rightarrow> r | ATyped t d \<Rightarrow> d)"
    "byte_at data (length pre + 15) = Inr (case v of ARaw r \<Rightarrow> 3 | ATyped t d \<Rightarrow> t)"
    using read_at [OF assms(2) refl] attr_fields [OF assms(1)] by simp_all
  show "read_u32 data (length pre + 4) = Inr nm" by (rule r(1))
  show "string_value data strings (length pre) = Inr (string_spec strings v)"
    using assms(1) by (cases v) (simp_all add: string_value_def r name_at_def attr_ok_def NO_INDEX_def)
  show "resource_value data (length pre) = Inr (resource_spec v)" by (cases v) (simp_all add: resource_value_def r)
qed

lemma attr_search_spec:
  assumes data: "data = pre @ concat (map attr_bytes ats) @ post" and ok: "\<forall>a \<in> set ats. attr_ok a"
    and val: "\<And>nm v p q. attr_ok (nm, v) \<Longrightarrow> data = p @ attr_bytes (nm, v) @ q \<Longrightarrow> value (length p) = Inr (vspec v)"
    and stop: "stop = length pre + 20 * length ats"
  shows "attr_search data strings stop wanted value (length pre) 20 [i..<length ats] = Inr (attr_spec strings vspec wanted (drop i ats))"
proof (induction "length ats - i" arbitrary: i)
  case (Suc n)
  then have i: "i < length ats" by simp
  obtain nm v where a: "ats ! i = (nm, v)" by force
  let ?p = "pre @ concat (map attr_bytes (take i ats))"
  have d: "data = ?p @ attr_bytes (nm, v) @ concat (map attr_bytes (drop (Suc i) ats)) @ post"
    using data arg_cong [OF id_take_nth_drop [OF i], of "\<lambda>l. concat (map attr_bytes l)"] a by simp
  have p: "length ?p = length pre + 20 * i" using i by (simp add: length_attrs)
  have aok: "attr_ok (nm, v)" using ok i a by (metis nth_mem)
  have r: "read_u32 data (length pre + i * 20 + 4) = Inr nm" "value (length pre + i * 20) = Inr (vspec v)"
    using string_value_spec(3) [OF aok d] val [OF aok d] unfolding p by (simp_all add: mult.commute)
  have IH: "attr_search data strings stop wanted value (length pre) 20 [Suc i..<length ats] = Inr (attr_spec strings vspec wanted (drop (Suc i) ats))"
    using Suc by simp
  have "[i..<length ats] = i # [Suc i..<length ats]" "drop i ats = (nm, v) # drop (Suc i) ats" using i a by (simp_all add: upt_rec Cons_nth_drop_Suc [symmetric])
  moreover have "\<not> stop < length pre + i * 20 + 20" using i stop by simp
  ultimately show ?case using r IH by (auto simp: Let_def name_at_def split: option.split)
qed simp

lemma start_fields:
  assumes n: "node_ok (XStart nm ats)" and data: "data = pre @ chunk_encoding (node_chunk (XStart nm ats)) @ post"
  shows "length pre + 36 \<le> length data" "read_u32 data (length pre + 20) = Inr nm" "read_u16 data (length pre + 24) = Inr 20"
    "read_u16 data (length pre + 26) = Inr 20" "read_u16 data (length pre + 28) = Inr (length ats)"
    "\<exists>pre' post'. data = pre' @ concat (map attr_bytes ats) @ post' \<and> length pre' = length pre + 36"
    "chunk_size (node_chunk (XStart nm ats)) = 36 + 20 * length ats"
proof -
  let ?h = "w16 0x0102 @ w16 16 @ w32 (36 + 20 * length ats) @ element_head nm @ w16 20 @ w16 20 @ w16 (length ats) @ w16 0 @ w16 0 @ w16 0"
  have d: "data = pre @ ?h @ (concat (map attr_bytes ats) @ post)"
    by (simp add: data chunk_encoding_def node_chunk_def element_head_def length_attrs)
  have h: "length ?h = 36" "read_u32 ?h 20 = Inr nm" "read_u16 ?h 24 = Inr 20" "read_u16 ?h 26 = Inr 20" "read_u16 ?h 28 = Inr (length ats)"
    using n by (simp_all add: node_ok_def element_head_def read_u32_def read_u16_def w16_def w32_def unsigned_of_nat take_bit_nat_eq_self del: le_encode_numeral)
  note r = read_at [OF d refl, unfolded h(1)]
  show "length pre + 36 \<le> length data" using h(1) by (simp add: d)
  show "read_u32 data (length pre + 20) = Inr nm" "read_u16 data (length pre + 24) = Inr 20"
    "read_u16 data (length pre + 26) = Inr 20" "read_u16 data (length pre + 28) = Inr (length ats)" using r h(2-) by simp_all
  show "\<exists>pre' post'. data = pre' @ concat (map attr_bytes ats) @ post' \<and> length pre' = length pre + 36"
    using d h(1) by (intro exI [of _ "pre @ ?h"] exI [of _ post]) simp
  show "chunk_size (node_chunk (XStart nm ats)) = 36 + 20 * length ats" by (simp add: chunk_size_def node_chunk_def element_head_def length_attrs)
qed

lemma element_attribute_spec:
  assumes n: "node_ok (XStart nm ats)" and data: "data = pre @ chunk_encoding (node_chunk (XStart nm ats)) @ post"
    and val: "\<And>nm v p q. attr_ok (nm, v) \<Longrightarrow> data = p @ attr_bytes (nm, v) @ q \<Longrightarrow> value (length p) = Inr (vspec v)"
  shows "element_attribute data strings value (length pre) (chunk_size (node_chunk (XStart nm ats))) wanted = Inr (attr_spec strings vspec wanted ats)"
proof -
  note f = start_fields [OF n data]
  obtain pre' post' where p: "data = pre' @ concat (map attr_bytes ats) @ post'" "length pre' = length pre + 36" using f(6) by blast
  have "attr_search data strings (length pre + (36 + 20 * length ats)) wanted value (length pre') 20 [0..<length ats] = Inr (attr_spec strings vspec wanted (drop 0 ats))"
    by (rule attr_search_spec [OF p(1)]) (use n val p(2) in \<open>auto simp: node_ok_def\<close>)
  then show ?thesis using f p(2) by (simp add: element_attribute_def add.commute [of 36])
qed

lemma end_fields:
  assumes n: "node_ok (XEnd nm)" and data: "data = pre @ chunk_encoding (node_chunk (XEnd nm)) @ post"
  shows "length pre + 24 \<le> length data" "read_u32 data (length pre + 20) = Inr nm"
proof -
  let ?h = "w16 0x0103 @ w16 16 @ w32 24 @ element_head nm"
  have d: "data = pre @ ?h @ post" by (simp add: data chunk_encoding_def node_chunk_def element_head_def)
  have h: "length ?h = 24" "read_u32 ?h 20 = Inr nm"
    using n by (simp_all add: node_ok_def element_head_def read_u32_def w16_def w32_def unsigned_of_nat take_bit_nat_eq_self del: le_encode_numeral)
  show "length pre + 24 \<le> length data" "read_u32 data (length pre + 20) = Inr nm" using h read_at(1) [OF d refl, of 20] by (simp_all add: d)
qed

section \<open>The pool\<close>

definition pool_ok :: "u8 list list \<Rightarrow> bool" where
  "pool_ok ss \<longleftrightarrow> ss \<noteq> [] \<and> (\<forall>s \<in> set ss. length s < 128) \<and> chunk_size (pool_chunk ss) < 2 ^ 32"

lemma length_offsets_of [simp]: "length (offsets_of k ss) = 4 * length ss"
  by (induction ss arbitrary: k) simp_all

lemma length_pool_chunk: "chunk_size (pool_chunk ss) = 28 + 4 * length ss + length (concat (map string_bytes ss))"
  by (simp add: chunk_size_def pool_chunk_def)

lemma foldM_appends:
  assumes "\<And>i acc. i \<in> set xs \<Longrightarrow> body i acc = Inr (acc @ [f i])"
  shows "foldM body xs acc = Inr (acc @ map f xs)"
  using assms by (induction xs arbitrary: acc) simp_all

lemma offsets_split:
  assumes "i < length ss"
  shows "\<exists>pre post. offsets_of k ss = pre @ w32 (k + length (concat (map string_bytes (take i ss)))) @ post \<and> length pre = 4 * i"
  using assms
proof (induction ss arbitrary: i k)
  case (Cons s ss)
  show ?case
  proof (cases i)
    case 0
    then show ?thesis by (intro exI [of _ "[]"] exI [of _ "offsets_of (k + length (string_bytes s)) ss"]) simp
  next
    case (Suc j)
    then obtain pre post where "offsets_of (k + length (string_bytes s)) ss = pre @ w32 (k + length (string_bytes s) + length (concat (map string_bytes (take j ss)))) @ post"
      "length pre = 4 * j" using Cons.IH [of j "k + length (string_bytes s)"] Cons.prems by auto
    then show ?thesis using Suc by (intro exI [of _ "w32 k @ pre"] exI [of _ post]) (simp add: add.assoc)
  qed
qed simp

lemma pool_string_read:
  assumes "length s < 128" and "data = pre @ string_bytes s @ post"
  shows "pool_string data True (length pre) = Inr (chars_of s)"
proof -
  have u: "unat (of_nat (length s) :: u8) = length s" using assms(1) by (simp add: unsigned_of_nat take_bit_nat_eq_self)
  have d: "data ! length pre = of_nat (length s)" "data ! (length pre + 1) = of_nat (length s)" "length data = length pre + 3 + length s + length post"
    using assms(2) by (simp_all add: string_bytes_def nth_append)
  have "take_at data (length pre + 2) (length s) = Inr s"
    using take_at_in [of "length s" s "pre @ [of_nat (length s), of_nat (length s)]" "0 # post"] assms(2) by (simp add: string_bytes_def)
  then show ?thesis using assms(1) d by (simp add: pool_string_def utf8_length_string_def len8_def u Let_def)
qed

lemma pool_fields:
  assumes "pool_ok ss" and "data = pre @ chunk_encoding (pool_chunk ss) @ post"
  shows "read_u32 data (length pre + 8) = Inr (length ss)" "read_u32 data (length pre + 16) = Inr 0x100"
    "read_u32 data (length pre + 20) = Inr (28 + 4 * length ss)"
    "\<exists>pre'. data = pre' @ offsets_of 0 ss @ concat (map string_bytes ss) @ post \<and> length pre' = length pre + 28"
proof -
  let ?h = "w16 1 @ w16 28 @ w32 (chunk_size (pool_chunk ss)) @ w32 (length ss) @ w32 0 @ w32 0x100 @ w32 (28 + 4 * length ss) @ w32 0"
  have d: "data = pre @ ?h @ offsets_of 0 ss @ concat (map string_bytes ss) @ post"
    by (simp add: assms(2) chunk_encoding_def pool_chunk_def chunk_size_def)
  have b: "length ss < 2 ^ 32" "28 + 4 * length ss < 2 ^ 32" using assms(1) by (simp_all add: pool_ok_def length_pool_chunk)
  have h: "length ?h = 28" "read_u32 ?h 8 = Inr (length ss)" "read_u32 ?h 16 = Inr 0x100" "read_u32 ?h 20 = Inr (28 + 4 * length ss)"
    using b read_w(2) [of "w16 1 @ w16 28 @ w32 (chunk_size (pool_chunk ss))" 8 "length ss"]
      read_w(2) [of "w16 1 @ w16 28 @ w32 (chunk_size (pool_chunk ss)) @ w32 (length ss) @ w32 0" 16 "0x100"]
      read_w(2) [of "w16 1 @ w16 28 @ w32 (chunk_size (pool_chunk ss)) @ w32 (length ss) @ w32 0 @ w32 0x100" 20 "28 + 4 * length ss" "w32 0"] by simp_all
  note r = read_at [OF d refl, unfolded h(1)]
  show "read_u32 data (length pre + 8) = Inr (length ss)" "read_u32 data (length pre + 16) = Inr 0x100"
    "read_u32 data (length pre + 20) = Inr (28 + 4 * length ss)" using r h(2-) by simp_all
  show "\<exists>pre'. data = pre' @ offsets_of 0 ss @ concat (map string_bytes ss) @ post \<and> length pre' = length pre + 28"
    using d h(1) by (intro exI [of _ "pre @ ?h"]) simp
qed

lemma concat_split:
  "i < length ss \<Longrightarrow> concat (map f ss) = concat (map f (take i ss)) @ f (ss ! i) @ concat (map f (drop (Suc i) ss))"
  by (subst id_take_nth_drop [of i ss]) simp_all

lemma pool_item:
  assumes ok: "pool_ok ss" and data: "data = pre @ offsets_of 0 ss @ concat (map string_bytes ss) @ post" and i: "i < length ss"
    and pos: "pos = length (concat (map string_bytes (take i ss)))"
  shows "read_u32 data (length pre + i * 4 mod 2 ^ 32) = Inr pos"
    "pool_string data True (length pre + 4 * length ss + pos) = Inr (chars_of (ss ! i))"
    "pos < length (concat (map string_bytes ss))"
proof -
  have small: "28 + 4 * length ss + length (concat (map string_bytes ss)) < 2 ^ 32" using ok by (simp add: pool_ok_def length_pool_chunk)
  show lt: "pos < length (concat (map string_bytes ss))" unfolding concat_split [OF i] pos by (simp add: string_bytes_def)
  obtain q r where o: "offsets_of 0 ss = q @ w32 pos @ r" "length q = 4 * i" using offsets_split [OF i, of 0] unfolding pos add_0 by blast
  have m: "i * 4 mod 2 ^ 32 = i * 4" using i small by simp
  have d: "data = (pre @ q) @ w32 pos @ (r @ concat (map string_bytes ss) @ post)" unfolding data o(1) append_assoc ..
  show "read_u32 data (length pre + i * 4 mod 2 ^ 32) = Inr pos"
    unfolding m d by (rule read_w(2)) (use o(2) lt small in simp_all)
  have d: "data = (pre @ offsets_of 0 ss @ concat (map string_bytes (take i ss))) @ string_bytes (ss ! i) @ concat (map string_bytes (drop (Suc i) ss)) @ post"
    unfolding data append_assoc by (subst concat_split [OF i]) simp
  have len: "length (pre @ offsets_of 0 ss @ concat (map string_bytes (take i ss))) = length pre + 4 * length ss + pos"
    by (simp only: pos length_append length_offsets_of add.assoc)
  have "length (ss ! i) < 128" using ok i by (simp add: pool_ok_def)
  from pool_string_read [OF this d] show "pool_string data True (length pre + 4 * length ss + pos) = Inr (chars_of (ss ! i))"
    unfolding len .
qed

lemma pool_step:
  assumes "r = Inr pos" and "\<not> lim \<le> a + pos" and "pool_string data b (a + pos) = Inr s"
  shows "rbind r (\<lambda>string_off. let string_pos = a + string_off in if lim \<le> string_pos then Inr strings
    else Inr (strings @ [case pool_string data b string_pos of Inl e \<Rightarrow> [] | Inr s \<Rightarrow> s])) = Inr (strings @ [s])"
  using assms by simp

lemma axml_pool_at_encoded:
  assumes ok: "pool_ok ss" and data: "data = pre @ chunk_encoding (pool_chunk ss) @ post"
  shows "axml_pool_at data (length pre) 28 (chunk_size (pool_chunk ss)) = Inr (map chars_of ss)"
proof -
  note f = pool_fields [OF ok data]
  obtain pre' where p: "data = pre' @ offsets_of 0 ss @ concat (map string_bytes ss) @ post" "length pre' = length pre + 28" using f(4) by blast
  have small: "28 + 4 * length ss + length (concat (map string_bytes ss)) < 2 ^ 32" using ok by (simp add: pool_ok_def length_pool_chunk)
  have ne: "0 < length (concat (map string_bytes ss))" using ok by (cases ss) (simp_all add: pool_ok_def string_bytes_def)
  have bit8: "bit (0x100 :: nat) 8 = True" by (simp add: bit_nat_def)
  have "foldM (\<lambda>i strings. rbind (read_u32 data (length pre + 28 + i * 4 mod 2 ^ 32)) (\<lambda>string_off.
      let string_pos = length pre + (28 + 4 * length ss) + string_off in
      if length pre + chunk_size (pool_chunk ss) \<le> string_pos then Inr strings
      else Inr (strings @ [case pool_string data (bit (0x100 :: nat) 8) string_pos of Inl e \<Rightarrow> [] | Inr s \<Rightarrow> s]))) [0..<length ss] [] =
    Inr ([] @ map (\<lambda>i. chars_of (ss ! i)) [0..<length ss])"
  proof (rule foldM_appends)
    fix i :: nat and strings :: "string list"
    assume "i \<in> set [0..<length ss]"
    then have i: "i < length ss" by simp
    define pos where "pos = length (concat (map string_bytes (take i ss)))"
    note it = pool_item [OF ok p(1) i pos_def, unfolded p(2)]
    have eq: "length pre + (28 + 4 * length ss) + pos = length pre + 28 + 4 * length ss + pos" by linarith
    have s: "pool_string data True (length pre + (28 + 4 * length ss) + pos) = Inr (chars_of (ss ! i))" unfolding eq by (rule it(2))
    have fits: "\<not> length pre + chunk_size (pool_chunk ss) \<le> length pre + (28 + 4 * length ss) + pos" using it(3) unfolding length_pool_chunk by linarith
    show "rbind (read_u32 data (length pre + 28 + i * 4 mod 2 ^ 32)) (\<lambda>string_off.
      let string_pos = length pre + (28 + 4 * length ss) + string_off in
      if length pre + chunk_size (pool_chunk ss) \<le> string_pos then Inr strings
      else Inr (strings @ [case pool_string data (bit (0x100 :: nat) 8) string_pos of Inl e \<Rightarrow> [] | Inr s \<Rightarrow> s])) = Inr (strings @ [chars_of (ss ! i)])"
      unfolding bit8 by (rule pool_step [OF it(1) fits s])
  qed
  moreover have "map (\<lambda>i. chars_of (ss ! i)) [0..<length ss] = map chars_of ss" by (rule nth_equalityI) simp_all
  moreover have "(28 + length ss * 4) mod 2 ^ 32 = 28 + length ss * 4" by (rule mod_less) (use small in linarith)
  then have "\<not> (chunk_size (pool_chunk ss) < (28 + length ss * 4) mod 2 ^ 32 \<or> chunk_size (pool_chunk ss) \<le> 28 + 4 * length ss)"
    using ne unfolding length_pool_chunk by linarith
  ultimately show ?thesis unfolding axml_pool_at_def f(1-3) rbind_Inr by (simp only: if_False append_Nil)
qed

section \<open>The readers on encoded manifests\<close>

definition manifest_ok :: "u8 list list \<Rightarrow> xml_node list \<Rightarrow> bool" where
  "manifest_ok ss nodes \<longleftrightarrow> pool_ok ss \<and> (\<forall>n \<in> set nodes. node_ok n)"

lemma chunk_ok_pool: "pool_ok ss \<Longrightarrow> chunk_ok (pool_chunk ss)"
  by (simp add: pool_ok_def chunk_ok_def pool_chunk_def chunk_size_def)

definition items :: "xml_node list \<Rightarrow> xml_node option list" where
  "items nodes = None # map Some nodes"

lemma chunk_ok_items: "manifest_ok ss nodes \<Longrightarrow> \<forall>n \<in> set (items nodes). chunk_ok (item_chunk ss n)"
  by (auto simp: manifest_ok_def items_def chunk_ok_pool node_ok_def)

lemma manifest_split:
  "\<exists>pre. manifest_bytes ss nodes = pre @ concat (map (\<lambda>n. chunk_encoding (item_chunk ss n)) (items nodes)) \<and> length pre = 8"
  by (auto simp: manifest_bytes_def items_def Let_def intro: exI [of _ "w16 3 @ w16 8 @ w32 n" for n])

lemma xml_start_encoded: "xml_start (manifest_bytes ss nodes) = Inr 8"
  using read_w(1) [of "[]" 0 3] by (simp add: xml_start_def manifest_bytes_def Let_def)

lemma axml_string_pool_encoded:
  assumes "manifest_ok ss nodes"
  shows "axml_string_pool (manifest_bytes ss nodes) = Some (Inr (map chars_of ss))"
proof -
  let ?m = "manifest_bytes ss nodes"
  obtain pre where p: "?m = pre @ chunk_encoding (pool_chunk ss) @ concat (map (\<lambda>n. chunk_encoding (item_chunk ss n)) (map Some nodes))" "length pre = 8"
    using manifest_split [of ss nodes] by (auto simp: items_def)
  have ok: "pool_ok ss" using assms by (simp add: manifest_ok_def)
  obtain pl where c: "pool_chunk ss = (1, 28, pl)" "28 \<le> 8 + length pl" by (simp add: pool_chunk_def)
  have hd: "chunk_header ?m 8 = Inr (1, 28, 8 + length pl)"
    using chunk_header_in [of 1 28 pl pre] chunk_ok_pool [OF ok] p c by simp
  have pool: "axml_pool_at ?m 8 28 (8 + length pl) = Inr (map chars_of ss)"
    using axml_pool_at_encoded [OF ok p(1)] p(2) c by (simp add: chunk_size_def)
  have "36 \<le> length ?m" "8 + (8 + length pl) \<le> length ?m" using p c by (simp_all add: chunk_size_def)
  then show ?thesis
    using hd pool c(2) by (simp add: axml_string_pool_def xml_start_encoded) (subst walk_chunks.simps, simp)
qed

lemma encoded_facts:
  assumes "manifest_ok ss nodes" and "data = manifest_bytes ss nodes" and "strings = map chars_of ss"
  shows "axml_string_pool data = Some (Inr strings)" "xml_start data = Inr 8" "strings \<noteq> []"
  using assms axml_string_pool_encoded xml_start_encoded by (simp_all add: manifest_ok_def pool_ok_def)

lemma walk_encoded:
  assumes "manifest_ok ss nodes"
    and "\<And>t hs pl pre post st. data = pre @ chunk_encoding (t, hs, pl) @ post \<Longrightarrow> t = 1 \<Longrightarrow> body (length pre) t hs (8 + length pl) st = Some (Inr (Go st))"
    and "\<And>n t hs pl pre post st. node_ok n \<Longrightarrow> node_chunk n = (t, hs, pl) \<Longrightarrow> data = pre @ chunk_encoding (node_chunk n) @ post \<Longrightarrow>
      body (length pre) t hs (8 + length pl) st = Some (Inr (g n st))"
    and data: "data = manifest_bytes ss nodes"
  shows "walk_chunks data 8 (length data) body 8 st = Some (Inr (run g nodes st))"
proof -
  obtain pre where p: "data = pre @ concat (map (\<lambda>n. chunk_encoding (item_chunk ss n)) (items nodes))" "length pre = 8"
    using manifest_split data by blast
  define g' where "g' n st = (case n of None \<Rightarrow> Go st | Some m \<Rightarrow> g m st)" for n st
  have "walk_chunks data 8 (length data) body (length pre) st = Some (Inr (run g' (items nodes) st))"
  proof (rule walk_chunks_run [OF chunk_ok_items [OF assms(1)] _ _ p(1)])
    fix n t hs pl pre' post st
    assume n: "n \<in> set (items nodes)" and c: "item_chunk ss n = (t, hs, pl)" and d: "data = pre' @ chunk_encoding (item_chunk ss n) @ post"
    show "body (length pre') t hs (8 + length pl) st = Some (Inr (g' n st))"
    proof (cases n)
      case None
      then show ?thesis using assms(2) d c by (auto simp: g'_def pool_chunk_def)
    next
      case (Some m)
      then have "node_ok m" using n assms(1) by (auto simp: items_def manifest_ok_def)
      then show ?thesis using assms(3) d c Some by (simp add: g'_def)
    qed
  qed simp_all
  moreover have "run g' (map Some ns) st = run g ns st" for ns st by (induction ns arbitrary: st) (simp_all add: g'_def split: flow.split)
  ultimately show ?thesis using p(2) by (simp add: items_def) (simp add: g'_def)
qed

definition search_step :: "string list \<Rightarrow> (attr_value \<Rightarrow> 'r option) \<Rightarrow> string \<Rightarrow> string \<Rightarrow> xml_node \<Rightarrow> unit \<Rightarrow> (unit, 'r) flow" where
  "search_step strings value element attribute n st = (case n of
       XStart nm ats \<Rightarrow> (case (if name_at strings nm = Some element then attr_spec strings value attribute ats else None) of None \<Rightarrow> Go () | Some r \<Rightarrow> Ret r)
     | _ \<Rightarrow> Go ())"

lemma run_search: "run (search_step strings value e a) nodes () = (case search_spec strings value e a nodes of None \<Rightarrow> Go () | Some r \<Rightarrow> Ret r)"
  by (induction strings "value" e a nodes rule: search_spec.induct) (auto simp: search_step_def split: option.split)

lemma element_is_spec: "read_u32 data (off + 20) = Inr nm \<Longrightarrow> element_is data strings off e = Inr (name_at strings nm = Some e)"
  by (simp add: element_is_def name_at_def)

lemma element_name_spec: "read_u32 data (off + 20) = Inr nm \<Longrightarrow> element_name data strings off = Inr (case name_at strings nm of None \<Rightarrow> [] | Some s \<Rightarrow> s)"
  by (simp add: element_name_def name_at_def)

lemma node_chunk_size: "node_chunk n = (t, hs, pl) \<Longrightarrow> 8 + length pl = chunk_size (node_chunk n)"
  by (simp add: chunk_size_def)

lemma search_attribute_encoded:
  assumes "manifest_ok ss nodes" and data: "data = manifest_bytes ss nodes" and strings: "strings = map chars_of ss"
    and val: "\<And>nm v p q. attr_ok (nm, v) \<Longrightarrow> data = p @ attr_bytes (nm, v) @ q \<Longrightarrow> value strings (length p) = Inr (vspec v)"
  shows "search_attribute data value e a = Some (Inr (search_spec strings vspec e a nodes))"
proof -
  let ?body = "\<lambda>off type header_size chunk_size st.
         if type = 0x0102 \<and> off + 36 \<le> length data then
           Some (rbind (element_is data strings off e) (\<lambda>hit.
             if hit then rbind (element_attribute data strings (value strings) off chunk_size a) (\<lambda>r.
               Inr (case r of None \<Rightarrow> Go () | Some v \<Rightarrow> Ret v))
             else Inr (Go ())))
         else Some (Inr (Go ()))"
  have "walk_chunks data 8 (length data) ?body 8 () = Some (Inr (run (search_step strings vspec e a) nodes ()))"
  proof (rule walk_encoded [OF assms(1) _ _ data])
    fix n t hs pl pre post st
    assume n: "node_ok n" and c: "node_chunk n = (t, hs, pl)" and d: "data = pre @ chunk_encoding (node_chunk n) @ post"
    show "?body (length pre) t hs (8 + length pl) st = Some (Inr (search_step strings vspec e a n st))"
    proof (cases n)
      case (XStart nm ats)
      have t: "t = 0x0102" using c XStart by (simp add: node_chunk_def)
      note f = start_fields [OF n [unfolded XStart] d [unfolded XStart]]
      have el: "element_attribute data strings (value strings) (length pre) (8 + length pl) a = Inr (attr_spec strings vspec a ats)"
        unfolding node_chunk_size [OF c] XStart by (rule element_attribute_spec [OF n [unfolded XStart] d [unfolded XStart]]) (rule val)
      show ?thesis using f(1) t el by (simp add: element_is_spec [OF f(2)] search_step_def XStart split: option.split)
    qed (use n c in \<open>auto simp: search_step_def node_chunk_def node_ok_def\<close>)
  qed simp
  then show ?thesis
    using encoded_facts [OF assms(1-3)] by (simp add: search_attribute_def result_of_def run_search split: option.split)
qed

definition launch_step :: "string list \<Rightarrow> string \<Rightarrow> xml_node \<Rightarrow> launch_state \<Rightarrow> (launch_state, unit) flow" where
  "launch_step strings pkg n st = Go (launch_spec strings pkg n st)"

lemma run_launch: "run (launch_step strings pkg) nodes st = Go (fold (launch_spec strings pkg) nodes st)"
  by (induction nodes arbitrary: st) (simp_all add: launch_step_def)

lemma launch_start_encoded:
  assumes n: "node_ok (XStart nm ats)" and d: "data = pre @ chunk_encoding (node_chunk (XStart nm ats)) @ post"
  shows "launch_start_element data strings pkg (length pre) (chunk_size (node_chunk (XStart nm ats))) st =
    Inr (launch_spec strings (the_or_empty pkg) (XStart nm ats) st)"
proof -
  have el: "element_attribute data strings (string_value data strings) (length pre) (chunk_size (node_chunk (XStart nm ats))) ''name'' =
    Inr (attr_spec strings (string_spec strings) ''name'' ats)"
    by (rule element_attribute_spec [OF n d]) (rule string_value_spec(1))
  note nm = element_name_spec [OF start_fields(2) [OF n d]]
  show ?thesis
    by (cases "name_at strings nm"; cases "attr_spec strings (string_spec strings) ''name'' ats"; cases st)
      (auto simp: launch_start_element_def nm el Let_def split: option.split)
qed

lemma launch_end_encoded:
  assumes n: "node_ok (XEnd nm)" and d: "data = pre @ chunk_encoding (node_chunk (XEnd nm)) @ post"
  shows "launch_end_element data strings (length pre) st = Inr (launch_spec strings pkg (XEnd nm) st)"
  using element_is_spec [OF end_fields(2) [OF n d], of strings "''activity''"]
  by (auto simp: launch_end_element_def split: option.split)

lemma launch_encoded:
  assumes "manifest_ok ss nodes" and data: "data = manifest_bytes ss nodes" and strings: "strings = map chars_of ss"
  shows "infer_binary_manifest_launch_activity data pkg = Some (Inr (launch_activity_spec strings (the_or_empty pkg) nodes))"
proof -
  let ?body = "\<lambda>off type header_size chunk_size st. Some (rbind
             (if type = 0x0102 \<and> off + 36 \<le> length data then launch_start_element data strings pkg off chunk_size st
              else if type = 0x0103 \<and> off + 24 \<le> length data then launch_end_element data strings off st
              else Inr st) (\<lambda>st. Inr (Go st)))"
  have "walk_chunks data 8 (length data) ?body 8 st0 = Some (Inr (run (launch_step strings (the_or_empty pkg)) nodes st0))" for st0
  proof (rule walk_encoded [OF assms(1) _ _ data])
    fix n t hs pl pre post st
    assume n: "node_ok n" and c: "node_chunk n = (t, hs, pl)" and d: "data = pre @ chunk_encoding (node_chunk n) @ post"
    show "?body (length pre) t hs (8 + length pl) st = Some (Inr (launch_step strings (the_or_empty pkg) n st))"
    proof (cases n)
      case (XStart nm ats)
      then show ?thesis
        using start_fields(1) [OF n [unfolded XStart] d [unfolded XStart]] launch_start_encoded [OF n [unfolded XStart] d [unfolded XStart]] c
        by (simp add: node_chunk_size [OF c] launch_step_def) (simp add: node_chunk_def)
    next
      case (XEnd nm)
      then show ?thesis
        using end_fields(1) [OF n [unfolded XEnd] d [unfolded XEnd]] launch_end_encoded [OF n [unfolded XEnd] d [unfolded XEnd]] c
        by (simp add: launch_step_def) (simp add: node_chunk_def)
    qed (use n c in \<open>auto simp: launch_step_def node_chunk_def node_ok_def\<close>)
  qed simp
  then show ?thesis
    using encoded_facts [OF assms(1-3)]
    by (simp add: infer_binary_manifest_launch_activity_def run_launch launch_activity_spec_def no_launch_def)
qed

section \<open>Activities of an application\<close>

text \<open>An activity with its name and the nodes between its start and its end.\<close>

record activity =
  act_name :: string
  act_body :: "xml_node list"

definition declares :: "string list \<Rightarrow> string \<Rightarrow> string set \<Rightarrow> xml_node list \<Rightarrow> bool" where
  "declares strings element values nodes \<longleftrightarrow> (\<exists>n \<in> set nodes. case n of
       XStart nm ats \<Rightarrow> name_at strings nm = Some element \<and> attr_spec strings (string_spec strings) ''name'' ats \<in> Some ` values
     | _ \<Rightarrow> False)"

definition launchable :: "string list \<Rightarrow> activity \<Rightarrow> bool" where
  "launchable strings a \<longleftrightarrow> declares strings ''action'' {''android.intent.action.MAIN''} (act_body a) \<and>
     declares strings ''category'' (set launcher_categories) (act_body a)"

fun is_activity :: "string list \<Rightarrow> xml_node \<Rightarrow> bool" where
  "is_activity strings (XStart nm ats) = (name_at strings nm = Some ''activity'')"
| "is_activity strings (XEnd nm) = (name_at strings nm = Some ''activity'')"
| "is_activity strings (XOther t pl) = False"

text \<open>Nodes whose activities are the given ones, with other nodes before, between and after them.\<close>

inductive activities_of :: "string list \<Rightarrow> xml_node list \<Rightarrow> activity list \<Rightarrow> bool" for strings where
  none: "activities_of strings [] []"
| other: "activities_of strings nodes as \<Longrightarrow> \<not> is_activity strings n \<Longrightarrow> activities_of strings (n # nodes) as"
| activity: "activities_of strings nodes as \<Longrightarrow> name_at strings s = Some ''activity'' \<Longrightarrow> name_at strings e = Some ''activity'' \<Longrightarrow>
    attr_spec strings (string_spec strings) ''name'' ats = Some (act_name a) \<Longrightarrow> \<forall>n \<in> set (act_body a). \<not> is_activity strings n \<Longrightarrow>
    activities_of strings (XStart s ats # act_body a @ XEnd e # nodes) (a # as)"

definition head_of :: "'a list \<Rightarrow> 'a option" where
  "head_of xs = (case xs of [] \<Rightarrow> None | x # _ \<Rightarrow> Some x)"

text \<open>The activity to start: among the launchable ones the first with a name that says so, else the first one; else the
  first activity.\<close>

definition chosen :: "string list \<Rightarrow> string \<Rightarrow> activity list \<Rightarrow> string option" where
  "chosen strings pkg as =
     (let full = (\<lambda>a. normalize_activity_name pkg (act_name a)); launchers = map full (filter (launchable strings) as) in
      head_of (filter main_name launchers @ launchers @ map full as))"

lemma fold_body:
  assumes "current_activity st \<noteq> None" and "\<forall>n \<in> set nodes. \<not> is_activity strings n"
  shows "fold (launch_spec strings pkg) nodes st =
    st\<lparr>has_main_action := (has_main_action st \<or> declares strings ''action'' {''android.intent.action.MAIN''} nodes),
       has_launcher_category := (has_launcher_category st \<or> declares strings ''category'' (set launcher_categories) nodes)\<rparr>"
  using assms
proof (induction nodes arbitrary: st)
  case Nil
  then show ?case by (cases st) (simp add: declares_def)
next
  case (Cons n nodes)
  have d: "declares strings e vs (n # nodes) \<longleftrightarrow> declares strings e vs [n] \<or> declares strings e vs nodes" for e vs
    by (auto simp: declares_def)
  have one: "launch_spec strings pkg n st =
    st\<lparr>has_main_action := (has_main_action st \<or> declares strings ''action'' {''android.intent.action.MAIN''} [n]),
       has_launcher_category := (has_launcher_category st \<or> declares strings ''category'' (set launcher_categories) [n])\<rparr>"
    using Cons.prems by (cases n; cases st) (auto simp: declares_def Let_def)
  show ?case using Cons.IH [of "launch_spec strings pkg n st"] Cons.prems by (simp add: one d [of _ _] disj_assoc)
qed

lemma launch_other:
  "current_activity st = None \<Longrightarrow> \<not> is_activity strings n \<Longrightarrow> launch_spec strings pkg n st = st"
  by (cases n) (simp_all add: Let_def)

lemma fold_activities:
  assumes "activities_of strings nodes as" and "current_activity st = None"
  shows "launcher_activities (fold (launch_spec strings pkg) nodes st) =
      launcher_activities st @ map (\<lambda>a. normalize_activity_name pkg (act_name a)) (filter (launchable strings) as) \<and>
    first_activity (fold (launch_spec strings pkg) nodes st) = (case first_activity st of Some f \<Rightarrow> Some f
      | None \<Rightarrow> map_option (\<lambda>a. normalize_activity_name pkg (act_name a)) (if as = [] then None else Some (hd as)))"
  using assms
proof (induction arbitrary: st rule: activities_of.induct)
  case none
  then show ?case by (simp split: option.split)
next
  case (other nodes as n)
  then show ?case by (simp add: launch_other)
next
  case (activity nodes as s e ats a)
  then show ?case by (simp add: Let_def fold_body launchable_def split: option.split)
qed

lemma head_of_simps [simp]: "head_of [] = None" "head_of (x # xs) = Some x"
  by (simp_all add: head_of_def)

lemma head_of_append: "head_of (xs @ ys) = (if xs = [] then head_of ys else head_of xs)"
  by (cases xs) simp_all

lemma find_head: "List.find P xs = head_of (filter P xs)"
  by (induction xs) simp_all

lemma launch_choice_head:
  "launch_choice st = head_of (filter main_name (launcher_activities st) @ launcher_activities st @ (case first_activity st of None \<Rightarrow> [] | Some f \<Rightarrow> [f]))"
proof (cases "launcher_activities st")
  case Nil
  then show ?thesis by (simp add: launch_choice_def split: option.split)
next
  case (Cons a as)
  show ?thesis
    unfolding launch_choice_def Cons list.case find_head
    by (cases "filter main_name (a # as)") simp_all
qed

lemma launch_choice_chosen:
  assumes "activities_of strings nodes as"
  shows "launch_activity_spec strings pkg nodes = chosen strings pkg as"
  using fold_activities [OF assms, of no_launch pkg]
  by (cases as) (simp_all add: launch_activity_spec_def launch_choice_head chosen_def no_launch_def Let_def head_of_append)

definition demo_strings :: "string list" where
  "demo_strings = [''manifest'', ''package'', ''org.demo'', ''activity'', ''name'', ''.Main'', ''action'', ''android.intent.action.MAIN'',
     ''category'', ''android.intent.category.LAUNCHER'', ''.Help'', ''application'', ''icon'']"

definition demo_nodes :: "xml_node list" where
  "demo_nodes = [XStart 0 [(1, ARaw 2)], XStart 11 [(12, ATyped 1 0x7f010000)], XStart 3 [(4, ARaw 10)], XEnd 3,
     XStart 3 [(4, ARaw 5)], XStart 6 [(4, ARaw 7)], XEnd 6, XStart 8 [(4, ATyped 3 9)], XEnd 8, XEnd 3, XEnd 11, XEnd 0]"

definition demo_activities :: "activity list" where
  "demo_activities = [\<lparr>act_name = ''.Help'', act_body = []\<rparr>,
     \<lparr>act_name = ''.Main'', act_body = [XStart 6 [(4, ARaw 7)], XEnd 6, XStart 8 [(4, ATyped 3 9)], XEnd 8]\<rparr>]"

text \<open>C33: On the bytes of every manifest with a pool of strings and a sequence of elements, the readers return what the
  elements say. The attribute readers give the value of the first element of the name that has the attribute,
  through the pool for strings and as a number for resource references. The activity to start is chosen among
  the activities with the main action and a launcher category inside of them (the first whose name says
  that it is the main one, else the first of them), and is the first activity when there is none. The
  strings of the pool have fewer than 128 bytes.\<close>

theorem manifest_refines:
  assumes "manifest_ok ss nodes" and "activities_of (map chars_of ss) nodes as"
  shows "infer_binary_manifest_string_attribute (manifest_bytes ss nodes) element attribute =
      Some (Inr (search_spec (map chars_of ss) (string_spec (map chars_of ss)) element attribute nodes)) \<and>
    infer_binary_manifest_resource_attribute (manifest_bytes ss nodes) element attribute =
      Some (Inr (search_spec (map chars_of ss) resource_spec element attribute nodes)) \<and>
    infer_binary_manifest_package (manifest_bytes ss nodes) =
      Some (Inr (search_spec (map chars_of ss) (string_spec (map chars_of ss)) ''manifest'' ''package'' nodes)) \<and>
    infer_binary_manifest_launch_activity (manifest_bytes ss nodes) pkg = Some (Inr (chosen (map chars_of ss) (the_or_empty pkg) as))"
proof -
  have str: "search_attribute (manifest_bytes ss nodes) (string_value (manifest_bytes ss nodes)) e a =
     Some (Inr (search_spec (map chars_of ss) (string_spec (map chars_of ss)) e a nodes))" for e a
    by (rule search_attribute_encoded [OF assms(1) refl refl]) (rule string_value_spec(1))
  have res: "search_attribute (manifest_bytes ss nodes) (\<lambda>_. resource_value (manifest_bytes ss nodes)) element attribute =
     Some (Inr (search_spec (map chars_of ss) resource_spec element attribute nodes))"
    by (rule search_attribute_encoded [OF assms(1) refl refl]) (rule string_value_spec(2))
  show ?thesis
    using str res launch_encoded [OF assms(1) refl refl] launch_choice_chosen [OF assms(2)]
    by (simp add: infer_binary_manifest_string_attribute_def infer_binary_manifest_resource_attribute_def infer_binary_manifest_package_def)
qed

lemma demo_pool: "map chars_of (map bytes_of demo_strings) = demo_strings"
  by (simp add: o_def chars_of_bytes_of)

lemma demo_ok: "manifest_ok (map bytes_of demo_strings) demo_nodes"
  by (simp add: manifest_ok_def pool_ok_def length_pool_chunk demo_strings_def bytes_of_def string_bytes_def demo_nodes_def node_ok_def chunk_ok_def
      node_chunk_def element_head_def attr_ok_def NO_INDEX_def)

lemma demo_activities_of: "activities_of demo_strings demo_nodes demo_activities"
proof -
  have "activities_of demo_strings [XEnd 11, XEnd 0] []"
    by (intro activities_of.intros) (simp_all add: demo_strings_def name_at_def)
  then have "activities_of demo_strings (XStart 3 [(4, ARaw 5)] # act_body (demo_activities ! 1) @ XEnd 3 # [XEnd 11, XEnd 0]) [demo_activities ! 1]"
    by (rule activities_of.intros(3)) (auto simp add: demo_strings_def name_at_def demo_activities_def)
  then have "activities_of demo_strings (XStart 3 [(4, ARaw 10)] # act_body (demo_activities ! 0) @ XEnd 3 #
      (XStart 3 [(4, ARaw 5)] # act_body (demo_activities ! 1) @ XEnd 3 # [XEnd 11, XEnd 0])) [demo_activities ! 0, demo_activities ! 1]"
    by (rule activities_of.intros(3)) (simp_all add: demo_strings_def name_at_def demo_activities_def)
  then show ?thesis
    using activities_of.intros(2) [OF activities_of.intros(2), of demo_strings _ _ "XStart 11 [(12, ATyped 1 0x7f010000)]" "XStart 0 [(1, ARaw 2)]"]
    by (simp add: demo_nodes_def demo_activities_def) (simp add: demo_strings_def name_at_def)
qed

theorem manifest_refines_witness:
  "infer_binary_manifest_launch_activity (manifest_bytes (map bytes_of demo_strings) demo_nodes) (Some ''org.demo'') = Some (Inr (Some ''org.demo.Main'')) \<and>
   infer_binary_manifest_package (manifest_bytes (map bytes_of demo_strings) demo_nodes) = Some (Inr (Some ''org.demo'')) \<and>
   infer_binary_manifest_resource_attribute (manifest_bytes (map bytes_of demo_strings) demo_nodes) ''application'' ''icon'' = Some (Inr (Some 0x7f010000))"
proof -
  have "chosen demo_strings (the_or_empty (Some ''org.demo'')) demo_activities = Some ''org.demo.Main''"
    by (simp add: chosen_def demo_activities_def launchable_def declares_def demo_strings_def name_at_def launcher_categories_def normalize_activity_name_def
        the_or_empty_def Let_def)
  moreover have "search_spec demo_strings (string_spec demo_strings) ''manifest'' ''package'' demo_nodes = Some ''org.demo''"
    "search_spec demo_strings resource_spec ''application'' ''icon'' demo_nodes = Some 0x7f010000"
    by (simp_all add: demo_strings_def demo_nodes_def name_at_def)
  moreover have act: "activities_of (map chars_of (map bytes_of demo_strings)) demo_nodes demo_activities"
    unfolding demo_pool by (rule demo_activities_of)
  ultimately show ?thesis
    using manifest_refines [OF demo_ok act, of "''application''" "''icon''" "Some ''org.demo''"]
    unfolding demo_pool by simp
qed

end
