(* ===== verification/Mpd_Proto.thy ===== *)
theory Mpd_Proto
  imports Apk_Zip "HOL-Library.AList" "HOL-Library.Char_ord" "HOL-Library.List_Lexorder" "HOL-Library.Product_Lexorder"
begin

text \<open>
  The service daemon \<^verbatim>\<open>muplard\<close> without its main loop (\<^verbatim>\<open>muplard.cpp\<close>, \<^verbatim>\<open>muplard_protocol.h\<close>): the
  messages of its protocol, the settings with their file and the permissions in them, surfaces, and the state
  of the device. Unordered maps are association lists without duplicate keys.
\<close>

section \<open>Text and numbers\<close>

abbreviation nl :: char where "nl \<equiv> CHR 0x0A"
abbreviation tab_char :: char where "tab_char \<equiv> CHR 0x09"

text \<open>The loops that cut a string at a separator. There is always one field.\<close>

fun split_on :: "char \<Rightarrow> string \<Rightarrow> string list" where
  "split_on d [] = [[]]"
| "split_on d (c # cs) =
     (if c = d then [] # split_on d cs else case split_on d cs of [] \<Rightarrow> [[c]] | p # ps \<Rightarrow> (c # p) # ps)"

definition field :: "string list \<Rightarrow> nat \<Rightarrow> string" where
  "field fs i = (if i < length fs then fs ! i else [])"

definition c_space :: "char \<Rightarrow> bool" where
  "c_space c \<longleftrightarrow> c \<in> {CHR '' '', CHR 0x09, CHR 0x0A, CHR 0x0B, CHR 0x0C, CHR 0x0D}"

definition is_digit :: "char \<Rightarrow> bool" where
  "is_digit c \<longleftrightarrow> c \<in> set ''0123456789''"

definition digit_value :: "char \<Rightarrow> nat" where
  "digit_value c = of_char c - 48"

text \<open>\<^verbatim>\<open>strtol\<close> and \<^verbatim>\<open>strtoull\<close> with base 10, before the check of the range: the sign, the magnitude and the number of
  characters taken.\<close>

definition parse_number :: "string \<Rightarrow> (bool \<times> nat \<times> nat) option" where
  "parse_number s =
     (let spaces = length (takeWhile c_space s);
          r = drop spaces s;
          sign = (if r \<noteq> [] \<and> (hd r = CHR ''-'' \<or> hd r = CHR ''+'') then 1 else 0);
          ds = takeWhile is_digit (drop sign r) in
      if ds = [] then None
      else Some (r \<noteq> [] \<and> hd r = CHR ''-'', foldl (\<lambda>n c. n * 10 + digit_value c) 0 ds, spaces + sign + length ds))"

definition fits_bits :: "nat \<Rightarrow> int \<Rightarrow> bool" where
  "fits_bits bits v \<longleftrightarrow> - (2 ^ (bits - 1)) \<le> v \<and> v < 2 ^ (bits - 1)"

text \<open>\<^verbatim>\<open>std::stol\<close>, \<^verbatim>\<open>std::stoi\<close> and \<^verbatim>\<open>std::stoull\<close>; \<open>None\<close> is an exception. The last one negates modulo \<open>2 ^ 64\<close>.\<close>

definition stol :: "string \<Rightarrow> (int \<times> nat) option" where
  "stol s = (case parse_number s of None \<Rightarrow> None
     | Some (neg, m, n) \<Rightarrow> let v = (if neg then - int m else int m) in if fits_bits 64 v then Some (v, n) else None)"

definition stoi :: "string \<Rightarrow> int option" where
  "stoi s = (case stol s of None \<Rightarrow> None | Some (v, n) \<Rightarrow> if fits_bits 32 v then Some v else None)"

definition stoull :: "string \<Rightarrow> u64 option" where
  "stoull s = (case parse_number s of None \<Rightarrow> None
     | Some (neg, m, n) \<Rightarrow> if int m < 2 ^ 64 then Some (if neg then - of_nat m else of_nat m) else None)"

function show_nat :: "nat \<Rightarrow> string" where
  "show_nat n = (if n < 10 then [char_of (48 + n)] else show_nat (n div 10) @ [char_of (48 + n mod 10)])"
  by pat_completeness auto
termination
  by (relation "measure (\<lambda>n. n)") auto

declare show_nat.simps [simp del]

definition show_int :: "int \<Rightarrow> string" where
  "show_int v = (if v < 0 then CHR ''-'' # show_nat (nat (- v)) else show_nat (nat v))"

definition show_u64 :: "u64 \<Rightarrow> string" where
  "show_u64 w = show_nat (unat w)"

text \<open>The conversions between text and \<^verbatim>\<open>float\<close> of the C library, which depend on it for hexadecimal digits, infinities
  and ranges: \<^verbatim>\<open>std::stof\<close> with the number of characters taken, and \<^verbatim>\<open>std::to_string\<close>.\<close>

record libc =
  stof :: "string \<Rightarrow> (u32 \<times> nat) option"
  show_float :: "u32 \<Rightarrow> string"

definition parse_int32 :: "string \<Rightarrow> int option" where
  "parse_int32 s = (case stol s of None \<Rightarrow> None
     | Some (v, parsed) \<Rightarrow> if parsed \<noteq> length s \<or> \<not> fits_bits 32 v then None else Some v)"

definition parse_float :: "libc \<Rightarrow> string \<Rightarrow> u32 option" where
  "parse_float lib s = (case stof lib s of None \<Rightarrow> None | Some (f, parsed) \<Rightarrow> if parsed \<noteq> length s then None else Some f)"

section \<open>Messages\<close>

datatype opcode =
    Ping | ListServices | RegisterService | CheckService | SubscribePackages | PackageChanged | ClientInfo | QueryPackages
  | AppSession | QueryTasks | FdEcho | GetSetting | PutSetting | BinderTransact | BinderIncoming | BinderReply | ServiceState
  | QueryUsers | CheckPermission | SetPermission | ApplySurfaceTransaction | QuerySurfaces | DeviceAction | QueryDeviceState
  | SubscribeDeviceActions | DeviceActionChanged | DeviceInput | SubscribeDeviceInputs | DeviceInputChanged | TabFinished
  | QueryTabFinished

definition opcodes :: "opcode list" where
  "opcodes =
     [Ping, ListServices, RegisterService, CheckService, SubscribePackages, PackageChanged, ClientInfo, QueryPackages,
      AppSession, QueryTasks, FdEcho, GetSetting, PutSetting, BinderTransact, BinderIncoming, BinderReply, ServiceState,
      QueryUsers, CheckPermission, SetPermission, ApplySurfaceTransaction, QuerySurfaces, DeviceAction, QueryDeviceState,
      SubscribeDeviceActions, DeviceActionChanged, DeviceInput, SubscribeDeviceInputs, DeviceInputChanged, TabFinished,
      QueryTabFinished]"

text \<open>The numbers of the operations, from 1 on, and back; a number without an operation is ignored by the daemon.\<close>

definition opcode_number :: "opcode \<Rightarrow> u16" where
  "opcode_number oc = of_nat (length (takeWhile (\<lambda>x. x \<noteq> oc) opcodes) + 1)"

definition opcode_of :: "u16 \<Rightarrow> opcode option" where
  "opcode_of w = List.find (\<lambda>oc. opcode_number oc = w) opcodes"

record message_header =
  h_magic :: u32
  h_version :: u16
  h_opcode :: u16
  h_payload_size :: u32
  h_request_id :: u64

definition kProtocolMagic :: u32 where "kProtocolMagic = 0x4d555044"
definition kProtocolVersion :: u16 where "kProtocolVersion = 1"
definition kReplyFlag :: u16 where "kReplyFlag = 0x8000"
definition kMaxPayloadSize :: nat where "kMaxPayloadSize = 1024 * 1024"

text \<open>The structure in memory, with four bytes of padding that nobody reads.\<close>

definition header_bytes :: "u8 list \<Rightarrow> message_header \<Rightarrow> u8 list" where
  "header_bytes pad h =
     le_encode 4 (h_magic h) @ le_encode 2 (h_version h) @ le_encode 2 (h_opcode h) @ le_encode 4 (h_payload_size h) @
     take 4 (pad @ [0, 0, 0, 0]) @ le_encode 8 (h_request_id h)"

definition header_of :: "u8 list \<Rightarrow> message_header" where
  "header_of bs =
     \<lparr>h_magic = le_decode (take 4 bs), h_version = le_decode (take 2 (drop 4 bs)), h_opcode = le_decode (take 2 (drop 6 bs)),
      h_payload_size = le_decode (take 4 (drop 8 bs)), h_request_id = le_decode (take 8 (drop 16 bs))\<rparr>"

definition make_header :: "u16 \<Rightarrow> nat \<Rightarrow> u64 \<Rightarrow> message_header" where
  "make_header oc n request_id =
     \<lparr>h_magic = kProtocolMagic, h_version = kProtocolVersion, h_opcode = oc, h_payload_size = of_nat n, h_request_id = request_id\<rparr>"

record message =
  m_to :: int
  m_opcode :: opcode
  m_request_id :: u64
  m_payload :: string
  m_reply :: bool

definition message_bytes :: "u8 list \<Rightarrow> message \<Rightarrow> u8 list" where
  "message_bytes pad m =
     header_bytes pad (make_header (opcode_number (m_opcode m) OR (if m_reply m then kReplyFlag else 0)) (length (m_payload m)) (m_request_id m)) @
     bytes_of (m_payload m)"

text \<open>What the receiver of a header accepts, and a whole message from the bytes that arrive before the connection ends:
  too few of them and a header that is not accepted are errors.\<close>

definition header_ok :: "message_header \<Rightarrow> bool" where
  "header_ok h \<longleftrightarrow> h_magic h = kProtocolMagic \<and> h_version h = kProtocolVersion \<and> unat (h_payload_size h) \<le> kMaxPayloadSize"

definition receive_message :: "u8 list \<Rightarrow> (message_header \<times> string) option" where
  "receive_message bs =
     (if length bs < 24 then None
      else let h = header_of bs; n = unat (h_payload_size h) in
        if \<not> header_ok h \<or> length bs < 24 + n then None else Some (h, chars_of (take n (drop 24 bs))))"

section \<open>Settings\<close>

type_synonym settings = "(string \<times> string) list"

definition quoted :: "string \<Rightarrow> string" where
  "quoted s = CHR 0x22 # concat (map (\<lambda>c. if c = CHR 0x22 \<or> c = CHR 0x5C then [CHR 0x5C, c] else [c]) s) @ [CHR 0x22]"

text \<open>Reading with \<^verbatim>\<open>std::quoted\<close>: up to the closing quote, or a word when there is no quote.\<close>

fun unquote :: "string \<Rightarrow> (string \<times> string) option" where
  "unquote [] = None"
| "unquote (c # cs) =
     (if c = CHR 0x5C then (case cs of [] \<Rightarrow> None | d # ds \<Rightarrow> map_option (\<lambda>(s, r). (d # s, r)) (unquote ds))
      else if c = CHR 0x22 then Some ([], cs)
      else map_option (\<lambda>(s, r). (c # s, r)) (unquote cs))"

definition read_quoted :: "string \<Rightarrow> (string \<times> string) option" where
  "read_quoted input =
     (case dropWhile c_space input of [] \<Rightarrow> None
      | c # cs \<Rightarrow> if c = CHR 0x22 then unquote cs
          else Some (takeWhile (\<lambda>x. \<not> c_space x) (c # cs), dropWhile (\<lambda>x. \<not> c_space x) (c # cs)))"

lemma unquote_shorter: "unquote cs = Some (s, r) \<Longrightarrow> length r < length cs"
proof (induction cs arbitrary: s r rule: unquote.induct)
  case (2 c cs)
  show ?case
  proof (cases "c = CHR 0x5C")
    case True
    then obtain d ds s' where "cs = d # ds" "unquote ds = Some (s', r)" using 2(3) by (auto split: list.splits)
    then show ?thesis using 2(1) [OF True] by fastforce
  next
    case False
    then show ?thesis using 2(2) [OF False] 2(3) by (auto split: if_splits)
  qed
qed simp

lemma read_quoted_shorter: "read_quoted input = Some (s, r) \<Longrightarrow> length r < length input"
proof -
  assume a: "read_quoted input = Some (s, r)"
  then obtain c cs where d: "dropWhile c_space input = c # cs" by (auto simp: read_quoted_def split: list.splits)
  then have c: "\<not> c_space c" using hd_dropWhile [of c_space input] by simp
  have len: "length (c # cs) \<le> length input" using length_dropWhile_le [of c_space input] unfolding d .
  show ?thesis
  proof (cases "c = CHR 0x22")
    case True
    then show ?thesis using a d len unquote_shorter [of cs s r] by (simp add: read_quoted_def)
  next
    case False
    then have "r = dropWhile (\<lambda>x. \<not> c_space x) cs" using a d c by (simp add: read_quoted_def)
    then show ?thesis using len length_dropWhile_le [of "\<lambda>x. \<not> c_space x" cs] by simp
  qed
qed

function load_pairs :: "string \<Rightarrow> settings \<Rightarrow> settings" where
  "load_pairs input acc =
     (case read_quoted input of None \<Rightarrow> acc
      | Some (key, r) \<Rightarrow>
          case read_quoted r of None \<Rightarrow> acc
          | Some (val, r') \<Rightarrow> load_pairs r' (AList.update key val acc))"
  by pat_completeness auto
termination
proof (relation "measure (\<lambda>(input, acc). length input)")
  fix input :: string and acc :: settings and x key r y "val" r'
  assume "read_quoted input = Some x" "(key, r) = x" "read_quoted r = Some y" "(val, r') = y"
  then show "((r', AList.update key val acc), input, acc) \<in> measure (\<lambda>(input, acc). length input)"
    using read_quoted_shorter [of input key r] read_quoted_shorter [of r "val" r'] by auto
qed simp

declare load_pairs.simps [simp del]

definition load_settings :: "string \<Rightarrow> settings" where
  "load_settings text_of_file = load_pairs text_of_file []"

text \<open>The text that is written to the temporary file.\<close>

definition settings_text :: "settings \<Rightarrow> string" where
  "settings_text settings =
     concat (map (\<lambda>key. quoted key @ '' '' @ quoted (the (map_of settings key)) @ [nl]) (sort (map fst settings)))"

text \<open>Saving goes through a temporary file. What the system does: whether the file can be created, what of the text is
  written when writing fails, whether renaming succeeds and whether it does after the old file was removed.\<close>

record save_host =
  sh_suffix :: string \<comment> \<open>\<^verbatim>\<open>.tmp-\<close> and the number of the process\<close>
  sh_create :: bool
  sh_write :: "string option" \<comment> \<open>what is left by a write that fails\<close>
  sh_rename :: bool
  sh_remove :: bool
  sh_rename_again :: bool

definition save_settings :: "save_host \<Rightarrow> string \<Rightarrow> settings \<Rightarrow> (string \<rightharpoonup> string) \<Rightarrow> bool \<times> (string \<rightharpoonup> string)" where
  "save_settings k path settings files =
     (let temporary = path @ sh_suffix k; content = settings_text settings in
      if \<not> sh_create k then (False, files)
      else
        case sh_write k of Some part \<Rightarrow> (False, files(temporary \<mapsto> part))
        | None \<Rightarrow>
            if sh_rename k then (True, files(temporary := None, path \<mapsto> content))
            else
              let files' = (if sh_remove k then files(temporary \<mapsto> content, path := None) else files(temporary \<mapsto> content)) in
              if sh_rename_again k then (True, files'(temporary := None, path \<mapsto> content)) else (False, files'))"

section \<open>Users and permissions\<close>

definition user_exists :: "settings \<Rightarrow> string \<Rightarrow> bool" where
  "user_exists settings user \<longleftrightarrow>
     user \<in> set (split_on (CHR '','') (case map_of settings ''users'' of None \<Rightarrow> ''0'' | Some users \<Rightarrow> users))"

definition permission_key :: "string \<Rightarrow> string \<Rightarrow> string \<Rightarrow> string" where
  "permission_key package user permission = ''permission:'' @ user @ '':'' @ package @ '':'' @ permission"

definition dangerous :: "string list" where
  "dangerous =
     [''android.permission.CAMERA'', ''android.permission.RECORD_AUDIO'', ''android.permission.READ_CONTACTS'',
      ''android.permission.WRITE_CONTACTS'', ''android.permission.ACCESS_FINE_LOCATION'',
      ''android.permission.ACCESS_COARSE_LOCATION'', ''android.permission.READ_EXTERNAL_STORAGE'',
      ''android.permission.WRITE_EXTERNAL_STORAGE'']"

definition permission_granted :: "settings \<Rightarrow> string \<Rightarrow> string \<Rightarrow> string \<Rightarrow> bool" where
  "permission_granted settings package user permission =
     (case map_of settings (permission_key package user permission) of
        Some v \<Rightarrow> v = ''grant''
      | None \<Rightarrow> user_exists settings user \<and> package \<noteq> [] \<and> permission \<noteq> [] \<and> permission \<notin> set dangerous)"

section \<open>Surfaces\<close>

record surface_state =
  s_name :: string
  s_width :: int
  s_height :: int
  s_layer :: int
  s_alpha :: u32
  s_x :: u32
  s_y :: u32
  crop_width :: int
  crop_height :: int
  s_visible :: bool

type_synonym surfaces = "(u64 \<times> surface_state) list"

text \<open>The defaults: opacity 1, everything else 0.\<close>

definition new_surface :: "string \<Rightarrow> int \<Rightarrow> int \<Rightarrow> surface_state" where
  "new_surface name width height =
     \<lparr>s_name = name, s_width = width, s_height = height, s_layer = 0, s_alpha = 0x3f800000, s_x = 0, s_y = 0,
      crop_width = width, crop_height = height, s_visible = False\<rparr>"

text \<open>A change of the surface \<open>s\<close>; exceptions and unknown commands give \<open>None\<close>.\<close>

definition change_surface :: "libc \<Rightarrow> string list \<Rightarrow> surface_state \<Rightarrow> surface_state option" where
  "change_surface lib fs s =
     (if fs ! 0 = ''show'' then Some (s\<lparr>s_visible := True\<rparr>)
      else if fs ! 0 = ''hide'' then Some (s\<lparr>s_visible := False\<rparr>)
      else if length fs = 3 \<and> fs ! 0 = ''layer'' then map_option (\<lambda>v. s\<lparr>s_layer := v\<rparr>) (stoi (fs ! 2))
      else if length fs = 3 \<and> fs ! 0 = ''alpha'' then map_option (\<lambda>(v, n). s\<lparr>s_alpha := v\<rparr>) (stof lib (fs ! 2))
      else if length fs = 4 \<and> fs ! 0 = ''position'' then
        Option.bind (stof lib (fs ! 2)) (\<lambda>(x, n). map_option (\<lambda>(y, n). s\<lparr>s_x := x, s_y := y\<rparr>) (stof lib (fs ! 3)))
      else if length fs = 4 \<and> fs ! 0 = ''crop'' then
        Option.bind (stoi (fs ! 2)) (\<lambda>w. map_option (\<lambda>h. s\<lparr>crop_width := w, crop_height := h\<rparr>) (stoi (fs ! 3)))
      else None)"

definition surface_line :: "libc \<Rightarrow> string \<Rightarrow> surfaces \<Rightarrow> surfaces option" where
  "surface_line lib line updated =
     (let fs = split_on tab_char line in
      if 2 \<le> length fs \<and> fs ! 0 = ''remove'' then map_option (\<lambda>id. AList.delete id updated) (stoull (fs ! 1))
      else if length fs = 5 \<and> fs ! 0 = ''create'' then
        Option.bind (stoull (fs ! 1)) (\<lambda>id. Option.bind (stoi (fs ! 3)) (\<lambda>w. Option.bind (stoi (fs ! 4)) (\<lambda>h.
          if id \<noteq> 0 \<and> 0 \<le> w \<and> 0 \<le> h \<and> map_of updated id = None then Some (AList.update id (new_surface (fs ! 2) w h) updated) else None)))
      else if 2 \<le> length fs then
        Option.bind (stoull (fs ! 1)) (\<lambda>id. Option.bind (map_of updated id) (\<lambda>s.
          map_option (\<lambda>s'. AList.update id s' updated) (change_surface lib fs s)))
      else None)"

definition surface_lines :: "string \<Rightarrow> string list" where
  "surface_lines payload = (let ls = split_on nl payload in if last ls = [] then butlast ls else ls)"

fun apply_lines :: "libc \<Rightarrow> string list \<Rightarrow> surfaces \<Rightarrow> surfaces option" where
  "apply_lines lib [] updated = Some updated"
| "apply_lines lib (l # ls) updated = Option.bind (surface_line lib l updated) (apply_lines lib ls)"

definition apply_surface_transaction :: "libc \<Rightarrow> surfaces \<Rightarrow> string \<Rightarrow> bool \<times> surfaces" where
  "apply_surface_transaction lib surfaces payload =
     (case apply_lines lib (surface_lines payload) surfaces of None \<Rightarrow> (False, surfaces) | Some updated \<Rightarrow> (True, updated))"

definition surface_entry :: "libc \<Rightarrow> u64 \<times> surface_state \<Rightarrow> string" where
  "surface_entry lib = (\<lambda>(id, s).
     [nl] @ show_u64 id @ [tab_char] @ s_name s @ [tab_char] @ show_int (s_layer s) @ [tab_char] @
     (if s_visible s then ''visible'' else ''hidden'') @ [tab_char] @ show_float lib (s_alpha s) @ [tab_char] @
     show_float lib (s_x s) @ '','' @ show_float lib (s_y s) @ [tab_char] @ show_int (crop_width s) @ ''x'' @ show_int (crop_height s))"

definition surface_list :: "libc \<Rightarrow> surfaces \<Rightarrow> u64 \<Rightarrow> string" where
  "surface_list lib surfaces generation =
     ''generation='' @ show_u64 generation @
     concat (map (surface_entry lib) (sort_key (\<lambda>(id, s). (s_layer s, id)) surfaces))"

section \<open>The device\<close>

record device_state =
  d_generation :: u64
  d_action :: string
  d_tab :: string
  d_apk :: string
  d_package :: string
  d_activity :: string
  d_application :: string

record device_input_state =
  i_generation :: u64
  i_tab :: string
  i_type :: int
  i_action :: int
  i_source :: int
  i_device_id :: int
  i_key_code :: int
  i_x :: u32
  i_y :: u32

record tab_finished_state =
  t_generation :: u64
  t_tab :: string

definition valid_device_action :: "string \<Rightarrow> bool" where
  "valid_device_action action \<longleftrightarrow>
     action \<in> set [''back'', ''home'', ''recents'', ''settings'', ''install-apk'', ''focus-tab'', ''close-tab'', ''package-installed'', ''all-apps'']"

definition apply_device_action :: "device_state \<Rightarrow> string \<Rightarrow> bool \<times> device_state" where
  "apply_device_action state payload =
     (let fs = split_on nl payload in
      if \<not> valid_device_action (field fs 0) then (False, state)
      else (True, \<lparr>d_generation = d_generation state + 1, d_action = field fs 0, d_tab = field fs 1, d_apk = field fs 2,
        d_package = field fs 3, d_activity = field fs 4, d_application = field fs 5\<rparr>))"

definition apply_device_input :: "libc \<Rightarrow> device_input_state \<Rightarrow> string \<Rightarrow> bool \<times> device_input_state" where
  "apply_device_input lib state payload =
     (let fs = split_on nl payload in
      if length fs \<noteq> 8 then (False, state)
      else
        case (parse_int32 (fs ! 1), parse_int32 (fs ! 2), parse_int32 (fs ! 3), parse_int32 (fs ! 4), parse_int32 (fs ! 5),
              parse_float lib (fs ! 6), parse_float lib (fs ! 7)) of
          (Some type, Some action, Some source, Some device, Some key, Some x, Some y) \<Rightarrow>
            if type \<noteq> 1 \<and> type \<noteq> 2 then (False, state)
            else (True, \<lparr>i_generation = i_generation state + 1, i_tab = fs ! 0, i_type = type, i_action = action, i_source = source,
              i_device_id = device, i_key_code = key, i_x = x, i_y = y\<rparr>)
        | _ \<Rightarrow> (False, state))"

definition device_state_reply :: "device_state \<Rightarrow> string" where
  "device_state_reply s =
     ''generation='' @ show_u64 (d_generation s) @ nl # ''action='' @ d_action s @ nl # ''tab='' @ d_tab s @ nl # ''apk='' @ d_apk s @
     nl # ''package='' @ d_package s @ nl # ''activity='' @ d_activity s @ nl # ''application='' @ d_application s"

definition device_input_reply :: "libc \<Rightarrow> device_input_state \<Rightarrow> string" where
  "device_input_reply lib s =
     ''generation='' @ show_u64 (i_generation s) @ nl # ''tab='' @ i_tab s @ nl # ''type='' @ show_int (i_type s) @
     nl # ''action='' @ show_int (i_action s) @ nl # ''source='' @ show_int (i_source s) @ nl # ''deviceId='' @ show_int (i_device_id s) @
     nl # ''keyCode='' @ show_int (i_key_code s) @ nl # ''x='' @ show_float lib (i_x s) @ nl # ''y='' @ show_float lib (i_y s)"

definition apply_tab_finished :: "tab_finished_state \<Rightarrow> string \<Rightarrow> bool \<times> tab_finished_state" where
  "apply_tab_finished state payload =
     (if payload = [] then (False, state) else (True, \<lparr>t_generation = t_generation state + 1, t_tab = payload\<rparr>))"

definition tab_finished_reply :: "tab_finished_state \<Rightarrow> string" where
  "tab_finished_reply s = ''generation='' @ show_u64 (t_generation s) @ nl # ''tab='' @ t_tab s"

section \<open>The catalog of services\<close>

text \<open>A service with owner -1 is declared without one.\<close>

type_synonym services = "(string \<times> int) list"

definition builtin_services :: services where
  "builtin_services =
     map (\<lambda>n. (n, -1)) [''activity'', ''package'', ''launcherapps'', ''shortcut'', ''appwidget'', ''window'', ''input_method'', ''permission'',
       ''user'', ''settings'', ''surfaceflinger'']"

fun join_lines :: "string list \<Rightarrow> string \<Rightarrow> string" where
  "join_lines [] result = result"
| "join_lines (n # ns) result = join_lines ns ((if result = [] then [] else result @ [nl]) @ n)"

definition service_list :: "services \<Rightarrow> string" where
  "service_list services = join_lines (sort (map fst services)) []"

definition framework_service_state :: "services \<Rightarrow> u64 \<Rightarrow> int \<Rightarrow> string" where
  "framework_service_state services generation uptime =
     ''state=ready'' @ nl # ''generation='' @ show_u64 generation @ nl # ''uptimeMillis='' @ show_int uptime @
     nl # ''services='' @ show_nat (length services) @ nl # ''serviceNames='' @ service_list services"

section \<open>Messages arrive as they were sent\<close>

lemma length_header [simp]: "length (header_bytes pad h) = 24"
  by (simp add: header_bytes_def)

lemma header_of_bytes: "header_of (header_bytes pad h @ rest) = h"
proof -
  have "length (take 4 (pad @ [0, 0, 0, 0])) = 4" by simp
  then show ?thesis unfolding header_of_def header_bytes_def by simp
qed

lemma receive_sent:
  assumes "length payload \<le> kMaxPayloadSize"
  shows "receive_message (header_bytes pad (make_header oc (length payload) rid) @ bytes_of payload @ rest) = Some (make_header oc (length payload) rid, payload)"
proof -
  have n: "unat (of_nat (length payload) :: u32) = length payload"
    using assms by (simp add: kMaxPayloadSize_def unsigned_of_nat take_bit_nat_eq_self)
  have l: "length (bytes_of payload) = length payload" by (simp add: bytes_of_def)
  have "header_ok (make_header oc (length payload) rid)" using assms n by (simp add: header_ok_def make_header_def)
  then show ?thesis
    by (simp add: receive_message_def header_of_bytes Let_def l) (simp add: make_header_def n l chars_of_bytes_of)
qed

lemma opcode_number_inj: "opcode_of (opcode_number oc) = Some oc"
proof -
  have "list_all (\<lambda>oc. opcode_of (opcode_number oc) = Some oc) opcodes" by code_simp
  moreover have "oc \<in> set opcodes" by (cases oc) (simp_all add: opcodes_def)
  ultimately show ?thesis by (simp add: list_all_iff)
qed

section \<open>Settings survive their file\<close>

lemma unquote_quoted: "unquote (concat (map (\<lambda>c. if c = CHR 0x22 \<or> c = CHR 0x5C then [CHR 0x5C, c] else [c]) s) @ CHR 0x22 # rest) = Some (s, rest)"
  by (induction s) auto

lemma read_quoted_quoted: "read_quoted (quoted s @ rest) = Some (s, rest)"
  by (simp add: read_quoted_def quoted_def c_space_def unquote_quoted)

lemma read_quoted_space: "c_space c \<Longrightarrow> read_quoted (c # input) = read_quoted input"
  by (simp add: read_quoted_def)

lemma load_pairs_text:
  "load_pairs (concat (map (\<lambda>key. quoted key @ '' '' @ quoted (f key) @ [nl]) ks)) acc = fold (\<lambda>key. AList.update key (f key)) ks acc"
proof -
  have "load_pairs (concat (map (\<lambda>key. quoted key @ '' '' @ quoted (f key) @ [nl]) ks)) acc = fold (\<lambda>key. AList.update key (f key)) ks acc \<and>
     load_pairs (nl # concat (map (\<lambda>key. quoted key @ '' '' @ quoted (f key) @ [nl]) ks)) acc = fold (\<lambda>key. AList.update key (f key)) ks acc"
  proof (induction ks arbitrary: acc)
    case Nil
    show ?case by (simp add: load_pairs.simps read_quoted_def c_space_def)
  next
    case (Cons k ks)
    have sp: "c_space CHR '' ''" "c_space nl" by (simp_all add: c_space_def)
    show ?case using Cons
      by (simp add: load_pairs.simps [of "quoted k @ x" for x] load_pairs.simps [of "nl # quoted k @ x" for x] read_quoted_quoted read_quoted_space sp)
  qed
  then show ?thesis by simp
qed

lemma map_of_fold_update: "map_of (fold (\<lambda>key. AList.update key (f key)) ks acc) = (\<lambda>k. if k \<in> set ks then Some (f k) else map_of acc k)"
  by (induction ks arbitrary: acc) (auto simp: AList.update_conv' fun_eq_iff)

lemma load_settings_text: "map_of (load_settings (settings_text settings)) = map_of settings"
proof -
  have "map_of (load_settings (settings_text settings)) = (\<lambda>k. if k \<in> fst ` set settings then Some (the (map_of settings k)) else None)"
    unfolding load_settings_def settings_text_def load_pairs_text map_of_fold_update by (auto simp: fun_eq_iff)
  also have "\<dots> = map_of settings"
  proof
    fix k
    show "(if k \<in> fst ` set settings then Some (the (map_of settings k)) else None) = map_of settings k"
      using map_of_eq_None_iff [of settings k] by (cases "map_of settings k") auto
  qed
  finally show ?thesis .
qed

text \<open>C39: When saving the settings succeeds, loading the file gives the same settings, whatever characters are in the keys and
  the values: quotes, backslashes, blanks and line ends survive. When it fails, the file is the old one or missing.\<close>

theorem settings_roundtrip:
  assumes "save_settings k path settings files = (ok, files')" and "sh_suffix k \<noteq> []"
  shows "if ok then \<exists>content. files' path = Some content \<and> map_of (load_settings content) = map_of settings
    else files' path = files path \<or> files' path = None"
  using assms load_settings_text [of settings] by (auto simp: save_settings_def Let_def split: if_splits option.splits)

theorem settings_roundtrip_witness:
  "\<exists>files' content. save_settings \<lparr>sh_suffix = ''.tmp-7'', sh_create = True, sh_write = None, sh_rename = True, sh_remove = True, sh_rename_again = True\<rparr>
     ''settings'' [(''a b'', [CHR 0x22, CHR 0x5C])] Map.empty = (True, files') \<and> files' ''settings'' = Some content \<and>
     map_of (load_settings content) = [''a b'' \<mapsto> [CHR 0x22, CHR 0x5C]]"
proof -
  let ?k = "\<lparr>sh_suffix = ''.tmp-7'', sh_create = True, sh_write = None, sh_rename = True, sh_remove = True, sh_rename_again = True\<rparr>"
  obtain ok files' where r: "save_settings ?k ''settings'' [(''a b'', [CHR 0x22, CHR 0x5C])] Map.empty = (ok, files')" by force
  then have "ok" by (simp add: save_settings_def Let_def)
  then show ?thesis using settings_roundtrip [OF r] r by auto
qed

end
