(* ===== verification/Mpd_Server.thy ===== *)
theory Mpd_Server
  imports Mpd_Proto
begin

text \<open>
  The main loop of the service daemon \<^verbatim>\<open>muplard\<close>: it accepts clients, answers their messages, forwards transactions
  to the clients that own a service and their replies back, and tells subscribers about changes.

  One round of the loop gets what the system has for it: a new connection, for each client whether it has
  hung up or which bytes it sends, and the results of the other system calls. What happens on the sockets
  is a trace of events. Sending to a client may fail, which only matters for a forwarded transaction.
  The field \<open>save_ok\<close> is the result that \<open>save_settings\<close> of \<open>Mpd_Proto\<close> has on the host's files.
\<close>

section \<open>State\<close>

record client =
  c_fd :: int
  c_pid :: int
  c_uid :: nat
  package_subscriber :: bool
  device_action_subscriber :: bool
  device_input_subscriber :: bool
  owned_services :: "string list"
  app_package :: string
  app_activity :: string

record pending_transaction =
  caller_fd :: int
  owner_fd :: int
  caller_request_id :: u64

record server =
  sv_services :: services
  pending_transactions :: "(u64 \<times> pending_transaction) list"
  sv_surfaces :: surfaces
  surface_generation :: u64
  sv_device :: device_state
  sv_input :: device_input_state
  sv_tab :: tab_finished_state
  next_transaction_id :: u64
  clients :: "client list"
  package_generation :: u64
  previous_registry_stamp :: u64
  sv_settings :: settings
  service_generation :: u64

datatype io = Accepted int | Received int message_header string | Sent message | Closed int

text \<open>What the system answers while a message is handled: whether sending to a descriptor succeeds, whether the settings
  could be saved, the text of the registry, the size of a passed file if there is one, and the time since the start.\<close>

record env =
  e_lib :: libc
  send_ok :: "int \<Rightarrow> bool"
  save_ok :: bool
  registry_text :: string
  fd_size :: "int option"
  uptime :: int

section \<open>Messages\<close>

definition before :: "string \<Rightarrow> string" where
  "before payload = takeWhile (\<lambda>c. c \<noteq> nl) payload"

definition after :: "string \<Rightarrow> string" where
  "after payload = drop (Suc (length (before payload))) payload"

definition separators :: "string \<Rightarrow> nat" where
  "separators payload = length (filter (\<lambda>c. c = nl) payload)"

definition reply :: "client \<Rightarrow> message_header \<Rightarrow> opcode \<Rightarrow> string \<Rightarrow> io" where
  "reply c h oc payload = Sent \<lparr>m_to = c_fd c, m_opcode = oc, m_request_id = h_request_id h, m_payload = payload, m_reply = True\<rparr>"

definition push :: "opcode \<Rightarrow> string \<Rightarrow> client \<Rightarrow> io" where
  "push oc payload c = Sent \<lparr>m_to = c_fd c, m_opcode = oc, m_request_id = 0, m_payload = payload, m_reply = False\<rparr>"

definition flag :: "bool \<Rightarrow> string" where
  "flag b = (if b then ''1'' else ''0'')"

definition set_client :: "nat \<Rightarrow> (client \<Rightarrow> client) \<Rightarrow> server \<Rightarrow> server" where
  "set_client i f s = s\<lparr>clients := (clients s)[i := f (clients s ! i)]\<rparr>"

definition task_line :: "client \<Rightarrow> string" where
  "task_line c = app_package c @ [tab_char] @ app_activity c @ [tab_char] @ show_int (c_pid c) @ [tab_char] @ show_nat (c_uid c)"

definition register_service :: "nat \<Rightarrow> string \<Rightarrow> server \<Rightarrow> bool \<times> server" where
  "register_service i name s =
     (if name \<noteq> [] \<and> (case map_of (sv_services s) name of None \<Rightarrow> True | Some owner \<Rightarrow> owner < 0)
      then (True, set_client i (\<lambda>c. c\<lparr>owned_services := List.insert name (owned_services c)\<rparr>)
                    (s\<lparr>sv_services := AList.update name (c_fd (clients s ! i)) (sv_services s)\<rparr>))
      else (False, s))"

definition put_setting :: "env \<Rightarrow> string \<Rightarrow> server \<Rightarrow> bool \<times> server" where
  "put_setting e payload s =
     (if 0 < separators payload \<and> before payload \<noteq> []
      then (save_ok e, s\<lparr>sv_settings := AList.update (before payload) (after payload) (sv_settings s)\<rparr>)
      else (False, s))"

definition set_permission :: "env \<Rightarrow> string \<Rightarrow> server \<Rightarrow> bool \<times> server" where
  "set_permission e payload s =
     (let package = before payload; user = before (after payload); permission = before (after (after payload));
          value = after (after (after payload)) in
      if 3 \<le> separators payload \<and> package \<noteq> [] \<and> user \<noteq> [] \<and> permission \<noteq> [] \<and> (value = ''grant'' \<or> value = ''deny'')
      then (save_ok e, s\<lparr>sv_settings := AList.update (permission_key package user permission) value (sv_settings s)\<rparr>)
      else (False, s))"

definition binder_transact :: "env \<Rightarrow> client \<Rightarrow> message_header \<Rightarrow> string \<Rightarrow> server \<Rightarrow> server \<times> io list" where
  "binder_transact e c h payload s =
     (let dead = reply c h BinderTransact ''DEAD_OBJECT'' in
      case map_of (sv_services s) (before payload) of
        None \<Rightarrow> (s, [dead])
      | Some owner \<Rightarrow>
          if separators payload = 0 \<or> owner < 0 then (s, [dead])
          else
            let id = next_transaction_id s;
                out = Sent \<lparr>m_to = owner, m_opcode = BinderIncoming, m_request_id = id, m_payload = after payload, m_reply = False\<rparr>;
                s' = s\<lparr>next_transaction_id := id + 1,
                       pending_transactions := AList.update id \<lparr>caller_fd = c_fd c, owner_fd = owner, caller_request_id = h_request_id h\<rparr> (pending_transactions s)\<rparr> in
            if send_ok e owner then (s', [out])
            else (s'\<lparr>pending_transactions := AList.delete id (pending_transactions s')\<rparr>, [out, dead]))"

definition binder_reply :: "client \<Rightarrow> message_header \<Rightarrow> string \<Rightarrow> server \<Rightarrow> server \<times> io list" where
  "binder_reply c h payload s =
     (case map_of (pending_transactions s) (h_request_id h) of
        None \<Rightarrow> (s, [])
      | Some p \<Rightarrow>
          if owner_fd p \<noteq> c_fd c then (s, [])
          else (s\<lparr>pending_transactions := AList.delete (h_request_id h) (pending_transactions s)\<rparr>,
                [Sent \<lparr>m_to = caller_fd p, m_opcode = BinderTransact, m_request_id = caller_request_id p, m_payload = payload, m_reply = True\<rparr>]))"

text \<open>The message of client \<open>i\<close>. Operations that the daemon only sends, and unknown ones, are ignored.\<close>

definition handle_message :: "env \<Rightarrow> nat \<Rightarrow> message_header \<Rightarrow> string \<Rightarrow> server \<Rightarrow> server \<times> io list" where
  "handle_message e i h payload s =
     (let c = clients s ! i; lib = e_lib e in
      case opcode_of (h_opcode h) of None \<Rightarrow> (s, [])
      | Some oc \<Rightarrow>
        (let ans = (\<lambda>s text. (s, [reply c h oc text])) in
        case oc of
          Ping \<Rightarrow> ans s ''pong''
        | ListServices \<Rightarrow> ans s (service_list (sv_services s))
        | CheckService \<Rightarrow> ans s (case map_of (sv_services s) payload of None \<Rightarrow> ''0'' | Some owner \<Rightarrow> if 0 \<le> owner then ''2'' else ''1'')
        | RegisterService \<Rightarrow> (case register_service i payload s of (ok, s') \<Rightarrow> ans s' (flag ok))
        | SubscribePackages \<Rightarrow> ans (set_client i (\<lambda>c. c\<lparr>package_subscriber := True\<rparr>) s) (show_u64 (package_generation s))
        | ClientInfo \<Rightarrow> ans s (''pid='' @ show_int (c_pid c) @ nl # ''uid='' @ show_nat (c_uid c))
        | QueryPackages \<Rightarrow> ans s (registry_text e)
        | AppSession \<Rightarrow> ans (set_client i (\<lambda>c. c\<lparr>app_package := before payload, app_activity := after payload\<rparr>) s) (flag (before payload \<noteq> []))
        | QueryTasks \<Rightarrow> ans s (join_lines (map task_line (filter (\<lambda>c. app_package c \<noteq> []) (clients s))) [])
        | FdEcho \<Rightarrow> ans s (case fd_size e of None \<Rightarrow> ''-1'' | Some n \<Rightarrow> show_int n)
        | GetSetting \<Rightarrow> ans s (case map_of (sv_settings s) payload of None \<Rightarrow> [] | Some v \<Rightarrow> v)
        | PutSetting \<Rightarrow> (case put_setting e payload s of (ok, s') \<Rightarrow> ans s' (flag ok))
        | ServiceState \<Rightarrow> ans s (framework_service_state (sv_services s) (service_generation s) (uptime e))
        | QueryUsers \<Rightarrow>
            (case map_of (sv_settings s) ''users'' of Some v \<Rightarrow> ans s v
             | None \<Rightarrow> ans (s\<lparr>sv_settings := AList.update ''users'' [] (sv_settings s)\<rparr>) [])
        | CheckPermission \<Rightarrow>
            ans s (if permission_granted (sv_settings s) (before payload) (before (after payload)) (after (after payload)) then ''0'' else ''-1'')
        | SetPermission \<Rightarrow> (case set_permission e payload s of (ok, s') \<Rightarrow> ans s' (flag ok))
        | ApplySurfaceTransaction \<Rightarrow>
            (case apply_surface_transaction lib (sv_surfaces s) payload of
               (False, _) \<Rightarrow> ans s ''0''
             | (True, surfaces) \<Rightarrow> ans (s\<lparr>sv_surfaces := surfaces, surface_generation := surface_generation s + 1\<rparr>) (show_u64 (surface_generation s + 1)))
        | QuerySurfaces \<Rightarrow> ans s (surface_list lib (sv_surfaces s) (surface_generation s))
        | SubscribeDeviceActions \<Rightarrow> ans (set_client i (\<lambda>c. c\<lparr>device_action_subscriber := True\<rparr>) s) (device_state_reply (sv_device s))
        | SubscribeDeviceInputs \<Rightarrow> ans (set_client i (\<lambda>c. c\<lparr>device_input_subscriber := True\<rparr>) s) (device_input_reply lib (sv_input s))
        | DeviceAction \<Rightarrow>
            (case apply_device_action (sv_device s) payload of
               (False, _) \<Rightarrow> ans s ''0''
             | (True, d) \<Rightarrow> (s\<lparr>sv_device := d\<rparr>, reply c h oc (show_u64 (d_generation d)) #
                 map (push DeviceActionChanged (device_state_reply d)) (filter device_action_subscriber (clients s))))
        | DeviceInput \<Rightarrow>
            (case apply_device_input lib (sv_input s) payload of
               (False, _) \<Rightarrow> ans s ''0''
             | (True, d) \<Rightarrow> (s\<lparr>sv_input := d\<rparr>, reply c h oc (show_u64 (i_generation d)) #
                 map (push DeviceInputChanged (device_input_reply lib d)) (filter device_input_subscriber (clients s))))
        | QueryDeviceState \<Rightarrow> ans s (device_state_reply (sv_device s))
        | TabFinished \<Rightarrow>
            (case apply_tab_finished (sv_tab s) payload of
               (False, _) \<Rightarrow> ans s ''0''
             | (True, t) \<Rightarrow> ans (s\<lparr>sv_tab := t\<rparr>) (show_u64 (t_generation t)))
        | QueryTabFinished \<Rightarrow> ans s (tab_finished_reply (sv_tab s))
        | BinderTransact \<Rightarrow> binder_transact e c h payload s
        | BinderReply \<Rightarrow> binder_reply c h payload s
        | _ \<Rightarrow> (s, [])))"

section \<open>Clients that leave\<close>

fun drop_transactions :: "int \<Rightarrow> (u64 \<times> pending_transaction) list \<Rightarrow> (u64 \<times> pending_transaction) list \<times> io list" where
  "drop_transactions fd [] = ([], [])"
| "drop_transactions fd ((tid, p) # ps) =
     (case drop_transactions fd ps of (ps', out) \<Rightarrow>
        if owner_fd p = fd then
          (ps', Sent \<lparr>m_to = caller_fd p, m_opcode = BinderTransact, m_request_id = caller_request_id p, m_payload = ''DEAD_OBJECT'', m_reply = True\<rparr> # out)
        else if caller_fd p = fd then (ps', out)
        else ((tid, p) # ps', out))"

definition release_service :: "int \<Rightarrow> string \<Rightarrow> services \<Rightarrow> services" where
  "release_service fd name services = (if map_of services name = Some fd then AList.delete name services else services)"

definition remove_client :: "nat \<Rightarrow> server \<Rightarrow> server \<times> io list" where
  "remove_client i s =
     (let c = clients s ! i in
      case drop_transactions (c_fd c) (pending_transactions s) of (pending, out) \<Rightarrow>
        (s\<lparr>pending_transactions := pending, sv_services := fold (release_service (c_fd c)) (owned_services c) (sv_services s),
           clients := take i (clients s) @ drop (Suc i) (clients s)\<rparr>, out @ [Closed (c_fd c)]))"

section \<open>The loop\<close>

text \<open>What \<^verbatim>\<open>poll\<close> says about a client, with the bytes that it sends before its connection ends or it waits.\<close>

datatype client_event = Quiet | Hangup | Readable "u8 list" env

definition serve_client :: "client_event \<Rightarrow> nat \<Rightarrow> server \<Rightarrow> server \<times> io list" where
  "serve_client ev i s =
     (case ev of Quiet \<Rightarrow> (s, [])
      | Hangup \<Rightarrow> remove_client i s
      | Readable bytes e \<Rightarrow>
          case receive_message bytes of None \<Rightarrow> remove_client i s
          | Some (h, payload) \<Rightarrow>
              case handle_message e i h payload s of (s', out) \<Rightarrow> (s', Received (c_fd (clients s ! i)) h payload # out))"

text \<open>From the last client down to the first; a client that has just been accepted was not polled.\<close>

fun serve_clients :: "(nat \<Rightarrow> client_event) \<Rightarrow> nat \<Rightarrow> server \<Rightarrow> server \<times> io list" where
  "serve_clients evs 0 s = (s, [])"
| "serve_clients evs (Suc i) s =
     (case serve_client (evs i) i s of (s1, out1) \<Rightarrow>
        case serve_clients evs i s1 of (s2, out2) \<Rightarrow> (s2, out1 @ out2))"

record round =
  accepted :: "(int \<times> int \<times> nat) option"
  events :: "nat \<Rightarrow> client_event"
  registry_stamp :: u64

definition accept_client :: "int \<times> int \<times> nat \<Rightarrow> server \<Rightarrow> server" where
  "accept_client = (\<lambda>(fd, pid, uid) s. s\<lparr>clients := clients s @
     [\<lparr>c_fd = fd, c_pid = pid, c_uid = uid, package_subscriber = False, device_action_subscriber = False, device_input_subscriber = False,
       owned_services = [], app_package = [], app_activity = []\<rparr>]\<rparr>)"

definition check_registry :: "u64 \<Rightarrow> server \<Rightarrow> server \<times> io list" where
  "check_registry stamp s =
     (if stamp = previous_registry_stamp s then (s, [])
      else
        let g = package_generation s + 1 in
        (s\<lparr>previous_registry_stamp := stamp, package_generation := g\<rparr>,
         map (push PackageChanged (show_u64 g)) (filter package_subscriber (clients s))))"

definition poll_round :: "round \<Rightarrow> server \<Rightarrow> server \<times> io list" where
  "poll_round r s =
     (let polled = length (clients s);
          (s1, out1) = (case accepted r of None \<Rightarrow> (s, []) | Some a \<Rightarrow> (accept_client a s, [Accepted (fst a)]));
          (s2, out2) = serve_clients (\<lambda>i. if i < polled then events r i else Quiet) (length (clients s1)) s1;
          (s3, out3) = check_registry (registry_stamp r) s2 in
      (s3, out1 @ out2 @ out3))"

fun run_daemon :: "round list \<Rightarrow> server \<Rightarrow> server \<times> io list" where
  "run_daemon [] s = (s, [])"
| "run_daemon (r # rs) s = (case poll_round r s of (s1, out1) \<Rightarrow> case run_daemon rs s1 of (s2, out2) \<Rightarrow> (s2, out1 @ out2))"

text \<open>The state before the first round, from the file of the settings, the stamp of the registry and the process number.\<close>

definition start_daemon :: "string \<Rightarrow> u64 \<Rightarrow> u64 \<Rightarrow> server" where
  "start_daemon settings_file stamp pid =
     (let settings = load_settings settings_file in
      \<lparr>sv_services = builtin_services, pending_transactions = [], sv_surfaces = [], surface_generation = 0,
       sv_device = \<lparr>d_generation = 0, d_action = [], d_tab = [], d_apk = [], d_package = [], d_activity = [], d_application = []\<rparr>,
       sv_input = \<lparr>i_generation = 0, i_tab = [], i_type = 0, i_action = 0, i_source = 0, i_device_id = 0, i_key_code = 0, i_x = 0, i_y = 0\<rparr>,
       sv_tab = \<lparr>t_generation = 0, t_tab = []\<rparr>, next_transaction_id = 1, clients = [], package_generation = 1, previous_registry_stamp = stamp,
       sv_settings = (if map_of settings ''users'' = None then AList.update ''users'' ''0'' settings else settings), service_generation = pid\<rparr>)"

end
