(* ===== verification/Mpd_Safety.thy ===== *)
theory Mpd_Safety
  imports Mpd_Server
begin

text \<open>
  What the daemon guarantees over all rounds: services and transactions refer to connected clients, messages go
  to connected clients, and no transaction is lost, answered twice or answered to somebody else.
\<close>

section \<open>Association lists\<close>

lemma update_fresh: "k \<notin> fst ` set al \<Longrightarrow> AList.update k v al = al @ [(k, v)]"
  by (induction al) auto

lemma count_delete:
  assumes "distinct (map fst al)" and "map_of al k = Some v"
  shows "length (filter P al) = length (filter P (AList.delete k al)) + (if P (k, v) then 1 else 0)"
  using assms
proof (induction al)
  case (Cons x al)
  have "AList.delete k al = al" if "k \<notin> fst ` set al" using that by (simp add: AList.delete_id)
  then show ?case using Cons by (cases x) (auto split: if_splits)
qed simp

section \<open>The trace\<close>

definition opened :: "io list \<Rightarrow> int set" where
  "opened tr = foldl (\<lambda>cs x. case x of Accepted c \<Rightarrow> insert c cs | Closed c \<Rightarrow> cs - {c} | _ \<Rightarrow> cs) {} tr"

lemma opened_simps [simp]:
  "opened [] = {}" "opened (tr @ [Accepted c]) = insert c (opened tr)" "opened (tr @ [Closed c]) = opened tr - {c}"
  by (simp_all add: opened_def)

definition is_sent :: "io \<Rightarrow> bool" where
  "is_sent x \<longleftrightarrow> (\<exists>m. x = Sent m)"

definition is_request :: "int \<Rightarrow> u64 \<Rightarrow> io \<Rightarrow> bool" where
  "is_request c r x = (case x of Received fd h p \<Rightarrow> fd = c \<and> h_request_id h = r \<and> opcode_of (h_opcode h) = Some BinderTransact | _ \<Rightarrow> False)"

definition is_answer :: "int \<Rightarrow> u64 \<Rightarrow> io \<Rightarrow> bool" where
  "is_answer c r x = (case x of Sent m \<Rightarrow> m_to m = c \<and> m_request_id m = r \<and> m_opcode m = BinderTransact \<and> m_reply m | _ \<Rightarrow> False)"

definition count :: "(io \<Rightarrow> bool) \<Rightarrow> io list \<Rightarrow> nat" where
  "count P tr = length (filter P tr)"

definition transacts :: "io list \<Rightarrow> nat" where
  "transacts tr = count (\<lambda>x. case x of Received fd h p \<Rightarrow> opcode_of (h_opcode h) = Some BinderTransact | _ \<Rightarrow> False) tr"

lemma count_simps [simp]: "count P [] = 0" "count P (x # tr) = (if P x then 1 else 0) + count P tr" "count P (tr @ tr') = count P tr + count P tr'"
  by (simp_all add: count_def)

text \<open>The events since the connection of \<open>c\<close> was accepted.\<close>

definition since :: "int \<Rightarrow> io list \<Rightarrow> io list" where
  "since c tr = rev (takeWhile (\<lambda>x. x \<noteq> Accepted c) (rev tr))"

lemma since_append: "Accepted c \<notin> set out \<Longrightarrow> since c (tr @ out) = since c tr @ out"
  unfolding since_def by (simp, subst takeWhile_append2) auto

lemma since_accepted [simp]: "since c (tr @ [Accepted c]) = []"
  by (simp add: since_def)

definition sends_to_open :: "io list \<Rightarrow> bool" where
  "sends_to_open tr \<longleftrightarrow> (\<forall>a m b. tr = a @ Sent m # b \<longrightarrow> m_to m \<in> opened a)"

lemma sends_to_open_snoc: "sends_to_open (tr @ [x]) \<longleftrightarrow> sends_to_open tr \<and> (\<forall>m. x = Sent m \<longrightarrow> m_to m \<in> opened tr)"
proof -
  have "sends_to_open tr" if "sends_to_open (tr @ [x])"
    unfolding sends_to_open_def using that [unfolded sends_to_open_def] by (metis append_Cons append_assoc)
  moreover have "m_to m \<in> opened tr" if "sends_to_open (tr @ [x])" "x = Sent m" for m
    using that [unfolded sends_to_open_def] by blast
  moreover have "m_to m \<in> opened a" if "sends_to_open tr" "\<forall>m. x = Sent m \<longrightarrow> m_to m \<in> opened tr" "tr @ [x] = a @ Sent m # b" for a m b
  proof (cases b rule: rev_cases)
    case Nil
    then show ?thesis using that by simp
  next
    case (snoc b' y)
    then have "tr = a @ Sent m # b'" using that(3) by simp
    then show ?thesis using that(1) unfolding sends_to_open_def by blast
  qed
  ultimately show ?thesis unfolding sends_to_open_def [of "tr @ [x]"] by blast
qed

text \<open>Events that open and close nothing.\<close>

definition quiet_io :: "int set \<Rightarrow> io \<Rightarrow> bool" where
  "quiet_io fds x = (case x of Sent m \<Rightarrow> m_to m \<in> fds | Received fd h p \<Rightarrow> True | _ \<Rightarrow> False)"

lemma quiet_opened: "\<forall>x \<in> set out. quiet_io fds x \<Longrightarrow> opened (tr @ out) = opened tr"
proof (induction out rule: rev_induct)
  case (snoc x out)
  then show ?case by (cases x) (simp_all add: opened_def quiet_io_def)
qed simp

lemma quiet_sends:
  assumes "sends_to_open tr" and "\<forall>x \<in> set out. quiet_io (opened tr) x"
  shows "sends_to_open (tr @ out)"
  using assms(2)
proof (induction out rule: rev_induct)
  case Nil
  then show ?case using assms(1) by simp
next
  case (snoc x out)
  have "opened (tr @ out) = opened tr" by (rule quiet_opened [of out "opened tr"]) (use snoc.prems in simp)
  then show ?case using snoc by (auto simp: sends_to_open_snoc quiet_io_def simp flip: append_assoc)
qed

section \<open>The invariant\<close>

definition fds :: "server \<Rightarrow> int list" where
  "fds s = map c_fd (clients s)"

definition owed :: "server \<Rightarrow> int \<Rightarrow> u64 \<Rightarrow> nat" where
  "owed s c r = length (filter (\<lambda>(tid, p). caller_fd p = c \<and> caller_request_id p = r) (pending_transactions s))"

text \<open>The descriptors of the clients are different and not negative; owners of services and both sides of transactions
  are connected, and the owner of a service knows about it.\<close>

definition wf_server :: "server \<Rightarrow> bool" where
  "wf_server s \<longleftrightarrow>
     distinct (fds s) \<and> (\<forall>fd \<in> set (fds s). 0 \<le> fd) \<and>
     distinct (map fst (sv_services s)) \<and> distinct (map fst (pending_transactions s)) \<and>
     (\<forall>n fd. map_of (sv_services s) n = Some fd \<longrightarrow> fd < 0 \<or> (\<exists>c \<in> set (clients s). c_fd c = fd \<and> n \<in> set (owned_services c))) \<and>
     (\<forall>(tid, p) \<in> set (pending_transactions s). caller_fd p \<in> set (fds s) \<and> owner_fd p \<in> set (fds s))"

text \<open>Transaction numbers are given out from 1 on.\<close>

definition ids_ok :: "server \<Rightarrow> io list \<Rightarrow> bool" where
  "ids_ok s tr \<longleftrightarrow> (\<exists>k \<le> transacts tr. next_transaction_id s = of_nat (1 + k) \<and>
     (\<forall>tid \<in> fst ` set (pending_transactions s). \<exists>j \<le> k. tid = of_nat j))"

text \<open>For every connected client: its transactions since it connected are those that were answered and those that are
  pending.\<close>

definition ledger :: "server \<Rightarrow> io list \<Rightarrow> bool" where
  "ledger s tr \<longleftrightarrow> (\<forall>c \<in> set (fds s). \<forall>r. count (is_request c r) (since c tr) = count (is_answer c r) (since c tr) + owed s c r)"

definition good :: "server \<Rightarrow> io list \<Rightarrow> bool" where
  "good s tr \<longleftrightarrow> wf_server s \<and> ids_ok s tr \<and> ledger s tr \<and> set (fds s) = opened tr \<and> sends_to_open tr"

text \<open>A step that keeps the connections.\<close>

lemma good_step:
  assumes g: "good s tr" and wf: "wf_server s'" and ids: "ids_ok s' (tr @ out)" and fds: "set (fds s') = set (fds s)"
    and out: "\<forall>x \<in> set out. quiet_io (set (fds s)) x"
    and led: "\<And>c r. c \<in> set (fds s) \<Longrightarrow> count (is_request c r) out + owed s c r = count (is_answer c r) out + owed s' c r"
  shows "good s' (tr @ out)"
proof -
  have o: "set (fds s) = opened tr" using g by (simp add: good_def)
  have "Accepted c \<notin> set out" for c using out by (auto simp: quiet_io_def)
  then have "ledger s' (tr @ out)"
    using g led unfolding ledger_def good_def fds by (simp add: since_append) (metis (no_types, opaque_lifting) add.assoc add.commute)
  moreover have "opened (tr @ out) = opened tr" "sends_to_open (tr @ out)"
    using quiet_opened [OF out] quiet_sends out o g by (simp_all add: good_def)
  ultimately show ?thesis using wf ids fds o by (simp add: good_def)
qed

text \<open>What the invariant looks at.\<close>

definition core :: "server \<Rightarrow> services \<times> (u64 \<times> pending_transaction) list \<times> u64 \<times> (int \<times> string list) list" where
  "core s = (sv_services s, pending_transactions s, next_transaction_id s, map (\<lambda>c. (c_fd c, owned_services c)) (clients s))"

lemma core_same:
  assumes "core s' = core s"
  shows "sv_services s' = sv_services s" "pending_transactions s' = pending_transactions s" "next_transaction_id s' = next_transaction_id s"
    "fds s' = fds s" "owed s' = owed s" "wf_server s' = wf_server s" "ids_ok s' tr = ids_ok s tr"
proof -
  show e: "sv_services s' = sv_services s" "pending_transactions s' = pending_transactions s" "next_transaction_id s' = next_transaction_id s"
    using assms by (simp_all add: core_def)
  have m: "map (\<lambda>c. (c_fd c, owned_services c)) (clients s') = map (\<lambda>c. (c_fd c, owned_services c)) (clients s)" using assms by (simp add: core_def)
  show f: "fds s' = fds s" using arg_cong [OF m, of "map fst"] by (simp add: fds_def o_def)
  show "owed s' = owed s" by (intro ext) (simp add: owed_def e)
  show "ids_ok s' tr = ids_ok s tr" by (simp add: ids_ok_def e)
  have "(\<exists>c \<in> set (clients s). c_fd c = fd \<and> n \<in> set (owned_services c)) \<longleftrightarrow>
    (\<exists>(f, ns) \<in> set (map (\<lambda>c. (c_fd c, owned_services c)) (clients s)). f = fd \<and> n \<in> set ns)" for s :: server and fd n by auto
  then show "wf_server s' = wf_server s" unfolding wf_server_def e f by (simp only: m)
qed

section \<open>Handling a message\<close>

lemma core_set_client:
  "(\<And>c. c_fd (f c) = c_fd c) \<Longrightarrow> (\<And>c. owned_services (f c) = owned_services c) \<Longrightarrow> core (set_client i f s) = core s"
  by (cases "i < length (clients s)") (simp_all add: core_def set_client_def map_update list_update_same_conv list_update_beyond not_less)

definition harmless :: "server \<Rightarrow> server \<times> io list \<Rightarrow> bool" where
  "harmless s res \<longleftrightarrow> core (fst res) = core s \<and>
     (\<forall>x \<in> set (snd res). \<exists>m. x = Sent m \<and> m_to m \<in> set (fds s) \<and> m_opcode m \<noteq> BinderTransact)"

lemma harmless_answer:
  "i < length (clients s) \<Longrightarrow> core s' = core s \<Longrightarrow> oc \<noteq> BinderTransact \<Longrightarrow> harmless s (s', [reply (clients s ! i) h oc t])"
  by (simp add: harmless_def reply_def fds_def)

lemma harmless_push:
  assumes "i < length (clients s)" and "core s' = core s" and "oc \<noteq> BinderTransact" and "oc' \<noteq> BinderTransact"
  shows "harmless s (s', reply (clients s ! i) h oc t # map (push oc' t') (filter P (clients s)))"
  using assms by (auto simp: harmless_def reply_def push_def fds_def)

lemma core_upd [simp]:
  "core (s\<lparr>sv_surfaces := a\<rparr>) = core s" "core (s\<lparr>surface_generation := b\<rparr>) = core s" "core (s\<lparr>sv_device := c\<rparr>) = core s"
  "core (s\<lparr>sv_input := d\<rparr>) = core s" "core (s\<lparr>sv_tab := e\<rparr>) = core s" "core (s\<lparr>sv_settings := f\<rparr>) = core s"
  by (simp_all add: core_def)

lemma handle_message_harmless:
  assumes i: "i < length (clients s)"
    and oc: "opcode_of (h_opcode h) \<notin> {Some BinderTransact, Some BinderReply, Some RegisterService}"
  shows "harmless s (handle_message e i h payload s)"
proof (cases "opcode_of (h_opcode h)")
  case None
  then show ?thesis by (simp add: handle_message_def harmless_def Let_def)
next
  case (Some c)
  note d = handle_message_def Some Let_def
  show ?thesis
  proof (cases c)
    case PutSetting
    then show ?thesis using i by (simp add: d put_setting_def harmless_answer)
  next
    case SetPermission
    then show ?thesis using i by (simp add: d set_permission_def harmless_answer)
  next
    case QueryUsers
    then show ?thesis using i by (simp add: d harmless_answer split: option.split)
  next
    case ApplySurfaceTransaction
    then show ?thesis using i by (simp add: d harmless_answer split: prod.split bool.split)
  next
    case DeviceAction
    then show ?thesis using i by (simp add: d harmless_answer harmless_push split: prod.split bool.split)
  next
    case DeviceInput
    then show ?thesis using i by (simp add: d harmless_answer harmless_push split: prod.split bool.split)
  next
    case TabFinished
    then show ?thesis using i by (simp add: d harmless_answer split: prod.split bool.split)
  qed (use i oc Some in \<open>simp_all add: d harmless_answer core_set_client\<close>,
       simp_all add: harmless_def)
qed


lemma wf_dest:
  assumes "wf_server s"
  shows "distinct (fds s)" "fd \<in> set (fds s) \<Longrightarrow> 0 \<le> fd" "distinct (map fst (sv_services s))" "distinct (map fst (pending_transactions s))"
    "map_of (sv_services s) n = Some fd \<Longrightarrow> 0 \<le> fd \<Longrightarrow> fd \<in> set (fds s)"
    "(tid, p) \<in> set (pending_transactions s) \<Longrightarrow> caller_fd p \<in> set (fds s) \<and> owner_fd p \<in> set (fds s)"
  using assms unfolding wf_server_def by (auto simp: fds_def) force+

text \<open>The invariant when only the transactions change.\<close>

lemma wf_pending:
  assumes "wf_server s" and "distinct (map fst ps)"
    and "\<And>tid p. (tid, p) \<in> set ps \<Longrightarrow> caller_fd p \<in> set (fds s) \<and> owner_fd p \<in> set (fds s)"
  shows "wf_server (s\<lparr>next_transaction_id := k, pending_transactions := ps\<rparr>)" "wf_server (s\<lparr>pending_transactions := ps\<rparr>)"
  using assms by (auto simp: wf_server_def fds_def)

lemma fresh_id:
  assumes "ids_ok s tr" and "transacts tr + 1 < 2 ^ 64"
  shows "next_transaction_id s \<notin> fst ` set (pending_transactions s)"
proof
  assume "next_transaction_id s \<in> fst ` set (pending_transactions s)"
  then obtain k j where k: "k \<le> transacts tr" "next_transaction_id s = of_nat (1 + k)" "j \<le> k" "next_transaction_id s = of_nat j"
    using assms(1) unfolding ids_ok_def by blast
  have u: "unat (of_nat n :: u64) = n" if "n < 2 ^ 64" for n using that by (simp add: unsigned_of_nat take_bit_nat_eq_self)
  have "unat (of_nat (1 + k) :: u64) = 1 + k" by (rule u) (use k assms(2) in simp)
  moreover have "unat (of_nat j :: u64) = j" by (rule u) (use k assms(2) in simp)
  ultimately show False using k by simp
qed

text \<open>Counting in a received transaction and what follows it.\<close>

lemma transacts_received:
  assumes "opcode_of (h_opcode h) = Some BinderTransact" and "\<forall>x \<in> set out. is_sent x"
  shows "transacts (tr @ Received fd h payload # out) = Suc (transacts tr)"
proof -
  have "transacts out = 0" using assms(2) by (auto simp: transacts_def count_def is_sent_def filter_empty_conv)
  then show ?thesis using assms(1) by (simp add: transacts_def)
qed

lemma ids_ok_advance:
  assumes "ids_ok s tr" and "transacts tr' = Suc (transacts tr)" and "fst ` set ps \<subseteq> insert (next_transaction_id s) (fst ` set (pending_transactions s))"
  shows "ids_ok (s\<lparr>next_transaction_id := next_transaction_id s + 1, pending_transactions := ps\<rparr>) tr'"
proof -
  obtain k where k: "k \<le> transacts tr" "next_transaction_id s = of_nat (1 + k)" "\<forall>tid \<in> fst ` set (pending_transactions s). \<exists>j \<le> k. tid = of_nat j"
    using assms(1) unfolding ids_ok_def by blast
  have "\<exists>j \<le> Suc k. tid = of_nat j" if "tid \<in> fst ` set ps" for tid
  proof (cases "tid = next_transaction_id s")
    case True
    then show ?thesis using k(2) by (intro exI [of _ "Suc k"]) simp
  next
    case False
    then show ?thesis using that assms(3) k(3) le_SucI by blast
  qed
  then show ?thesis unfolding ids_ok_def assms(2) using k(1,2) by (intro exI [of _ "Suc k"]) simp
qed

lemma ids_ok_same: "ids_ok s tr \<Longrightarrow> transacts tr \<le> transacts tr' \<Longrightarrow> ids_ok s tr'"
  unfolding ids_ok_def by (meson order_trans)

text \<open>A transaction that is answered at once, whatever has been sent to the owner.\<close>

lemma good_dead:
  assumes g: "good s tr" and cf: "c_fd c \<in> set (fds s)" and h: "opcode_of (h_opcode h) = Some BinderTransact"
    and wf: "wf_server s'" and ids: "ids_ok s' (tr @ Received (c_fd c) h payload # out)" and f: "fds s' = fds s" and o: "owed s' = owed s"
    and out: "out = pre @ [reply c h BinderTransact text']"
    and pre: "\<forall>x \<in> set pre. \<exists>m. x = Sent m \<and> m_to m \<in> set (fds s) \<and> m_opcode m \<noteq> BinderTransact"
  shows "good s' (tr @ Received (c_fd c) h payload # out)"
proof (rule good_step [OF g wf ids])
  have z: "count (is_request b r) pre = 0" "count (is_answer b r) pre = 0" for b r
    using pre by (fastforce simp: count_def filter_empty_conv is_request_def is_answer_def)+
  show "count (is_request b r) (Received (c_fd c) h payload # out) + owed s b r = count (is_answer b r) (Received (c_fd c) h payload # out) + owed s' b r"
    if "b \<in> set (fds s)" for b r
    using h by (simp add: out z o is_request_def is_answer_def reply_def)
  show "\<forall>x \<in> set (Received (c_fd c) h payload # out). quiet_io (set (fds s)) x"
    using pre cf by (auto simp: out quiet_io_def reply_def)
qed (simp add: f)

lemma good_transact:
  assumes g: "good s tr" and c: "c \<in> set (clients s)" and h: "opcode_of (h_opcode h) = Some BinderTransact"
    and b: "binder_transact e c h payload s = (s', out)" and n: "transacts tr + 1 < 2 ^ 64"
  shows "good s' (tr @ Received (c_fd c) h payload # out) \<and> clients s' = clients s"
proof -
  have wf: "wf_server s" and ids: "ids_ok s tr" using g by (simp_all add: good_def)
  have cf: "c_fd c \<in> set (fds s)" using c by (simp add: fds_def)
  let ?dead = "reply c h BinderTransact ''DEAD_OBJECT''"
  have now: ?thesis if "s' = s" "out = [?dead]"
  proof -
    have "transacts (tr @ Received (c_fd c) h payload # out) = Suc (transacts tr)"
      by (rule transacts_received [OF h]) (simp add: that is_sent_def reply_def)
    then have "ids_ok s' (tr @ Received (c_fd c) h payload # out)" unfolding that(1) by (intro ids_ok_same [OF ids]) simp
    then show ?thesis using good_dead [OF g cf h, of s' payload out "[]"] that wf by simp
  qed
  show ?thesis
  proof (cases "map_of (sv_services s) (before payload)")
    case None
    then show ?thesis using b by (intro now) (simp_all add: binder_transact_def Let_def)
  next
    case (Some owner)
    show ?thesis
    proof (cases "separators payload = 0 \<or> owner < 0")
      case True
      then show ?thesis using b Some by (intro now) (simp_all add: binder_transact_def Let_def)
    next
      case False
      then have of: "owner \<in> set (fds s)" using wf_dest(5) [OF wf Some] by simp
      let ?id = "next_transaction_id s" let ?p = "\<lparr>caller_fd = c_fd c, owner_fd = owner, caller_request_id = h_request_id h\<rparr>"
      let ?out = "Sent \<lparr>m_to = owner, m_opcode = BinderIncoming, m_request_id = ?id, m_payload = after payload, m_reply = False\<rparr>"
      let ?ps = "pending_transactions s" let ?fw = "\<lambda>ps. s\<lparr>next_transaction_id := ?id + 1, pending_transactions := ps\<rparr>"
      have fresh: "?id \<notin> fst ` set ?ps" by (rule fresh_id [OF ids n])
      have up: "AList.update ?id ?p ?ps = ?ps @ [(?id, ?p)]" by (rule update_fresh [OF fresh])
      have del: "AList.delete ?id (?ps @ [(?id, ?p)]) = ?ps" using fresh by (simp add: AList.delete_eq filter_id_conv) force
      show ?thesis
      proof (cases "send_ok e owner")
        case True
        then have r: "s' = ?fw (?ps @ [(?id, ?p)])" "out = [?out]" using b Some False by (simp_all add: binder_transact_def Let_def up)
        have wf': "wf_server s'" unfolding r(1)
          by (rule wf_pending(1) [OF wf]) (use wf_dest(4,6) [OF wf] fresh cf of in auto)
        have "ids_ok s' (tr @ Received (c_fd c) h payload # out)" unfolding r
          by (rule ids_ok_advance [OF ids transacts_received [OF h]]) (auto simp: is_sent_def)
        then have "good s' (tr @ Received (c_fd c) h payload # out)"
          by (rule good_step [OF g wf']) (use of h in \<open>simp_all add: r fds_def quiet_io_def is_request_def is_answer_def owed_def\<close>)
        then show ?thesis by (simp add: r)
      next
        case no: False
        then have r: "s' = ?fw ?ps" "out = [?out] @ [?dead]" using b Some False by (auto simp: binder_transact_def Let_def up del)
        have wf': "wf_server s'" unfolding r(1)
          by (rule wf_pending(1) [OF wf]) (use wf_dest(4,6) [OF wf] in auto)
        have "ids_ok s' (tr @ Received (c_fd c) h payload # out)" unfolding r
          by (rule ids_ok_advance [OF ids transacts_received [OF h]]) (auto simp: is_sent_def reply_def)
        moreover have "owed s' = owed s" by (intro ext) (simp add: owed_def r)
        ultimately show ?thesis using good_dead [OF g cf h wf' _ _ _ r(2)] of by (simp add: r fds_def)
      qed
    qed
  qed
qed


lemma harmless_good:
  assumes g: "good s tr" and hm: "harmless s (s', out)" and cf: "fd \<in> set (fds s)" and h: "opcode_of (h_opcode h) \<noteq> Some BinderTransact"
  shows "good s' (tr @ Received fd h payload # out) \<and> length (clients s') = length (clients s)"
proof
  have core: "core s' = core s" and out: "\<forall>x \<in> set out. \<exists>m. x = Sent m \<and> m_to m \<in> set (fds s) \<and> m_opcode m \<noteq> BinderTransact"
    using hm by (simp_all add: harmless_def)
  note c = core_same [OF core]
  have z: "count (is_request b r) out = 0" "count (is_answer b r) out = 0" for b r
    using out by (fastforce simp: count_def filter_empty_conv is_request_def is_answer_def)+
  show "good s' (tr @ Received fd h payload # out)"
  proof (rule good_step [OF g])
    show "wf_server s'" "ids_ok s' (tr @ Received fd h payload # out)" "set (fds s') = set (fds s)"
      using g c by (auto simp: good_def intro: ids_ok_same simp: transacts_def)
    show "\<forall>x \<in> set (Received fd h payload # out). quiet_io (set (fds s)) x" using out by (auto simp: quiet_io_def)
    show "count (is_request b r) (Received fd h payload # out) + owed s b r = count (is_answer b r) (Received fd h payload # out) + owed s' b r" for b r
      using h by (simp add: z c is_request_def is_answer_def)
  qed
  show "length (clients s') = length (clients s)" using arg_cong [OF c(4), of length] by (simp add: fds_def)
qed

lemma good_reply:
  assumes g: "good s tr" and cf: "fd \<in> set (fds s)" and h: "opcode_of (h_opcode h) = Some BinderReply"
    and b: "binder_reply c h payload s = (s', out)"
  shows "good s' (tr @ Received fd h payload # out) \<and> clients s' = clients s"
proof -
  have wf: "wf_server s" and ids: "ids_ok s tr" using g by (simp_all add: good_def)
  have none: ?thesis if "s' = s" "out = []"
    using harmless_good [OF g _ cf, of s' out h payload] that h by (simp add: harmless_def)
  show ?thesis
  proof (cases "map_of (pending_transactions s) (h_request_id h)")
    case None
    then show ?thesis using b by (intro none) (simp_all add: binder_reply_def)
  next
    case (Some p)
    show ?thesis
    proof (cases "owner_fd p = c_fd c")
      case False
      then show ?thesis using b Some by (intro none) (simp_all add: binder_reply_def)
    next
      case True
      let ?ps = "AList.delete (h_request_id h) (pending_transactions s)"
      have r: "s' = s\<lparr>pending_transactions := ?ps\<rparr>"
        "out = [Sent \<lparr>m_to = caller_fd p, m_opcode = BinderTransact, m_request_id = caller_request_id p, m_payload = payload, m_reply = True\<rparr>]"
        using b Some True by (auto simp: binder_reply_def)
      have sub: "set ?ps \<subseteq> set (pending_transactions s)" by (auto simp: AList.delete_eq)
      have wf': "wf_server s'" unfolding r(1)
        by (rule wf_pending(2) [OF wf]) (use wf_dest(4,6) [OF wf] sub in \<open>auto simp: AList.distinct_delete\<close>)
      have "ids_ok s' tr" using ids sub unfolding ids_ok_def r(1) by (auto 4 4)
      then have ids': "ids_ok s' (tr @ Received fd h payload # out)" by (rule ids_ok_same) (simp add: transacts_def)
      have caller: "caller_fd p \<in> set (fds s)" using wf_dest(6) [OF wf map_of_SomeD [OF Some]] by simp
      have led: "owed s b q = owed s' b q + (if caller_fd p = b \<and> caller_request_id p = q then 1 else 0)" for b q
        using count_delete [OF wf_dest(4) [OF wf] Some, of "\<lambda>(tid, p). caller_fd p = b \<and> caller_request_id p = q"] by (simp add: owed_def r(1))
      have "good s' (tr @ Received fd h payload # out)"
        by (rule good_step [OF g wf' ids']) (use h caller led in \<open>simp_all add: r fds_def quiet_io_def is_request_def is_answer_def\<close>)
      then show ?thesis by (simp add: r(1))
    qed
  qed
qed

lemma ids_ok_sub:
  assumes "ids_ok s tr" and "next_transaction_id s' = next_transaction_id s" and "set (pending_transactions s') \<subseteq> set (pending_transactions s)"
  shows "ids_ok s' tr"
proof -
  obtain k where k: "k \<le> transacts tr" "next_transaction_id s = of_nat (1 + k)" "\<forall>tid \<in> fst ` set (pending_transactions s). \<exists>j \<le> k. tid = of_nat j"
    using assms(1) unfolding ids_ok_def by blast
  have "\<forall>tid \<in> fst ` set (pending_transactions s'). \<exists>j \<le> k. tid = of_nat j" using k(3) image_mono [OF assms(3), of fst] by blast
  then show ?thesis unfolding ids_ok_def using k assms(2) by (intro exI [of _ k]) simp
qed

lemma good_register:
  assumes g: "good s tr" and i: "i < length (clients s)" and h: "opcode_of (h_opcode h) = Some RegisterService"
    and r: "register_service i name s = (ok, s')"
  shows "good s' (tr @ [Received (c_fd (clients s ! i)) h payload, reply (clients s ! i) h RegisterService t]) \<and> length (clients s') = length (clients s)"
proof -
  let ?c = "clients s ! i"
  have wf: "wf_server s" and ids: "ids_ok s tr" using g by (simp_all add: good_def)
  have cf: "c_fd ?c \<in> set (fds s)" using i by (simp add: fds_def)
  have len: "length (clients s') = length (clients s)" and f: "fds s' = fds s" and ps: "pending_transactions s' = pending_transactions s"
    and nx: "next_transaction_id s' = next_transaction_id s"
    using r i by (auto simp: register_service_def set_client_def fds_def map_update list_update_same_conv split: if_splits)
  have wf': "wf_server s'"
  proof (cases ok)
    case False
    then show ?thesis using r wf by (auto simp: register_service_def split: if_splits)
  next
    case True
    then have s': "s' = set_client i (\<lambda>c. c\<lparr>owned_services := List.insert name (owned_services c)\<rparr>) (s\<lparr>sv_services := AList.update name (c_fd ?c) (sv_services s)\<rparr>)"
      using r by (auto simp: register_service_def split: if_splits)
    have cl: "clients s' = (clients s)[i := ?c\<lparr>owned_services := List.insert name (owned_services ?c)\<rparr>]" and sv: "sv_services s' = AList.update name (c_fd ?c) (sv_services s)"
      by (simp_all add: s' set_client_def)
    have own: "\<exists>c \<in> set (clients s'). c_fd c = fd \<and> n \<in> set (owned_services c)" if m: "map_of (sv_services s') n = Some fd" "\<not> fd < 0" for n fd
    proof (cases "n = name")
      case True
      then have "fd = c_fd ?c" using that by (simp add: sv AList.update_conv')
      then show ?thesis using True i unfolding cl by (intro bexI [of _ "?c\<lparr>owned_services := List.insert name (owned_services ?c)\<rparr>"]) (simp_all add: set_update_memI)
    next
      case False
      then have "map_of (sv_services s) n = Some fd" using that by (simp add: sv AList.update_conv')
      then obtain c where c: "c \<in> set (clients s)" "c_fd c = fd" "n \<in> set (owned_services c)" using wf m(2) unfolding wf_server_def by blast
      then obtain j where j: "j < length (clients s)" "clients s ! j = c" by (meson in_set_conv_nth)
      let ?cs = "(clients s)[i := ?c\<lparr>owned_services := List.insert name (owned_services ?c)\<rparr>]"
      have "?cs ! j \<in> set ?cs" by (rule nth_mem) (use j in simp)
      moreover have "c_fd (?cs ! j) = fd \<and> n \<in> set (owned_services (?cs ! j))" using c j i by (simp add: nth_list_update)
      ultimately show ?thesis unfolding cl by blast
    qed
    show ?thesis unfolding wf_server_def f ps
      using wf own unfolding wf_server_def sv by (auto simp: AList.distinct_update)
  qed
  have "good s' (tr @ [Received (c_fd ?c) h payload, reply ?c h RegisterService t])"
  proof (rule good_step [OF g wf'])
    show "ids_ok s' (tr @ [Received (c_fd ?c) h payload, reply ?c h RegisterService t])"
      using ids h by (auto intro!: ids_ok_same [of s' tr] simp: ids_ok_def ps nx transacts_def reply_def)
  qed (use h cf in \<open>simp_all add: f quiet_io_def reply_def is_request_def is_answer_def owed_def ps\<close>)
  then show ?thesis using len by simp
qed

section \<open>Clients that leave\<close>

lemma drop_transactions_eq:
  "drop_transactions fd ps = (filter (\<lambda>(tid, p). owner_fd p \<noteq> fd \<and> caller_fd p \<noteq> fd) ps,
     map (\<lambda>(tid, p). Sent \<lparr>m_to = caller_fd p, m_opcode = BinderTransact, m_request_id = caller_request_id p, m_payload = ''DEAD_OBJECT'', m_reply = True\<rparr>)
       (filter (\<lambda>(tid, p). owner_fd p = fd) ps))"
  by (induction fd ps rule: drop_transactions.induct) auto

lemma release_services:
  "map_of (fold (release_service fd) ns sv) = (\<lambda>n. if n \<in> set ns \<and> map_of sv n = Some fd then None else map_of sv n)"
  "distinct (map fst sv) \<Longrightarrow> distinct (map fst (fold (release_service fd) ns sv))"
proof (induction ns arbitrary: sv)
  case (Cons n ns)
  case 1
  show ?case using Cons(1) [of "release_service fd n sv"] by (auto simp: release_service_def AList.delete_conv' fun_eq_iff)
next
  case (Cons n ns)
  case 2
  show ?case using Cons(2) [of "release_service fd n sv"] 2 by (simp add: release_service_def AList.distinct_delete)
qed simp_all

lemma dead_counts:
  "count (is_answer c q) (map (\<lambda>(tid, p). Sent \<lparr>m_to = caller_fd p, m_opcode = BinderTransact, m_request_id = caller_request_id p, m_payload = t, m_reply = True\<rparr>)
       (filter (\<lambda>(tid, p). owner_fd p = fd) ps)) =
   length (filter (\<lambda>(tid, p). owner_fd p = fd \<and> caller_fd p = c \<and> caller_request_id p = q) ps)"
  by (induction ps) (auto simp: is_answer_def)

lemma split_counts:
  "length (filter (\<lambda>(tid, p). caller_fd p = c \<and> caller_request_id p = q) ps) =
   length (filter (\<lambda>(tid, p). owner_fd p = fd \<and> caller_fd p = c \<and> caller_request_id p = q) ps) +
   length (filter (\<lambda>(tid, p). owner_fd p \<noteq> fd \<and> caller_fd p = c \<and> caller_request_id p = q) ps)"
  by (induction ps) auto

lemma good_remove:
  assumes g: "good s tr" and i: "i < length (clients s)" and r: "remove_client i s = (s', out)"
  shows "good s' (tr @ out) \<and> length (clients s') = length (clients s) - 1"
proof -
  let ?fd = "c_fd (clients s ! i)"
  let ?dead = "map (\<lambda>(tid, p). Sent \<lparr>m_to = caller_fd p, m_opcode = BinderTransact, m_request_id = caller_request_id p, m_payload = ''DEAD_OBJECT'', m_reply = True\<rparr>)
       (filter (\<lambda>(tid, p). owner_fd p = ?fd) (pending_transactions s))"
  let ?ps = "filter (\<lambda>(tid, p). owner_fd p \<noteq> ?fd \<and> caller_fd p \<noteq> ?fd) (pending_transactions s)"
  have wf: "wf_server s" and ids: "ids_ok s tr" and led: "ledger s tr" and op: "set (fds s) = opened tr" and so: "sends_to_open tr"
    using g by (simp_all add: good_def)
  have s': "s' = s\<lparr>pending_transactions := ?ps, sv_services := fold (release_service ?fd) (owned_services (clients s ! i)) (sv_services s),
      clients := take i (clients s) @ drop (Suc i) (clients s)\<rparr>" "out = ?dead @ [Closed ?fd]"
    using r by (auto simp: remove_client_def drop_transactions_eq Let_def)
  have cl: "clients s = take i (clients s) @ clients s ! i # drop (Suc i) (clients s)" by (rule id_take_nth_drop [OF i])
  have f: "fds s = map c_fd (take i (clients s)) @ ?fd # map c_fd (drop (Suc i) (clients s))" unfolding fds_def by (subst cl) simp
  have f': "fds s' = map c_fd (take i (clients s)) @ map c_fd (drop (Suc i) (clients s))" by (simp add: s' fds_def)
  have set': "set (fds s') = set (fds s) - {?fd}" and d': "distinct (fds s')" using wf_dest(1) [OF wf] unfolding f f' by auto
  have quiet: "\<forall>x \<in> set ?dead. quiet_io (opened tr) x" using wf_dest(6) [OF wf] by (auto simp: quiet_io_def op [symmetric])
  have opd: "opened (tr @ ?dead) = opened tr" by (rule quiet_opened [OF quiet])
  have "sends_to_open (tr @ out)" using quiet_sends [OF so quiet] by (simp add: s'(2) sends_to_open_snoc flip: append_assoc)
  moreover have "set (fds s') = opened (tr @ out)" by (simp add: s'(2) set' opd op flip: append_assoc)
  moreover have "wf_server s'"
  proof -
    have own: "\<exists>c \<in> set (clients s'). c_fd c = fd \<and> n \<in> set (owned_services c)" if m: "map_of (sv_services s') n = Some fd" "\<not> fd < 0" for n fd
    proof -
      have m': "map_of (sv_services s) n = Some fd" "\<not> (n \<in> set (owned_services (clients s ! i)) \<and> fd = ?fd)"
        using m(1) by (auto simp: s' release_services(1) split: if_splits)
      then obtain c where c: "c \<in> set (clients s)" "c_fd c = fd" "n \<in> set (owned_services c)" using wf m(2) unfolding wf_server_def by blast
      then have "c \<noteq> clients s ! i" using m'(2) by auto
      then have "c \<in> set (clients s')" using c(1) by (subst (asm) cl) (auto simp: s')
      then show ?thesis using c by blast
    qed
    have "distinct (map fst ?ps)" using wf_dest(4) [OF wf] by (rule distinct_map_filter)
    moreover have "distinct (map fst (sv_services s'))" by (simp add: s' release_services(2) wf_dest(3) [OF wf])
    moreover have "\<forall>(tid, p) \<in> set ?ps. caller_fd p \<in> set (fds s') \<and> owner_fd p \<in> set (fds s')"
      using wf_dest(6) [OF wf] unfolding set' by auto
    ultimately show ?thesis using own d' wf_dest(2) [OF wf] unfolding wf_server_def set' by (auto simp: s')
  qed
  moreover have "ids_ok s' (tr @ out)"
  proof -
    have "ids_ok s' tr" by (rule ids_ok_sub [OF ids]) (auto simp: s'(1))
    then show ?thesis by (rule ids_ok_same) (simp add: transacts_def)
  qed
  moreover have "ledger s' (tr @ out)" unfolding ledger_def
  proof (intro ballI allI)
    fix c q
    assume "c \<in> set (fds s')"
    then have c: "c \<in> set (fds s)" "c \<noteq> ?fd" using set' by auto
    let ?Q = "\<lambda>(tid, p). caller_fd p = c \<and> caller_request_id p = q"
    have "count (is_answer c q) out = length (filter (\<lambda>(tid, p). owner_fd p = ?fd \<and> caller_fd p = c \<and> caller_request_id p = q) (pending_transactions s))"
      unfolding s'(2) by (simp add: dead_counts) (simp add: is_answer_def)
    moreover have "owed s' c q = length (filter (\<lambda>(tid, p). owner_fd p \<noteq> ?fd \<and> caller_fd p = c \<and> caller_request_id p = q) (pending_transactions s))"
      using c(2) by (auto simp: owed_def s'(1) case_prod_beta intro!: arg_cong [of _ _ length] filter_cong)
    moreover have "owed s c q = length (filter (\<lambda>(tid, p). owner_fd p = ?fd \<and> caller_fd p = c \<and> caller_request_id p = q) (pending_transactions s)) +
       length (filter (\<lambda>(tid, p). owner_fd p \<noteq> ?fd \<and> caller_fd p = c \<and> caller_request_id p = q) (pending_transactions s))"
      unfolding owed_def by (rule split_counts)
    moreover have "count (is_request c q) out = 0" by (auto simp: s'(2) count_def filter_empty_conv is_request_def)
    moreover have "Accepted c \<notin> set out" by (auto simp: s'(2))
    ultimately show "count (is_request c q) (since c (tr @ out)) = count (is_answer c q) (since c (tr @ out)) + owed s' c q"
      using led c(1) by (simp add: since_append ledger_def)
  qed
  ultimately show ?thesis using i by (simp add: good_def) (simp add: s')
qed

section \<open>Rounds\<close>

lemma good_serve:
  assumes g: "good s tr" and i: "i < length (clients s)" and r: "serve_client ev i s = (s', out)" and n: "transacts (tr @ out) < 2 ^ 64"
  shows "good s' (tr @ out) \<and> i \<le> length (clients s')"
proof -
  have remove: ?thesis if "remove_client i s = (s', out)" using good_remove [OF g i that] i by simp
  have cf: "c_fd (clients s ! i) \<in> set (fds s)" using i by (simp add: fds_def)
  show ?thesis
  proof (cases ev)
    case (Readable bytes e)
    show ?thesis
    proof (cases "receive_message bytes")
      case None
      then show ?thesis using r Readable by (intro remove) (simp add: serve_client_def)
    next
      case (Some m)
      obtain h payload where m: "m = (h, payload)" by (cases m)
      obtain out' where hm: "handle_message e i h payload s = (s', out')" and out: "out = Received (c_fd (clients s ! i)) h payload # out'"
        using r Readable Some m by (auto simp: serve_client_def split: prod.splits)
      consider "opcode_of (h_opcode h) = Some BinderTransact" | "opcode_of (h_opcode h) = Some BinderReply"
        | "opcode_of (h_opcode h) = Some RegisterService"
        | "opcode_of (h_opcode h) \<notin> {Some BinderTransact, Some BinderReply, Some RegisterService}" by blast
      then show ?thesis
      proof cases
        case 1
        then have "binder_transact e (clients s ! i) h payload s = (s', out')" using hm by (simp add: handle_message_def Let_def)
        moreover have "transacts tr + 1 < 2 ^ 64" using n 1 by (simp add: out transacts_def)
        ultimately show ?thesis using good_transact [OF g nth_mem [OF i] 1] i by (simp add: out)
      next
        case 2
        then have "binder_reply (clients s ! i) h payload s = (s', out')" using hm by (simp add: handle_message_def Let_def)
        then show ?thesis using good_reply [OF g cf 2] i by (simp add: out)
      next
        case 3
        obtain ok s1 where rs: "register_service i payload s = (ok, s1)" by (cases "register_service i payload s")
        then have "s' = s1" "out' = [reply (clients s ! i) h RegisterService (flag ok)]" using hm 3 by (simp_all add: handle_message_def Let_def)
        then show ?thesis using good_register [OF g i 3 rs, of payload "flag ok"] i by (simp add: out)
      next
        case 4
        then have "harmless s (s', out')" using handle_message_harmless [OF i 4, of e payload] hm by simp
        then show ?thesis using harmless_good [OF g _ cf, of s' out' h payload] 4 i by (simp add: out)
      qed
    qed
  qed (use r g i remove in \<open>auto simp: serve_client_def\<close>)
qed

lemma transacts_append: "transacts (tr @ out) = transacts tr + transacts out"
  by (simp add: transacts_def)

lemma good_serve_clients:
  assumes "good s tr" and "i \<le> length (clients s)" and "serve_clients evs i s = (s', out)" and "transacts (tr @ out) < 2 ^ 64"
  shows "good s' (tr @ out)"
  using assms
proof (induction i arbitrary: s tr s' out)
  case (Suc i)
  obtain s1 o1 where 1: "serve_client (evs i) i s = (s1, o1)" by (cases "serve_client (evs i) i s")
  obtain s2 o2 where 2: "serve_clients evs i s1 = (s2, o2)" by (cases "serve_clients evs i s1")
  have r: "s' = s2" "out = o1 @ o2" using Suc.prems(3) 1 2 by simp_all
  have "good s1 (tr @ o1) \<and> i \<le> length (clients s1)"
    by (rule good_serve [OF Suc.prems(1) _ 1]) (use Suc.prems(2,4) in \<open>simp_all add: r transacts_append\<close>)
  then show ?case using Suc.IH [of s1 "tr @ o1" s2 o2] 2 Suc.prems(4) by (simp add: r)
qed simp

lemma good_accept:
  assumes g: "good s tr" and a: "0 \<le> fd" "fd \<notin> set (fds s)"
  shows "good (accept_client (fd, pid, uid) s) (tr @ [Accepted fd])"
proof -
  let ?s = "accept_client (fd, pid, uid) s"
  have wf: "wf_server s" and led: "ledger s tr" using g by (simp_all add: good_def)
  have f: "fds ?s = fds s @ [fd]" "pending_transactions ?s = pending_transactions s" "next_transaction_id ?s = next_transaction_id s"
    "sv_services ?s = sv_services s" "set (clients s) \<subseteq> set (clients ?s)" by (auto simp: accept_client_def fds_def)
  have own: "\<forall>n d. map_of (sv_services s) n = Some d \<longrightarrow> d < 0 \<or> (\<exists>c \<in> set (clients ?s). c_fd c = d \<and> n \<in> set (owned_services c))"
    using wf f(5) unfolding wf_server_def by blast
  have "wf_server ?s" unfolding wf_server_def f(1-4)
    by (intro conjI own) (use wf_dest(1-4,6) [OF wf] a in auto)
  moreover have "ids_ok ?s (tr @ [Accepted fd])" using g by (simp add: good_def ids_ok_def f transacts_def)
  moreover have "ledger ?s (tr @ [Accepted fd])" unfolding ledger_def f(1)
  proof (intro ballI allI)
    fix c q
    assume c: "c \<in> set (fds s @ [fd])"
    have o: "owed ?s c q = owed s c q" by (simp add: owed_def f)
    show "count (is_request c q) (since c (tr @ [Accepted fd])) = count (is_answer c q) (since c (tr @ [Accepted fd])) + owed ?s c q"
    proof (cases "c = fd")
      case True
      have "owed s fd q = 0" using wf_dest(6) [OF wf] a(2) by (auto simp: owed_def filter_empty_conv)
      then show ?thesis by (simp add: True o [unfolded True])
    next
      case False
      then show ?thesis using led c by (simp add: o ledger_def since_append) (simp add: is_request_def is_answer_def)
    qed
  qed
  moreover have "sends_to_open (tr @ [Accepted fd])" "set (fds ?s) = opened (tr @ [Accepted fd])"
    using g by (auto simp: good_def sends_to_open_snoc f)
  ultimately show ?thesis by (simp add: good_def)
qed

lemma good_registry:
  assumes g: "good s tr" and r: "check_registry stamp s = (s', out)"
  shows "good s' (tr @ out)"
proof (cases "stamp = previous_registry_stamp s")
  case True
  then show ?thesis using g r by (simp add: check_registry_def)
next
  case False
  then have core: "core s' = core s" and out: "out = map (push PackageChanged (show_u64 (package_generation s + 1))) (filter package_subscriber (clients s))"
    using r by (auto simp: check_registry_def Let_def core_def)
  note c = core_same [OF core]
  have z: "count (is_request b q) out = 0" "count (is_answer b q) out = 0" for b q
    by (auto simp: out count_def filter_empty_conv is_request_def is_answer_def push_def)
  show ?thesis
  proof (rule good_step [OF g])
    show "wf_server s'" "ids_ok s' (tr @ out)" using g c by (auto simp: good_def intro: ids_ok_same simp: transacts_def)
    show "\<forall>x \<in> set out. quiet_io (set (fds s)) x" by (auto simp: out quiet_io_def push_def fds_def)
  qed (simp_all add: c z)
qed

text \<open>The system gives a new connection a descriptor that is not in use.\<close>

definition fresh_fd :: "round \<Rightarrow> server \<Rightarrow> bool" where
  "fresh_fd r s \<longleftrightarrow> (case accepted r of None \<Rightarrow> True | Some (fd, pid, uid) \<Rightarrow> 0 \<le> fd \<and> fd \<notin> set (fds s))"

fun fresh_fds :: "round list \<Rightarrow> server \<Rightarrow> bool" where
  "fresh_fds [] s = True"
| "fresh_fds (r # rs) s = (fresh_fd r s \<and> fresh_fds rs (fst (poll_round r s)))"

lemma good_round:
  assumes g: "good s tr" and f: "fresh_fd r s" and r: "poll_round r s = (s', out)" and n: "transacts (tr @ out) < 2 ^ 64"
  shows "good s' (tr @ out)"
proof -
  obtain s1 o1 where 1: "(case accepted r of None \<Rightarrow> (s, []) | Some a \<Rightarrow> (accept_client a s, [Accepted (fst a)])) = (s1, o1)" by force
  obtain s2 o2 where 2: "serve_clients (\<lambda>i. if i < length (clients s) then events r i else Quiet) (length (clients s1)) s1 = (s2, o2)" by force
  obtain s3 o3 where 3: "check_registry (registry_stamp r) s2 = (s3, o3)" by force
  have e: "s' = s3" "out = o1 @ o2 @ o3" using r 1 2 3 by (simp_all add: poll_round_def Let_def)
  have g1: "good s1 (tr @ o1)" using 1 g f good_accept [OF g] by (auto simp: fresh_fd_def split: option.splits)
  have g2: "good s2 ((tr @ o1) @ o2)" by (rule good_serve_clients [OF g1 order_refl 2]) (use n in \<open>simp add: e transacts_append\<close>)
  show ?thesis using good_registry [OF g2 3] by (simp add: e)
qed

lemma good_run:
  assumes "good s tr" and "fresh_fds rs s" and "run_daemon rs s = (s', out)" and "transacts (tr @ out) < 2 ^ 64"
  shows "good s' (tr @ out)"
  using assms
proof (induction rs arbitrary: s tr s' out)
  case (Cons r rs)
  obtain s1 o1 where 1: "poll_round r s = (s1, o1)" by force
  obtain s2 o2 where 2: "run_daemon rs s1 = (s2, o2)" by force
  have e: "s' = s2" "out = o1 @ o2" using Cons.prems(3) 1 2 by simp_all
  have "good s1 (tr @ o1)" by (rule good_round [OF Cons.prems(1) _ 1]) (use Cons.prems(2,4) in \<open>simp_all add: e transacts_append\<close>)
  then show ?case using Cons.IH [of s1 "tr @ o1" s2 o2] Cons.prems(2,4) 1 2 by (simp add: e)
qed simp

lemma good_start: "good (start_daemon file stamp pid) []"
proof -
  let ?s = "start_daemon file stamp pid"
  have s: "sv_services ?s = builtin_services" "pending_transactions ?s = []" "clients ?s = []" "next_transaction_id ?s = 1"
    by (simp_all add: start_daemon_def Let_def)
  have b: "snd ` set builtin_services = {-1}" "distinct (map fst builtin_services)" by (simp_all add: builtin_services_def)
  have "fd < 0" if "map_of builtin_services n = Some fd" for n fd 
  proof -
    have "fd \<in> snd ` set builtin_services" using map_of_SomeD [OF that] by force
    then show ?thesis by (simp add: b(1))
  qed
  then have "wf_server ?s" using b(2) by (auto simp: wf_server_def s fds_def)
  moreover have "ids_ok ?s []" unfolding ids_ok_def by (intro exI [of _ 0]) (simp add: s)
  ultimately show ?thesis by (simp add: good_def ledger_def s fds_def sends_to_open_def)
qed

text \<open>C37: In every run of the daemon from its start the clients it knows are the open connections, each once; every
  service has no owner or an open connection as owner, which knows that it owns the service; both sides of
  every pending transaction are open connections; and every message is sent to a connection that is open
  at that moment. The system does not reuse open descriptors, and there are fewer than \<open>2 ^ 64\<close> transactions.\<close>

theorem daemon_invariant:
  assumes "fresh_fds rs (start_daemon file stamp pid)" and "run_daemon rs (start_daemon file stamp pid) = (s, tr)" and "transacts tr < 2 ^ 64"
  shows "distinct (fds s) \<and> set (fds s) = opened tr \<and> sends_to_open tr \<and>
    (\<forall>n fd. map_of (sv_services s) n = Some fd \<longrightarrow> fd < 0 \<or> (\<exists>c \<in> set (clients s). c_fd c = fd \<and> fd \<in> opened tr \<and> n \<in> set (owned_services c))) \<and>
    (\<forall>(tid, p) \<in> set (pending_transactions s). caller_fd p \<in> opened tr \<and> owner_fd p \<in> opened tr)"
proof -
  have g: "good s ([] @ tr)" by (rule good_run [OF good_start assms(1,2)]) (use assms(3) in simp)
  then have op: "set (fds s) = opened tr" "sends_to_open tr" and wf: "wf_server s" by (simp_all add: good_def)
  have own: "\<forall>n fd. map_of (sv_services s) n = Some fd \<longrightarrow> fd < 0 \<or> (\<exists>c \<in> set (clients s). c_fd c = fd \<and> n \<in> set (owned_services c))"
    using wf unfolding wf_server_def by blast
  have "\<forall>n fd. map_of (sv_services s) n = Some fd \<longrightarrow> fd < 0 \<or> (\<exists>c \<in> set (clients s). c_fd c = fd \<and> fd \<in> opened tr \<and> n \<in> set (owned_services c))"
    using own wf_dest(5) [OF wf] op(1) by (metis linorder_not_less)
  then show ?thesis using op wf_dest(1,6) [OF wf] by auto
qed

text \<open>C36: No transaction is lost, answered twice or answered to somebody else: for every open connection, the requests to
  transact that it has sent with some number are as many as the answers with that number that were sent to it,
  \<^verbatim>\<open>DEAD_OBJECT\<close> included, and those that are still pending with a connected owner. When an owner leaves, its
  pending transactions are answered.\<close>

theorem transactions_answered:
  assumes "fresh_fds rs (start_daemon file stamp pid)" and "run_daemon rs (start_daemon file stamp pid) = (s, tr)" and "transacts tr < 2 ^ 64"
    and "c \<in> opened tr"
  shows "count (is_request c r) (since c tr) = count (is_answer c r) (since c tr) + owed s c r"
proof -
  have "good s ([] @ tr)" by (rule good_run [OF good_start assms(1,2)]) (use assms(3) in simp)
  then show ?thesis using assms(4) by (simp add: good_def ledger_def)
qed

section \<open>A run\<close>

definition demo_daemon_env :: env where
  "demo_daemon_env = \<lparr>e_lib = \<lparr>stof = (\<lambda>s. None), show_float = (\<lambda>f. [])\<rparr>, send_ok = (\<lambda>fd. True), save_ok = True, registry_text = [], fd_size = None, uptime = 0\<rparr>"

definition packet :: "opcode \<Rightarrow> u64 \<Rightarrow> string \<Rightarrow> u8 list" where
  "packet oc rid payload = header_bytes [] (make_header (opcode_number oc) (length payload) rid) @ bytes_of payload"

lemma receive_packet: "length payload \<le> 100 \<Longrightarrow> receive_message (packet oc rid payload) = Some (make_header (opcode_number oc) (length payload) rid, payload)"
  using receive_sent [of payload "[]" "opcode_number oc" rid "[]"] by (simp add: packet_def kMaxPayloadSize_def)

text \<open>Two clients: the first registers a service, the second calls it, the first hangs up without an answer.\<close>

definition demo_rounds :: "round list" where
  "demo_rounds =
     [\<lparr>accepted = Some (4, 100, 1), events = (\<lambda>i. Quiet), registry_stamp = 0\<rparr>,
      \<lparr>accepted = Some (5, 101, 1), events = (\<lambda>i. Readable (packet RegisterService 1 ''svc'') demo_daemon_env), registry_stamp = 0\<rparr>,
      \<lparr>accepted = None, events = (\<lambda>i. if i = 1 then Readable (packet BinderTransact 7 (''svc'' @ [nl, CHR ''x''])) demo_daemon_env else Quiet), registry_stamp = 0\<rparr>,
      \<lparr>accepted = None, events = (\<lambda>i. if i = 0 then Hangup else Quiet), registry_stamp = 0\<rparr>]"

lemma demo_settings: "load_settings [] = []"
  by (simp add: load_settings_def load_pairs.simps read_quoted_def)

lemma demo_run:
  "\<exists>s. run_daemon demo_rounds (start_daemon [] 0 1) = (s,
     [Accepted 4, Accepted 5, Received 4 (make_header (opcode_number RegisterService) 3 1) ''svc'',
      Sent \<lparr>m_to = 4, m_opcode = RegisterService, m_request_id = 1, m_payload = ''1'', m_reply = True\<rparr>,
      Received 5 (make_header (opcode_number BinderTransact) 5 7) (''svc'' @ [nl, CHR ''x'']),
      Sent \<lparr>m_to = 4, m_opcode = BinderIncoming, m_request_id = 1, m_payload = ''x'', m_reply = False\<rparr>,
      Sent \<lparr>m_to = 5, m_opcode = BinderTransact, m_request_id = 7, m_payload = ''DEAD_OBJECT'', m_reply = True\<rparr>, Closed 4]) \<and>
    pending_transactions s = [] \<and> fresh_fds demo_rounds (start_daemon [] 0 1)"
  by (simp add: demo_rounds_def start_daemon_def demo_settings poll_round_def accept_client_def check_registry_def serve_client_def receive_packet
      handle_message_def opcode_number_inj make_header_def register_service_def builtin_services_def binder_transact_def before_def after_def separators_def
      set_client_def reply_def flag_def demo_daemon_env_def remove_client_def release_service_def fresh_fd_def fds_def Let_def numeral_2_eq_2)

theorem daemon_invariant_witness:
  "\<exists>s tr. run_daemon demo_rounds (start_daemon [] 0 1) = (s, tr) \<and> distinct (fds s) \<and> set (fds s) = {5} \<and> sends_to_open tr"
proof -
  obtain s tr where r: "run_daemon demo_rounds (start_daemon [] 0 1) = (s, tr)" "fresh_fds demo_rounds (start_daemon [] 0 1)"
    and tr: "tr = [Accepted 4, Accepted 5, Received 4 (make_header (opcode_number RegisterService) 3 1) ''svc'',
      Sent \<lparr>m_to = 4, m_opcode = RegisterService, m_request_id = 1, m_payload = ''1'', m_reply = True\<rparr>,
      Received 5 (make_header (opcode_number BinderTransact) 5 7) (''svc'' @ [nl, CHR ''x'']),
      Sent \<lparr>m_to = 4, m_opcode = BinderIncoming, m_request_id = 1, m_payload = ''x'', m_reply = False\<rparr>,
      Sent \<lparr>m_to = 5, m_opcode = BinderTransact, m_request_id = 7, m_payload = ''DEAD_OBJECT'', m_reply = True\<rparr>, Closed 4]"
    using demo_run by blast
  have "transacts tr < 2 ^ 64" "opened tr = {5}" by (auto simp: tr transacts_def opened_def)
  then show ?thesis using daemon_invariant [OF r(2,1)] r(1) by (intro exI [of _ s] exI [of _ tr]) simp
qed

theorem transactions_answered_witness:
  "\<exists>s tr. run_daemon demo_rounds (start_daemon [] 0 1) = (s, tr) \<and> count (is_request 5 7) (since 5 tr) = count (is_answer 5 7) (since 5 tr) \<and>
     count (is_request 5 7) (since 5 tr) = 1"
proof -
  obtain s tr where r: "run_daemon demo_rounds (start_daemon [] 0 1) = (s, tr)" "fresh_fds demo_rounds (start_daemon [] 0 1)" "pending_transactions s = []"
    and tr: "tr = [Accepted 4, Accepted 5, Received 4 (make_header (opcode_number RegisterService) 3 1) ''svc'',
      Sent \<lparr>m_to = 4, m_opcode = RegisterService, m_request_id = 1, m_payload = ''1'', m_reply = True\<rparr>,
      Received 5 (make_header (opcode_number BinderTransact) 5 7) (''svc'' @ [nl, CHR ''x'']),
      Sent \<lparr>m_to = 4, m_opcode = BinderIncoming, m_request_id = 1, m_payload = ''x'', m_reply = False\<rparr>,
      Sent \<lparr>m_to = 5, m_opcode = BinderTransact, m_request_id = 7, m_payload = ''DEAD_OBJECT'', m_reply = True\<rparr>, Closed 4]"
    using demo_run by blast
  have n: "transacts tr < 2 ^ 64" "5 \<in> opened tr" by (simp_all add: tr transacts_def opened_def)
  have "owed s 5 7 = 0" by (simp add: owed_def r(3))
  moreover have "count (is_request 5 7) (since 5 tr) = 1" by (simp add: tr since_def is_request_def make_header_def opcode_number_inj)
  ultimately show ?thesis using transactions_answered [OF r(2,1) n, of 7] r(1) by (intro exI [of _ s] exI [of _ tr]) simp
qed


end
