(* ===== verification/Mpd_Policy.thy ===== *)
theory Mpd_Policy
  imports Mpd_Safety
begin

text \<open>
  What clients of the daemon see: the policy of permissions, and what becomes of a declared service when its owner
  leaves.
\<close>

section \<open>Permissions\<close>

lemma split_at_colon:
  "CHR '':'' \<notin> set a \<Longrightarrow> CHR '':'' \<notin> set a' \<Longrightarrow> a @ CHR '':'' # b = a' @ CHR '':'' # b' \<longleftrightarrow> a = a' \<and> b = b'"
proof (induction a arbitrary: a')
  case Nil
  then show ?case by (cases a') auto
next
  case (Cons x a)
  then show ?case by (cases a') auto
qed

lemma permission_key_inj:
  assumes "CHR '':'' \<notin> set package \<union> set user" and "CHR '':'' \<notin> set package' \<union> set user'"
  shows "permission_key package user permission = permission_key package' user' permission' \<longleftrightarrow> (package, user, permission) = (package', user', permission')"
  using assms by (auto simp: permission_key_def split_at_colon)

lemma before_after:
  "nl \<notin> set a \<Longrightarrow> before (a @ nl # b) = a" "nl \<notin> set a \<Longrightarrow> after (a @ nl # b) = b" "nl \<notin> set a \<Longrightarrow> separators (a @ nl # b) = Suc (separators b)"
proof -
  assume a: "nl \<notin> set a"
  then have t: "takeWhile (\<lambda>c. c \<noteq> nl) a = a" by (simp add: takeWhile_eq_all_conv) blast
  show "before (a @ nl # b) = a" using a by (simp add: before_def takeWhile_tail t)
  then show "after (a @ nl # b) = b" by (simp add: after_def)
  have "filter (\<lambda>c. c = nl) a = []" using a by (auto simp: filter_empty_conv)
  then show "separators (a @ nl # b) = Suc (separators b)" by (simp add: separators_def)
qed

lemma check_permission_answer:
  assumes "opcode_of (h_opcode h) = Some CheckPermission" and "nl \<notin> set package" and "nl \<notin> set user"
  shows "handle_message e i h (package @ nl # user @ nl # permission) s =
    (s, [reply (clients s ! i) h CheckPermission (if permission_granted (sv_settings s) package user permission then ''0'' else ''-1'')])"
  using assms by (simp add: handle_message_def Let_def before_after)

text \<open>C38: A permission that was set is what is answered from then on, for exactly the package, user and permission it was set
  for, whether or not the file of settings could be written; all other answers stay what they were. Names of
  packages and users have no colons and line ends.\<close>

theorem permission_policy:
  assumes h: "opcode_of (h_opcode h) = Some SetPermission" and h': "opcode_of (h_opcode h') = Some CheckPermission"
    and "package \<noteq> []" "user \<noteq> []" "permission \<noteq> []" "value \<in> {''grant'', ''deny''}"
    and "nl \<notin> set package \<union> set user \<union> set permission" "CHR '':'' \<notin> set package \<union> set user"
    and "nl \<notin> set package' \<union> set user'" "CHR '':'' \<notin> set package' \<union> set user'"
    and run: "handle_message e i h (package @ nl # user @ nl # permission @ nl # value) s = (s', out)"
  shows "out = [reply (clients s ! i) h SetPermission (flag (save_ok e))] \<and>
    handle_message e' j h' (package' @ nl # user' @ nl # permission') s' =
      (s', [reply (clients s ! j) h' CheckPermission
        (if (if (package', user', permission') = (package, user, permission) then value = ''grant''
             else permission_granted (sv_settings s) package' user' permission') then ''0'' else ''-1'')])"
proof -
  have v: "nl \<notin> set value" using assms(6) by auto
  then have sep: "3 \<le> separators (package @ nl # user @ nl # permission @ nl # value)" using assms(7) by (simp add: before_after)
  have s': "s' = s\<lparr>sv_settings := AList.update (permission_key package user permission) value (sv_settings s)\<rparr>"
    and out: "out = [reply (clients s ! i) h SetPermission (flag (save_ok e))]"
    using run h assms(3-7) sep by (auto simp: handle_message_def set_permission_def Let_def before_after)
  have key: "permission_key package' user' permission' = permission_key package user permission \<longleftrightarrow> (package', user', permission') = (package, user, permission)"
    by (rule permission_key_inj) (use assms(8,10) in auto)
  have "''users'' \<noteq> permission_key package user permission" by (simp add: permission_key_def)
  then have "user_exists (sv_settings s') user' = user_exists (sv_settings s) user'" by (simp add: user_exists_def s' AList.update_conv')
  then have "permission_granted (sv_settings s') package' user' permission' = (if (package', user', permission') = (package, user, permission) then value = ''grant''
             else permission_granted (sv_settings s) package' user' permission')"
    using key by (simp add: permission_granted_def s' AList.update_conv' split: option.split)
  then show ?thesis using check_permission_answer [OF h', of package' user' e' j permission' s'] assms(9) out by (simp add: s')
qed

theorem permission_policy_witness:
  "\<exists>s' out. handle_message demo_daemon_env 0 (make_header (opcode_number SetPermission) 0 1) (''a'' @ nl # ''0'' @ nl # ''android.permission.CAMERA'' @ nl # ''grant'') (start_daemon [] 0 1) = (s', out) \<and>
    snd (handle_message demo_daemon_env 0 (make_header (opcode_number CheckPermission) 0 2) (''a'' @ nl # ''0'' @ nl # ''android.permission.CAMERA'') s') =
      [reply (clients (start_daemon [] 0 1) ! 0) (make_header (opcode_number CheckPermission) 0 2) CheckPermission ''0'']"
proof -
  let ?h = "make_header (opcode_number SetPermission) 0 1" and ?h' = "make_header (opcode_number CheckPermission) 0 2"
  obtain s' out where r: "handle_message demo_daemon_env 0 ?h (''a'' @ nl # ''0'' @ nl # ''android.permission.CAMERA'' @ nl # ''grant'') (start_daemon [] 0 1) = (s', out)" by force
  have "opcode_of (h_opcode ?h) = Some SetPermission" "opcode_of (h_opcode ?h') = Some CheckPermission" by (simp_all add: make_header_def opcode_number_inj)
  then show ?thesis using permission_policy [OF _ _ _ _ _ _ _ _ _ _ r, of ?h' "''a''" "''0''" demo_daemon_env 0 "''android.permission.CAMERA''"] r by auto
qed

section \<open>Declared services\<close>

text \<open>A service of the catalog that a client takes over is gone when the client leaves: it is not declared any more.\<close>

lemma declared_service_lost:
  assumes "wf_server s" and "i < length (clients s)" and "map_of (sv_services s) name = Some (-1)" and "name \<noteq> []"
    and "register_service i name s = (ok, s1)" and "remove_client i s1 = (s2, out)"
  shows "ok \<and> map_of (sv_services s2) name = None"
proof -
  let ?c = "clients s ! i"
  have s1: "ok" "s1 = set_client i (\<lambda>c. c\<lparr>owned_services := List.insert name (owned_services c)\<rparr>) (s\<lparr>sv_services := AList.update name (c_fd ?c) (sv_services s)\<rparr>)"
    using assms(3-5) by (auto simp: register_service_def)
  have c: "clients s1 ! i = ?c\<lparr>owned_services := List.insert name (owned_services ?c)\<rparr>" "map_of (sv_services s1) name = Some (c_fd ?c)"
    using assms(2) by (simp_all add: s1 set_client_def AList.update_conv')
  have "sv_services s2 = fold (release_service (c_fd (clients s1 ! i))) (owned_services (clients s1 ! i)) (sv_services s1)"
    using assms(6) by (auto simp: remove_client_def Let_def split: prod.splits)
  then have "map_of (sv_services s2) name = None" using c by (simp add: release_services(1))
  then show ?thesis using s1(1) by simp
qed

end
