(* ===== verification/Mpd_Client.thy ===== *)
theory Mpd_Client
  imports Mpd_Safety
begin

text \<open>
  The client of the daemon (\<^verbatim>\<open>muplard_client.cpp\<close>), and both together: the bytes that a client sends are a message
  for the daemon's loop, and the bytes that the daemon sends back are the answer.
\<close>

section \<open>Requests\<close>

text \<open>The network: connecting to a path may fail; a connection takes a packet and gives the bytes that come back, or
  fails. \<open>sun_path_size\<close> is the size of the field of the address. Floats are printed with the
  default precision of a stream.\<close>

record client_host =
  connection :: "string \<Rightarrow> (u8 list \<Rightarrow> u8 list option) option"
  sun_path_size :: nat
  ch_padding :: "u8 list"
  stream_float :: "u32 \<Rightarrow> string"

definition client_request :: "client_host \<Rightarrow> string \<Rightarrow> opcode \<Rightarrow> string \<Rightarrow> string option" where
  "client_request n socket_path oc payload =
     (if socket_path = [] \<or> sun_path_size n \<le> length socket_path \<or> kMaxPayloadSize < length payload then None
      else
        case connection n socket_path of None \<Rightarrow> None
        | Some conn \<Rightarrow>
            case conn (header_bytes (ch_padding n) (make_header (opcode_number oc) (length payload) 1) @ bytes_of payload) of
              None \<Rightarrow> None
            | Some bytes \<Rightarrow>
                if length bytes < 24 then None
                else
                  let response = header_of bytes; size = unat (h_payload_size response) in
                  if header_ok response \<and> h_opcode response = (opcode_number oc OR kReplyFlag) \<and> 24 + size \<le> length bytes
                  then Some (chars_of (take size (drop 24 bytes))) else None)"

definition available :: "client_host \<Rightarrow> string \<Rightarrow> bool" where
  "available n path \<longleftrightarrow> client_request n path Ping [] = Some ''pong''"

datatype service_state = Missing | Declared | Owned

definition check_service :: "client_host \<Rightarrow> string \<Rightarrow> string \<Rightarrow> service_state" where
  "check_service n path name =
     (case client_request n path CheckService name of None \<Rightarrow> Missing
      | Some r \<Rightarrow> if r = ''2'' then Owned else if r = ''1'' then Declared else Missing)"

definition transact :: "client_host \<Rightarrow> string \<Rightarrow> string \<Rightarrow> string \<Rightarrow> string option" where
  "transact n path service request =
     (case client_request n path BinderTransact (service @ nl # request) of None \<Rightarrow> None
      | Some r \<Rightarrow> if r = ''DEAD_OBJECT'' then None else Some r)"

text \<open>The fields: action, tab, path of the APK, package, activity, application.\<close>

definition device_action :: "client_host \<Rightarrow> string \<Rightarrow> string \<Rightarrow> string \<Rightarrow> string \<Rightarrow> string \<Rightarrow> string \<Rightarrow> string \<Rightarrow> string option" where
  "device_action n path action tab apk package activity application =
     (case client_request n path DeviceAction (action @ nl # tab @ nl # apk @ nl # package @ nl # activity @ nl # application) of
        None \<Rightarrow> None | Some generation \<Rightarrow> if generation = ''0'' then None else Some generation)"

definition device_input ::
  "client_host \<Rightarrow> string \<Rightarrow> string \<Rightarrow> int \<Rightarrow> int \<Rightarrow> int \<Rightarrow> int \<Rightarrow> int \<Rightarrow> u32 \<Rightarrow> u32 \<Rightarrow> string option" where
  "device_input n path tab type action source device_id key_code x y =
     (case client_request n path DeviceInput (tab @ nl # show_int type @ nl # show_int action @ nl # show_int source @ nl # show_int device_id @
        nl # show_int key_code @ nl # stream_float n x @ nl # stream_float n y) of
        None \<Rightarrow> None | Some generation \<Rightarrow> if generation = ''0'' then None else Some generation)"

definition query_device_state :: "client_host \<Rightarrow> string \<Rightarrow> string option" where
  "query_device_state n path = client_request n path QueryDeviceState []"

definition query_tab_finished :: "client_host \<Rightarrow> string \<Rightarrow> string option" where
  "query_tab_finished n path = client_request n path QueryTabFinished []"

section \<open>The daemon behind a socket\<close>

text \<open>A new connection to the daemon in state \<open>s\<close>: it is accepted, the packet is served, and what is sent to it comes back.\<close>

definition serve_packet :: "int \<Rightarrow> env \<Rightarrow> server \<Rightarrow> u8 list \<Rightarrow> server \<times> io list" where
  "serve_packet fd e s bytes = serve_client (Readable bytes e) (length (clients s)) (accept_client (fd, 0, 0) s)"

fun bytes_to :: "u8 list \<Rightarrow> int \<Rightarrow> io list \<Rightarrow> u8 list" where
  "bytes_to pad fd [] = []"
| "bytes_to pad fd (Sent m # out) = (if m_to m = fd then message_bytes pad m else []) @ bytes_to pad fd out"
| "bytes_to pad fd (_ # out) = bytes_to pad fd out"

definition daemon_behind :: "client_host \<Rightarrow> u8 list \<Rightarrow> string \<Rightarrow> int \<Rightarrow> env \<Rightarrow> server \<Rightarrow> client_host" where
  "daemon_behind n pad path fd e s =
     n\<lparr>connection := (\<lambda>p. if p = path then Some (\<lambda>bytes. Some (bytes_to pad fd (snd (serve_packet fd e s bytes)))) else None)\<rparr>"

text \<open>A request to a daemon that answers it first.\<close>

lemma request_answered:
  assumes path: "path \<noteq> []" "length path < sun_path_size n" and len: "length payload \<le> kMaxPayloadSize" "length answer \<le> kMaxPayloadSize"
    and hm: "handle_message e (length (clients s)) (make_header (opcode_number oc) (length payload) 1) payload (accept_client (fd, 0, 0) s) =
      (s', reply (clients (accept_client (fd, 0, 0) s) ! length (clients s)) (make_header (opcode_number oc) (length payload) 1) oc answer # out)"
  shows "client_request (daemon_behind n pad path fd e s) path oc payload = Some answer"
    "fst (serve_packet fd e s (header_bytes (ch_padding n) (make_header (opcode_number oc) (length payload) 1) @ bytes_of payload)) = s'"
proof -
  let ?h = "make_header (opcode_number oc) (length payload) 1"
  let ?pkt = "header_bytes (ch_padding n) ?h @ bytes_of payload"
  have c: "clients (accept_client (fd, 0, 0) s) ! length (clients s) = \<lparr>c_fd = fd, c_pid = 0, c_uid = 0, package_subscriber = False,
     device_action_subscriber = False, device_input_subscriber = False, owned_services = [], app_package = [], app_activity = []\<rparr>"
    by (simp add: accept_client_def)
  have rid: "h_request_id ?h = 1" by (simp add: make_header_def)
  have r: "receive_message ?pkt = Some (?h, payload)" using receive_sent [OF len(1), of "ch_padding n" "opcode_number oc" 1 "[]"] by simp
  let ?m = "\<lparr>m_to = fd, m_opcode = oc, m_request_id = 1, m_payload = answer, m_reply = True\<rparr>"
  have sp: "serve_packet fd e s ?pkt = (s', Received fd ?h payload # Sent ?m # out)"
    using hm c rid by (simp add: serve_packet_def serve_client_def r reply_def)
  then show "fst (serve_packet fd e s ?pkt) = s'" by simp
  have b: "bytes_to pad fd (snd (serve_packet fd e s ?pkt)) = message_bytes pad ?m @ bytes_to pad fd out" by (simp add: sp)
  let ?a = "make_header (opcode_number oc OR kReplyFlag) (length answer) 1"
  have mb: "message_bytes pad ?m @ rest = header_bytes pad ?a @ bytes_of answer @ rest" for rest by (simp add: message_bytes_def)
  have sz: "unat (h_payload_size ?a) = length answer"
    using len(2) by (simp add: make_header_def kMaxPayloadSize_def unsigned_of_nat take_bit_nat_eq_self)
  have ok: "header_ok ?a" using len(2) sz by (simp add: header_ok_def) (simp add: make_header_def)
  have l: "length (bytes_of answer) = length answer" by (simp add: bytes_of_def)
  show "client_request (daemon_behind n pad path fd e s) path oc payload = Some answer"
    using path len(1) ok
    by (simp add: client_request_def daemon_behind_def b mb header_of_bytes Let_def sz l chars_of_bytes_of) (simp add: make_header_def)
qed

text \<open>Client and daemon together: a client that asks for a service over a new connection is told what the daemon has,
  a service with an owner, one that is declared without owner, or none; and the daemon answers a ping.\<close>

theorem check_service_correct:
  assumes "path \<noteq> []" and "length path < sun_path_size n" and "length name \<le> kMaxPayloadSize"
  shows "check_service (daemon_behind n pad path fd e s) path name =
      (case map_of (sv_services s) name of None \<Rightarrow> Missing | Some owner \<Rightarrow> if 0 \<le> owner then Owned else Declared) \<and>
    available (daemon_behind n pad path fd e s) path"
proof
  let ?s = "accept_client (fd, 0, 0) s"
  let ?a = "case map_of (sv_services s) name of None \<Rightarrow> ''0'' | Some owner \<Rightarrow> if 0 \<le> owner then ''2'' else ''1''"
  have "sv_services ?s = sv_services s" by (simp add: accept_client_def)
  then have hm: "handle_message e (length (clients s)) (make_header (opcode_number CheckService) (length name) 1) name ?s =
    (?s, reply (clients ?s ! length (clients s)) (make_header (opcode_number CheckService) (length name) 1) CheckService ?a # [])"
    by (simp add: handle_message_def make_header_def opcode_number_inj Let_def)
  have "length ?a \<le> kMaxPayloadSize" by (simp add: kMaxPayloadSize_def split: option.split)
  from request_answered(1) [OF assms this hm]
  show "check_service (daemon_behind n pad path fd e s) path name =
      (case map_of (sv_services s) name of None \<Rightarrow> Missing | Some owner \<Rightarrow> if 0 \<le> owner then Owned else Declared)"
    by (simp add: check_service_def split: option.split)
  have "handle_message e (length (clients s)) (make_header (opcode_number Ping) (length []) 1) [] ?s =
    (?s, reply (clients ?s ! length (clients s)) (make_header (opcode_number Ping) (length []) 1) Ping ''pong'' # [])"
    by (simp add: handle_message_def make_header_def opcode_number_inj Let_def)
  from request_answered(1) [OF assms(1,2) _ _ this] show "available (daemon_behind n pad path fd e s) path"
    by (simp add: available_def kMaxPayloadSize_def)
qed

theorem check_service_correct_witness:
  "check_service (daemon_behind \<lparr>connection = (\<lambda>_. None), sun_path_size = 104, ch_padding = [], stream_float = (\<lambda>_. [])\<rparr> [] ''/tmp/m'' 4 demo_daemon_env (start_daemon [] 0 1))
     ''/tmp/m'' ''activity'' = Declared"
  using check_service_correct [of "''/tmp/m''" "\<lparr>connection = (\<lambda>_. None), sun_path_size = 104, ch_padding = [], stream_float = (\<lambda>_. [])\<rparr>" "''activity''"
      "[]" 4 demo_daemon_env "start_daemon [] 0 1"]
  by (simp add: kMaxPayloadSize_def start_daemon_def Let_def builtin_services_def)

section \<open>Device actions\<close>

lemma split_on_app: "d \<notin> set a \<Longrightarrow> split_on d (a @ d # b) = a # split_on d b"
  by (induction a) auto

lemma split_on_none: "d \<notin> set a \<Longrightarrow> split_on d a = [a]"
  by (induction a) auto

lemma show_nat_ne: "show_nat n \<noteq> []"
  by (subst show_nat.simps) simp

lemma show_nat_zero: "show_nat n = ''0'' \<longleftrightarrow> n = 0"
proof (cases "n < 10")
  case True
  have "char_of (48 :: nat) = CHR ''0''" by code_simp
  moreover have "n = 0" if "char_of (48 + n) = CHR ''0''"
    using True arg_cong [OF that, of "of_char :: char \<Rightarrow> nat"] by simp
  ultimately show ?thesis using True by (auto simp: show_nat.simps [of n])
next
  case False
  have "show_nat (n div 10) @ [x] \<noteq> [y]" for x y using show_nat_ne by simp
  then show ?thesis using False by (simp add: show_nat.simps [of n])
qed

lemma show_nat_length: "n < 10 ^ Suc k \<Longrightarrow> length (show_nat n) \<le> Suc k"
proof (induction k arbitrary: n)
  case 0
  then show ?case by (simp add: show_nat.simps [of n])
next
  case (Suc k)
  then have "n div 10 < 10 ^ Suc k" by (simp add: less_mult_imp_div_less mult.commute)
  then have "length (show_nat (n div 10)) \<le> Suc k" by (rule Suc.IH)
  then show ?case by (simp add: show_nat.simps [of n])
qed

lemma show_u64_length: "length (show_u64 w) \<le> 20"
proof -
  have "unat w < 2 ^ 64" using unsigned_less [of w] by simp
  then have "unat w < 10 ^ Suc 19" by simp
  then show ?thesis using show_nat_length [of "unat w" 19] by (simp add: show_u64_def)
qed

text \<open>C40: Client and daemon together: a valid device action arrives with all its fields, the client gets the new
  generation, and all subscribers are told.\<close>

theorem device_action_delivered:
  assumes path: "path \<noteq> []" "length path < sun_path_size n" and valid: "valid_device_action action"
    and lines: "nl \<notin> set (action @ tab @ apk @ package @ activity @ application)"
    and len: "length (action @ tab @ apk @ package @ activity @ application) + 5 \<le> kMaxPayloadSize" and gen: "d_generation (sv_device s) + 1 \<noteq> 0"
    and payload: "payload = action @ nl # tab @ nl # apk @ nl # package @ nl # activity @ nl # application"
    and served: "serve_packet fd e s (header_bytes (ch_padding n) (make_header (opcode_number DeviceAction) (length payload) 1) @ bytes_of payload) = (s', out)"
  shows "device_action (daemon_behind n pad path fd e s) path action tab apk package activity application = Some (show_u64 (d_generation (sv_device s) + 1)) \<and>
    sv_device s' = \<lparr>d_generation = d_generation (sv_device s) + 1, d_action = action, d_tab = tab, d_apk = apk, d_package = package,
      d_activity = activity, d_application = application\<rparr> \<and>
    (\<forall>c \<in> set (clients s). device_action_subscriber c \<longrightarrow> push DeviceActionChanged (device_state_reply (sv_device s')) c \<in> set out)"
proof -
  let ?s = "accept_client (fd, 0, 0) s" let ?h = "make_header (opcode_number DeviceAction) (length payload) 1"
  let ?d = "\<lparr>d_generation = d_generation (sv_device s) + 1, d_action = action, d_tab = tab, d_apk = apk, d_package = package, d_activity = activity, d_application = application\<rparr>"
  let ?g = "show_u64 (d_generation (sv_device s) + 1)"
  let ?push = "map (push DeviceActionChanged (device_state_reply ?d)) (filter device_action_subscriber (clients ?s))"
  have fs: "split_on nl payload = [action, tab, apk, package, activity, application]"
    using lines by (simp add: payload split_on_app split_on_none)
  have "sv_device ?s = sv_device s" by (simp add: accept_client_def)
  then have "apply_device_action (sv_device ?s) payload = (True, ?d)"
    using valid by (simp add: apply_device_action_def fs field_def Let_def)
  then have hm: "handle_message e (length (clients s)) ?h payload ?s =
      (?s\<lparr>sv_device := ?d\<rparr>, reply (clients ?s ! length (clients s)) ?h DeviceAction ?g # ?push)"
    by (simp add: handle_message_def Let_def opcode_number_inj make_header_def)
  have l: "length payload \<le> kMaxPayloadSize" using len by (simp add: payload)
  have g: "length ?g \<le> kMaxPayloadSize" using show_u64_length [of "d_generation (sv_device s) + 1"] by (simp add: kMaxPayloadSize_def)
  note req = request_answered [OF path l g hm]
  have "?g \<noteq> ''0''" using gen by (simp add: show_u64_def show_nat_zero unat_eq_zero)
  then have "device_action (daemon_behind n pad path fd e s) path action tab apk package activity application = Some ?g"
    using req(1) by (simp add: device_action_def payload)
  moreover have d: "sv_device s' = ?d" using req(2) served by auto
  moreover have "set ?push \<subseteq> set out"
    using served receive_sent [OF l, of "ch_padding n" "opcode_number DeviceAction" 1 "[]"] hm by (auto simp: serve_packet_def serve_client_def)
  moreover have "set (clients s) \<subseteq> set (clients ?s)" by (auto simp: accept_client_def)
  ultimately show ?thesis unfolding d by auto
qed

theorem device_action_delivered_witness:
  "device_action (daemon_behind \<lparr>connection = (\<lambda>_. None), sun_path_size = 104, ch_padding = [], stream_float = (\<lambda>_. [])\<rparr> [] ''/tmp/m'' 4 demo_daemon_env (start_daemon [] 0 1))
     ''/tmp/m'' ''home'' ''t'' [] [] [] [] = Some ''1''"
proof -
  let ?n = "\<lparr>connection = (\<lambda>_. None), sun_path_size = 104, ch_padding = [], stream_float = (\<lambda>_. [])\<rparr>"
  let ?p = "''home'' @ nl # ''t'' @ nl # [] @ nl # [] @ nl # [] @ nl # []"
  obtain s' out where r: "serve_packet 4 demo_daemon_env (start_daemon [] 0 1)
     (header_bytes (ch_padding ?n) (make_header (opcode_number DeviceAction) (length ?p) 1) @ bytes_of ?p) = (s', out)" by force
  have g: "d_generation (sv_device (start_daemon [] 0 1)) = 0" by (simp add: start_daemon_def Let_def)
  have "show_u64 1 = ''1''" by code_simp
  moreover have "valid_device_action ''home''" by (simp add: valid_device_action_def)
  ultimately show ?thesis
    using device_action_delivered [OF _ _ _ _ _ _ refl r, of "''/tmp/m''" "[]"] by (simp add: g kMaxPayloadSize_def)
qed

end
