(* ===== verification/Spec2Isabelle.thy ===== *)
theory Spec2Isabelle
  imports Lnk_Main Parcel Paint Png Draw Bitmap_Natives Sys_Props Frames Apk_Launch Apk_Events
    Mpd_Policy Mpd_Client
begin

text \<open>
  \<^bold>\<open>Verification of muplar.\<close>

  muplar runs Android programs on other systems. Two parts of it are written in C and run inside
  the guest: the dynamic linker \<^verbatim>\<open>linker64\<close> (\<^verbatim>\<open>src/linker64/src/linker.c\<close> with
  \<^verbatim>\<open>elf.h\<close> and \<^verbatim>\<open>syscall.h\<close>), which the kernel starts in place of the system's linker and
  which loads, relocates and starts the program, and the ART shim
  (\<^verbatim>\<open>src/platform/android-aarch64/art-shim/muplar_android_art_shim.c\<close>, below \<^verbatim>\<open>shim\<close>), the
  native side of the Java framework classes: parcels, system properties and graphics. The
  host reads the program from an archive, the APK, in C++
  (\<^verbatim>\<open>src/platform/android-aarch64/apk/apk_envelope.cpp\<close>), and the daemon \<^verbatim>\<open>muplard\<close>
  (\<^verbatim>\<open>src/platform/android-aarch64/services\<close>, C++) takes the place of Android's service manager: it
  registers services, passes transactions between processes and keeps settings, permissions, surfaces and the
  state of the device. The development models these four.

  \<^bold>\<open>Shared theories.\<close>
  \<^item> \<open>Muplar_Base\<close>: machine integers, the result type \<open>fault + 'a\<close> of C code that can stop
    (memory fault, buffer overrun, undefined arithmetic, the linker's \<^verbatim>\<open>FATAL\<close>), its
    sequencing \<open>rbind\<close> and loops \<open>foldM\<close>, byte codecs.
  \<^item> \<open>Shim_Base\<close>: heap buffers, colours, JNI environment.
  \<^item> \<open>Token_Table\<close>: arrays of slots named by 64-bit tokens, as the locales \<open>token_table\<close> and
    \<open>releasing_table\<close>, which \<open>Gfx_Tables\<close> and \<open>Paint\<close> interpret on the shim's tables.
  \<^item> \<open>Float32\<close>: the C type \<^verbatim>\<open>float\<close> as IEEE binary32, executable, each operation rounded on
    its own (a compiler that contracts \<open>a * b + c\<close> to one rounding would differ).

  \<^bold>\<open>The linker.\<close>
  \<^item> \<open>Guest_Memory\<close>: the address space with page protection (\<^verbatim>\<open>mmap\<close>, \<^verbatim>\<open>mprotect\<close>,
    loads and stores that can fault); locale \<open>word_store\<close>.
  \<^item> \<open>Lnk_Strings\<close>, \<open>Elf_Types\<close>: the string utilities; the structures of \<^verbatim>\<open>elf.h\<close>.
  \<^item> \<open>Lnk_Load\<close>: \<^verbatim>\<open>read_at\<close>, \<^verbatim>\<open>parse_dynamic\<close>, \<^verbatim>\<open>load_so\<close>. A loaded segment holds the
    bytes of the file followed by zeroes; no page becomes writable and executable unless a
    segment asks for it.
  \<^item> \<open>Lnk_Symbols\<close>: \<^verbatim>\<open>gnu_hash\<close>, \<^verbatim>\<open>lookup_gnu_hash\<close>, \<^verbatim>\<open>lookup_symbol\<close>,
    \<^verbatim>\<open>lnk_dlsym\<close>, \<^verbatim>\<open>lnk_dl_iterate_phdr\<close>: the lookup finds what the hash table indexes, in
    the first object that defines it.
  \<^item> \<open>Lnk_Reloc\<close>: RELA, RELR and Android's packed relocations; decoding inverts encoding, each
    slot is relocated once, nothing but writable memory changes.
  \<^item> \<open>Lnk_Registry\<close>: \<^verbatim>\<open>load_needed_so\<close> and \<^verbatim>\<open>lnk_dlopen\<close>. Every level of the recursion
    registers one of at most 1024 objects, so fuel 1025 is enough, which is proved.
  \<^item> \<open>Lnk_Main\<close>: \<^verbatim>\<open>linker_main\<close> from the process stack to the jump into the program, with
    static TLS.

  \<^bold>\<open>The shim.\<close>
  \<^item> \<open>Parcel\<close>: \<^verbatim>\<open>struct muplar_parcel\<close> and the methods of \<^verbatim>\<open>android.os.Parcel\<close>: invariant,
    round trip of written values.
  \<^item> \<open>Gfx_Tables\<close>: the tables of bitmaps, canvases, paints, filters, shaders.
  \<^item> \<open>Paint\<close>: paints refine a finite map from tokens to paints; filters and shaders.
  \<^item> \<open>Pixels\<close>: \<^verbatim>\<open>muplar_fill_rect\<close>, \<^verbatim>\<open>muplar_fill_circle\<close>,
    \<^verbatim>\<open>muplar_bitmap_mostly_black\<close>: which pixels change, and that no access leaves the array.
  \<^item> \<open>Png\<close>: \<^verbatim>\<open>muplar_bitmap_to_png\<close> against a decoder that checks both checksums.
  \<^item> \<open>Canvas\<close>: transform, clip and save stack.
  \<^item> \<open>Blit\<close>: \<^verbatim>\<open>muplar_blit_bitmap\<close>.
  \<^item> \<open>Font\<close>: the built-in font of \<^verbatim>\<open>muplar_font.h\<close>, its advances and the 16 by 16 coverage bytes
    of each glyph.
  \<^item> \<open>Draw_Base\<close>, \<open>Text\<close>, \<open>Draw\<close>: the drawing methods of \<^verbatim>\<open>BaseCanvas\<close>: colour, paint, points,
    lines, rectangles, circles, bitmaps, text; measuring of text. All but \<^verbatim>\<open>nDrawCircle\<close> change only pixels of the
    canvas's bitmap inside its clip, and keep all tables well formed (\<open>exec_draw\<close> runs a list of
    drawing commands). Advances of texts are exact below \<open>2 ^ 24\<close>.
  \<^item> \<open>Bitmap_Natives\<close>: the methods of \<^verbatim>\<open>Bitmap\<close>: creation, pixels, erasing, copying to and from
    \<^verbatim>\<open>java.nio\<close> buffers with its round trips.
  \<^item> \<open>Frames\<close>: \<^verbatim>\<open>muplar_write_bitmap_frame\<close> and its callers: frames over the socket and in a file.
    The kernel's results are a parameter; a trace of the system calls gives the files and streams at
    every moment. The file is replaced atomically, streams hold complete frames.
  \<^item> \<open>Sys_Props\<close>: \<^verbatim>\<open>muplar_property\<close> and \<^verbatim>\<open>SystemProperties\<close>: reading by handle is reading by key.

  \<^bold>\<open>The APK reader.\<close> C++ exceptions are values \<open>exn\<close>, with \<open>UB\<close> for an access outside of a vector or string.
  \<^item> \<open>Apk_Zip\<close>: \<^verbatim>\<open>read_zip_entries\<close>, \<^verbatim>\<open>extract_entry_data\<close> and the functions on names. Reading
    inverts a writer of archives.
  \<^item> \<open>Apk_Axml\<close>: compiled manifests and resource tables. All readers walk over chunks with the partial function
    \<open>walk_chunks\<close>, whose value \<open>None\<close> is a loop that does not end; it ends when chunks have sizes.
  \<^item> \<open>Apk_Events\<close>: an encoder of manifests; on its output the readers compute functions of the sequence of
    elements, down to the activity that is started.
  \<^item> \<open>Apk_Launch\<close>: text manifests, classification, \<^verbatim>\<open>prepare_apk_launch\<close>: files are written only below the
    directory of the launch.

  \<^bold>\<open>The service daemon.\<close> Transaction ids are 64-bit words; the theorems speak of fewer than \<open>2 ^ 64\<close>
  transactions, which the daemon counts.
  \<^item> \<open>Mpd_Proto\<close>: \<^verbatim>\<open>muplard_protocol.h\<close>, the opcodes and the header of a message; the daemon's parsing of
    payloads: device actions, input, finished tabs, surface transactions; the escaped file of settings and
    its round trip.
  \<^item> \<open>Mpd_Server\<close>: the main loop of \<^verbatim>\<open>muplard.cpp\<close>: accepting, the answer to every opcode, removal of clients.
    A round gets what the system has for it and gives a trace of events.
  \<^item> \<open>Mpd_Safety\<close>: the invariant of the daemon over all rounds, and that a forwarded transaction is answered
    by its owner or as dead when the owner is removed.
  \<^item> \<open>Mpd_Policy\<close>: a permission that was set is what checks answer; a declared service is lost with its owner.
  \<^item> \<open>Mpd_Client\<close>: \<^verbatim>\<open>muplard_client.cpp\<close> composed with the daemon: what a call of the client does to its state.

  \<^bold>\<open>Outside.\<close> The kernel is the record \<open>os\<close> of functions every loading definition takes, IFUNC
  resolvers and the addresses of the linker's own symbols are fields of \<open>lnk_env\<close>, success of
  allocations is a parameter. For the APK reader \<^verbatim>\<open>inflate\<close> of zlib and the file system (record \<open>host\<close>) are
  parameters. For the daemon they are the results of its system calls, the conversion of text to \<^verbatim>\<open>float\<close> and
  the connection between client and daemon.

  \<^bold>\<open>Not modelled.\<close> \<^verbatim>\<open>entry.S\<close> (assembly); the methods of the shim that return constants or call
  back into Java; the daemon's creation of its socket, its command-line client and its self tests; the other parts in C++, Objective-C++ and Java (runtime, JNI bridge, prefixes, command
  line, application), which work on files, sockets, threads and libraries of the host.
\<close>

end
